(* ===== verification/Errors.thy ===== *)
theory Errors
  imports Prelude
begin

text \<open>
  \<open>pkg/shared/errors\<close>: the error codes and \<open>CodeFromError\<close>, over Go error values.

  A Go error is a tree: a sentinel (a Chamber \<open>Code\<close>, a system error, a context error, a
  plain message) or an error that wraps others (\<open>fmt.Errorf\<close> with \<open>%w\<close>,
  \<open>errors.Join\<close>). \<open>errors.Is\<close> searches the whole tree. The string that
  \<open>Errorf\<close> carries is the rendered message; where no code looks at a message it is its
  fixed part only.
\<close>

datatype code =
    ErrInvalidRequest | ErrInvalidContainerID | ErrInvalidBundleID | ErrInvalidImageReference
  | ErrInvalidImageLayout | ErrInvalidBundleMount | ErrInvalidProcessSpec | ErrCanceled
  | ErrUnsupportedHost | ErrFilesystemFailed | ErrImageNotFound | ErrPullFailed | ErrBuildFailed
  | ErrBuildInstallFailed | ErrMetadataFailed | ErrContainerNotFound | ErrLogNotFound
  | ErrBundlePrepareFailed | ErrRuntimeInstallFailed | ErrRuntimeStartFailed
  | ErrRuntimeControlFailed | ErrRuntimeWaitFailed | ErrContainerExitNonzero | ErrStateConflict

fun code_string :: "code \<Rightarrow> string" where
  "code_string ErrInvalidRequest = ''invalid_request''"
| "code_string ErrInvalidContainerID = ''invalid_container_id''"
| "code_string ErrInvalidBundleID = ''invalid_bundle_id''"
| "code_string ErrInvalidImageReference = ''invalid_image_reference''"
| "code_string ErrInvalidImageLayout = ''invalid_image_layout''"
| "code_string ErrInvalidBundleMount = ''invalid_bundle_mount''"
| "code_string ErrInvalidProcessSpec = ''invalid_process_spec''"
| "code_string ErrCanceled = ''canceled''"
| "code_string ErrUnsupportedHost = ''unsupported_host''"
| "code_string ErrFilesystemFailed = ''filesystem_failed''"
| "code_string ErrImageNotFound = ''image_not_found''"
| "code_string ErrPullFailed = ''pull_failed''"
| "code_string ErrBuildFailed = ''build_failed''"
| "code_string ErrBuildInstallFailed = ''build_install_failed''"
| "code_string ErrMetadataFailed = ''metadata_failed''"
| "code_string ErrContainerNotFound = ''container_not_found''"
| "code_string ErrLogNotFound = ''log_not_found''"
| "code_string ErrBundlePrepareFailed = ''bundle_prepare_failed''"
| "code_string ErrRuntimeInstallFailed = ''runtime_install_failed''"
| "code_string ErrRuntimeStartFailed = ''runtime_start_failed''"
| "code_string ErrRuntimeControlFailed = ''runtime_control_failed''"
| "code_string ErrRuntimeWaitFailed = ''runtime_wait_failed''"
| "code_string ErrContainerExitNonzero = ''container_exit_nonzero''"
| "code_string ErrStateConflict = ''state_conflict''"

text \<open>The system errors the code distinguishes; \<open>EIO\<close> stands for all others.\<close>

datatype errno =
  ENOENT | EEXIST | EACCES | EPERM | ENOTDIR | EISDIR | ENOTEMPTY | EINVAL | ENOTSUP | EBUSY | EIO

datatype ctx_err = Canceled | DeadlineExceeded

datatype goerr =
    CodeErr code
  | SysErr errno string
  | CtxErr ctx_err
  | Opaque string
  | Errorf "goerr list" string
  | JoinErr "goerr list"

fun errno_string :: "errno \<Rightarrow> string" where
  "errno_string ENOENT = ''no such file or directory''"
| "errno_string EEXIST = ''file exists''"
| "errno_string EACCES = ''permission denied''"
| "errno_string EPERM = ''operation not permitted''"
| "errno_string ENOTDIR = ''not a directory''"
| "errno_string EISDIR = ''is a directory''"
| "errno_string ENOTEMPTY = ''directory not empty''"
| "errno_string EINVAL = ''invalid argument''"
| "errno_string ENOTSUP = ''operation not supported''"
| "errno_string EBUSY = ''device or resource busy''"
| "errno_string EIO = ''input/output error''"

fun ErrorText :: "goerr \<Rightarrow> string" where
  "ErrorText (CodeErr c) = code_string c"
| "ErrorText (SysErr n p) = p @ '': '' @ errno_string n"
| "ErrorText (CtxErr Canceled) = ''context canceled''"
| "ErrorText (CtxErr DeadlineExceeded) = ''context deadline exceeded''"
| "ErrorText (Opaque s) = s"
| "ErrorText (Errorf ws s) = s"
| "ErrorText (JoinErr es) = JoinStrings (map ErrorText es) [CHR 0x0A]"

subsection \<open>errors.Is and errors.Join\<close>

fun err_any :: "(goerr \<Rightarrow> bool) \<Rightarrow> goerr \<Rightarrow> bool" where
  "err_any p (Errorf ws s) \<longleftrightarrow> p (Errorf ws s) \<or> list_ex (err_any p) ws"
| "err_any p (JoinErr es) \<longleftrightarrow> p (JoinErr es) \<or> list_ex (err_any p) es"
| "err_any p e \<longleftrightarrow> p e"

definition errIs :: "goerr \<Rightarrow> code \<Rightarrow> bool" where
  "errIs e c \<longleftrightarrow> err_any (\<lambda>x. x = CodeErr c) e"

definition errIsNotExist :: "goerr \<Rightarrow> bool" where
  "errIsNotExist e \<longleftrightarrow> err_any (\<lambda>x. case x of SysErr n _ \<Rightarrow> n = ENOENT | _ \<Rightarrow> False) e"

text \<open>
  \<open>errors.Join\<close> on possibly nil errors: nil when all are nil. \<open>codef\<close> is
  \<open>fmt.Errorf("%w: message: %w", code, causes...)\<close>.
\<close>

fun somes :: "'a option list \<Rightarrow> 'a list" where
  "somes [] = []"
| "somes (None # xs) = somes xs"
| "somes (Some x # xs) = x # somes xs"

definition joinErrs :: "goerr option list \<Rightarrow> goerr option" where
  "joinErrs es = (case somes es of [] \<Rightarrow> None | es' \<Rightarrow> Some (JoinErr es'))"

definition codef :: "code \<Rightarrow> string \<Rightarrow> goerr list \<Rightarrow> goerr" where
  "codef c msg causes = Errorf (CodeErr c # causes) (code_string c @ '': '' @ msg @ concat (map (\<lambda>e. '': '' @ ErrorText e) causes))"

text \<open>\<open>fmt.Errorf("message: %w", e)\<close>\<close>

definition wrapf :: "string \<Rightarrow> goerr \<Rightarrow> goerr" where
  "wrapf msg e = Errorf [e] (msg @ '': '' @ ErrorText e)"

lemma errIs_simps [simp]:
  "errIs (CodeErr c) d \<longleftrightarrow> c = d"
  "\<not> errIs (SysErr n p) d"
  "\<not> errIs (CtxErr x) d"
  "\<not> errIs (Opaque s) d"
  "errIs (Errorf ws s) d \<longleftrightarrow> (\<exists>w \<in> set ws. errIs w d)"
  "errIs (JoinErr es) d \<longleftrightarrow> (\<exists>w \<in> set es. errIs w d)"
  by (auto simp: errIs_def list_ex_iff)

lemma errIs_codef [simp]: "errIs (codef c m es) d \<longleftrightarrow> c = d \<or> (\<exists>w \<in> set es. errIs w d)"
  by (simp add: codef_def)

lemma set_somes: "set (somes es) = {x. Some x \<in> set es}"
  by (induction es rule: somes.induct) auto

lemma somes_Nil_iff: "somes es = [] \<longleftrightarrow> (\<forall>e \<in> set es. e = None)"
  by (induction es rule: somes.induct) auto

lemma joinErrs_None_iff: "joinErrs es = None \<longleftrightarrow> (\<forall>e \<in> set es. e = None)"
  by (simp add: joinErrs_def somes_Nil_iff [symmetric] split: list.splits)

lemma errIs_joinErrs: "joinErrs es = Some e \<Longrightarrow> errIs e c \<longleftrightarrow> (\<exists>x. Some x \<in> set es \<and> errIs x c)"
  using set_somes [of es] by (auto simp: joinErrs_def split: list.splits)

subsection \<open>CodeFromError\<close>

text \<open>The codes \<open>CodeFromError\<close> looks for, in the order of the source.\<close>

definition known_codes :: "code list" where
  "known_codes =
     [ErrInvalidContainerID, ErrInvalidBundleID, ErrInvalidImageReference, ErrInvalidImageLayout,
      ErrInvalidBundleMount, ErrInvalidProcessSpec, ErrInvalidRequest, ErrCanceled,
      ErrUnsupportedHost, ErrFilesystemFailed, ErrImageNotFound, ErrContainerNotFound,
      ErrLogNotFound, ErrStateConflict, ErrPullFailed, ErrMetadataFailed, ErrBundlePrepareFailed,
      ErrRuntimeInstallFailed, ErrRuntimeStartFailed, ErrRuntimeControlFailed,
      ErrRuntimeWaitFailed, ErrContainerExitNonzero]"

fun first_code :: "goerr \<Rightarrow> code list \<Rightarrow> code \<Rightarrow> code" where
  "first_code err [] fallback = fallback"
| "first_code err (c # cs) fallback = (if errIs err c then c else first_code err cs fallback)"

definition CodeFromError :: "goerr \<Rightarrow> code \<Rightarrow> code" where
  "CodeFromError err fallback = first_code err known_codes fallback"

lemma first_code_cases:
  "(first_code e cs fb \<in> set cs \<and> errIs e (first_code e cs fb)) \<or>
   (first_code e cs fb = fb \<and> (\<forall>c \<in> set cs. \<not> errIs e c))"
  by (induction cs) auto

lemma set_known_codes: "set known_codes = UNIV - {ErrBuildFailed, ErrBuildInstallFailed}"
proof -
  have "c \<in> set known_codes \<longleftrightarrow> c \<notin> {ErrBuildFailed, ErrBuildInstallFailed}" for c
    by (cases c) (simp_all add: known_codes_def)
  then show ?thesis by auto
qed

lemma CodeFromError_cases:
  "errIs e (CodeFromError e fb) \<and> CodeFromError e fb \<in> set known_codes \<or>
   CodeFromError e fb = fb \<and> (\<forall>c \<in> set known_codes. \<not> errIs e c)"
  using first_code_cases [of e known_codes fb] by (auto simp: CodeFromError_def)

lemma CodeFromError_unique:
  assumes "c \<in> set known_codes" "errIs e c" "\<And>d. errIs e d \<Longrightarrow> d = c"
  shows "CodeFromError e fb = c"
  using CodeFromError_cases [of e fb] assms by blast

text \<open>
  C23. \<open>CodeFromError\<close> returns a code the error wraps whenever the error wraps any code but
  \<open>build_failed\<close> and \<open>build_install_failed\<close>; these two are missing from its list, so an
  error that wraps nothing else yields the fallback instead of its code.
\<close>

theorem code_from_error:
  "((\<exists>c. errIs e c \<and> c \<notin> {ErrBuildFailed, ErrBuildInstallFailed}) \<longrightarrow>
     errIs e (CodeFromError e fb) \<and> CodeFromError e fb \<notin> {ErrBuildFailed, ErrBuildInstallFailed}) \<and>
   ((\<forall>c. errIs e c \<longrightarrow> c \<in> {ErrBuildFailed, ErrBuildInstallFailed}) \<longrightarrow> CodeFromError e fb = fb)"
  using CodeFromError_cases [of e fb] set_known_codes by blast

theorem code_from_error_witness:
  "CodeFromError (codef ErrBuildFailed ''x'' [Opaque ''y'']) ErrPullFailed = ErrPullFailed \<and>
   CodeFromError (codef ErrBuildFailed ''x'' [CodeErr ErrCanceled]) ErrPullFailed = ErrCanceled"
  using code_from_error [of "codef ErrBuildFailed ''x'' [Opaque ''y'']" ErrPullFailed] by (simp add: CodeFromError_def known_codes_def)

end
