(* ===== verification/Identifiers.thy ===== *)
theory Identifiers
  imports Errors
begin

text \<open>
  The identifier syntaxes the program accepts: container IDs
  (\<open>pkg/shared/containerid\<close>), bundle IDs (\<open>pkg/bundle/contract.go\<close>) and the route
  names, repository names and commit hashes of \<open>cmd/ci/config.go\<close>. Each is a regular
  expression in the source and a predicate on strings here. The lemmas show what the code
  relies on when it uses an accepted identifier as a path component.
\<close>

subsection \<open>Container and bundle identifiers\<close>

definition id_tail_char :: "char \<Rightarrow> bool" where
  "id_tail_char c \<longleftrightarrow> is_alnum c \<or> c = CHR ''_'' \<or> c = CHR ''.'' \<or> c = CHR ''-''"

text \<open>\<open>^[A-Za-z0-9][A-Za-z0-9_.-]{0,127}$\<close>\<close>

definition validID :: "string \<Rightarrow> bool" where
  "validID s =
     (case s of [] \<Rightarrow> False | c # cs \<Rightarrow> is_alnum c \<and> list_all id_tail_char cs \<and> length cs \<le> 127)"

definition containerid_Validate :: "string \<Rightarrow> goerr option" where
  "containerid_Validate s =
     (if \<not> validID s \<or> s = ''.'' \<or> s = ''..'' then Some (codef ErrInvalidContainerID ''invalid container ID'' [])
      else None)"

definition containerid_IsValid :: "string \<Rightarrow> bool" where
  "containerid_IsValid s \<longleftrightarrow> containerid_Validate s = None"

definition validBundleID :: "string \<Rightarrow> bool" where
  "validBundleID s =
     (case s of [] \<Rightarrow> False | c # cs \<Rightarrow> is_alnum c \<and> list_all id_tail_char cs \<and> length cs \<le> 127)"

definition ValidateBundleID :: "string \<Rightarrow> goerr option" where
  "ValidateBundleID s =
     (if \<not> validBundleID s \<or> s = ''.'' \<or> s = ''..'' then Some (codef ErrInvalidBundleID ''invalid bundle ID'' [])
      else None)"

text \<open>What a path component must be to name an entry directly below its parent.\<close>

definition safe_component :: "string \<Rightarrow> bool" where
  "safe_component s \<longleftrightarrow> s \<noteq> [] \<and> CHR ''/'' \<notin> set s \<and> s \<noteq> ''.'' \<and> s \<noteq> ''..''"

lemma id_tail_char_not_slash [simp]: "\<not> id_tail_char CHR ''/''"
  by (simp add: id_tail_char_def is_alnum_def is_lower_def is_upper_def is_digit_def ord_def)

lemma is_alnum_simps [simp]: "\<not> is_alnum CHR ''/''" "\<not> is_alnum CHR ''.''"
  by (simp_all add: is_alnum_def is_lower_def is_upper_def is_digit_def ord_def)

lemma alnum_id_tail: "is_alnum c \<Longrightarrow> id_tail_char c"
  by (simp add: id_tail_char_def)

lemma validID_safe: "validID s \<Longrightarrow> safe_component s \<and> length s \<le> 128 \<and> list_all id_tail_char s"
  by (cases s) (auto simp: validID_def safe_component_def list_all_iff alnum_id_tail)

lemma validBundleID_eq: "validBundleID = validID"
  by (simp add: fun_eq_iff validBundleID_def validID_def)

lemma containerid_Validate_None: "containerid_Validate s = None \<longleftrightarrow> validID s"
  using validID_safe [of s] by (auto simp: containerid_Validate_def safe_component_def)

lemma ValidateBundleID_None: "ValidateBundleID s = None \<longleftrightarrow> validID s"
  using validID_safe [of s] by (auto simp: ValidateBundleID_def validBundleID_eq safe_component_def)

subsection \<open>Names in the CI configuration\<close>

text \<open>\<open>^[a-zA-Z0-9_-]+$\<close>\<close>

definition routeName :: "string \<Rightarrow> bool" where
  "routeName s \<longleftrightarrow> s \<noteq> [] \<and> list_all (\<lambda>c. is_alnum c \<or> c = CHR ''_'' \<or> c = CHR ''-'') s"

text \<open>\<open>^[a-zA-Z0-9_.-]+/[a-zA-Z0-9_.-]+$\<close>\<close>

definition repositoryName :: "string \<Rightarrow> bool" where
  "repositoryName s =
     (case SplitChar (CHR ''/'') s of
        [owner, repo] \<Rightarrow> owner \<noteq> [] \<and> repo \<noteq> [] \<and> list_all id_tail_char owner \<and> list_all id_tail_char repo
      | _ \<Rightarrow> False)"

definition hex_lower :: "char \<Rightarrow> bool" where
  "hex_lower c \<longleftrightarrow> is_digit c \<or> (97 \<le> ord c \<and> ord c \<le> 102)"

text \<open>\<open>^[0-9a-f]{40}$\<close>\<close>

definition commitSHA :: "string \<Rightarrow> bool" where
  "commitSHA s \<longleftrightarrow> length s = 40 \<and> list_all hex_lower s"

lemma hex_lower_digit: "d < 16 \<Longrightarrow> hex_lower (hex_digit d)"
  by (auto simp: hex_lower_def hex_digit_def is_digit_def ord_char_of)

lemma hex_lower_alnum: "hex_lower c \<Longrightarrow> is_alnum c"
  by (auto simp: hex_lower_def is_alnum_def is_lower_def)

lemma HexEncode_lower: "list_all hex_lower (HexEncode s)"
proof (induction s)
  case (Cons c s)
  have "ord c div 16 < 16" using ord_less [of c] by (simp add: less_mult_imp_div_less)
  then show ?case using Cons by (simp add: HexEncode_def hex_lower_digit)
qed (simp add: HexEncode_def)

lemma HexEncode_validID:
  assumes "s \<noteq> []" "length s \<le> 64"
  shows "validID (HexEncode s)"
proof -
  have "length (HexEncode s) \<le> 128" "HexEncode s \<noteq> []"
    using assms by (simp, metis length_HexEncode length_0_conv mult_eq_0_iff zero_neq_numeral)
  then show ?thesis using HexEncode_lower [of s]
    by (cases "HexEncode s") (auto simp: validID_def list_all_iff alnum_id_tail hex_lower_alnum)
qed

end
