(* ===== verification/Go_Path.thy ===== *)
theory Go_Path
  imports Identifiers
begin

text \<open>
  Package \<open>path/filepath\<close> on Unix, as far as the program uses it: \<open>Clean\<close>, \<open>Join\<close>,
  \<open>Dir\<close>, \<open>Base\<close> and \<open>IsAbs\<close>. A path is split at its slashes; \<open>Clean\<close> drops
  empty and \<open>.\<close> components and resolves \<open>..\<close> against the components before it. The
  lemmas say what a cleaned path looks like and that joining a safe component stays below
  the directory.
\<close>

named_theorems go_path

definition isAbs :: "string \<Rightarrow> bool" where
  [go_path]: "isAbs p \<longleftrightarrow> HasPrefix p ''/''"

text \<open>The stack of components holds the last one first.\<close>

fun clean_step :: "bool \<Rightarrow> string \<Rightarrow> string list \<Rightarrow> string list" where
  "clean_step rooted c st =
     (if c = [] \<or> c = ''.'' then st
      else if c = ''..'' then
        (case st of
           [] \<Rightarrow> if rooted then [] else [''..'']
         | t # ts \<Rightarrow> if t = ''..'' then ''..'' # st else ts)
      else c # st)"

definition clean_comps :: "bool \<Rightarrow> string list \<Rightarrow> string list" where
  "clean_comps rooted cs = rev (fold (clean_step rooted) cs [])"

definition render :: "bool \<Rightarrow> string list \<Rightarrow> string" where
  "render rooted cs =
     (if rooted then ''/'' @ JoinStrings cs ''/''
      else if cs = [] then ''.'' else JoinStrings cs ''/'')"

definition comps :: "string \<Rightarrow> string list" where
  "comps p = clean_comps (isAbs p) (SplitChar (CHR ''/'') p)"

definition Clean :: "string \<Rightarrow> string" where
  "Clean p = render (isAbs p) (comps p)"

definition Join :: "string list \<Rightarrow> string" where
  "Join elems =
     (case dropWhile (\<lambda>e. e = []) elems of
        [] \<Rightarrow> []
      | es \<Rightarrow> Clean (JoinStrings es ''/''))"

text \<open>\<open>Dir\<close> cleans the path up to and including its last slash; \<open>Base\<close> is its last field.\<close>

definition Dir :: "string \<Rightarrow> string" where
  "Dir p = Clean (rev (dropWhile (\<lambda>c. c \<noteq> CHR ''/'') (rev p)))"

definition Base :: "string \<Rightarrow> string" where
  "Base p =
     (if p = [] then ''.''
      else case dropWhile (\<lambda>c. c = CHR ''/'') (rev p) of
          [] \<Rightarrow> ''/''
        | r \<Rightarrow> rev (takeWhile (\<lambda>c. c \<noteq> CHR ''/'') r))"

text \<open>A path in the form the program stores it: rooted, cleaned, below the root.\<close>

definition abs_path :: "string list \<Rightarrow> string" where
  "abs_path cs = render True cs"

subsection \<open>Cleaned paths\<close>

declare clean_step.simps [simp del]

definition plain_comps :: "string list \<Rightarrow> bool" where
  "plain_comps cs \<longleftrightarrow> list_all safe_component cs"

lemma clean_step_rooted:
  assumes "CHR ''/'' \<notin> set c" "list_all safe_component st"
  shows "list_all safe_component (clean_step True c st)"
  using assms by (auto simp: clean_step.simps safe_component_def split: list.splits)

lemma clean_step_safe: "safe_component c \<Longrightarrow> clean_step rooted c st = c # st"
  by (auto simp: clean_step.simps safe_component_def)

lemma fold_clean_rooted:
  "\<forall>c \<in> set cs. CHR ''/'' \<notin> set c \<Longrightarrow> list_all safe_component st \<Longrightarrow>
     list_all safe_component (fold (clean_step True) cs st)"
  by (induction cs arbitrary: st) (auto simp: clean_step_rooted)

lemma fold_clean_safe: "list_all safe_component cs \<Longrightarrow> fold (clean_step rooted) cs st = rev cs @ st"
  by (induction cs arbitrary: st) (auto simp: clean_step_safe)

lemma comps_rooted: "isAbs p \<Longrightarrow> list_all safe_component (comps p)"
  using fold_clean_rooted [of "SplitChar (CHR ''/'') p" "[]"] SplitChar_fields [of _ "CHR ''/''" p]
  by (auto simp: comps_def clean_comps_def list_all_iff)

lemma isAbs_Cons [simp]: "isAbs (CHR ''/'' # p)"
  by (simp add: isAbs_def HasPrefix_def)

lemma isAbs_iff: "isAbs p \<longleftrightarrow> (\<exists>q. p = CHR ''/'' # q)"
  by (simp add: isAbs_def HasPrefix_iff)

lemma SplitChar_JoinStrings:
  "cs \<noteq> [] \<Longrightarrow> \<forall>c \<in> set cs. sep \<notin> set c \<Longrightarrow> SplitChar sep (JoinStrings cs [sep]) = cs"
proof (induction cs)
  case (Cons c cs)
  then show ?case by (cases cs) (simp_all add: SplitChar_no_sep SplitChar_append)
qed simp

lemma safe_no_slash: "safe_component c \<Longrightarrow> CHR ''/'' \<notin> set c"
  by (simp add: safe_component_def)

lemma comps_abs_path: "list_all safe_component cs \<Longrightarrow> comps (abs_path cs) = cs"
proof (cases cs)
  case Nil
  then show ?thesis by (simp add: comps_def abs_path_def render_def clean_comps_def clean_step.simps)
next
  case (Cons c ds)
  assume s: "list_all safe_component cs"
  then have "SplitChar (CHR ''/'') (JoinStrings cs ''/'') = cs"
    using Cons by (intro SplitChar_JoinStrings) (auto simp: list_all_iff safe_no_slash)
  then show ?thesis using s
    by (simp add: comps_def abs_path_def render_def clean_comps_def clean_step.simps [of _ "[]"] fold_clean_safe)
qed

lemma isAbs_abs_path [simp]: "isAbs (abs_path cs)"
  by (simp add: abs_path_def render_def)

lemma Clean_abs_path [simp]: "list_all safe_component cs \<Longrightarrow> Clean (abs_path cs) = abs_path cs"
  by (simp add: Clean_def comps_abs_path) (simp add: abs_path_def)

lemma Clean_isAbs: "isAbs p \<Longrightarrow> Clean p = abs_path (comps p)"
  by (simp add: Clean_def abs_path_def)

lemma Clean_idem_abs: "isAbs p \<Longrightarrow> Clean (Clean p) = Clean p"
  by (simp add: Clean_isAbs comps_rooted comps_abs_path)

lemma abs_path_inject:
  "list_all safe_component cs \<Longrightarrow> list_all safe_component ds \<Longrightarrow> abs_path cs = abs_path ds \<longleftrightarrow> cs = ds"
  by (metis comps_abs_path)

lemma abs_path_root [simp]: "abs_path [] = ''/''"
  by (simp add: abs_path_def render_def)

lemma SplitChar_concat:
  "SplitChar sep (s @ sep # t) = SplitChar sep s @ SplitChar sep t"
proof (induction s)
  case (Cons c s)
  then show ?case by (cases "SplitChar sep s") auto
qed simp

text \<open>Joining safe components to a rooted path appends them.\<close>

lemma Join_abs:
  assumes "isAbs p" "list_all safe_component cs"
  shows "Join (p # cs) = abs_path (comps p @ cs)"
proof -
  have p: "p \<noteq> []" using assms(1) by (auto simp: isAbs_iff)
  have a: "isAbs (JoinStrings (p # cs) ''/'')" using assms(1) by (cases cs) (auto simp: isAbs_iff)
  have "SplitChar (CHR ''/'') (JoinStrings (p # cs) ''/'') = SplitChar (CHR ''/'') p @ cs"
  proof (cases cs)
    case (Cons d ds)
    then have "SplitChar (CHR ''/'') (JoinStrings cs ''/'') = cs"
      using assms(2) by (intro SplitChar_JoinStrings) (auto simp: list_all_iff safe_no_slash)
    then show ?thesis using Cons SplitChar_concat [of "CHR ''/''" p "JoinStrings cs ''/''"] by simp
  qed simp
  then have "comps (JoinStrings (p # cs) ''/'') = comps p @ cs"
    using a assms by (simp add: comps_def clean_comps_def fold_clean_safe)
  then show ?thesis using p a by (simp add: Join_def Clean_isAbs)
qed

definition below :: "string \<Rightarrow> string \<Rightarrow> bool" where
  "below dir p \<longleftrightarrow> isAbs p \<and> (\<exists>cs. cs \<noteq> [] \<and> list_all safe_component cs \<and> comps p = comps dir @ cs)"

lemma Join_below:
  assumes "isAbs p" "cs \<noteq> []" "list_all safe_component cs"
  shows "below p (Join (p # cs))"
  using assms comps_rooted [OF assms(1)] by (auto simp: below_def Join_abs comps_abs_path)

lemma Join_inject:
  assumes "isAbs p" "list_all safe_component cs" "list_all safe_component ds" "Join (p # cs) = Join (p # ds)"
  shows "cs = ds"
  using assms comps_rooted [OF assms(1)] by (simp add: Join_abs abs_path_inject)

lemma rev_JoinStrings_snoc:
  "cs \<noteq> [] \<Longrightarrow> JoinStrings (cs @ [c]) sep = JoinStrings cs sep @ sep @ c"
  by (induction cs sep rule: JoinStrings.induct) auto

lemma abs_path_snoc: "abs_path (cs @ [c]) = (if cs = [] then ''/'' @ c else abs_path cs @ ''/'' @ c)"
  by (simp add: abs_path_def render_def rev_JoinStrings_snoc)

lemma Dir_abs_path:
  assumes "list_all safe_component (cs @ [c])"
  shows "Dir (abs_path (cs @ [c])) = abs_path cs"
proof -
  have c: "CHR ''/'' \<notin> set c" "list_all safe_component cs" using assms by (auto simp: safe_no_slash)
  have d: "dropWhile (\<lambda>x. x \<noteq> CHR ''/'') (rev c @ CHR ''/'' # r) = CHR ''/'' # r" for r
    using c(1) by (subst dropWhile_append2) auto
  have sl: "comps (abs_path cs @ ''/'') = cs"
  proof -
    have "SplitChar (CHR ''/'') (abs_path cs @ ''/'') = SplitChar (CHR ''/'') (abs_path cs) @ [[]]"
      using SplitChar_concat [of "CHR ''/''" "abs_path cs" "[]"] by simp
    moreover have "isAbs (abs_path cs @ ''/'')" using isAbs_abs_path [of cs] by (auto simp: isAbs_iff)
    ultimately have "comps (abs_path cs @ ''/'') = comps (abs_path cs)"
      by (simp add: comps_def clean_comps_def clean_step.simps)
    then show ?thesis using c(2) by (simp add: comps_abs_path)
  qed
  show ?thesis
  proof (cases "cs = []")
    case True
    then show ?thesis using d [of "[]"] by (simp add: Dir_def abs_path_snoc) (use comps_abs_path [of "[]"] in \<open>simp add: Clean_def abs_path_def render_def\<close>)
  next
    case False
    have "isAbs (abs_path cs @ ''/'')" using isAbs_abs_path [of cs] by (auto simp: isAbs_iff)
    then show ?thesis using d [of "rev (abs_path cs)"] False sl by (simp add: Dir_def abs_path_snoc Clean_isAbs)
  qed
qed

lemma Clean_examples:
  "Clean ''/a/./b/../c//'' = ''/a/c''" "Clean ''/../x'' = ''/x''" "Clean ''a/../..'' = ''..''" "Clean [] = ''.''"
  "Join [''/srv'', ''logs'', ''x.log''] = ''/srv/logs/x.log''" "Base ''/a/b/'' = ''b''" "Dir ''/a/b'' = ''/a''"
  by code_simp+

end
