(* ===== verification/Job_Store.thy ===== *)
theory Job_Store
  imports Go_Path
begin

text \<open>
  The durable job store of the CI server: \<open>cmd/ci/store.go\<close> (the \<open>job\<close> type and the
  \<open>jobStore\<close> contract) and \<open>cmd/ci/sqlite.go\<close> (its implementation on one SQLite table).

  The table \<open>jobs\<close> is a list of rows. One SQL statement is one function on rows: SQLite
  runs a statement atomically, also when several connections use the file. A statement can
  be committed, fail without effect, or be committed while its caller gets an error (the
  acknowledgement is lost); \<open>db_outcome\<close> says which, and every operation takes the outcomes
  of the statements it runs, so each error return is a branch here.

  Times are nanoseconds since the epoch, as the table stores them; Go's zero time is
  \<open>zero_time\<close>. The SHA-256 digest that \<open>jobID\<close> uses is the parameter \<open>h\<close>.
\<close>

named_theorems db_defs \<open>the statements and operations of the store\<close>

subsection \<open>Jobs\<close>

record job =
  job_id :: string
  repository :: string
  repository_name :: string
  workspace :: string
  sha :: string
  ref :: string
  jstate :: string
  message :: string
  created_at :: int
  finished_at :: int
  reported :: bool
  cleaned :: bool
  version :: int

datatype store_err =
    JobNotFound | QueueFull | JobStateConflict
  | InvalidQueuedJob | InvalidTerminalState | BadMaxParallel | DBError

datatype db_outcome = Commit | Abort | CommitLost

definition zero_time :: int where
  "zero_time = - 62135596800 * 1000000000"

definition jobID :: "(string \<Rightarrow> string) \<Rightarrow> string \<Rightarrow> string \<Rightarrow> string" where
  "jobID h repo s = HexEncode (take 16 (h (repo @ [CHR 0x00] @ s)))"

definition terminal_state :: "string \<Rightarrow> bool" where
  "terminal_state s \<longleftrightarrow> s = ''success'' \<or> s = ''failure'' \<or> s = ''error''"

definition job_terminal :: "job \<Rightarrow> bool" where
  "job_terminal j \<longleftrightarrow> terminal_state (jstate j)"

definition scanJob :: "job \<Rightarrow> job" where
  "scanJob r = r\<lparr>finished_at := (if finished_at r \<noteq> 0 then finished_at r else zero_time)\<rparr>"

subsection \<open>SQL statements on the table\<close>

definition db_update :: "(job \<Rightarrow> bool) \<Rightarrow> (job \<Rightarrow> job) \<Rightarrow> job list \<Rightarrow> job list" where
  "db_update P f rows = map (\<lambda>r. if P r then f r else r) rows"

definition count_state :: "string \<Rightarrow> job list \<Rightarrow> nat" where
  "count_state s rows = length (filter (\<lambda>r. jstate r = s) rows)"

definition lookup :: "job list \<Rightarrow> string \<Rightarrow> job option" where
  "lookup rows i = find (\<lambda>r. job_id r = i) rows"

text \<open>\<open>ORDER BY created_at, id\<close>; text compares byte by byte.\<close>

definition job_key :: "job \<Rightarrow> int \<times> string" where
  "job_key r = (created_at r, job_id r)"

definition queue :: "job list \<Rightarrow> job list" where
  "queue rows = sort_key job_key (filter (\<lambda>r. jstate r = ''queued'') rows)"

text \<open>
  \<open>INSERT INTO jobs SELECT ... WHERE (SELECT count(*) FROM jobs WHERE state='queued') < ?
  ON CONFLICT(id) DO NOTHING RETURNING ...\<close>
\<close>

definition stmt_insert :: "job \<Rightarrow> int \<Rightarrow> job list \<Rightarrow> job list \<times> job option" where
  "stmt_insert j maxQueued rows =
     (if int (count_state ''queued'' rows) < maxQueued \<and> lookup rows (job_id j) = None
      then let r = j\<lparr>finished_at := 0, reported := False, cleaned := False, version := 1\<rparr>
           in (rows @ [r], Some r)
      else (rows, None))"

definition mark_running :: "job \<Rightarrow> job" where
  "mark_running r = r\<lparr>jstate := ''running'', message := ''Building and running Dockerfile.chamber'',
     reported := False, version := version r + 1\<rparr>"

definition stmt_claim :: "int \<Rightarrow> job list \<Rightarrow> job list \<times> job option" where
  "stmt_claim maxParallel rows =
     (case queue rows of
        [] \<Rightarrow> (rows, None)
      | q # _ \<Rightarrow>
          if int (count_state ''running'' rows) < maxParallel
          then let rows' = db_update (\<lambda>r. job_id r = job_id q) mark_running rows
               in (rows', lookup rows' (job_id q))
          else (rows, None))"

definition mark_terminal :: "string \<Rightarrow> string \<Rightarrow> int \<Rightarrow> job \<Rightarrow> job" where
  "mark_terminal s msg now r = r\<lparr>jstate := s, message := msg, finished_at := now,
     reported := False, version := version r + 1\<rparr>"

definition stmt_finish :: "int \<Rightarrow> string \<Rightarrow> string \<Rightarrow> string \<Rightarrow> job list \<Rightarrow> job list \<times> nat" where
  "stmt_finish now i s msg rows =
     (let P = (\<lambda>r. job_id r = i \<and> jstate r = ''running'')
      in (db_update P (mark_terminal s msg now) rows, length (filter P rows)))"

definition stmt_ack :: "string \<Rightarrow> int \<Rightarrow> job list \<Rightarrow> job list" where
  "stmt_ack i v rows = db_update (\<lambda>r. job_id r = i \<and> version r = v) (\<lambda>r. r\<lparr>reported := True\<rparr>) rows"

definition stmt_cleaned :: "string \<Rightarrow> job list \<Rightarrow> job list" where
  "stmt_cleaned i rows = db_update (\<lambda>r. job_id r = i \<and> terminal_state (jstate r)) (\<lambda>r. r\<lparr>cleaned := True\<rparr>) rows"

definition stmt_recover :: "int \<Rightarrow> job list \<Rightarrow> job list" where
  "stmt_recover now rows = db_update (\<lambda>r. jstate r = ''running'')
     (mark_terminal ''error'' ''Job interrupted by CI server shutdown or restart'' now) rows"

definition stmt_cancel :: "int \<Rightarrow> job list \<Rightarrow> job list" where
  "stmt_cancel now rows = db_update (\<lambda>r. jstate r = ''queued'')
     (mark_terminal ''error'' ''CI server stopped before job started'' now) rows"

subsection \<open>Operations of the store\<close>

definition Get :: "db_outcome \<Rightarrow> string \<Rightarrow> job list \<Rightarrow> store_err + job" where
  "Get o1 i rows =
     (if o1 \<noteq> Commit then Inl DBError
      else case lookup rows i of None \<Rightarrow> Inl JobNotFound | Some r \<Rightarrow> Inr (scanJob r))"

definition admissible :: "(string \<Rightarrow> string) \<Rightarrow> job \<Rightarrow> bool" where
  "admissible h j \<longleftrightarrow> routeName (repository j) \<and> repositoryName (repository_name j) \<and>
     isAbs (workspace j) \<and> commitSHA (sha j) \<and> job_id j = jobID h (repository j) (sha j) \<and>
     jstate j = ''queued'' \<and> created_at j \<noteq> zero_time"

definition Admit :: "(string \<Rightarrow> string) \<Rightarrow> db_outcome \<Rightarrow> db_outcome \<Rightarrow> job \<Rightarrow> int \<Rightarrow> job list
    \<Rightarrow> (store_err + job \<times> bool) \<times> job list" where
  "Admit h o1 o2 j maxQueued rows =
     (if maxQueued < 1 \<or> \<not> admissible h j then (Inl InvalidQueuedJob, rows)
      else if o1 = Abort then (Inl DBError, rows)
      else let (rows', ret) = stmt_insert j maxQueued rows in
        if o1 = CommitLost then (Inl DBError, rows')
        else case ret of
            Some saved \<Rightarrow> (Inr (scanJob saved, True), rows')
          | None \<Rightarrow>
              (case Get o2 (job_id j) rows' of
                 Inr existing \<Rightarrow> (Inr (existing, False), rows')
               | Inl e \<Rightarrow> (Inl (if e = JobNotFound then QueueFull else e), rows')))"

definition Claim :: "db_outcome \<Rightarrow> int \<Rightarrow> job list \<Rightarrow> (store_err + job option) \<times> job list" where
  "Claim o1 maxParallel rows =
     (if maxParallel < 1 then (Inl BadMaxParallel, rows)
      else if o1 = Abort then (Inl DBError, rows)
      else let (rows', ret) = stmt_claim maxParallel rows in
        if o1 = CommitLost then (Inl DBError, rows')
        else (Inr (map_option scanJob ret), rows'))"

definition Finish :: "db_outcome \<Rightarrow> db_outcome \<Rightarrow> int \<Rightarrow> string \<Rightarrow> string \<Rightarrow> string \<Rightarrow> job list
    \<Rightarrow> store_err option \<times> job list" where
  "Finish o1 o2 now i s msg rows =
     (if \<not> terminal_state s then (Some InvalidTerminalState, rows)
      else if o1 = Abort then (Some DBError, rows)
      else let (rows', changed) = stmt_finish now i s msg rows in
        if o1 = CommitLost then (Some DBError, rows')
        else if changed = 1 then (None, rows')
        else case Get o2 i rows' of
            Inl e \<Rightarrow> (Some e, rows')
          | Inr existing \<Rightarrow>
              (if jstate existing = s \<and> message existing = msg then None else Some JobStateConflict, rows'))"

definition Unsettled :: "db_outcome \<Rightarrow> job list \<Rightarrow> store_err + job list" where
  "Unsettled o1 rows =
     (if o1 \<noteq> Commit then Inl DBError
      else Inr (map scanJob (sort_key job_key (filter (\<lambda>r. \<not> reported r \<or> \<not> cleaned r) rows))))"

definition run_write :: "db_outcome \<Rightarrow> (job list \<Rightarrow> job list) \<Rightarrow> job list \<Rightarrow> store_err option \<times> job list" where
  "run_write o1 f rows =
     (case o1 of
        Commit \<Rightarrow> (None, f rows)
      | Abort \<Rightarrow> (Some DBError, rows)
      | CommitLost \<Rightarrow> (Some DBError, f rows))"

definition Acknowledge :: "db_outcome \<Rightarrow> string \<Rightarrow> int \<Rightarrow> job list \<Rightarrow> store_err option \<times> job list" where
  "Acknowledge o1 i v rows = run_write o1 (stmt_ack i v) rows"

definition MarkCleaned :: "db_outcome \<Rightarrow> string \<Rightarrow> job list \<Rightarrow> store_err option \<times> job list" where
  "MarkCleaned o1 i rows = run_write o1 (stmt_cleaned i) rows"

definition RecoverInterrupted :: "db_outcome \<Rightarrow> int \<Rightarrow> job list \<Rightarrow> store_err option \<times> job list" where
  "RecoverInterrupted o1 now rows = run_write o1 (stmt_recover now) rows"

definition RunningCount :: "db_outcome \<Rightarrow> job list \<Rightarrow> store_err + nat" where
  "RunningCount o1 rows = (if o1 \<noteq> Commit then Inl DBError else Inr (count_state ''running'' rows))"

definition CancelQueued :: "db_outcome \<Rightarrow> int \<Rightarrow> job list \<Rightarrow> store_err option \<times> job list" where
  "CancelQueued o1 now rows = run_write o1 (stmt_cancel now) rows"

text \<open>
  \<open>openSQLiteStore\<close> on the database file: a schema version above 1 is refused, a missing
  table is created empty, an existing one is kept.
\<close>

record db_file =
  user_version :: int
  jobs_table :: "job list option"

definition openSQLiteStore :: "db_file \<Rightarrow> db_file option" where
  "openSQLiteStore f =
     (if user_version f > 1 then None
      else Some \<lparr>user_version = 1, jobs_table = Some (case jobs_table f of None \<Rightarrow> [] | Some t \<Rightarrow> t)\<rparr>)"


subsection \<open>Single statements\<close>

lemmas stmt_defs = stmt_insert_def stmt_claim_def stmt_finish_def stmt_ack_def stmt_cleaned_def
  stmt_recover_def stmt_cancel_def

lemma mark_sel [simp]:
  "job_id (mark_running r) = job_id r" "jstate (mark_running r) = ''running''"
  "version (mark_running r) = version r + 1" "reported (mark_running r) = False"
  "job_id (mark_terminal s m t r) = job_id r" "jstate (mark_terminal s m t r) = s"
  "message (mark_terminal s m t r) = m" "finished_at (mark_terminal s m t r) = t"
  "version (mark_terminal s m t r) = version r + 1" "reported (mark_terminal s m t r) = False"
  by (simp_all add: mark_running_def mark_terminal_def)

lemma scanJob_sel [simp]:
  "job_id (scanJob r) = job_id r" "jstate (scanJob r) = jstate r" "message (scanJob r) = message r"
  "version (scanJob r) = version r" "reported (scanJob r) = reported r" "cleaned (scanJob r) = cleaned r"
  "workspace (scanJob r) = workspace r" "repository (scanJob r) = repository r" "sha (scanJob r) = sha r"
  "repository_name (scanJob r) = repository_name r" "created_at (scanJob r) = created_at r"
  "ref (scanJob r) = ref r" "finished_at r \<noteq> 0 \<Longrightarrow> finished_at (scanJob r) = finished_at r"
  by (simp_all add: scanJob_def)

lemma terminal_state_simps [simp]:
  "\<not> terminal_state ''queued''" "\<not> terminal_state ''running''" "terminal_state ''error''"
  "terminal_state ''success''" "terminal_state ''failure''"
  by (simp_all add: terminal_state_def)

lemma terminal_neq [simp]: "terminal_state s \<Longrightarrow> s \<noteq> ''queued'' \<and> s \<noteq> ''running''"
  by (auto simp: terminal_state_def)

lemma lookup_Some: "lookup rows i = Some r \<Longrightarrow> r \<in> set rows \<and> job_id r = i"
  by (auto simp: lookup_def dest: find_SomeD)

lemma lookup_None: "lookup rows i = None \<longleftrightarrow> i \<notin> job_id ` set rows"
  by (auto simp: lookup_def find_None_iff_ball)

lemma lookup_mem: "distinct (map job_id rows) \<Longrightarrow> r \<in> set rows \<Longrightarrow> lookup rows (job_id r) = Some r"
  by (simp add: lookup_def distinct_map_find)

lemma lookup_db_update:
  assumes "\<And>r. job_id (f r) = job_id r"
  shows "lookup (db_update P f rows) i = map_option (\<lambda>r. if P r then f r else r) (lookup rows i)"
  unfolding lookup_def db_update_def by (rule find_map_key) (simp add: assms)

lemma ids_db_update:
  assumes "\<And>r. job_id (f r) = job_id r"
  shows "map job_id (db_update P f rows) = map job_id rows"
  by (simp add: db_update_def assms)

lemma lookup_append: "lookup (xs @ ys) i = (case lookup xs i of None \<Rightarrow> lookup ys i | Some r \<Rightarrow> Some r)"
  by (simp add: lookup_def find_append split: option.splits)

lemma lookup_snoc:
  "lookup (rows @ [r]) i = (if lookup rows i = None \<and> job_id r = i then Some r else lookup rows i)"
  by (simp add: lookup_def find_append split: option.splits)

lemma set_queue: "set (queue rows) = {r \<in> set rows. jstate r = ''queued''}"
  by (auto simp: queue_def)

lemma sorted_queue: "sorted (map job_key (queue rows))"
  by (simp add: queue_def)

lemma queue_hd:
  assumes "queue rows = q # qs"
  shows "q \<in> set rows" "jstate q = ''queued''"
    and "\<And>r. r \<in> set rows \<Longrightarrow> jstate r = ''queued'' \<Longrightarrow> job_key q \<le> job_key r"
proof -
  have "q \<in> set (queue rows)" using assms by simp
  then show "q \<in> set rows" "jstate q = ''queued''" by (auto simp: set_queue)
  show "job_key q \<le> job_key r" if "r \<in> set rows" "jstate r = ''queued''" for r
  proof -
    have "r \<in> set (q # qs)" using that set_queue [of rows] assms by simp
    then show ?thesis using sorted_queue [of rows] assms by auto
  qed
qed

lemma queue_empty: "queue rows = [] \<longleftrightarrow> count_state ''queued'' rows = 0"
  by (simp add: count_state_def queue_def flip: length_0_conv)

lemma db_update_id_split:
  assumes "distinct (map job_id rows)" "q \<in> set rows"
  obtains xs ys where "rows = xs @ q # ys"
    and "db_update (\<lambda>r. job_id r = job_id q) f rows = xs @ f q # ys"
proof -
  obtain xs ys where r: "rows = xs @ q # ys" using assms(2) split_list by metis
  then have "job_id q \<notin> job_id ` set xs" "job_id q \<notin> job_id ` set ys"
    using assms(1) by simp_all
  then have "job_id r \<noteq> job_id q" if "r \<in> set xs \<or> r \<in> set ys" for r
    using that by (metis imageI)
  then have "db_update (\<lambda>r. job_id r = job_id q) f rows = xs @ f q # ys"
    by (simp add: r db_update_def map_idI)
  with r show ?thesis by (rule that)
qed

lemma count_state_db_update_le:
  assumes "\<And>r. P r \<Longrightarrow> jstate (f r) = s \<Longrightarrow> jstate r = s"
  shows "count_state s (db_update P f rows) \<le> count_state s rows"
  unfolding count_state_def db_update_def
  by (rule length_filter_map_le) (auto simp: assms split: if_splits)


subsection \<open>The table as a transition system\<close>

text \<open>
  Every write the store performs is one of seven statements. \<open>sql_run\<close> is any sequence of
  them, from any number of connections: \<open>Q\<close> and \<open>P\<close> are the configured \<open>max_queued\<close> and
  \<open>max_parallel\<close>.
\<close>

inductive sql_step :: "(string \<Rightarrow> string) \<Rightarrow> int \<Rightarrow> int \<Rightarrow> job list \<Rightarrow> job list \<Rightarrow> bool"
  for h :: "string \<Rightarrow> string" and Q P :: int where
  step_insert: "admissible h j \<Longrightarrow> sql_step h Q P rows (fst (stmt_insert j Q rows))"
| step_claim: "sql_step h Q P rows (fst (stmt_claim P rows))"
| step_finish: "terminal_state s \<Longrightarrow> sql_step h Q P rows (fst (stmt_finish now i s msg rows))"
| step_ack: "sql_step h Q P rows (stmt_ack i v rows)"
| step_cleaned: "sql_step h Q P rows (stmt_cleaned i rows)"
| step_recover: "sql_step h Q P rows (stmt_recover now rows)"
| step_cancel: "sql_step h Q P rows (stmt_cancel now rows)"

inductive_cases sql_stepE: "sql_step h Q P rows rows'"

abbreviation sql_run :: "(string \<Rightarrow> string) \<Rightarrow> int \<Rightarrow> int \<Rightarrow> job list \<Rightarrow> job list \<Rightarrow> bool" where
  "sql_run h Q P \<equiv> (sql_step h Q P)\<^sup>*\<^sup>*"

text \<open>The consistency of the table.\<close>

definition valid_job_state :: "string \<Rightarrow> bool" where
  "valid_job_state s \<longleftrightarrow> s = ''queued'' \<or> s = ''running'' \<or> terminal_state s"

definition row_ok :: "(string \<Rightarrow> string) \<Rightarrow> job \<Rightarrow> bool" where
  "row_ok h r \<longleftrightarrow> valid_job_state (jstate r) \<and> 1 \<le> version r \<and> (cleaned r \<longrightarrow> job_terminal r) \<and>
     routeName (repository r) \<and> repositoryName (repository_name r) \<and> isAbs (workspace r) \<and>
     commitSHA (sha r) \<and> job_id r = jobID h (repository r) (sha r)"

definition store_ok :: "(string \<Rightarrow> string) \<Rightarrow> int \<Rightarrow> int \<Rightarrow> job list \<Rightarrow> bool" where
  "store_ok h Q P rows \<longleftrightarrow> distinct (map job_id rows) \<and> (\<forall>r \<in> set rows. row_ok h r) \<and>
     int (count_state ''queued'' rows) \<le> Q \<and> int (count_state ''running'' rows) \<le> P"

lemma store_ok_empty: "0 \<le> Q \<Longrightarrow> 0 \<le> P \<Longrightarrow> store_ok h Q P []"
  by (simp add: store_ok_def count_state_def)

lemma row_ok_db_update:
  assumes "\<forall>r \<in> set rows. row_ok h r" "\<And>r. P r \<Longrightarrow> row_ok h r \<Longrightarrow> row_ok h (f r)"
  shows "\<forall>r \<in> set (db_update P f rows). row_ok h r"
  using assms by (auto simp: db_update_def)

lemma row_ok_terminal: "terminal_state s \<Longrightarrow> row_ok h r \<Longrightarrow> row_ok h (mark_terminal s msg now r)"
  by (simp add: row_ok_def mark_terminal_def valid_job_state_def job_terminal_def)

lemma row_ok_running: "jstate r = ''queued'' \<Longrightarrow> row_ok h r \<Longrightarrow> row_ok h (mark_running r)"
  by (simp add: row_ok_def mark_running_def valid_job_state_def job_terminal_def)

lemma store_ok_db_update:
  assumes "store_ok h Q P rows"
    and "\<And>r. job_id (f r) = job_id r"
    and "\<And>r. A r \<Longrightarrow> row_ok h r \<Longrightarrow> row_ok h (f r)"
    and "\<And>r. A r \<Longrightarrow> jstate (f r) = ''queued'' \<Longrightarrow> jstate r = ''queued''"
    and "\<And>r. A r \<Longrightarrow> jstate (f r) = ''running'' \<Longrightarrow> jstate r = ''running''"
  shows "store_ok h Q P (db_update A f rows)"
proof -
  have "count_state ''queued'' (db_update A f rows) \<le> count_state ''queued'' rows"
    "count_state ''running'' (db_update A f rows) \<le> count_state ''running'' rows"
    by (auto intro: count_state_db_update_le assms(4,5))
  then show ?thesis
    using assms(1) row_ok_db_update [of rows h A f] assms(3)
    by (auto simp: store_ok_def ids_db_update assms(2))
qed

lemma store_ok_insert:
  assumes "store_ok h Q P rows" "admissible h j"
  shows "store_ok h Q P (fst (stmt_insert j Q rows))"
  using assms by (auto simp: stmt_insert_def store_ok_def lookup_None count_state_def row_ok_def
      admissible_def valid_job_state_def job_terminal_def Let_def)

lemma store_ok_claim:
  assumes ok: "store_ok h Q P rows"
  shows "store_ok h Q P (fst (stmt_claim P rows))"
proof (cases "queue rows")
  case Nil
  then show ?thesis using ok by (simp add: stmt_claim_def)
next
  case (Cons q qs)
  note q = queue_hd [OF Cons]
  obtain xs ys where r: "rows = xs @ q # ys"
    and u: "db_update (\<lambda>r. job_id r = job_id q) mark_running rows = xs @ mark_running q # ys"
    using ok q(1) db_update_id_split unfolding store_ok_def by metis
  have "row_ok h (mark_running q)" using ok q by (auto simp: store_ok_def intro: row_ok_running)
  then have "int (count_state ''running'' rows) < P \<Longrightarrow> store_ok h Q P (xs @ mark_running q # ys)"
    using ok q(2) by (auto simp: store_ok_def count_state_def r)
  then show ?thesis using ok by (simp add: stmt_claim_def Cons u Let_def)
qed

lemma store_ok_step: "sql_step h Q P rows rows' \<Longrightarrow> store_ok h Q P rows \<Longrightarrow> store_ok h Q P rows'"
proof (induction rule: sql_step.induct)
  case (step_ack rows i v)
  then show ?case unfolding stmt_ack_def
    by (rule store_ok_db_update) (auto simp: row_ok_def job_terminal_def)
next
  case (step_cleaned rows i)
  then show ?case unfolding stmt_cleaned_def
    by (rule store_ok_db_update) (auto simp: row_ok_def job_terminal_def)
qed (auto simp: store_ok_insert store_ok_claim stmt_finish_def stmt_recover_def stmt_cancel_def Let_def
      intro!: store_ok_db_update row_ok_terminal)

lemma store_ok_run: "sql_run h Q P rows rows' \<Longrightarrow> store_ok h Q P rows \<Longrightarrow> store_ok h Q P rows'"
  by (induction rule: rtranclp_induct) (auto intro: store_ok_step)

subsection \<open>How one row evolves\<close>

text \<open>
  A row keeps its identity, its version never decreases, and between two equal versions its
  outcome is the same. A state only moves forward: queued, running, terminal.
\<close>

definition may_become :: "string \<Rightarrow> string \<Rightarrow> bool" where
  "may_become s t \<longleftrightarrow> s = t \<or> s = ''queued'' \<and> (t = ''running'' \<or> terminal_state t) \<or>
     s = ''running'' \<and> terminal_state t"

definition same_outcome :: "job \<Rightarrow> job \<Rightarrow> bool" where
  "same_outcome r r' \<longleftrightarrow> jstate r = jstate r' \<and> message r = message r' \<and> finished_at r = finished_at r'"

definition same_identity :: "job \<Rightarrow> job \<Rightarrow> bool" where
  "same_identity r r' \<longleftrightarrow> job_id r = job_id r' \<and> repository r = repository r' \<and>
     repository_name r = repository_name r' \<and> workspace r = workspace r' \<and> sha r = sha r' \<and>
     ref r = ref r' \<and> created_at r = created_at r'"

definition evolves :: "job \<Rightarrow> job \<Rightarrow> bool" where
  "evolves r r' \<longleftrightarrow> same_identity r r' \<and> version r \<le> version r' \<and>
     (version r = version r' \<longrightarrow> same_outcome r r' \<and> (reported r \<longrightarrow> reported r')) \<and>
     (cleaned r \<longrightarrow> cleaned r') \<and> may_become (jstate r) (jstate r') \<and>
     (job_terminal r \<longrightarrow> version r = version r')"

lemmas evolves_defs = evolves_def same_identity_def same_outcome_def may_become_def job_terminal_def

lemma may_become_trans: "may_become s t \<Longrightarrow> may_become t u \<Longrightarrow> may_become s u"
  by (auto simp: may_become_def)

lemma evolves_refl [simp]: "evolves r r"
  by (simp add: evolves_defs)

lemma evolves_trans:
  assumes "evolves r s" "evolves s t"
  shows "evolves r t"
  using assms may_become_trans [of "jstate r" "jstate s" "jstate t"]
  by (auto simp: evolves_def same_identity_def same_outcome_def job_terminal_def)

lemma evolves_running: "jstate r = ''queued'' \<Longrightarrow> evolves r (mark_running r)"
  by (simp add: evolves_defs mark_running_def)

lemma evolves_terminal:
  "\<not> job_terminal r \<Longrightarrow> valid_job_state (jstate r) \<Longrightarrow> terminal_state s \<Longrightarrow> evolves r (mark_terminal s msg now r)"
  by (auto simp: evolves_defs mark_terminal_def valid_job_state_def)

lemma lookup_update_evolves:
  assumes "\<And>r. job_id (f r) = job_id r" "lookup rows i = Some r" "A r \<Longrightarrow> evolves r (f r)"
  shows "\<exists>r'. lookup (db_update A f rows) i = Some r' \<and> evolves r r'"
  using assms by (simp add: lookup_db_update)

lemma step_evolves:
  assumes "sql_step h Q P rows rows'" "store_ok h Q P rows" "lookup rows i = Some r"
  shows "\<exists>r'. lookup rows' i = Some r' \<and> evolves r r'"
  using assms
proof (induction rule: sql_step.induct)
  case (step_insert j rows)
  then show ?case by (auto simp: stmt_insert_def Let_def lookup_append)
next
  case (step_claim rows)
  show ?case
  proof (cases "queue rows")
    case Nil
    then show ?thesis using step_claim by (simp add: stmt_claim_def)
  next
    case (Cons q qs)
    note q = queue_hd [OF Cons]
    have "job_id r = job_id q \<Longrightarrow> r = q"
      using step_claim q(1) lookup_mem [of rows q] lookup_Some [of rows i r] by (auto simp: store_ok_def)
    then have "\<exists>r'. lookup (db_update (\<lambda>r. job_id r = job_id q) mark_running rows) i = Some r' \<and> evolves r r'"
      using step_claim q by (intro lookup_update_evolves) (auto intro: evolves_running)
    then show ?thesis using step_claim by (simp add: stmt_claim_def Cons Let_def)
  qed
next
  case (step_ack rows j v)
  then show ?case unfolding stmt_ack_def
    by (intro lookup_update_evolves) (auto simp: evolves_defs)
next
  case (step_cleaned rows j)
  then show ?case unfolding stmt_cleaned_def
    by (intro lookup_update_evolves) (auto simp: evolves_defs)
qed (auto simp: stmt_finish_def stmt_recover_def stmt_cancel_def Let_def store_ok_def row_ok_def
      job_terminal_def valid_job_state_def intro!: lookup_update_evolves evolves_terminal dest: lookup_Some)

lemma run_evolves:
  assumes "sql_run h Q P rows rows'" "store_ok h Q P rows" "lookup rows i = Some r"
  shows "\<exists>r'. lookup rows' i = Some r' \<and> evolves r r'"
  using assms
proof (induction rule: rtranclp_induct)
  case base
  then show ?case by auto
next
  case (step rows1 rows2)
  then obtain r1 where r1: "lookup rows1 i = Some r1" "evolves r r1" by blast
  have "store_ok h Q P rows1" using step store_ok_run by blast
  then obtain r2 where "lookup rows2 i = Some r2" "evolves r1 r2" using step_evolves step r1(1) by blast
  then show ?case using r1(2) evolves_trans by blast
qed


subsection \<open>The operations are runs of statements\<close>

datatype store_op =
    OAdmit db_outcome db_outcome job
  | OClaim db_outcome
  | OFinish db_outcome db_outcome int string string string
  | OAck db_outcome string int
  | OCleaned db_outcome string
  | ORecover db_outcome int
  | OCancel db_outcome int

fun apply_op :: "(string \<Rightarrow> string) \<Rightarrow> int \<Rightarrow> int \<Rightarrow> store_op \<Rightarrow> job list \<Rightarrow> job list" where
  "apply_op h Q P (OAdmit o1 o2 j) rows = snd (Admit h o1 o2 j Q rows)"
| "apply_op h Q P (OClaim o1) rows = snd (Claim o1 P rows)"
| "apply_op h Q P (OFinish o1 o2 now i s msg) rows = snd (Finish o1 o2 now i s msg rows)"
| "apply_op h Q P (OAck o1 i v) rows = snd (Acknowledge o1 i v rows)"
| "apply_op h Q P (OCleaned o1 i) rows = snd (MarkCleaned o1 i rows)"
| "apply_op h Q P (ORecover o1 now) rows = snd (RecoverInterrupted o1 now rows)"
| "apply_op h Q P (OCancel o1 now) rows = snd (CancelQueued o1 now rows)"

definition run_ops :: "(string \<Rightarrow> string) \<Rightarrow> int \<Rightarrow> int \<Rightarrow> store_op list \<Rightarrow> job list \<Rightarrow> job list" where
  "run_ops h Q P ops rows = fold (apply_op h Q P) ops rows"

lemma Admit_state:
  "snd (Admit h o1 o2 j Q rows) = rows \<or>
   admissible h j \<and> snd (Admit h o1 o2 j Q rows) = fst (stmt_insert j Q rows)"
  by (cases "stmt_insert j Q rows") (auto simp: Admit_def split: option.splits sum.splits)

lemma Claim_state: "snd (Claim o1 P rows) = rows \<or> snd (Claim o1 P rows) = fst (stmt_claim P rows)"
  by (cases "stmt_claim P rows") (auto simp: Claim_def)

lemma Finish_state:
  "snd (Finish o1 o2 now i s msg rows) = rows \<or>
   terminal_state s \<and> snd (Finish o1 o2 now i s msg rows) = fst (stmt_finish now i s msg rows)"
  by (cases "stmt_finish now i s msg rows") (auto simp: Finish_def split: sum.splits)

lemma run_write_state: "snd (run_write o1 f rows) = rows \<or> snd (run_write o1 f rows) = f rows"
  by (cases o1) (auto simp: run_write_def)

lemma apply_op_run: "sql_run h Q P rows (apply_op h Q P op rows)"
proof (cases op)
  case (OAdmit o1 o2 j)
  then show ?thesis using Admit_state [of h o1 o2 j Q rows]
    by (elim disjE conjE) (simp_all add: r_into_rtranclp step_insert)
next
  case (OClaim o1)
  then show ?thesis using Claim_state [of o1 P rows] by (elim disjE conjE) (simp_all add: r_into_rtranclp step_claim)
next
  case (OFinish o1 o2 now i s msg)
  then show ?thesis using Finish_state [of o1 o2 now i s msg rows] by (elim disjE conjE) (simp_all add: r_into_rtranclp step_finish)
next
  case (OAck o1 i v)
  then show ?thesis using run_write_state [of o1 "stmt_ack i v" rows]
    by (elim disjE) (simp_all add: Acknowledge_def r_into_rtranclp step_ack)
next
  case (OCleaned o1 i)
  then show ?thesis using run_write_state [of o1 "stmt_cleaned i" rows]
    by (elim disjE) (simp_all add: MarkCleaned_def r_into_rtranclp step_cleaned)
next
  case (ORecover o1 now)
  then show ?thesis using run_write_state [of o1 "stmt_recover now" rows]
    by (elim disjE) (simp_all add: RecoverInterrupted_def r_into_rtranclp step_recover)
next
  case (OCancel o1 now)
  then show ?thesis using run_write_state [of o1 "stmt_cancel now" rows]
    by (elim disjE) (simp_all add: CancelQueued_def r_into_rtranclp step_cancel)
qed

lemma run_ops_run: "sql_run h Q P rows (run_ops h Q P ops rows)"
  unfolding run_ops_def
proof (induction ops arbitrary: rows)
  case (Cons op ops)
  then show ?case using apply_op_run [of h Q P rows op] by (auto intro: rtranclp_trans)
qed simp

lemma store_ok_run_ops: "store_ok h Q P rows \<Longrightarrow> store_ok h Q P (run_ops h Q P ops rows)"
  using run_ops_run store_ok_run by blast

lemma run_ops_evolves:
  "store_ok h Q P rows \<Longrightarrow> lookup rows i = Some r \<Longrightarrow>
     \<exists>r'. lookup (run_ops h Q P ops rows) i = Some r' \<and> evolves r r'"
  using run_ops_run run_evolves by blast

lemma terminal_is_final_aux:
  assumes "store_ok h Q P rows" "lookup rows i = Some r" "job_terminal r"
  obtains r' where "lookup (run_ops h Q P ops rows) i = Some r'" "jstate r' = jstate r" "message r' = message r"
    "finished_at r' = finished_at r" "version r' = version r"
  using run_ops_evolves [OF assms(1,2), of ops] assms(3)
  by (auto simp: evolves_def same_outcome_def)

lemma ack_lookup:
  assumes "lookup (snd (Acknowledge o1 i v R)) i = Some a" "lookup R i = Some b"
  shows "a = b \<or> version b = v"
proof (cases "version b = v")
  case False
  then have "lookup (stmt_ack i v R) i = Some b"
    using assms(2) by (simp add: stmt_ack_def lookup_db_update)
  then show ?thesis using assms by (cases o1) (simp_all add: Acknowledge_def run_write_def)
qed simp

lemma Admit_commit:
  assumes "admissible h j" "1 \<le> Q"
  shows "Admit h Commit Commit j Q rows =
    (case lookup rows (job_id j) of
       Some r \<Rightarrow> (Inr (scanJob r, False), rows)
     | None \<Rightarrow>
         if int (count_state ''queued'' rows) < Q
         then (let r = j\<lparr>finished_at := 0, reported := False, cleaned := False, version := 1\<rparr>
               in (Inr (scanJob r, True), rows @ [r]))
         else (Inl QueueFull, rows))"
  using assms by (simp add: Admit_def stmt_insert_def Get_def Let_def split: option.splits)

subsection \<open>A concrete table for the witnesses\<close>

definition sample_hash :: "string \<Rightarrow> string" where
  "sample_hash s = rev s"

definition sample_job :: "char \<Rightarrow> job" where
  "sample_job c = (let s = replicate 40 c in
     \<lparr>job_id = jobID sample_hash ''test'' s, repository = ''test'', repository_name = ''owner/repo'',
      workspace = ''/tmp/work'', sha = s, ref = ''refs/heads/main'', jstate = ''queued'',
      message = ''queued'', created_at = 1700000000 + int (ord c), finished_at = zero_time, reported = False,
      cleaned = False, version = 0\<rparr>)"

lemma sample_admissible: "admissible sample_hash (sample_job CHR ''a'')" "admissible sample_hash (sample_job CHR ''b'')"
  by (simp_all add: admissible_def sample_job_def Let_def zero_time_def isAbs_def HasPrefix_def
      routeName_def repositoryName_def commitSHA_def id_tail_char_def is_alnum_def is_lower_def
      is_upper_def is_digit_def hex_lower_def ord_def)

definition sample_running :: job where
  "sample_running = mark_running ((sample_job CHR ''a'')\<lparr>finished_at := 0, version := 1\<rparr>)"

definition sample_queued :: job where
  "sample_queued = (sample_job CHR ''b'')\<lparr>finished_at := 0, version := 1\<rparr>"

definition sample_rows :: "job list" where
  "sample_rows = [sample_running, sample_queued]"

lemma sample_id: "job_id (sample_job c) = HexEncode (replicate 16 c)"
  by (simp add: sample_job_def jobID_def sample_hash_def Let_def)

lemma sample_id_neq: "job_id (sample_job CHR ''a'') \<noteq> job_id (sample_job CHR ''b'')"
proof
  assume "job_id (sample_job CHR ''a'') = job_id (sample_job CHR ''b'')"
  then have "replicate 16 CHR ''a'' = replicate 16 CHR ''b''"
    unfolding sample_id by (metis HexDecode_HexEncode option.inject)
  then show False by simp
qed

lemma sample_sel [simp]:
  "job_id sample_running = job_id (sample_job CHR ''a'')" "job_id sample_queued = job_id (sample_job CHR ''b'')"
  "jstate sample_running = ''running''" "jstate sample_queued = ''queued''"
  "version sample_running = 2" "version sample_queued = 1"
  by (simp_all add: sample_running_def sample_queued_def sample_job_def Let_def mark_running_def)

lemma sample_lookup [simp]:
  "lookup sample_rows (job_id (sample_job CHR ''a'')) = Some sample_running"
  "lookup sample_rows (job_id (sample_job CHR ''b'')) = Some sample_queued"
  using sample_id_neq by (simp_all add: sample_rows_def lookup_def)

definition sample_finish :: store_op where
  "sample_finish = OFinish Commit Commit 5 (job_id (sample_job CHR ''a'')) ''success'' ''done''"

lemma sample_finished:
  "lookup (run_ops sample_hash 2 1 [sample_finish] sample_rows) (job_id (sample_job CHR ''a'')) =
     Some (mark_terminal ''success'' ''done'' 5 sample_running)"
  using sample_id_neq
  by (simp add: run_ops_def sample_finish_def Finish_def stmt_finish_def Let_def sample_rows_def db_update_def
      lookup_def)

lemma sample_store_ok: "store_ok sample_hash 2 1 sample_rows"
  using sample_id_neq sample_admissible
  by (simp add: store_ok_def sample_rows_def count_state_def row_ok_def valid_job_state_def job_terminal_def
      admissible_def sample_running_def sample_queued_def mark_running_def sample_job_def Let_def)

subsection \<open>Properties\<close>

text \<open>
  C3. However the store's operations are interleaved, by any number of connections, and
  whichever statements fail or lose their acknowledgement, the table never holds more than
  \<open>max_queued\<close> queued and \<open>max_parallel\<close> running jobs, every id occurs once and every row
  is well formed.
\<close>

theorem store_limits:
  assumes "0 \<le> Q" "0 \<le> P"
  shows "int (count_state ''queued'' (run_ops h Q P ops [])) \<le> Q \<and>
         int (count_state ''running'' (run_ops h Q P ops [])) \<le> P \<and>
         distinct (map job_id (run_ops h Q P ops [])) \<and>
         (\<forall>r \<in> set (run_ops h Q P ops []). row_ok h r)"
  using store_ok_run_ops [OF store_ok_empty [OF assms], of h ops] by (simp add: store_ok_def)

theorem store_limits_witness:
  "int (count_state ''running'' (run_ops sample_hash 2 1
      [OAdmit Commit Commit (sample_job CHR ''a''), OAdmit CommitLost Commit (sample_job CHR ''b''),
       OClaim Commit, OClaim Commit] [])) \<le> 1"
  using store_limits [of 2 1 sample_hash] by simp

text \<open>
  C8. A status request that was in flight while a job changed cannot settle the new result:
  whatever happened since version \<open>version j\<close> was read, acknowledging that version marks a
  row reported only if the row still has the state and message that were read (or was
  already marked).
\<close>

theorem stale_acknowledgement:
  assumes "store_ok h Q P rows" "lookup rows i = Some j"
    and "lookup (apply_op h Q P (OAck o1 i (version j)) (run_ops h Q P ops rows)) i = Some j''"
    and "lookup (run_ops h Q P ops rows) i = Some j'"
  shows "reported j'' \<longrightarrow> reported j' \<or> (jstate j' = jstate j \<and> message j' = message j)"
proof -
  obtain k where k: "lookup (run_ops h Q P ops rows) i = Some k" "evolves j k"
    using run_ops_evolves assms(1,2) by blast
  then have e: "evolves j j'" using assms(4) by simp
  have "j'' = j' \<or> version j' = version j"
    by (rule ack_lookup [OF assms(3) [unfolded apply_op.simps] assms(4)])
  then show ?thesis using e unfolding evolves_def same_outcome_def by metis
qed

theorem stale_acknowledgement_witness:
  "\<exists>j''. lookup (apply_op sample_hash 2 1 (OAck Commit (job_id (sample_job CHR ''a'')) 2)
       (run_ops sample_hash 2 1 [sample_finish] sample_rows)) (job_id (sample_job CHR ''a'')) = Some j'' \<and>
     \<not> reported j''"
proof -
  let ?i = "job_id (sample_job CHR ''a'')" and ?R = "run_ops sample_hash 2 1 [sample_finish] sample_rows"
  have "\<exists>j''. lookup (apply_op sample_hash 2 1 (OAck Commit ?i (version sample_running)) ?R) ?i = Some j''"
    by (simp add: Acknowledge_def run_write_def stmt_ack_def lookup_db_update sample_finished)
  then obtain j'' where j: "lookup (apply_op sample_hash 2 1 (OAck Commit ?i (version sample_running)) ?R) ?i = Some j''"
    by blast
  have "\<not> reported j''"
    using stale_acknowledgement [OF sample_store_ok sample_lookup(1) j sample_finished] by auto
  then show ?thesis using j by auto
qed

text \<open>
  A finished job is final: no operation changes its state, message, finish time or
  version again.
\<close>

theorem terminal_is_final:
  assumes "store_ok h Q P rows" "lookup rows i = Some r" "job_terminal r"
  shows "\<exists>r'. lookup (run_ops h Q P ops rows) i = Some r' \<and> jstate r' = jstate r \<and>
      message r' = message r \<and> finished_at r' = finished_at r \<and> version r' = version r"
  using terminal_is_final_aux [OF assms, of ops] by metis

theorem terminal_is_final_witness:
  "\<exists>r'. lookup (run_ops sample_hash 2 1 [ORecover Commit 9, OCancel Commit 9]
       [mark_terminal ''success'' ''done'' 5 sample_running]) (job_id (sample_job CHR ''a'')) = Some r' \<and>
     jstate r' = ''success'' \<and> message r' = ''done'' \<and> finished_at r' = 5"
proof -
  have ok: "store_ok sample_hash 2 1 [mark_terminal ''success'' ''done'' 5 sample_running]"
    using sample_store_ok
    by (simp add: store_ok_def count_state_def sample_rows_def row_ok_terminal)
  show ?thesis
    using terminal_is_final [OF ok, of "job_id (sample_job CHR ''a'')" "mark_terminal ''success'' ''done'' 5 sample_running"
        "[ORecover Commit 9, OCancel Commit 9]"]
    by (auto simp: lookup_def job_terminal_def)
qed

text \<open>
  \<open>Admit\<close>, when the database answers: a redelivery returns the stored job unchanged,
  also when the queue is full; a new job is appended with version 1 below the limit; and
  above it the table is unchanged and the caller gets \<open>errQueueFull\<close>.
\<close>

theorem admit_behaviour:
  assumes "admissible h j" "1 \<le> Q"
  shows "Admit h Commit Commit j Q rows =
    (case lookup rows (job_id j) of
       Some r \<Rightarrow> (Inr (scanJob r, False), rows)
     | None \<Rightarrow>
         if int (count_state ''queued'' rows) < Q
         then (let r = j\<lparr>finished_at := 0, reported := False, cleaned := False, version := 1\<rparr>
               in (Inr (scanJob r, True), rows @ [r]))
         else (Inl QueueFull, rows))"
  by (rule Admit_commit [OF assms])

theorem admit_behaviour_witness:
  "Admit sample_hash Commit Commit (sample_job CHR ''a'') 1 sample_rows = (Inr (scanJob sample_running, False), sample_rows)"
  using admit_behaviour [OF sample_admissible(1), of 1 sample_rows] by simp

text \<open>
  \<open>Claim\<close> is first in, first out and work conserving: it starts the queued job that was
  created first (ties by id), changes no other row, and returns no job exactly when nothing
  is queued or all slots are occupied.
\<close>

theorem claim_behaviour:
  assumes ok: "store_ok h Q P rows" and P: "1 \<le> P"
  shows "case Claim Commit P rows of
      (Inl e, rows') \<Rightarrow> False
    | (Inr None, rows') \<Rightarrow> rows' = rows \<and>
        (count_state ''queued'' rows = 0 \<or> P \<le> int (count_state ''running'' rows))
    | (Inr (Some j), rows') \<Rightarrow> \<exists>q \<in> set rows.
        jstate q = ''queued'' \<and> j = scanJob (mark_running q) \<and>
        (\<forall>r \<in> set rows. jstate r = ''queued'' \<longrightarrow> job_key q \<le> job_key r) \<and>
        int (count_state ''running'' rows) < P \<and>
        (\<forall>i. lookup rows' i = (if i = job_id q then Some (mark_running q) else lookup rows i))"
proof (cases "queue rows")
  case Nil
  then show ?thesis using P queue_empty [of rows] by (simp add: Claim_def stmt_claim_def)
next
  case (Cons q qs)
  note q = queue_hd [OF Cons]
  have lq: "lookup rows (job_id q) = Some q" using ok q(1) by (auto simp: store_ok_def intro: lookup_mem)
  let ?u = "db_update (\<lambda>r. job_id r = job_id q) mark_running rows"
  have lk: "lookup ?u i = (if i = job_id q then Some (mark_running q) else lookup rows i)" for i
    by (cases "lookup rows i") (auto simp: lookup_db_update lq dest: lookup_Some)
  show ?thesis using P q lk by (auto simp: Claim_def stmt_claim_def Cons Let_def)
qed

theorem claim_behaviour_witness:
  "snd (Claim Commit 1 sample_rows) = sample_rows"
  using claim_behaviour [OF sample_store_ok, unfolded sample_rows_def]
  by (auto simp: sample_rows_def count_state_def split: prod.splits sum.splits option.splits)

text \<open>
  Retrying \<open>Finish\<close> is safe. When the write was committed but its acknowledgement was
  lost, a retry with the same result succeeds, however the store was used in between; and a
  retry with another result is refused and changes nothing.
\<close>

theorem finish_retry:
  assumes ok: "store_ok h Q P rows" and r: "lookup rows i = Some r" "jstate r = ''running''"
    and t: "terminal_state s" "terminal_state s'"
    and lost: "Finish CommitLost o2 now i s msg rows = (Some DBError, rows1)"
  shows "Finish Commit Commit now' i s' msg' (run_ops h Q P ops rows1) =
    ((if s' = s \<and> msg' = msg then None else Some JobStateConflict), run_ops h Q P ops rows1)"
proof -
  have r1: "rows1 = apply_op h Q P (OFinish CommitLost o2 now i s msg) rows"
    using lost by simp
  then have ok1: "store_ok h Q P rows1"
    using ok store_ok_run_ops [of h Q P rows "[OFinish CommitLost o2 now i s msg]"] by (simp add: run_ops_def)
  have "rows1 = fst (stmt_finish now i s msg rows)"
    using lost t(1) by (auto simp: Finish_def split: prod.splits)
  then have "lookup rows1 i = Some (mark_terminal s msg now r)"
    using r lookup_Some [OF r(1)] by (simp add: stmt_finish_def Let_def lookup_db_update)
  moreover have "job_terminal (mark_terminal s msg now r)" using t(1) by (simp add: job_terminal_def)
  ultimately obtain r2
    where r2: "lookup (run_ops h Q P ops rows1) i = Some r2" "jstate r2 = s" "message r2 = msg"
    using terminal_is_final_aux [OF ok1, of i _ ops] by (metis mark_sel(6,7))
  have no: "\<not> (job_id x = i \<and> jstate x = ''running'')" if "x \<in> set (run_ops h Q P ops rows1)" for x
    using lookup_mem [OF _ that] store_ok_run_ops [OF ok1, of ops] r2 t(1) by (auto simp: store_ok_def)
  then have "stmt_finish now' i s' msg' (run_ops h Q P ops rows1) = (run_ops h Q P ops rows1, 0)"
    by (auto simp: stmt_finish_def Let_def db_update_def intro!: map_idI)
  then show ?thesis using t r2 by (auto simp: Finish_def Get_def)
qed

theorem finish_retry_witness:
  "\<exists>rows1. fst (Finish CommitLost Commit 5 (job_id (sample_job CHR ''a'')) ''success'' ''done'' sample_rows) = Some DBError \<and>
     fst (Finish Commit Commit 9 (job_id (sample_job CHR ''a'')) ''success'' ''done''
       (run_ops sample_hash 2 1 [OClaim Commit] rows1)) = None"
proof -
  let ?i = "job_id (sample_job CHR ''a'')"
  let ?L = "Finish CommitLost Commit 5 ?i ''success'' ''done'' sample_rows"
  have l: "?L = (Some DBError, snd ?L)" by (simp add: Finish_def Let_def split: prod.splits)
  have "fst (Finish Commit Commit 9 ?i ''success'' ''done'' (run_ops sample_hash 2 1 [OClaim Commit] (snd ?L))) = None"
    using finish_retry [OF sample_store_ok sample_lookup(1) sample_sel(3) terminal_state_simps(4) terminal_state_simps(4) l,
        of 9 "''done''" "[OClaim Commit]"] by simp
  then show ?thesis using l by (metis fst_conv)
qed

end
