(* ===== verification/CI_Config.thy ===== *)
theory CI_Config
  imports Job_Store
begin

text \<open>
  The configuration of the CI server (\<open>cmd/ci/config.go\<close>), the GitHub side of a webhook
  (\<open>cmd/ci/github.go\<close>) and the workspace naming of \<open>cmd/ci/executor.go\<close>.

  JSON decoding, URL and duration parsing, the environment and the two hash functions are
  fields of \<open>config_env\<close> or parameters; everything the program decides about their results
  is a definition. A JSON object's repositories are an association list in the order in
  which the loop visits them (Go leaves the order of a map open).
\<close>

named_theorems ci_defs \<open>the definitions of the webhook path\<close>

subsection \<open>Configuration\<close>

record BuildKitConfig =
  BuildctlPath :: string
  BuildkitdPath :: string
  RootlessKitPath :: string
  RuncPath :: string
  BuildKitVersion :: string
  BuildKitURL :: string
  BuildKitSHA256 :: string
  RootlessKitVersion :: string
  RootlessKitURL :: string
  RootlessKitSHA256 :: string
  Snapshotter :: string

record repo_config =
  repo_name :: string
  clone_url :: string
  api_url :: string
  token_env :: string
  secret_env :: string
  token :: string
  secret :: string

record ci_config =
  listen :: string
  public_url :: string
  root_dir :: string
  work_root :: string
  max_parallel :: int
  max_queued :: int
  job_timeout_text :: string
  max_log_bytes :: int
  repositories :: "(string \<times> repo_config) list"
  update_clone_url :: string
  update_ref :: string
  buildkit :: BuildKitConfig
  runtime_path :: string
  job_timeout :: int

text \<open>What \<open>url.Parse\<close> returns; \<open>url_user\<close> tells whether a password is set.\<close>

record url =
  url_scheme :: string
  url_host :: string
  url_user :: "bool option"
  url_path :: string
  url_query :: string
  url_fragment :: string

record config_env =
  read_config :: "goerr + string"
  decode_json :: "ci_config \<Rightarrow> string \<Rightarrow> goerr + (ci_config \<times> string)"
  at_eof :: "string \<Rightarrow> bool"
  parse_url :: "string \<Rightarrow> goerr + url"
  parse_duration :: "string \<Rightarrow> int option"
  getenv :: "string \<Rightarrow> string"
  geteuid :: nat

definition TrimRightSlash :: "string \<Rightarrow> string" where
  "TrimRightSlash s = rev (dropWhile (\<lambda>c. c = CHR ''/'') (rev s))"

definition no_buildkit :: BuildKitConfig where
  "no_buildkit = \<lparr>BuildctlPath = [], BuildkitdPath = [], RootlessKitPath = [], RuncPath = [], BuildKitVersion = [],
     BuildKitURL = [], BuildKitSHA256 = [], RootlessKitVersion = [], RootlessKitURL = [], RootlessKitSHA256 = [],
     Snapshotter = []\<rparr>"

definition default_config :: ci_config where
  "default_config = \<lparr>listen = ''127.0.0.1:8080'', public_url = [], root_dir = [], work_root = [], max_parallel = 1,
     max_queued = 64, job_timeout_text = ''30m'', max_log_bytes = 16 * 2 ^ 20, repositories = [],
     update_clone_url = ''https://github.com/donglin-wang/chamber.git'', update_ref = ''refs/heads/main'',
     buildkit = no_buildkit, runtime_path = [], job_timeout = 0\<rparr>"

definition validateCloneURL :: "config_env \<Rightarrow> string \<Rightarrow> goerr option" where
  "validateCloneURL env raw =
     (case parse_url env raw of
        Inl e \<Rightarrow> Some (Opaque ''clone_url must be an HTTPS or ssh:// URL'')
      | Inr u \<Rightarrow>
          if url_host u = [] \<or> (url_scheme u \<noteq> ''https'' \<and> url_scheme u \<noteq> ''ssh'') \<or> url_query u \<noteq> [] \<or> url_fragment u \<noteq> []
          then Some (Opaque ''clone_url must be an HTTPS or ssh:// URL'')
          else case url_user u of
              None \<Rightarrow> None
            | Some password \<Rightarrow>
                if password \<or> url_scheme u \<noteq> ''ssh''
                then Some (Opaque ''clone_url must not contain credentials; use Git credentials or SSH keys'')
                else None)"

definition check_repository :: "config_env \<Rightarrow> string \<Rightarrow> repo_config \<Rightarrow> goerr + repo_config" where
  "check_repository env key r0 =
     (if \<not> routeName key \<or> \<not> repositoryName (repo_name r0)
      then Inl (Opaque (''invalid repository key or name: '' @ key))
      else
        let r = (if clone_url r0 = [] then r0\<lparr>clone_url := ''https://github.com/'' @ repo_name r0 @ ''.git''\<rparr> else r0)
        in case validateCloneURL env (clone_url r) of
            Some e \<Rightarrow> Inl (Errorf [e] (''repository '' @ key @ '': '' @ ErrorText e))
          | None \<Rightarrow>
              let r = (if api_url r = [] then r\<lparr>api_url := ''https://api.github.com''\<rparr> else r);
                  bad = Opaque (''repository '' @ key @ '': api_url must use HTTPS without credentials or query'')
              in case parse_url env (api_url r) of
                  Inl e \<Rightarrow> Inl bad
                | Inr u \<Rightarrow>
                    if url_host u = [] \<or> url_scheme u \<noteq> ''https'' \<or> url_user u \<noteq> None \<or> url_query u \<noteq> [] \<or> url_fragment u \<noteq> []
                    then Inl bad
                    else
                      let r = r\<lparr>api_url := TrimRightSlash (api_url r), token := getenv env (token_env r),
                                secret := getenv env (secret_env r)\<rparr>
                      in if token r = [] \<or> secret r = []
                         then Inl (Opaque (''repository '' @ key @ '': token_env and secret_env must name nonempty environment variables''))
                         else Inr r)"

fun check_repositories :: "config_env \<Rightarrow> (string \<times> repo_config) list \<Rightarrow> goerr + (string \<times> repo_config) list" where
  "check_repositories env [] = Inr []"
| "check_repositories env ((key, r) # rs) =
     (case check_repository env key r of
        Inl e \<Rightarrow> Inl e
      | Inr r' \<Rightarrow>
          (case check_repositories env rs of Inl e \<Rightarrow> Inl e | Inr rs' \<Rightarrow> Inr ((key, r') # rs')))"

definition ContainsAny :: "string \<Rightarrow> string \<Rightarrow> bool" where
  "ContainsAny s chars \<longleftrightarrow> list_ex (\<lambda>c. c \<in> set chars) s"

definition loadConfig :: "config_env \<Rightarrow> goerr + ci_config" where
  "loadConfig env =
     (case read_config env of Inl e \<Rightarrow> Inl e | Inr text \<Rightarrow>
      (case decode_json env default_config text of Inl e \<Rightarrow> Inl e | Inr (c, rest) \<Rightarrow>
       if \<not> at_eof env rest then Inl (Opaque ''config must contain one JSON object'')
       else if \<not> isAbs (root_dir c) \<or> Clean (root_dir c) = ''/''
       then Inl (Opaque ''root must be an absolute private directory'')
       else (case parse_url env (public_url c) of
           Inl e \<Rightarrow> Inl (Opaque ''public_url must be an http(s) origin without credentials, path, query, or fragment'')
         | Inr u \<Rightarrow>
           if url_host u = [] \<or> (url_scheme u \<noteq> ''https'' \<and> url_scheme u \<noteq> ''http'') \<or> url_user u \<noteq> None \<or>
              url_query u \<noteq> [] \<or> url_fragment u \<noteq> [] \<or> (url_path u \<noteq> [] \<and> url_path u \<noteq> ''/'')
           then Inl (Opaque ''public_url must be an http(s) origin without credentials, path, query, or fragment'')
           else
             let c = c\<lparr>public_url := TrimRightSlash (public_url c)\<rparr>;
                 c = (if work_root c = [] then c\<lparr>work_root := ''/tmp/chamber-ci-'' @ FormatUint (geteuid env)\<rparr> else c)
             in if \<not> isAbs (work_root c) \<or> Clean (work_root c) = ''/''
             then Inl (Opaque ''work_root must be an absolute private directory'')
             else
               let c = c\<lparr>root_dir := Clean (root_dir c), work_root := Clean (work_root c)\<rparr>
               in case parse_duration env (job_timeout_text c) of
                 None \<Rightarrow> Inl (Opaque ''invalid limits, job_timeout, or listen address'')
               | Some d \<Rightarrow>
                 let c = c\<lparr>job_timeout := d\<rparr>
                 in if d \<le> 0 \<or> max_parallel c < 1 \<or> max_queued c < 1 \<or> max_log_bytes c < 1024 \<or> listen c = []
                 then Inl (Opaque ''invalid limits, job_timeout, or listen address'')
                 else if repositories c = [] then Inl (Opaque ''at least one repository is required'')
                 else (case check_repositories env (repositories c) of Inl e \<Rightarrow> Inl e | Inr rs \<Rightarrow>
                   let c = c\<lparr>repositories := rs\<rparr>
                   in case validateCloneURL env (update_clone_url c) of
                     Some e \<Rightarrow> Inl (Errorf [e] (''update: '' @ ErrorText e))
                   | None \<Rightarrow>
                     if \<not> HasPrefix (update_ref c) ''refs/heads/'' \<or>
                        ContainsAny (update_ref c) ([CHR '' '', CHR 0x09, CHR 0x0A, CHR 0x0D] @ ''~^:?*['' @ [CHR 0x5C]) \<or>
                        Contains (update_ref c) ''..'' \<or> HasSuffix (update_ref c) ''/''
                     then Inl (Opaque ''update.ref must be a full branch ref'')
                     else Inr c))))"

definition repo_lookup :: "ci_config \<Rightarrow> string \<Rightarrow> repo_config option" where
  "repo_lookup c key = map_of (repositories c) key"

subsection \<open>Webhooks\<close>

record githubEvent =
  after_sha :: string
  event_ref :: string
  deleted :: bool
  action :: string
  number :: int
  full_name :: string
  head_sha :: string

definition verifySignature :: "(string \<Rightarrow> string \<Rightarrow> string) \<Rightarrow> string \<Rightarrow> string \<Rightarrow> string \<Rightarrow> bool" where
  [ci_defs]: "verifySignature hmac_sha256 body signature key =
     (if \<not> HasPrefix signature ''sha256='' then False
      else case HexDecode (TrimPrefix signature ''sha256='') of
          None \<Rightarrow> False
        | Some provided \<Rightarrow> provided = hmac_sha256 key body)"

definition parseEvent :: "(string \<Rightarrow> goerr + githubEvent) \<Rightarrow> string \<Rightarrow> string \<Rightarrow> repo_config \<Rightarrow> goerr + (string \<times> string)" where
  "parseEvent unmarshal kind body repo =
     (if kind = ''ping'' then Inr ([], [])
      else if kind \<noteq> ''push'' \<and> kind \<noteq> ''pull_request'' then Inr ([], [])
      else case unmarshal body of
          Inl e \<Rightarrow> Inl e
        | Inr e \<Rightarrow>
          if \<not> EqualFold (full_name e) (repo_name repo) then Inl (Opaque ''repository does not match configured webhook'')
          else
            let checked = (\<lambda>sha ref. if \<not> commitSHA sha \<or> sha = replicate 40 CHR ''0''
                                     then Inl (Opaque ''missing or invalid commit SHA'') else Inr (sha, ref))
            in if kind = ''push'' then
                (if deleted e \<or> \<not> HasPrefix (event_ref e) ''refs/heads/'' then Inr ([], [])
                 else checked (after_sha e) (event_ref e))
              else
                (if action e \<noteq> ''opened'' \<and> action e \<noteq> ''synchronize'' \<and> action e \<noteq> ''reopened'' \<and> action e \<noteq> ''ready_for_review''
                 then Inr ([], [])
                 else if number e \<le> 0 then Inl (Opaque ''missing pull request number'')
                 else checked (head_sha e) (''refs/pull/'' @ FormatUint (nat (number e)) @ ''/head'')))"

subsection \<open>Commit statuses\<close>

record status_request =
  req_url :: string
  req_headers :: "(string \<times> string) list"
  req_fields :: "(string \<times> string) list"

definition status_of :: "job \<Rightarrow> string" where
  "status_of j = (if job_terminal j then jstate j else ''pending'')"

definition status_request_of :: "repo_config \<Rightarrow> job \<Rightarrow> string \<Rightarrow> status_request" where
  "status_request_of repo j base = \<lparr>
     req_url = api_url repo @ ''/repos/'' @ repo_name repo @ ''/statuses/'' @ sha j,
     req_headers = [(''Authorization'', ''Bearer '' @ token repo), (''Accept'', ''application/vnd.github+json''),
       (''Content-Type'', ''application/json''), (''X-GitHub-Api-Version'', ''2022-11-28'')],
     req_fields = [(''state'', status_of j), (''context'', ''chamber''), (''description'', message j),
       (''target_url'', base @ ''/runs/'' @ job_id j)]\<rparr>"

text \<open>\<open>client\<close> is the HTTP exchange: a transport error or the status code of the response.\<close>

definition reportStatus :: "(string \<Rightarrow> goerr option) \<Rightarrow> (status_request \<Rightarrow> goerr + int) \<Rightarrow> repo_config \<Rightarrow> job \<Rightarrow> string \<Rightarrow> goerr option" where
  "reportStatus new_request client repo j base =
     (let req = status_request_of repo j base in
      case new_request (req_url req) of
        Some e \<Rightarrow> Some e
      | None \<Rightarrow>
        (case client req of
           Inl e \<Rightarrow> Some (Errorf [e] (''GitHub status request: '' @ ErrorText e))
         | Inr status \<Rightarrow>
             if status < 200 \<or> 300 \<le> status then Some (Opaque ''GitHub status HTTP '') else None))"

subsection \<open>Job workspaces and the environment of subprocesses\<close>

text \<open>\<open>fmt.Sprintf("%x", key[:12])\<close> is the lower-case hex encoding.\<close>

definition jobWorkspace :: "(string \<Rightarrow> string) \<Rightarrow> nat \<Rightarrow> ci_config \<Rightarrow> string \<Rightarrow> string" where
  "jobWorkspace sha256 euid c i =
     (let root = (if work_root c = [] then ''/tmp/chamber-ci-'' @ FormatUint euid else work_root c)
      in Join [root, HexEncode (take 12 (sha256 (root_dir c @ [CHR 0x00] @ i)))])"

definition commandEnvironment :: "(string \<Rightarrow> string option) \<Rightarrow> string list" where
  "commandEnvironment lookup_env =
     [''GIT_TERMINAL_PROMPT=0'', ''GIT_CONFIG_NOSYSTEM=1'', ''GOWORK=off'', ''CGO_ENABLED=0''] @
     concat (map (\<lambda>key. case lookup_env key of None \<Rightarrow> [] | Some v \<Rightarrow> [key @ ''='' @ v])
       [''PATH'', ''HOME'', ''USER'', ''TMPDIR'', ''SSH_AUTH_SOCK'', ''SSL_CERT_FILE'', ''SSL_CERT_DIR''])"

subsection \<open>Accepted configurations\<close>

definition repo_ok :: "config_env \<Rightarrow> string \<times> repo_config \<Rightarrow> bool" where
  "repo_ok env kr \<longleftrightarrow> (case kr of (k, r) \<Rightarrow> routeName k \<and> repositoryName (repo_name r) \<and> token r \<noteq> [] \<and> secret r \<noteq> [] \<and>
     validateCloneURL env (clone_url r) = None \<and>
     (\<exists>a u. api_url r = TrimRightSlash a \<and> parse_url env a = Inr u \<and> url_scheme u = ''https'' \<and> url_host u \<noteq> [] \<and>
        url_user u = None \<and> url_query u = [] \<and> url_fragment u = []))"

definition dir_ok :: "string \<Rightarrow> bool" where
  "dir_ok p \<longleftrightarrow> isAbs p \<and> Clean p = p \<and> comps p \<noteq> []"

definition config_ok :: "config_env \<Rightarrow> ci_config \<Rightarrow> bool" where
  "config_ok env c \<longleftrightarrow> dir_ok (root_dir c) \<and> dir_ok (work_root c) \<and> 0 < job_timeout c \<and> 1 \<le> max_parallel c \<and>
     1 \<le> max_queued c \<and> 1024 \<le> max_log_bytes c \<and> listen c \<noteq> [] \<and> repositories c \<noteq> [] \<and>
     list_all (repo_ok env) (repositories c) \<and> validateCloneURL env (update_clone_url c) = None \<and>
     HasPrefix (update_ref c) ''refs/heads/'' \<and> \<not> Contains (update_ref c) ''..''"

lemma check_repository_ok: "check_repository env k r = Inr r' \<Longrightarrow> repo_ok env (k, r')"
  unfolding check_repository_def Let_def repo_ok_def
  by (force split: if_splits option.splits sum.splits)

lemma check_repositories_ok: "check_repositories env rs = Inr rs' \<Longrightarrow> list_all (repo_ok env) rs' \<and> length rs' = length rs"
proof (induction rs arbitrary: rs')
  case (Cons kr rs)
  obtain k r where kr: "kr = (k, r)" by (cases kr)
  show ?case using Cons by (auto simp: kr check_repository_ok split: sum.splits)
qed simp

lemma dir_ok_Clean: "isAbs p \<Longrightarrow> Clean p \<noteq> ''/'' \<Longrightarrow> dir_ok (Clean p)"
  using comps_rooted [of p] by (auto simp: dir_ok_def Clean_isAbs comps_abs_path)

lemma loadConfig_ok_aux:
  assumes "loadConfig env = Inr c"
  shows "config_ok env c"
  using assms unfolding loadConfig_def Let_def
  by (auto simp: config_ok_def dir_ok_Clean split: sum.splits prod.splits if_splits option.splits dest: check_repositories_ok)

lemma parseEvent_aux:
  assumes "parseEvent unmarshal kind body repo = Inr (s, r)" "s \<noteq> []"
  shows "commitSHA s \<and> (\<exists>e. unmarshal body = Inr e \<and> EqualFold (full_name e) (repo_name repo))"
  using assms by (auto simp: parseEvent_def Let_def split: if_splits sum.splits)

lemma jobWorkspace_abs:
  assumes "dir_ok (work_root c)" "sha256 (root_dir c @ [CHR 0x00] @ i) \<noteq> []"
  shows "jobWorkspace sha256 euid c i =
    abs_path (comps (work_root c) @ [HexEncode (take 12 (sha256 (root_dir c @ [CHR 0x00] @ i)))])"
proof -
  let ?k = "take 12 (sha256 (root_dir c @ [CHR 0x00] @ i))"
  have "safe_component (HexEncode ?k)" using HexEncode_validID [of ?k] assms(2) validID_safe by auto
  moreover have "work_root c \<noteq> []" using assms(1) by (auto simp: dir_ok_def isAbs_iff)
  ultimately show ?thesis using assms(1) by (simp add: jobWorkspace_def Let_def dir_ok_def Join_abs)
qed

end
