(* ===== verification/CI_Handlers.thy ===== *)
theory CI_Handlers
  imports CI_Config
begin

text \<open>
  The HTTP handlers of \<open>cmd/ci/server.go\<close> and the functions its background loops run on the
  store: \<open>postWebhook\<close>, \<open>getRun\<close>, \<open>getRunLog\<close>, \<open>validateStoredJobs\<close>, the outcome that
  \<open>runJob\<close> saves, \<open>reportJobStatuses\<close> and \<open>reportJobUpdates\<close>.

  Whatever happens at the same time (other handlers, the dispatcher) is an explicit list of
  store operations where the code does not hold the lock; every call that can fail has its
  result as an argument.
\<close>

record ci_env =
  sha256 :: "string \<Rightarrow> string"
  hmac_sha256 :: "string \<Rightarrow> string \<Rightarrow> string"
  unmarshal :: "string \<Rightarrow> goerr + githubEvent"
  euid :: nat

datatype http_body = NoBody | Text string | JobJSON job | RunPage job | LogBytes string

record http_response =
  http_status :: nat
  http_headers :: "(string \<times> string) list"
  http_body :: http_body

record webhook =
  wh_key :: string
  wh_body :: "goerr + string"
  wh_signature :: string
  wh_event :: string

definition plain :: "nat \<Rightarrow> string \<Rightarrow> http_response" where
  "plain st msg = \<lparr>http_status = st, http_headers = [], http_body = Text msg\<rparr>"

definition not_found :: http_response where
  "not_found = plain 404 ''404 page not found''"

definition retry_later :: "nat \<Rightarrow> string \<Rightarrow> http_response" where
  "retry_later st msg = \<lparr>http_status = st, http_headers = [(''Retry-After'', ''10'')], http_body = Text msg\<rparr>"

text \<open>\<open>io.ReadAll(http.MaxBytesReader(w, r.Body, 2<<20))\<close>\<close>

definition read_limited :: "goerr + string \<Rightarrow> goerr + string" where
  "read_limited b =
     (case b of
        Inl e \<Rightarrow> Inl e
      | Inr s \<Rightarrow> if 2 * 2 ^ 20 < length s then Inl (Opaque ''http: request body too large'') else Inr s)"

subsection \<open>Webhook, run page and log\<close>

definition new_job :: "ci_env \<Rightarrow> ci_config \<Rightarrow> int \<Rightarrow> string \<Rightarrow> repo_config \<Rightarrow> string \<Rightarrow> string \<Rightarrow> job" where
  "new_job env c now key repo s r =
     (let i = jobID (sha256 env) key s in
      \<lparr>job_id = i, repository = key, repository_name = repo_name repo,
       workspace = jobWorkspace (sha256 env) (euid env) c i, sha = s, ref = r, jstate = ''queued'',
       message = ''Waiting for CI worker'', created_at = now, finished_at = zero_time, reported = False,
       cleaned = False, version = 0\<rparr>)"

text \<open>\<open>acc\<close> is \<open>s.accepting\<close>, read under the lock that also covers \<open>Admit\<close>.\<close>

definition postWebhook :: "ci_env \<Rightarrow> ci_config \<Rightarrow> bool \<Rightarrow> int \<Rightarrow> db_outcome \<Rightarrow> db_outcome \<Rightarrow> webhook \<Rightarrow> job list
    \<Rightarrow> http_response \<times> job list" where
  "postWebhook env c acc now o1 o2 req rows =
     (case repo_lookup c (wh_key req) of None \<Rightarrow> (not_found, rows) | Some repo \<Rightarrow>
      (case read_limited (wh_body req) of Inl e \<Rightarrow> (plain 413 ''webhook too large or unreadable'', rows) | Inr body \<Rightarrow>
       if \<not> verifySignature (hmac_sha256 env) body (wh_signature req) (secret repo)
       then (plain 401 ''invalid signature'', rows)
       else (case parseEvent (unmarshal env) (wh_event req) body repo of
           Inl e \<Rightarrow> (plain 400 (ErrorText e), rows)
         | Inr (s, r) \<Rightarrow>
           if s = [] then (\<lparr>http_status = 204, http_headers = [], http_body = NoBody\<rparr>, rows)
           else
             let j = new_job env c now (wh_key req) repo s r in
             if \<not> acc then (retry_later 503 ''CI server is draining'', rows)
             else (case Admit (sha256 env) o1 o2 j (max_queued c) rows of
                 (Inl QueueFull, rows') \<Rightarrow> (retry_later 429 ''CI queue is full'', rows')
               | (Inl e, rows') \<Rightarrow> (plain 500 ''cannot persist job'', rows')
               | (Inr (saved, created), rows') \<Rightarrow>
                   (\<lparr>http_status = (if created then 202 else 200),
                     http_headers = [(''Content-Type'', ''application/json''),
                       (''Location'', public_url c @ ''/runs/'' @ job_id j)],
                     http_body = JobJSON saved\<rparr>, rows')))))"

definition getRun :: "db_outcome \<Rightarrow> string \<Rightarrow> job list \<Rightarrow> http_response" where
  "getRun o1 i rows =
     (case Get o1 i rows of
        Inl JobNotFound \<Rightarrow> not_found
      | Inl e \<Rightarrow> plain 500 ''cannot read job''
      | Inr j \<Rightarrow> \<lparr>http_status = 200, http_headers = [(''Content-Type'', ''text/html; charset=utf-8''),
          (''Cache-Control'', ''no-store''), (''X-Content-Type-Options'', ''nosniff'')], http_body = RunPage j\<rparr>)"

definition log_path :: "ci_config \<Rightarrow> string \<Rightarrow> string" where
  "log_path c i = Join [root_dir c, ''logs'', i @ ''.log'']"

text \<open>\<open>open_file\<close> gives the content of the log or the error of \<open>os.Open\<close>.\<close>

definition getRunLog :: "ci_config \<Rightarrow> (string \<Rightarrow> goerr + string) \<Rightarrow> db_outcome \<Rightarrow> string \<Rightarrow> job list \<Rightarrow> http_response" where
  "getRunLog c open_file o1 i rows =
     (case Get o1 i rows of
        Inl JobNotFound \<Rightarrow> not_found
      | Inl e \<Rightarrow> plain 500 ''cannot read job''
      | Inr j \<Rightarrow>
          let hdrs = [(''Content-Type'', ''text/plain; charset=utf-8''), (''Cache-Control'', ''no-store''),
                      (''X-Content-Type-Options'', ''nosniff'')]
          in case open_file (log_path c (job_id j)) of
              Inl e \<Rightarrow>
                if errIsNotExist e then \<lparr>http_status = 200, http_headers = hdrs, http_body = NoBody\<rparr>
                else \<lparr>http_status = 500, http_headers = hdrs, http_body = Text ''cannot read log''\<rparr>
            | Inr content \<Rightarrow>
                \<lparr>http_status = 200, http_headers = hdrs, http_body = LogBytes (take (nat (max_log_bytes c)) content)\<rparr>)"

text \<open>The decision of \<open>postUpdate\<close> before and under the lock; the flags are \<open>updating\<close> and \<open>accepting\<close>.\<close>

datatype update_decision = BadPasscode | UpdateConflict | StartUpdate

definition postUpdate_decision :: "string \<Rightarrow> string \<Rightarrow> bool \<Rightarrow> bool \<Rightarrow> update_decision" where
  "postUpdate_decision passcode authorization upd acc =
     (let provided = TrimPrefix authorization ''Bearer '' in
      if \<not> HasPrefix authorization ''Bearer '' \<or> provided \<noteq> passcode then BadPasscode
      else if upd \<or> \<not> acc then UpdateConflict
      else StartUpdate)"

fun update_response :: "update_decision \<Rightarrow> http_response" where
  "update_response BadPasscode = plain 401 ''invalid update passcode''"
| "update_response UpdateConflict = plain 409 ''update or shutdown already in progress''"
| "update_response StartUpdate = plain 202 (''Update accepted; progress is in update.log'' @ [CHR 0x0A])"

subsection \<open>Startup checks\<close>

fun validate_jobs :: "ci_env \<Rightarrow> ci_config \<Rightarrow> job list \<Rightarrow> goerr option" where
  "validate_jobs env c [] = None"
| "validate_jobs env c (j # js) =
     (if \<not> cleaned j \<and> workspace j \<noteq> jobWorkspace (sha256 env) (euid env) c (job_id j)
      then Some (Opaque (''job '' @ job_id j @ '' still owns workspace '' @ workspace j @ ''; restore root/work_root before recovery''))
      else case repo_lookup c (repository j) of
          None \<Rightarrow> Some (Opaque (''repository '' @ repository j @ '' still has unreconciled job '' @ job_id j @ ''; restore its config first''))
        | Some repo \<Rightarrow>
            if \<not> EqualFold (repo_name repo) (repository_name j)
            then Some (Opaque (''repository '' @ repository j @ '' still has unreconciled job '' @ job_id j @ ''; restore its config first''))
            else validate_jobs env c js)"

definition validateStoredJobs :: "ci_env \<Rightarrow> ci_config \<Rightarrow> db_outcome \<Rightarrow> job list \<Rightarrow> goerr option" where
  "validateStoredJobs env c o1 rows =
     (case Unsettled o1 rows of
        Inl e \<Rightarrow> Some (Opaque ''read unsettled jobs'')
      | Inr js \<Rightarrow> validate_jobs env c js)"

subsection \<open>The outcome a worker saves\<close>

text \<open>
  What can happen in \<open>runJob\<close>: the log may not open, the context may be done before or after
  the execution, the execution returns a state and an error or panics, closing the log fails.
\<close>

datatype exec_result = Panicked | Returned string "goerr option"

record job_events =
  log_opens :: bool
  canceled_early :: bool
  exec_result :: exec_result
  canceled_late :: bool
  log_closes :: bool

definition runJob_body :: "job_events \<Rightarrow> string \<times> string" where
  "runJob_body ev =
     (if \<not> log_opens ev \<or> canceled_early ev then (''error'', ''CI worker did not complete'')
      else case exec_result ev of
          Panicked \<Rightarrow> (''error'', ''CI worker panicked'')
        | Returned st (Some e) \<Rightarrow> (st, ''Dockerfile.chamber CI failed; see logs'')
        | Returned st None \<Rightarrow> (st, ''Dockerfile.chamber CI passed''))"

definition runJob_outcome :: "job_events \<Rightarrow> string \<times> string" where
  "runJob_outcome ev =
     (let (st, msg) = runJob_body ev;
          (st, msg) = (if canceled_early ev \<or> canceled_late ev then (''error'', ''CI job canceled or timed out'') else (st, msg))
      in if log_opens ev \<and> \<not> log_closes ev then (''error'', ''Could not persist CI log'') else (st, msg))"

subsection \<open>Status delivery and cleanup\<close>

datatype report_err = ReportCanceled | ReportStore store_err

record delivery =
  ctx_before :: bool
  new_request :: "string \<Rightarrow> goerr option"
  http_client :: "status_request \<Rightarrow> goerr + int"
  ctx_after :: bool
  meanwhile :: "store_op list"
  ack_outcome :: db_outcome

text \<open>A repository that is not configured is Go's zero value.\<close>

definition zero_repo :: repo_config where
  "zero_repo = \<lparr>repo_name = [], clone_url = [], api_url = [], token_env = [], secret_env = [], token = [], secret = []\<rparr>"

definition repo_of :: "ci_config \<Rightarrow> string \<Rightarrow> repo_config" where
  "repo_of c key = (case repo_lookup c key of None \<Rightarrow> zero_repo | Some r \<Rightarrow> r)"

fun report_jobs :: "ci_env \<Rightarrow> ci_config \<Rightarrow> (string \<Rightarrow> delivery) \<Rightarrow> job list \<Rightarrow> job list \<Rightarrow> report_err option \<times> job list" where
  "report_jobs env c ds [] rows = (None, rows)"
| "report_jobs env c ds (j # js) rows =
     (if reported j then report_jobs env c ds js rows
      else let d = ds (job_id j) in
        if ctx_before d then (Some ReportCanceled, rows)
        else
          let rows1 = run_ops (sha256 env) (max_queued c) (max_parallel c) (meanwhile d) rows in
          case reportStatus (new_request d) (http_client d) (repo_of c (repository j)) j (public_url c) of
            Some e \<Rightarrow> if ctx_after d then (Some ReportCanceled, rows1) else report_jobs env c ds js rows1
          | None \<Rightarrow>
              (case Acknowledge (ack_outcome d) (job_id j) (version j) rows1 of
                 (Some e, rows2) \<Rightarrow> (Some (ReportStore e), rows2)
               | (None, rows2) \<Rightarrow> report_jobs env c ds js rows2))"

definition reportJobStatuses :: "ci_env \<Rightarrow> ci_config \<Rightarrow> db_outcome \<Rightarrow> (string \<Rightarrow> delivery) \<Rightarrow> job list \<Rightarrow> report_err option \<times> job list" where
  "reportJobStatuses env c o1 ds rows =
     (case Unsettled o1 rows of
        Inl e \<Rightarrow> (Some (ReportStore e), rows)
      | Inr js \<Rightarrow> report_jobs env c ds js rows)"

text \<open>\<open>cl\<close> says, per job, whether the workspace was removed and how its row update went.\<close>

fun clean_jobs :: "(string \<Rightarrow> bool \<times> db_outcome) \<Rightarrow> job list \<Rightarrow> job list \<Rightarrow> report_err option \<times> job list" where
  "clean_jobs cl [] rows = (None, rows)"
| "clean_jobs cl (j # js) rows =
     (if \<not> job_terminal j \<or> cleaned j then clean_jobs cl js rows
      else case cl (job_id j) of
          (False, _) \<Rightarrow> clean_jobs cl js rows
        | (True, o1) \<Rightarrow>
            (case MarkCleaned o1 (job_id j) rows of
               (Some e, rows') \<Rightarrow> (Some (ReportStore e), rows')
             | (None, rows') \<Rightarrow> clean_jobs cl js rows'))"

definition reportJobUpdates :: "ci_env \<Rightarrow> ci_config \<Rightarrow> db_outcome \<Rightarrow> db_outcome \<Rightarrow> (string \<Rightarrow> delivery) \<Rightarrow> (string \<Rightarrow> bool \<times> db_outcome)
    \<Rightarrow> job list \<Rightarrow> report_err option \<times> job list" where
  "reportJobUpdates env c o1 o2 ds cl rows =
     (case reportJobStatuses env c o1 ds rows of
        (Some e, rows1) \<Rightarrow> (Some e, rows1)
      | (None, rows1) \<Rightarrow>
          (case Unsettled o2 rows1 of
             Inl e \<Rightarrow> (Some (ReportStore e), rows1)
           | Inr js \<Rightarrow> clean_jobs cl js rows1))"

subsection \<open>Lemmas on the webhook path\<close>

lemma isAbs_Join: "isAbs p \<Longrightarrow> isAbs (Join (p # cs))"
proof -
  assume a: "isAbs p"
  then have p: "p \<noteq> []" by (auto simp: isAbs_iff)
  have "isAbs (JoinStrings (p # cs) ''/'')" using a by (cases cs) (auto simp: isAbs_iff)
  then show ?thesis using p by (simp add: Join_def Clean_isAbs)
qed

lemma jobWorkspace_isAbs: "dir_ok (work_root c) \<Longrightarrow> isAbs (jobWorkspace h u c i)"
  by (auto simp: jobWorkspace_def Let_def dir_ok_def isAbs_Join isAbs_iff [of "work_root c"])

lemma repo_lookup_ok:
  assumes "config_ok ce c" "repo_lookup c k = Some r"
  shows "routeName k" "repositoryName (repo_name r)" "secret r \<noteq> []"
  using assms map_of_SomeD [of "repositories c" k r]
  by (auto simp: config_ok_def repo_lookup_def list_all_iff repo_ok_def)

lemma new_job_admissible:
  assumes "config_ok ce c" "repo_lookup c key = Some repo" "commitSHA s" "now \<noteq> zero_time"
  shows "admissible (sha256 env) (new_job env c now key repo s r)"
  using assms repo_lookup_ok [OF assms(1,2)] jobWorkspace_isAbs [of c "sha256 env" "euid env"]
  by (simp add: admissible_def new_job_def Let_def config_ok_def)

lemma Admit_changes:
  assumes "snd (Admit h o1 o2 j Q rows) \<noteq> rows"
  shows "admissible h j \<and> lookup rows (job_id j) = None \<and> int (count_state ''queued'' rows) < Q \<and>
    snd (Admit h o1 o2 j Q rows) = rows @ [j\<lparr>finished_at := 0, reported := False, cleaned := False, version := 1\<rparr>]"
proof -
  have "admissible h j" and e: "snd (Admit h o1 o2 j Q rows) = fst (stmt_insert j Q rows)"
    using Admit_state [of h o1 o2 j Q rows] assms by auto
  then show ?thesis using assms by (auto simp: stmt_insert_def Let_def split: if_splits)
qed

lemma webhook_rows:
  "snd (postWebhook env c acc now o1 o2 req rows) = rows \<or>
   (\<exists>repo body s r. repo_lookup c (wh_key req) = Some repo \<and> read_limited (wh_body req) = Inr body \<and>
      verifySignature (hmac_sha256 env) body (wh_signature req) (secret repo) \<and>
      parseEvent (unmarshal env) (wh_event req) body repo = Inr (s, r) \<and> s \<noteq> [] \<and> acc \<and>
      snd (postWebhook env c acc now o1 o2 req rows) =
        snd (Admit (sha256 env) o1 o2 (new_job env c now (wh_key req) repo s r) (max_queued c) rows))"
proof (cases "repo_lookup c (wh_key req)")
  case None
  then show ?thesis by (simp add: postWebhook_def)
next
  case repo: (Some repo)
  show ?thesis
  proof (cases "read_limited (wh_body req)")
    case (Inl e)
    then show ?thesis by (simp add: postWebhook_def repo)
  next
    case body: (Inr body)
    show ?thesis
    proof (cases "parseEvent (unmarshal env) (wh_event req) body repo")
      case (Inl e)
      then show ?thesis by (simp add: postWebhook_def repo body)
    next
      case (Inr sr)
      obtain s r where sr: "sr = (s, r)" by (cases sr)
      let ?A = "Admit (sha256 env) o1 o2 (new_job env c now (wh_key req) repo s r) (max_queued c) rows"
      have "snd (postWebhook env c acc now o1 o2 req rows) =
          (if verifySignature (hmac_sha256 env) body (wh_signature req) (secret repo) \<and> s \<noteq> [] \<and> acc then snd ?A else rows)"
        by (cases ?A) (auto simp: postWebhook_def repo body Inr sr Let_def split: sum.splits store_err.splits)
      then show ?thesis using repo body Inr sr by auto
    qed
  qed
qed

lemma HexEncode_no_slash: "CHR ''/'' \<notin> set (HexEncode s)"
  using HexEncode_lower [of s] hex_lower_alnum is_alnum_simps(1) by (metis list_all_iff)

lemma safe_log: "CHR ''/'' \<notin> set x \<Longrightarrow> safe_component (x @ ''.log'')"
  by (auto simp: safe_component_def dest: arg_cong [where f = length])

lemma log_name_safe: "safe_component (jobID h k s @ ''.log'')"
  by (rule safe_log) (simp add: jobID_def HexEncode_no_slash)

lemma logs_safe: "safe_component ''logs''"
  by (simp add: safe_component_def)

lemma run_ops_append: "run_ops h Q P (xs @ ys) rows = run_ops h Q P ys (run_ops h Q P xs rows)"
  by (simp add: run_ops_def)

lemma Acknowledge_op: "snd (Acknowledge o1 i v rows) = run_ops h Q P [OAck o1 i v] rows"
  by (simp add: run_ops_def)

lemma MarkCleaned_op: "snd (MarkCleaned o1 i rows) = run_ops h Q P [OCleaned o1 i] rows"
  by (simp add: run_ops_def)

text \<open>A delivery pass is a sequence of store operations.\<close>

lemma report_jobs_ops:
  "\<exists>ops. snd (report_jobs env c ds js rows) = run_ops (sha256 env) (max_queued c) (max_parallel c) ops rows"
proof (induction js arbitrary: rows)
  case Nil
  have "rows = run_ops (sha256 env) (max_queued c) (max_parallel c) [] rows" by (simp add: run_ops_def)
  then show ?case by (metis report_jobs.simps(1) snd_conv)
next
  case (Cons j js)
  let ?R = "run_ops (sha256 env) (max_queued c) (max_parallel c)"
  let ?d = "ds (job_id j)"
  have none: "\<exists>ops. rows = ?R ops rows" by (rule exI [of _ "[]"]) (simp add: run_ops_def)
  have more: "\<exists>ops'. snd (report_jobs env c ds js (?R ops rows)) = ?R ops' rows" for ops
    using Cons.IH [of "?R ops rows"] by (metis run_ops_append)
  have ack: "?R [OAck (ack_outcome ?d) (job_id j) (version j)] (?R (meanwhile ?d) rows) =
      ?R (meanwhile ?d @ [OAck (ack_outcome ?d) (job_id j) (version j)]) rows"
    by (simp add: run_ops_append)
  obtain e rows2 where a: "Acknowledge (ack_outcome ?d) (job_id j) (version j) (?R (meanwhile ?d) rows) = (e, rows2)"
    by (cases "Acknowledge (ack_outcome ?d) (job_id j) (version j) (?R (meanwhile ?d) rows)")
  have r2: "rows2 = ?R (meanwhile ?d @ [OAck (ack_outcome ?d) (job_id j) (version j)]) rows"
    using Acknowledge_op [of "ack_outcome ?d" "job_id j" "version j" "?R (meanwhile ?d) rows"] a ack by simp
  show ?case
    using none Cons.IH [of rows] more [of "meanwhile ?d"]
      more [of "meanwhile ?d @ [OAck (ack_outcome ?d) (job_id j) (version j)]", folded r2]
    by (auto simp: Let_def a r2 split: option.splits)
qed

text \<open>Which rows a quiet pass (nothing else running, no write failing) marks as reported.\<close>

definition delivered :: "ci_config \<Rightarrow> (string \<Rightarrow> delivery) \<Rightarrow> job \<Rightarrow> bool" where
  "delivered c ds j \<longleftrightarrow>
     reportStatus (new_request (ds (job_id j))) (http_client (ds (job_id j))) (repo_of c (repository j)) j (public_url c) = None"

definition quiet :: "delivery \<Rightarrow> bool" where
  "quiet d \<longleftrightarrow> \<not> ctx_before d \<and> \<not> ctx_after d \<and> meanwhile d = [] \<and> ack_outcome d = Commit"

definition mark_reported :: "(job \<Rightarrow> bool) \<Rightarrow> job list \<Rightarrow> job list" where
  "mark_reported P rows = db_update P (\<lambda>r. r\<lparr>reported := True\<rparr>) rows"

lemma mark_reported_compose:
  assumes "\<And>r. P2 (r\<lparr>reported := True\<rparr>) = P2 r"
  shows "mark_reported P2 (mark_reported P1 rows) = mark_reported (\<lambda>r. P1 r \<or> P2 r) rows"
  by (simp add: mark_reported_def db_update_def assms)

lemma mark_reported_cong:
  "(\<And>r. r \<in> set rows \<Longrightarrow> P r = P' r) \<Longrightarrow> mark_reported P rows = mark_reported P' rows"
  by (simp add: mark_reported_def db_update_def)

definition ack_hits :: "ci_config \<Rightarrow> (string \<Rightarrow> delivery) \<Rightarrow> job list \<Rightarrow> job \<Rightarrow> bool" where
  "ack_hits c ds js r \<longleftrightarrow> list_ex (\<lambda>j. \<not> reported j \<and> delivered c ds j \<and> job_id r = job_id j \<and> version r = version j) js"

lemma ack_hits_reported [simp]: "ack_hits c ds js (r\<lparr>reported := x\<rparr>) = ack_hits c ds js r"
  by (simp add: ack_hits_def)

lemma report_jobs_quiet:
  "\<forall>i. quiet (ds i) \<Longrightarrow> report_jobs env c ds js rows = (None, mark_reported (ack_hits c ds js) rows)"
proof (induction js arbitrary: rows)
  case Nil
  then show ?case by (simp add: ack_hits_def mark_reported_def db_update_def)
next
  case (Cons j js)
  have q: "\<not> ctx_before (ds i)" "\<not> ctx_after (ds i)" "meanwhile (ds i) = []" "ack_outcome (ds i) = Commit" for i
    using Cons.prems by (auto simp: quiet_def)
  consider "reported j" | "\<not> reported j" "\<not> delivered c ds j" | "\<not> reported j" "delivered c ds j" by blast
  then show ?case
  proof cases
    case 1
    then show ?thesis using Cons by (simp add: ack_hits_def)
  next
    case 2
    then have "ack_hits c ds (j # js) = ack_hits c ds js" by (simp add: ack_hits_def fun_eq_iff)
    then show ?thesis using 2 Cons by (auto simp: q run_ops_def delivered_def split: option.splits)
  next
    case 3
    have "Acknowledge Commit (job_id j) (version j) rows = (None, mark_reported (\<lambda>r. job_id r = job_id j \<and> version r = version j) rows)"
      by (simp add: Acknowledge_def run_write_def stmt_ack_def mark_reported_def)
    moreover have "ack_hits c ds (j # js) = (\<lambda>r. (job_id r = job_id j \<and> version r = version j) \<or> ack_hits c ds js r)"
      using 3 by (simp add: ack_hits_def fun_eq_iff)
    ultimately show ?thesis using 3 Cons by (simp add: q run_ops_def delivered_def mark_reported_compose)
  qed
qed

lemma status_request_scan [simp]: "status_request_of repo (scanJob r) b = status_request_of repo r b"
  by (simp add: status_request_of_def status_of_def job_terminal_def cong: if_cong)

lemma delivered_scan [simp]: "delivered c ds (scanJob r) = delivered c ds r"
  by (simp add: delivered_def reportStatus_def)

lemma ack_hits_Unsettled:
  assumes "distinct (map job_id rows)" "r \<in> set rows"
  shows "ack_hits c ds (map scanJob (sort_key job_key (filter (\<lambda>r. reported r \<longrightarrow> \<not> cleaned r) rows))) r \<longleftrightarrow>
    \<not> reported r \<and> delivered c ds r"
proof -
  have "r' = r" if "r' \<in> set rows" "job_id r = job_id r'" for r'
    using assms that by (metis lookup_mem option.inject)
  then show ?thesis using assms(2) by (auto simp: ack_hits_def list_ex_iff)
qed

lemma quiet_pass:
  assumes "distinct (map job_id rows)" "\<forall>i. quiet (ds i)"
  shows "reportJobStatuses env c Commit ds rows = (None, mark_reported (\<lambda>r. \<not> reported r \<and> delivered c ds r) rows)"
  using assms by (auto simp: reportJobStatuses_def Unsettled_def report_jobs_quiet ack_hits_Unsettled intro!: mark_reported_cong)

text \<open>A cleanup pass only removes workspaces of finished jobs.\<close>

lemma clean_jobs_ops:
  "\<exists>is. snd (clean_jobs cl js rows) = run_ops h Q P is rows \<and> set is \<subseteq>
     {OCleaned (snd (cl (job_id j))) (job_id j) | j. j \<in> set js \<and> job_terminal j \<and> \<not> cleaned j \<and> fst (cl (job_id j))}"
proof (induction js arbitrary: rows)
  case Nil
  show ?case by (rule exI [of _ "[]"]) (simp add: run_ops_def)
next
  case (Cons j js)
  let ?S = "\<lambda>js. {OCleaned (snd (cl (job_id j))) (job_id j) | j. j \<in> set js \<and> job_terminal j \<and> \<not> cleaned j \<and> fst (cl (job_id j))}"
  have mono: "?S js \<subseteq> ?S (j # js)" by auto
  have skip: "\<exists>is. snd (clean_jobs cl js rows) = run_ops h Q P is rows \<and> set is \<subseteq> ?S (j # js)"
    using Cons.IH [of rows] by (elim exE conjE) (intro exI conjI, assumption, erule order_trans [OF _ mono])
  show ?case
  proof (cases "job_terminal j \<and> \<not> cleaned j \<and> fst (cl (job_id j))")
    case False
    then have "clean_jobs cl (j # js) rows = clean_jobs cl js rows"
      by (cases "cl (job_id j)"; cases "fst (cl (job_id j))") simp_all
    then show ?thesis using skip by (simp only:)
  next
    case True
    then obtain o1 where o1: "cl (job_id j) = (True, o1)" by (cases "cl (job_id j)") auto
    let ?m = "OCleaned o1 (job_id j)"
    obtain e rows' where m: "MarkCleaned o1 (job_id j) rows = (e, rows')" by (cases "MarkCleaned o1 (job_id j) rows")
    have r': "rows' = run_ops h Q P [?m] rows" using MarkCleaned_op [of o1 "job_id j" rows h Q P] m by simp
    have in_S: "?m \<in> ?S (j # js)" using True o1 by (auto intro!: exI [of _ j])
    show ?thesis
    proof (cases e)
      case None
      obtain "is" where "snd (clean_jobs cl js rows') = run_ops h Q P is rows'" "set is \<subseteq> ?S js"
        using Cons.IH [of rows'] by (elim exE conjE)
      moreover from this(2) have "set is \<subseteq> ?S (j # js)" by (rule order_trans [OF _ mono])
      moreover have "set (?m # is) \<subseteq> ?S (j # js)"
        using in_S calculation(3) by (simp only: list.set insert_subset simp_thms)
      moreover have "clean_jobs cl (j # js) rows = clean_jobs cl js rows'" using True o1 m None by simp
      moreover have "run_ops h Q P (?m # is) rows = run_ops h Q P is rows'" using r' by (simp add: run_ops_def)
      ultimately show ?thesis by (intro exI [of _ "?m # is"] conjI) (simp_all only:)
    next
      case (Some x)
      then have "snd (clean_jobs cl (j # js) rows) = run_ops h Q P [?m] rows" using True o1 m r' by simp
      moreover have "set [?m] \<subseteq> ?S (j # js)" using in_S by (simp only: list.set insert_subset empty_subsetI simp_thms)
      ultimately show ?thesis by (intro exI [of _ "[?m]"] conjI)
    qed
  qed
qed

subsection \<open>A concrete configuration for the witnesses\<close>

definition sample_repo :: repo_config where
  "sample_repo = \<lparr>repo_name = ''owner/repo'', clone_url = ''https://github.com/owner/repo.git'',
     api_url = ''https://api.github.com'', token_env = ''T'', secret_env = ''S'', token = ''t'', secret = ''s''\<rparr>"

definition sample_config :: ci_config where
  "sample_config = default_config\<lparr>root_dir := ''/srv'', work_root := ''/tmp/w'', public_url := ''https://ci'',
     job_timeout := 60, repositories := [(''test'', sample_repo)], max_queued := 1\<rparr>"

definition sample_url :: url where
  "sample_url = \<lparr>url_scheme = ''https'', url_host = ''github.com'', url_user = None, url_path = [], url_query = [], url_fragment = []\<rparr>"

definition sample_config_env :: config_env where
  "sample_config_env = \<lparr>read_config = Inr [], decode_json = (\<lambda>c s. Inr (c\<lparr>root_dir := ''/srv'', work_root := ''/tmp/w'',
       public_url := ''https://ci'', repositories := [(''test'', sample_repo)]\<rparr>, [])), at_eof = (\<lambda>s. True),
     parse_url = (\<lambda>s. Inr sample_url), parse_duration = (\<lambda>s. Some 60), getenv = (\<lambda>k. ''v''), geteuid = 1000\<rparr>"

definition sample_env :: ci_env where
  "sample_env = \<lparr>sha256 = sample_hash, hmac_sha256 = (\<lambda>key body. key @ body),
     unmarshal = (\<lambda>b. Inr \<lparr>after_sha = replicate 40 CHR ''a'', event_ref = ''refs/heads/main'', deleted = False,
       action = [], number = 0, full_name = ''Owner/Repo'', head_sha = []\<rparr>), euid = 1000\<rparr>"

definition sample_webhook :: webhook where
  "sample_webhook = \<lparr>wh_key = ''test'', wh_body = Inr ''{}'', wh_signature = ''sha256='' @ HexEncode ''s{}'', wh_event = ''push''\<rparr>"

lemma sample_config_ok: "config_ok sample_config_env sample_config"
proof -
  have "dir_ok ''/srv''" "dir_ok ''/tmp/w''" by code_simp+
  moreover have "repo_ok sample_config_env (''test'', sample_repo)"
    unfolding repo_ok_def
    by (simp add: sample_repo_def routeName_def repositoryName_def id_tail_char_def validateCloneURL_def
        sample_config_env_def sample_url_def go_str)
      (intro exI [of _ "''https://api.github.com''"], simp add: TrimRightSlash_def)
  moreover have "HasPrefix ''refs/heads/main'' ''refs/heads/''" "\<not> Contains ''refs/heads/main'' ''..''" by code_simp+
  ultimately show ?thesis
    by (simp add: config_ok_def sample_config_def default_config_def validateCloneURL_def sample_config_env_def sample_url_def)
qed

lemma sample_parse:
  "parseEvent (unmarshal sample_env) ''push'' ''{}'' sample_repo = Inr (replicate 40 CHR ''a'', ''refs/heads/main'')"
proof -
  have "EqualFold ''Owner/Repo'' ''owner/repo''" "HasPrefix ''refs/heads/main'' ''refs/heads/''" by code_simp+
  moreover have "commitSHA (replicate 40 CHR ''a'')"
    by (simp add: commitSHA_def list_all_replicate hex_lower_def is_digit_def ord_def)
  ultimately show ?thesis by (simp add: parseEvent_def sample_env_def sample_repo_def replicate_eq_replicate)
qed

lemma sample_signature: "verifySignature (hmac_sha256 sample_env) ''{}'' (''sha256='' @ HexEncode ''s{}'') ''s''"
  by code_simp

lemma sample_wh:
  "wh_key sample_webhook = ''test''" "read_limited (wh_body sample_webhook) = Inr ''{}''" "wh_event sample_webhook = ''push''"
  "verifySignature (hmac_sha256 sample_env) ''{}'' (wh_signature sample_webhook) (secret sample_repo)"
  using sample_signature by (simp_all add: sample_webhook_def read_limited_def sample_repo_def)

lemma sample_new_job:
  "job_id (new_job sample_env c now ''test'' sample_repo (replicate 40 CHR ''a'') r) = job_id (sample_job CHR ''a'')"
  "sha (new_job env c now k repo s r) = s" "sha256 sample_env = sample_hash"
  by (simp_all add: new_job_def sample_job_def Let_def sample_env_def)

lemma sample_repo_lookup: "repo_lookup sample_config ''test'' = Some sample_repo"
  by (simp add: repo_lookup_def sample_config_def)

subsection \<open>Properties\<close>

text \<open>
  C7. Only an authenticated delivery for a configured repository can queue a job. When
  \<open>postWebhook\<close> changes the table, the signature is the HMAC of the body under that
  repository's secret, the event names that repository and a full commit hash, the server
  accepts jobs, and the change is one appended row for that commit, queued in the job's own
  workspace below \<open>work_root\<close>.
\<close>

theorem webhook_authenticated:
  assumes "snd (postWebhook env c acc now o1 o2 req rows) \<noteq> rows"
  shows "\<exists>repo body s r. repo_lookup c (wh_key req) = Some repo \<and> wh_body req = Inr body \<and> length body \<le> 2097152 \<and>
    wh_signature req = ''sha256='' @ TrimPrefix (wh_signature req) ''sha256='' \<and>
    HexDecode (TrimPrefix (wh_signature req) ''sha256='') = Some (hmac_sha256 env (secret repo) body) \<and>
    (\<exists>e. unmarshal env body = Inr e \<and> EqualFold (full_name e) (repo_name repo)) \<and> commitSHA s \<and> acc \<and>
    snd (postWebhook env c acc now o1 o2 req rows) =
      rows @ [(new_job env c now (wh_key req) repo s r)\<lparr>finished_at := 0, version := 1\<rparr>]"
proof -
  obtain repo body s r where w: "repo_lookup c (wh_key req) = Some repo" "read_limited (wh_body req) = Inr body"
      "verifySignature (hmac_sha256 env) body (wh_signature req) (secret repo)"
      "parseEvent (unmarshal env) (wh_event req) body repo = Inr (s, r)" "s \<noteq> []" acc
      "snd (postWebhook env c acc now o1 o2 req rows) =
        snd (Admit (sha256 env) o1 o2 (new_job env c now (wh_key req) repo s r) (max_queued c) rows)"
    using webhook_rows [of env c acc now o1 o2 req rows] assms by blast
  have b: "wh_body req = Inr body" "length body \<le> 2097152"
    using w(2) by (auto simp: read_limited_def split: sum.splits if_splits)
  have sig: "wh_signature req = ''sha256='' @ TrimPrefix (wh_signature req) ''sha256=''"
      "HexDecode (TrimPrefix (wh_signature req) ''sha256='') = Some (hmac_sha256 env (secret repo) body)"
    using w(3) HasPrefix_TrimPrefix [of "wh_signature req" "''sha256=''"]
    by (simp_all add: verifySignature_def split: if_splits option.splits)
  show ?thesis
    using parseEvent_aux [OF w(4,5)] w Admit_changes [of "sha256 env" o1 o2 "new_job env c now (wh_key req) repo s r" "max_queued c" rows]
      assms b sig
    by (intro exI [of _ repo] exI [of _ body] exI [of _ s] exI [of _ r]) (simp add: new_job_def Let_def)
qed

theorem webhook_authenticated_witness:
  "commitSHA (sha (last (snd (postWebhook sample_env sample_config True 5 Commit Commit sample_webhook []))))"
proof -
  have "snd (postWebhook sample_env sample_config True 5 Commit Commit sample_webhook []) \<noteq> []"
    using sample_parse sample_repo_lookup sample_wh
      Admit_commit [OF new_job_admissible [OF sample_config_ok sample_repo_lookup, of "replicate 40 CHR ''a''" 5 sample_env "''refs/heads/main''"], of 1 "[]"]
      parseEvent_aux [OF sample_parse]
    by (simp add: postWebhook_def Let_def lookup_def count_state_def zero_time_def sample_config_def)
  from webhook_authenticated [OF this] show ?thesis
    by (auto simp: sample_new_job)
qed

text \<open>
  What GitHub gets back for an authentic event while the server accepts jobs and the
  database answers: 202 and a new queued row below the limit, 200 and the stored job for a
  redelivery, 429 with \<open>Retry-After\<close> when the queue is full. No configuration that
  \<open>loadConfig\<close> accepts leads to a rejected or unpersistable job.
\<close>

theorem webhook_responses:
  assumes "config_ok ce c" "repo_lookup c (wh_key req) = Some repo" "read_limited (wh_body req) = Inr body"
    and "verifySignature (hmac_sha256 env) body (wh_signature req) (secret repo)"
    and "parseEvent (unmarshal env) (wh_event req) body repo = Inr (s, r)" "s \<noteq> []" "now \<noteq> zero_time"
  shows "let j = new_job env c now (wh_key req) repo s r; (resp, rows') = postWebhook env c True now Commit Commit req rows in
    case lookup rows (job_id j) of
      Some old \<Rightarrow> http_status resp = 200 \<and> http_body resp = JobJSON (scanJob old) \<and> rows' = rows
    | None \<Rightarrow>
        if int (count_state ''queued'' rows) < max_queued c
        then http_status resp = 202 \<and> (''Location'', public_url c @ ''/runs/'' @ job_id j) \<in> set (http_headers resp) \<and>
          rows' = rows @ [j\<lparr>finished_at := 0, version := 1\<rparr>]
        else http_status resp = 429 \<and> (''Retry-After'', ''10'') \<in> set (http_headers resp) \<and> rows' = rows"
proof -
  have s: "commitSHA s" using parseEvent_aux assms(5,6) by blast
  note ad = new_job_admissible [OF assms(1,2) s assms(7), of env r]
  have Q: "1 \<le> max_queued c" using assms(1) by (simp add: config_ok_def)
  have "new_job env c now (wh_key req) repo s r\<lparr>reported := False, cleaned := False\<rparr> = new_job env c now (wh_key req) repo s r"
    by (simp add: new_job_def Let_def)
  then show ?thesis
    using assms Admit_commit [OF ad Q, of rows]
    by (simp add: postWebhook_def Let_def retry_later_def new_job_def split: option.splits if_splits)
qed

theorem webhook_responses_witness:
  "http_status (fst (postWebhook sample_env sample_config True 5 Commit Commit sample_webhook sample_rows)) = 200"
  using webhook_responses [OF sample_config_ok _ sample_wh(2) sample_wh(4), of "replicate 40 CHR ''a''" "''refs/heads/main''" 5 sample_rows]
    sample_repo_lookup sample_parse
  by (simp add: sample_wh sample_new_job zero_time_def Let_def case_prod_unfold)





text \<open>
  One delivery pass, when nothing interferes and the database answers, tries every
  unreported job: a failing delivery does not hide another job, a job is marked reported
  exactly if GitHub accepted its current status, and nothing else changes.
\<close>

theorem delivery_pass:
  assumes "distinct (map job_id rows)" "\<forall>i. quiet (ds i)"
  shows "reportJobStatuses env c Commit ds rows =
    (None, map (\<lambda>r. if \<not> reported r \<and> delivered c ds r then r\<lparr>reported := True\<rparr> else r) rows)"
  using quiet_pass [OF assms] by (simp add: mark_reported_def db_update_def)

theorem delivery_pass_witness:
  "list_all reported (snd (reportJobStatuses sample_env sample_config Commit
     (\<lambda>i. \<lparr>ctx_before = False, new_request = (\<lambda>u. None), http_client = (\<lambda>q. Inr 201), ctx_after = False, meanwhile = [], ack_outcome = Commit\<rparr>) sample_rows))"
  using delivery_pass [of sample_rows "\<lambda>i. \<lparr>ctx_before = False, new_request = (\<lambda>u. None), http_client = (\<lambda>q. Inr 201), ctx_after = False, meanwhile = [], ack_outcome = Commit\<rparr>"]
    sample_store_ok
  by (auto simp: store_ok_def quiet_def delivered_def reportStatus_def Let_def list_all_iff)

text \<open>
  C16. A configuration that \<open>loadConfig\<close> accepts is safe to run: both directories are cleaned
  absolute paths below \<open>/\<close>, every limit is positive, every repository has a name that is a
  valid route, an HTTPS API without credentials, a clone URL without a password and nonempty
  secrets, and the update source is one branch.
\<close>

theorem config_accepted:
  assumes "loadConfig env = Inr c"
  shows "dir_ok (root_dir c) \<and> dir_ok (work_root c) \<and> 0 < job_timeout c \<and> 1 \<le> max_parallel c \<and> 1 \<le> max_queued c \<and>
    1024 \<le> max_log_bytes c \<and> repositories c \<noteq> [] \<and> (\<forall>kr \<in> set (repositories c). repo_ok env kr) \<and>
    validateCloneURL env (update_clone_url c) = None \<and> HasPrefix (update_ref c) ''refs/heads/'' \<and>
    \<not> Contains (update_ref c) ''..''"
  using loadConfig_ok_aux [OF assms] by (simp add: config_ok_def list_all_iff)

theorem config_accepted_witness:
  "\<exists>c. loadConfig sample_config_env = Inr c \<and> dir_ok (root_dir c) \<and> root_dir c = ''/srv''"
proof -
  have "case loadConfig sample_config_env of Inl e \<Rightarrow> False | Inr c \<Rightarrow> root_dir c = ''/srv''" by code_simp
  then obtain c where c: "loadConfig sample_config_env = Inr c" "root_dir c = ''/srv''" by (cases "loadConfig sample_config_env") auto
  from config_accepted [OF c(1)] c show ?thesis by blast
qed

end
