(* ===== verification/Job_Queue.thy ===== *)
theory Job_Queue
  imports Job_Store
begin

text \<open>
  What the store promises, and that the SQL table keeps it.

  The abstract store of \<open>jobStore\<close>'s comments: jobs wait in order of admission, at most
  \<open>max_parallel\<close> of them are active, and a finished job has one outcome. The locale
  \<open>job_queue\<close> states the laws a client of the store relies on; its lemmas are about any
  implementation (the dispatcher that keeps claiming jobs while it gets one). The
  interpretation \<open>sq\<close> discharges the laws for the statements of \<open>Job_Store\<close>.
\<close>

subsection \<open>The abstract store\<close>

record qspec =
  waiting :: "(int \<times> string) list"
  active :: "string set"
  outcome :: "string \<Rightarrow> (string \<times> string) option"

definition spec_admit :: "int \<times> string \<Rightarrow> qspec \<Rightarrow> qspec" where
  "spec_admit k s = s\<lparr>waiting := insort k (waiting s)\<rparr>"

definition spec_claim :: "int \<Rightarrow> qspec \<Rightarrow> qspec \<times> string option" where
  "spec_claim P s =
     (case waiting s of
        [] \<Rightarrow> (s, None)
      | (t, i) # ks \<Rightarrow>
          if int (card (active s)) < P
          then (s\<lparr>waiting := ks, active := insert i (active s)\<rparr>, Some i) else (s, None))"

definition spec_finish :: "string \<Rightarrow> string \<Rightarrow> string \<Rightarrow> qspec \<Rightarrow> qspec" where
  "spec_finish i st msg s =
     (if i \<in> active s
      then s\<lparr>active := active s - {i}, outcome := (outcome s)(i \<mapsto> (st, msg))\<rparr> else s)"

text \<open>The abstraction of a table.\<close>

definition running_ids :: "job list \<Rightarrow> string set" where
  "running_ids rows = job_id ` {r \<in> set rows. jstate r = ''running''}"

definition outcome_of :: "job list \<Rightarrow> string \<Rightarrow> (string \<times> string) option" where
  "outcome_of rows i =
     (case lookup rows i of
        None \<Rightarrow> None
      | Some r \<Rightarrow> if job_terminal r then Some (jstate r, message r) else None)"

definition abs_store :: "job list \<Rightarrow> qspec" where
  "abs_store rows = \<lparr>waiting = map job_key (queue rows), active = running_ids rows, outcome = outcome_of rows\<rparr>"

subsection \<open>The waiting list of an updated table\<close>

lemma map_insort_key: "map f (insort_key f x xs) = insort (f x) (map f xs)"
  by (induction xs) auto

lemma map_sort_key: "map f (sort_key f xs) = sort (map f xs)"
  by (induction xs) (auto simp: map_insort_key)

lemma sort_snoc: "sort (xs @ [x]) = insort x (sort (xs :: 'a::linorder list))"
  by (induction xs) (auto simp: insort_left_comm)

lemma waiting_keys: "map job_key (queue rows) = sort (map job_key (filter (\<lambda>r. jstate r = ''queued'') rows))"
  by (simp add: queue_def map_sort_key)

lemma queue_keys_unchanged:
  assumes "\<And>r. A r \<Longrightarrow> job_key (f r) = job_key r"
    and "\<And>r. A r \<Longrightarrow> (jstate (f r) = ''queued'' \<longleftrightarrow> jstate r = ''queued'')"
  shows "map job_key (queue (db_update A f rows)) = map job_key (queue rows)"
proof -
  have "map job_key (filter (\<lambda>r. jstate r = ''queued'') (db_update A f rows)) =
        map job_key (filter (\<lambda>r. jstate r = ''queued'') rows)"
    by (induction rows) (auto simp: db_update_def assms)
  then show ?thesis by (simp add: waiting_keys)
qed

lemma queue_tl:
  assumes "distinct (map job_id rows)" "queue rows = q # qs" "jstate (f q) \<noteq> ''queued''"
  shows "queue (db_update (\<lambda>r. job_id r = job_id q) f rows) = qs"
proof -
  obtain xs ys where r: "rows = xs @ q # ys"
    and u: "db_update (\<lambda>r. job_id r = job_id q) f rows = xs @ f q # ys"
    using assms(1) queue_hd(1) [OF assms(2)] db_update_id_split by metis
  let ?F = "\<lambda>rs. filter (\<lambda>r. jstate r = ''queued'') rs"
  have d: "distinct rows" using assms(1) by (simp add: distinct_map)
  then have "q \<notin> set xs" "q \<notin> set ys" by (simp_all add: r)
  then have "filter (\<lambda>r. r \<noteq> q) (?F xs) = ?F xs" "filter (\<lambda>r. r \<noteq> q) (?F ys) = ?F ys"
    by (simp_all add: filter_neq_absent del: filter_filter)
  then have "filter (\<lambda>r. r \<noteq> q) (?F rows) = ?F (xs @ f q # ys)"
    using assms(3) by (simp add: r del: filter_filter)
  then have "queue (xs @ f q # ys) = filter (\<lambda>r. r \<noteq> q) (queue rows)"
    by (simp add: queue_def filter_sort)
  moreover have "distinct (q # qs)" using d assms(2) by (metis queue_def distinct_filter distinct_sort)
  ultimately show ?thesis using assms(2) by (simp add: u filter_id_conv) (metis filter_True)
qed

lemma card_running:
  assumes "distinct (map job_id rows)"
  shows "card (running_ids rows) = count_state ''running'' rows"
proof -
  have "distinct (map job_id (filter (\<lambda>r. jstate r = ''running'') rows))"
    using assms by (simp add: distinct_map inj_on_def)
  from distinct_card [OF this] show ?thesis by (simp add: running_ids_def count_state_def)
qed

lemma running_ids_lookup:
  "distinct (map job_id rows) \<Longrightarrow> i \<in> running_ids rows \<longleftrightarrow> (\<exists>r. lookup rows i = Some r \<and> jstate r = ''running'')"
  by (auto simp: running_ids_def image_iff dest: lookup_mem lookup_Some)

subsection \<open>The statements refine the abstract store\<close>

lemma claim_refines_aux:
  assumes ok: "store_ok h Q P rows"
  shows "abs_store (fst (stmt_claim P rows)) = fst (spec_claim P (abs_store rows)) \<and>
         map_option job_id (snd (stmt_claim P rows)) = snd (spec_claim P (abs_store rows))"
proof (cases "queue rows")
  case Nil
  then show ?thesis by (simp add: stmt_claim_def spec_claim_def abs_store_def)
next
  case (Cons q qs)
  have d: "distinct (map job_id rows)" using ok by (simp add: store_ok_def)
  note q = queue_hd [OF Cons]
  let ?u = "db_update (\<lambda>r. job_id r = job_id q) mark_running rows"
  have lq: "lookup rows (job_id q) = Some q" using d q(1) by (rule lookup_mem)
  have du: "distinct (map job_id ?u)" using d by (simp add: ids_db_update)
  have lk: "lookup ?u i = (if i = job_id q then Some (mark_running q) else lookup rows i)" for i
    by (cases "lookup rows i") (auto simp: lookup_db_update lq dest: lookup_Some)
  have w: "queue ?u = qs" using d Cons by (rule queue_tl) simp
  have a: "running_ids ?u = insert (job_id q) (running_ids rows)"
    by (rule set_eqI) (auto simp: running_ids_lookup d du lk)
  have o: "outcome_of ?u = outcome_of rows"
    using q(2) by (rule_tac ext) (simp add: outcome_of_def lk lq job_terminal_def)
  show ?thesis
    by (simp add: stmt_claim_def spec_claim_def abs_store_def Cons Let_def card_running d w a o lk job_key_def)
qed

lemma finish_refines_aux:
  assumes ok: "store_ok h Q P rows" and t: "terminal_state st"
  shows "abs_store (fst (stmt_finish now i st msg rows)) = spec_finish i st msg (abs_store rows)"
proof -
  have d: "distinct (map job_id rows)" using ok by (simp add: store_ok_def)
  let ?u = "db_update (\<lambda>r. job_id r = i \<and> jstate r = ''running'') (mark_terminal st msg now) rows"
  have du: "distinct (map job_id ?u)" using d by (simp add: ids_db_update)
  have lk: "lookup ?u k = (case lookup rows k of None \<Rightarrow> None | Some r \<Rightarrow>
      Some (if k = i \<and> jstate r = ''running'' then mark_terminal st msg now r else r))" for k
    by (cases "lookup rows k") (auto simp: lookup_db_update dest: lookup_Some)
  have w: "map job_key (queue ?u) = map job_key (queue rows)"
    using t by (intro queue_keys_unchanged) (auto simp: job_key_def mark_terminal_def)
  have a: "running_ids ?u = running_ids rows - {i}"
  proof (rule set_eqI)
    fix k
    show "k \<in> running_ids ?u \<longleftrightarrow> k \<in> running_ids rows - {i}"
      using t by (cases "lookup rows k") (auto simp: running_ids_lookup [OF d] running_ids_lookup [OF du] lk)
  qed
  have o: "outcome_of ?u = (if i \<in> running_ids rows then (outcome_of rows)(i \<mapsto> (st, msg)) else outcome_of rows)"
  proof (rule ext)
    fix k
    show "outcome_of ?u k = (if i \<in> running_ids rows then (outcome_of rows)(i \<mapsto> (st, msg)) else outcome_of rows) k"
      using t by (cases "lookup rows k"; cases "k = i")
        (simp_all add: outcome_of_def lk job_terminal_def running_ids_lookup [OF d])
  qed
  have "i \<notin> running_ids rows \<Longrightarrow> running_ids rows - {i} = running_ids rows" by auto
  then show ?thesis by (simp add: stmt_finish_def spec_finish_def abs_store_def Let_def w a o)
qed

lemma insert_refines_aux:
  assumes "admissible h j" "int (count_state ''queued'' rows) < Q" "lookup rows (job_id j) = None"
  shows "abs_store (fst (stmt_insert j Q rows)) = spec_admit (job_key j) (abs_store rows)"
proof -
  let ?r = "j\<lparr>finished_at := 0, reported := False, cleaned := False, version := 1\<rparr>"
  have k: "job_key ?r = job_key j" "jstate ?r = ''queued''" "job_id ?r = job_id j"
    using assms(1) by (simp_all add: job_key_def admissible_def)
  have "map job_key (queue (rows @ [?r])) = insort (job_key j) (map job_key (queue rows))"
    unfolding waiting_keys using k by (simp add: sort_snoc)
  moreover have "running_ids (rows @ [?r]) = running_ids rows"
    using k by (auto simp: running_ids_def)
  moreover have "outcome_of (rows @ [?r]) = outcome_of rows"
    using k assms(3) by (rule_tac ext) (simp add: outcome_of_def lookup_snoc job_terminal_def)
  ultimately show ?thesis using assms by (simp add: stmt_insert_def spec_admit_def abs_store_def Let_def)
qed

subsection \<open>What a dispatcher relies on\<close>

text \<open>
  \<open>burst claim n s\<close> is the loop of \<open>dispatchJobs\<close> in \<open>cmd/ci/server.go\<close> between two ticks: it
  claims again as long as it gets a job, at most \<open>n\<close> times. \<open>drain\<close> lets every job it got
  finish before it claims the next one.
\<close>

fun burst :: "('s \<Rightarrow> 's \<times> string option) \<Rightarrow> nat \<Rightarrow> 's \<Rightarrow> 's \<times> string list" where
  "burst claim 0 s = (s, [])"
| "burst claim (Suc n) s =
     (case claim s of
        (s', None) \<Rightarrow> (s', [])
      | (s', Some i) \<Rightarrow> (let (s'', is) = burst claim n s' in (s'', i # is)))"

fun drain :: "('s \<Rightarrow> 's \<times> string option) \<Rightarrow> (string \<Rightarrow> 's \<Rightarrow> 's) \<Rightarrow> nat \<Rightarrow> 's \<Rightarrow> 's \<times> string list" where
  "drain claim fin 0 s = (s, [])"
| "drain claim fin (Suc n) s =
     (case claim s of
        (s', None) \<Rightarrow> (s', [])
      | (s', Some i) \<Rightarrow> (let (s'', is) = drain claim fin n (fin i s') in (s'', i # is)))"

locale job_queue =
  fixes ok :: "'s \<Rightarrow> bool"
    and pending :: "'s \<Rightarrow> string list"
    and act :: "'s \<Rightarrow> string set"
    and limit :: nat
    and claim :: "'s \<Rightarrow> 's \<times> string option"
    and fin :: "string \<Rightarrow> 's \<Rightarrow> 's"
  assumes claim_ok: "ok s \<Longrightarrow> ok (fst (claim s))"
    and fin_ok: "ok s \<Longrightarrow> ok (fin i s)"
    and finite_act: "ok s \<Longrightarrow> finite (act s)"
    and fresh: "ok s \<Longrightarrow> i \<in> set (pending s) \<Longrightarrow> i \<notin> act s"
    and claim_next: "ok s \<Longrightarrow> pending s = i # is \<Longrightarrow> card (act s) < limit \<Longrightarrow>
      snd (claim s) = Some i \<and> pending (fst (claim s)) = is \<and> act (fst (claim s)) = insert i (act s)"
    and claim_none: "ok s \<Longrightarrow> pending s = [] \<or> limit \<le> card (act s) \<Longrightarrow> claim s = (s, None)"
    and fin_pending: "ok s \<Longrightarrow> pending (fin i s) = pending s"
    and fin_act: "ok s \<Longrightarrow> act (fin i s) = act s - {i}"
begin

lemma burst_takes:
  "ok s \<Longrightarrow> length (pending s) < n \<Longrightarrow>
     snd (burst claim n s) = take (limit - card (act s)) (pending s) \<and>
     pending (fst (burst claim n s)) = drop (limit - card (act s)) (pending s) \<and>
     act (fst (burst claim n s)) = act s \<union> set (take (limit - card (act s)) (pending s))"
proof (induction n arbitrary: s)
  case (Suc n)
  show ?case
  proof (cases "pending s = [] \<or> limit \<le> card (act s)")
    case True
    then show ?thesis using Suc.prems by (auto simp: claim_none)
  next
    case False
    then obtain i "is" where p: "pending s = i # is" "card (act s) < limit" by (cases "pending s") auto
    obtain s' where s': "claim s = (s', Some i)" "pending s' = is" "act s' = insert i (act s)"
      using claim_next [OF Suc.prems(1) p] by (cases "claim s") auto
    have "ok s'" using claim_ok [OF Suc.prems(1)] s' by simp
    moreover have "card (act s') = Suc (card (act s))"
      using finite_act fresh [of s i] Suc.prems(1) p s' by simp
    moreover have "limit - card (act s) = Suc (limit - Suc (card (act s)))" using p(2) by simp
    ultimately show ?thesis using Suc.IH [of s'] Suc.prems(2) p s' by (simp add: case_prod_unfold Let_def)
  qed
qed simp

lemma drain_all:
  "ok s \<Longrightarrow> card (act s) < limit \<Longrightarrow> length (pending s) \<le> n \<Longrightarrow>
     snd (drain claim fin n s) = pending s \<and> pending (fst (drain claim fin n s)) = [] \<and>
     act (fst (drain claim fin n s)) = act s"
proof (induction n arbitrary: s)
  case (Suc n)
  show ?case
  proof (cases "pending s")
    case Nil
    then show ?thesis using Suc.prems by (simp add: claim_none)
  next
    case (Cons i "is")
    obtain s' where s': "claim s = (s', Some i)" "pending s' = is" "act s' = insert i (act s)"
      using claim_next [OF Suc.prems(1) Cons Suc.prems(2)] by (cases "claim s") auto
    have ok': "ok s'" using claim_ok [OF Suc.prems(1)] s' by simp
    have "act (fin i s') = act s"
      using fin_act [OF ok', of i] s' fresh [of s i] Suc.prems(1) Cons by auto
    then show ?thesis
      using Suc.IH [of "fin i s'"] Suc.prems Cons s' fin_pending [OF ok', of i] fin_ok [OF ok', of i]
      by (simp add: case_prod_unfold Let_def)
  qed
qed simp

end

text \<open>The SQL table as a provider of that interface.\<close>

definition pending_ids :: "job list \<Rightarrow> string list" where
  "pending_ids rows = map job_id (queue rows)"

definition claim_id :: "int \<Rightarrow> job list \<Rightarrow> job list \<times> string option" where
  "claim_id P rows = (let (rows', r) = stmt_claim P rows in (rows', map_option job_id r))"

definition finish_id :: "int \<Rightarrow> string \<Rightarrow> string \<Rightarrow> string \<Rightarrow> job list \<Rightarrow> job list" where
  "finish_id now st msg i rows = fst (stmt_finish now i st msg rows)"

lemma pending_ids_abs: "pending_ids rows = map snd (waiting (abs_store rows))"
  by (simp add: pending_ids_def abs_store_def job_key_def comp_def)

lemma active_abs: "running_ids rows = active (abs_store rows)"
  by (simp add: abs_store_def)

lemma pending_not_running:
  assumes "distinct (map job_id rows)" "i \<in> set (pending_ids rows)"
  shows "i \<notin> running_ids rows"
  using assms by (auto simp: pending_ids_def set_queue running_ids_lookup dest: lookup_mem)

lemma sql_store_queue:
  assumes t: "terminal_state st"
  shows "job_queue (store_ok h Q (int P)) pending_ids running_ids P (claim_id (int P)) (finish_id now st msg)"
proof
  fix rows i and "is" :: "string list"
  assume ok: "store_ok h Q (int P) rows"
  then have d: "distinct (map job_id rows)" by (simp add: store_ok_def)
  note ref = claim_refines_aux [OF ok] and fref = finish_refines_aux [OF ok t, where now = now and msg = msg]
  show "store_ok h Q (int P) (fst (claim_id (int P) rows))"
    using store_ok_claim [OF ok] by (simp add: claim_id_def case_prod_unfold Let_def)
  show "store_ok h Q (int P) (finish_id now st msg i rows)"
    unfolding finish_id_def using ok store_ok_step step_finish t by blast
  show "finite (running_ids rows)" by (simp add: running_ids_def)
  show "i \<in> set (pending_ids rows) \<Longrightarrow> i \<notin> running_ids rows" using pending_not_running d by blast
  show "pending_ids rows = i # is \<Longrightarrow> card (running_ids rows) < P \<Longrightarrow>
      snd (claim_id (int P) rows) = Some i \<and> pending_ids (fst (claim_id (int P) rows)) = is \<and>
      running_ids (fst (claim_id (int P) rows)) = insert i (running_ids rows)"
    using ref by (cases "waiting (abs_store rows)")
      (auto simp: claim_id_def pending_ids_abs active_abs spec_claim_def case_prod_unfold)
  show "pending_ids rows = [] \<or> P \<le> card (running_ids rows) \<Longrightarrow> claim_id (int P) rows = (rows, None)"
    by (cases "queue rows") (auto simp: claim_id_def stmt_claim_def pending_ids_def card_running d)
  show "pending_ids (finish_id now st msg i rows) = pending_ids rows"
    using fref [of i] by (simp add: finish_id_def pending_ids_abs spec_finish_def)
  show "running_ids (finish_id now st msg i rows) = running_ids rows - {i}"
    using fref [of i] by (auto simp: finish_id_def active_abs spec_finish_def)
qed

interpretation sq: job_queue "store_ok h Q (int P)" pending_ids running_ids P "claim_id (int P)" "finish_id now ''success'' msg"
  for h Q P now msg
  by (rule sql_store_queue) simp

lemma sample_store_ok2: "store_ok sample_hash 2 (int 2) sample_rows"
  using sample_store_ok by (auto simp: store_ok_def)

lemma sample_pending: "pending_ids sample_rows = [job_id (sample_job CHR ''b'')]"
  by (simp add: pending_ids_def queue_def sample_rows_def)

lemma sample_running_ids: "running_ids sample_rows = {job_id (sample_job CHR ''a'')}"
proof -
  have "{r \<in> set sample_rows. jstate r = ''running''} = {sample_running}" by (auto simp: sample_rows_def)
  then show ?thesis by (simp add: running_ids_def)
qed

subsection \<open>Properties\<close>

text \<open>
  C12. The SQL statements implement the abstract store: admission inserts the job in its place
  in the waiting list, a claim moves the head of the list to the active jobs when there is a
  free slot, and a finish ends an active job with its outcome and does nothing to any other.
\<close>

theorem statements_refine_store:
  assumes "store_ok h Q P rows"
  shows "(admissible h j \<and> int (count_state ''queued'' rows) < Q \<and> lookup rows (job_id j) = None \<longrightarrow>
           abs_store (fst (stmt_insert j Q rows)) = spec_admit (job_key j) (abs_store rows)) \<and>
         abs_store (fst (stmt_claim P rows)) = fst (spec_claim P (abs_store rows)) \<and>
         map_option job_id (snd (stmt_claim P rows)) = snd (spec_claim P (abs_store rows)) \<and>
         (terminal_state st \<longrightarrow>
           abs_store (fst (stmt_finish now i st msg rows)) = spec_finish i st msg (abs_store rows))"
  using insert_refines_aux claim_refines_aux [OF assms] finish_refines_aux [OF assms] by blast

theorem statements_refine_store_witness:
  "abs_store (fst (stmt_finish 7 (job_id (sample_job CHR ''a'')) ''success'' ''done'' sample_rows)) =
     spec_finish (job_id (sample_job CHR ''a'')) ''success'' ''done'' (abs_store sample_rows)"
  using statements_refine_store [OF sample_store_ok] by (metis terminal_state_simps(4))

text \<open>
  The dispatcher's burst of claims starts exactly the jobs that are first in the queue, as
  many as there are free slots, and leaves the others queued in order.
\<close>

theorem dispatch_burst:
  assumes "store_ok h Q (int P) rows" "length (pending_ids rows) < n"
  shows "let free = P - card (running_ids rows); (rows', started) = burst (claim_id (int P)) n rows in
     started = take free (pending_ids rows) \<and> pending_ids rows' = drop free (pending_ids rows) \<and>
     running_ids rows' = running_ids rows \<union> set started"
  using sq.burst_takes [OF assms] by (simp add: Let_def case_prod_unfold)

theorem dispatch_burst_witness:
  "snd (burst (claim_id 2) 5 sample_rows) = take (2 - card (running_ids sample_rows)) (pending_ids sample_rows)"
  using dispatch_burst [of sample_hash 2 2 sample_rows 5] sample_store_ok2 sample_pending
  by (simp add: Let_def case_prod_unfold)



end
