(* ===== verification/CI_Server.thy ===== *)
theory CI_Server
  imports CI_Handlers Job_Queue
begin

text \<open>
  The CI server as a concurrent state machine: \<open>cmd/ci/server.go\<close>.

  \<open>srv\<close> is the \<open>server\<close> value together with its table and its goroutines: the dispatcher,
  the status reporter, one goroutine per claimed job, the update goroutine and the one that
  runs \<open>serve\<close>. Each critical section (code under \<open>mu\<close>, one store call, one channel or
  wait-group event) is a function on \<open>srv\<close>; \<open>srv_step\<close> runs them in any order, with any
  failure of the calls they make. A wait is a guard; a timeout is a step that may always be
  taken.
\<close>

subsection \<open>State\<close>

datatype worker = Executing | Saving string string

datatype updater = UIdle | UBuilding | UPolling | UWaiting | UFlushing | USucceeded | UFailed | UDone

datatype serve_result = HandOff string | ShutDown | StopFailed

text \<open>Where \<open>serve\<close> and \<open>stop\<close> are; the flag is their variable \<open>updating\<close>.\<close>

datatype stage = Serving | Selected bool | Stopping bool | Idle bool | Quiet bool | Recovered | Canceled_Queue | Stopped serve_result

record srv =
  table :: "job list"
  accepting :: bool
  updating :: bool
  draining :: bool
  candidate :: string
  update_ready :: bool
  ctx_done :: bool
  processing_canceled :: bool
  dispatching :: bool
  reporting :: bool
  workers :: "(string \<times> worker) list"
  upd :: updater
  stage :: stage
  signaled :: bool

definition init_srv :: "job list \<Rightarrow> srv" where
  "init_srv rows = \<lparr>table = rows, accepting = True, updating = False, draining = False, candidate = [],
     update_ready = False, ctx_done = False, processing_canceled = False, dispatching = True, reporting = True,
     workers = [], upd = UIdle, stage = Serving, signaled = False\<rparr>"

definition newServer :: "ci_env \<Rightarrow> ci_config \<Rightarrow> db_outcome \<Rightarrow> db_outcome \<Rightarrow> int \<Rightarrow> job list \<Rightarrow> (goerr + srv) \<times> job list" where
  "newServer env c o1 o2 now rows =
     (case validateStoredJobs env c o1 rows of
        Some e \<Rightarrow> (Inl e, rows)
      | None \<Rightarrow>
          (case RecoverInterrupted o2 now rows of
             (Some e, rows') \<Rightarrow> (Inl (Opaque ''recover interrupted jobs''), rows')
           | (None, rows') \<Rightarrow> (Inr (init_srv rows'), rows')))"

subsection \<open>Handlers\<close>

definition webhook_section :: "ci_env \<Rightarrow> ci_config \<Rightarrow> int \<Rightarrow> db_outcome \<Rightarrow> db_outcome \<Rightarrow> webhook \<Rightarrow> srv \<Rightarrow> http_response \<times> srv" where
  "webhook_section env c now o1 o2 req s =
     (let (resp, rows) = postWebhook env c (accepting s) now o1 o2 req (table s) in (resp, s\<lparr>table := rows\<rparr>))"

definition update_section :: "string \<Rightarrow> string \<Rightarrow> srv \<Rightarrow> http_response \<times> srv" where
  "update_section passcode authorization s =
     (let d = postUpdate_decision passcode authorization (updating s) (accepting s) in
      (update_response d, if d = StartUpdate then s\<lparr>updating := True, upd := UBuilding\<rparr> else s))"

subsection \<open>Dispatcher and workers\<close>

definition claim_section :: "ci_config \<Rightarrow> db_outcome \<Rightarrow> srv \<Rightarrow> srv" where
  "claim_section c o1 s =
     (if draining s then s
      else case Claim o1 (max_parallel c) (table s) of
          (Inr (Some j), rows) \<Rightarrow> s\<lparr>table := rows, workers := (job_id j, Executing) # workers s\<rparr>
        | (_, rows) \<Rightarrow> s\<lparr>table := rows\<rparr>)"

definition set_worker :: "string \<Rightarrow> worker \<Rightarrow> (string \<times> worker) list \<Rightarrow> (string \<times> worker) list" where
  "set_worker i w ws = map (\<lambda>(k, v). if k = i then (k, w) else (k, v)) ws"

definition drop_worker :: "string \<Rightarrow> (string \<times> worker) list \<Rightarrow> (string \<times> worker) list" where
  "drop_worker i ws = filter (\<lambda>(k, v). k \<noteq> i) ws"

text \<open>The deferred part of \<open>runJob\<close> begins: the outcome is fixed.\<close>

definition worker_ends :: "string \<Rightarrow> job_events \<Rightarrow> srv \<Rightarrow> srv" where
  "worker_ends i ev s = s\<lparr>workers := set_worker i (case runJob_outcome ev of (st, msg) \<Rightarrow> Saving st msg) (workers s)\<rparr>"

text \<open>One round of its loop; after a failed write it returns when \<open>parent\<close> is done and that branch is chosen.\<close>

definition save_section :: "db_outcome \<Rightarrow> db_outcome \<Rightarrow> int \<Rightarrow> bool \<Rightarrow> string \<Rightarrow> string \<Rightarrow> string \<Rightarrow> srv \<Rightarrow> srv" where
  "save_section o1 o2 now give_up i st msg s =
     (case Finish o1 o2 now i st msg (table s) of
        (None, rows) \<Rightarrow> s\<lparr>table := rows, workers := drop_worker i (workers s)\<rparr>
      | (Some e, rows) \<Rightarrow>
          if give_up \<and> processing_canceled s then s\<lparr>table := rows, workers := drop_worker i (workers s)\<rparr>
          else s\<lparr>table := rows\<rparr>)"

definition processing_done :: "srv \<Rightarrow> bool" where
  "processing_done s \<longleftrightarrow> \<not> dispatching s \<and> \<not> reporting s \<and> workers s = []"

subsection \<open>The update goroutine\<close>

text \<open>The end of \<open>prepareUpdate\<close>'s build: \<open>built\<close> is the result of \<open>buildUpdate\<close>.\<close>

definition built_section :: "string option \<Rightarrow> srv \<Rightarrow> srv" where
  "built_section built s =
     (case built of
        None \<Rightarrow> s\<lparr>upd := UFailed\<rparr>
      | Some cand \<Rightarrow>
          if ctx_done s then s\<lparr>upd := UFailed\<rparr>
          else s\<lparr>candidate := cand, draining := True, upd := UPolling\<rparr>)"

text \<open>One poll: \<open>stop_waiting\<close> is the choice of \<open>select\<close> when the context is done.\<close>

definition poll_section :: "db_outcome \<Rightarrow> bool \<Rightarrow> srv \<Rightarrow> srv" where
  "poll_section o1 stop_waiting s =
     (case RunningCount o1 (table s) of
        Inl e \<Rightarrow> s\<lparr>upd := UFailed\<rparr>
      | Inr n \<Rightarrow>
          if n = 0 then s\<lparr>processing_canceled := True, upd := UWaiting\<rparr>
          else if stop_waiting \<and> ctx_done s then s\<lparr>upd := UFailed\<rparr> else s)"

definition update_failed_section :: "srv \<Rightarrow> srv" where
  "update_failed_section s = s\<lparr>candidate := [], updating := False, accepting := \<not> ctx_done s, draining := False, upd := UIdle\<rparr>"

subsection \<open>serve and stop\<close>

definition stop_section :: "bool \<Rightarrow> srv \<Rightarrow> srv" where
  "stop_section u s = s\<lparr>accepting := accepting s \<and> u, ctx_done := True, processing_canceled := True, stage := Stopping u\<rparr>"

definition write_section :: "(job list \<Rightarrow> store_err option \<times> job list) \<Rightarrow> stage \<Rightarrow> srv \<Rightarrow> srv" where
  "write_section op next_stage s =
     (case op (table s) of
        (None, rows) \<Rightarrow> s\<lparr>table := rows, stage := next_stage\<rparr>
      | (Some e, rows) \<Rightarrow> s\<lparr>table := rows, stage := Stopped StopFailed\<rparr>)"

inductive srv_step :: "ci_env \<Rightarrow> ci_config \<Rightarrow> string \<Rightarrow> srv \<Rightarrow> srv \<Rightarrow> bool"
  for env :: ci_env and c :: ci_config and passcode :: string where
  on_webhook: "srv_step env c passcode s (snd (webhook_section env c now o1 o2 req s))"
| on_update: "srv_step env c passcode s (snd (update_section passcode authorization s))"
| on_claim: "dispatching s \<Longrightarrow> srv_step env c passcode s (claim_section c o1 s)"
| on_dispatch_end: "processing_canceled s \<Longrightarrow> srv_step env c passcode s (s\<lparr>dispatching := False\<rparr>)"
| on_work: "(i, Executing) \<in> set (workers s) \<Longrightarrow> (\<forall>st e. exec_result ev = Returned st e \<longrightarrow> terminal_state st) \<Longrightarrow>
    srv_step env c passcode s (worker_ends i ev s)"
| on_save: "(i, Saving st msg) \<in> set (workers s) \<Longrightarrow> srv_step env c passcode s (save_section o1 o2 now give_up i st msg s)"
| on_ack: "reporting s \<or> upd s = UFlushing \<or> stage s = Canceled_Queue \<Longrightarrow>
    srv_step env c passcode s (s\<lparr>table := snd (Acknowledge o1 i v (table s))\<rparr>)"
| on_cleaned: "reporting s \<Longrightarrow> srv_step env c passcode s (s\<lparr>table := snd (MarkCleaned o1 i (table s))\<rparr>)"
| on_report_end: "processing_canceled s \<Longrightarrow> srv_step env c passcode s (s\<lparr>reporting := False\<rparr>)"
| on_built: "upd s = UBuilding \<Longrightarrow> srv_step env c passcode s (built_section built s)"
| on_poll: "upd s = UPolling \<Longrightarrow> srv_step env c passcode s (poll_section o1 stop_waiting s)"
| on_waited: "upd s = UWaiting \<Longrightarrow> processing_done s \<Longrightarrow> srv_step env c passcode s (s\<lparr>upd := UFlushing\<rparr>)"
| on_wait_canceled: "upd s = UWaiting \<Longrightarrow> ctx_done s \<Longrightarrow> srv_step env c passcode s (s\<lparr>upd := UFailed\<rparr>)"
| on_flushed: "upd s = UFlushing \<Longrightarrow> srv_step env c passcode s (s\<lparr>upd := (if ctx_done s then UFailed else USucceeded)\<rparr>)"
| on_ready: "upd s = USucceeded \<Longrightarrow> srv_step env c passcode s (s\<lparr>update_ready := True, upd := UDone\<rparr>)"
| on_update_failed: "upd s = UFailed \<Longrightarrow> srv_step env c passcode s (update_failed_section s)"
| on_signal: "srv_step env c passcode s (s\<lparr>signaled := True\<rparr>)"
| select_signal: "stage s = Serving \<Longrightarrow> signaled s \<Longrightarrow> srv_step env c passcode s (s\<lparr>stage := Selected False\<rparr>)"
| select_ready: "stage s = Serving \<Longrightarrow> update_ready s \<Longrightarrow> srv_step env c passcode s (s\<lparr>stage := Selected (\<not> signaled s)\<rparr>)"
| select_error: "stage s = Serving \<Longrightarrow> srv_step env c passcode s (s\<lparr>stage := Selected False\<rparr>)"
| on_stop: "stage s = Selected u \<Longrightarrow> srv_step env c passcode s (stop_section u s)"
| on_timeout: "stage s = Stopping u \<or> stage s = Idle u \<Longrightarrow> srv_step env c passcode s (s\<lparr>stage := Stopped StopFailed\<rparr>)"
| on_processed: "stage s = Stopping u \<Longrightarrow> processing_done s \<Longrightarrow> srv_step env c passcode s (s\<lparr>stage := Idle u\<rparr>)"
| on_tasks: "stage s = Idle u \<Longrightarrow> upd s = UIdle \<or> upd s = UDone \<Longrightarrow> srv_step env c passcode s
    (s\<lparr>stage := (if u then Stopped (HandOff (candidate s)) else Quiet u)\<rparr>)"
| on_recover: "stage s = Quiet u \<Longrightarrow> srv_step env c passcode s (write_section (RecoverInterrupted o1 now) Recovered s)"
| on_cancel: "stage s = Recovered \<Longrightarrow> srv_step env c passcode s (write_section (CancelQueued o1 now) Canceled_Queue s)"
| on_stopped: "stage s = Canceled_Queue \<Longrightarrow> srv_step env c passcode s (s\<lparr>stage := Stopped (if ok then ShutDown else StopFailed)\<rparr>)"

inductive_cases srv_stepE: "srv_step env c passcode s s'"

subsection \<open>The invariant\<close>

fun draining_phase :: "updater \<Rightarrow> bool" where
  "draining_phase u \<longleftrightarrow> u = UPolling \<or> u = UWaiting \<or> u = UFlushing \<or> u = USucceeded \<or> u = UDone"

fun emptied_phase :: "updater \<Rightarrow> bool" where
  "emptied_phase u \<longleftrightarrow> u = UWaiting \<or> u = UFlushing \<or> u = USucceeded \<or> u = UDone"

fun flushed_phase :: "updater \<Rightarrow> bool" where
  "flushed_phase u \<longleftrightarrow> u = UFlushing \<or> u = USucceeded \<or> u = UDone"

fun worker_ok :: "job list \<Rightarrow> string \<times> worker \<Rightarrow> bool" where
  "worker_ok rows (i, Executing) \<longleftrightarrow> (\<exists>r. lookup rows i = Some r \<and> jstate r = ''running'')"
| "worker_ok rows (i, Saving st msg) \<longleftrightarrow> terminal_state st \<and> (\<exists>r. lookup rows i = Some r \<and> jstate r \<noteq> ''queued'')"

definition inv_table :: "ci_env \<Rightarrow> ci_config \<Rightarrow> srv \<Rightarrow> bool" where
  "inv_table env c s \<longleftrightarrow> store_ok (sha256 env) (max_queued c) (max_parallel c) (table s) \<and>
     distinct (map fst (workers s)) \<and> (\<forall>w \<in> set (workers s). worker_ok (table s) w)"

definition inv_update :: "srv \<Rightarrow> bool" where
  "inv_update s \<longleftrightarrow> (updating s \<longleftrightarrow> upd s \<noteq> UIdle) \<and> (draining_phase (upd s) \<longrightarrow> draining s) \<and>
     (draining s \<longrightarrow> upd s = UFailed \<or> draining_phase (upd s)) \<and> (update_ready s \<longleftrightarrow> upd s = UDone) \<and>
     (emptied_phase (upd s) \<longrightarrow> count_state ''running'' (table s) = 0) \<and>
     (flushed_phase (upd s) \<longrightarrow> processing_done s)"

definition inv_cancel :: "srv \<Rightarrow> bool" where
  "inv_cancel s \<longleftrightarrow> (ctx_done s \<longrightarrow> processing_canceled s) \<and>
     (processing_canceled s \<longrightarrow> ctx_done s \<or> emptied_phase (upd s)) \<and>
     (\<not> dispatching s \<longrightarrow> processing_canceled s) \<and> (\<not> reporting s \<longrightarrow> processing_canceled s) \<and>
     (\<not> ctx_done s \<longrightarrow> accepting s)"

fun stage_inv :: "stage \<Rightarrow> srv \<Rightarrow> bool" where
  "stage_inv Serving s \<longleftrightarrow> \<not> ctx_done s"
| "stage_inv (Selected u) s \<longleftrightarrow> \<not> ctx_done s \<and> (u \<longrightarrow> upd s = UDone)"
| "stage_inv (Stopping u) s \<longleftrightarrow> ctx_done s \<and> (u \<longrightarrow> upd s = UDone) \<and> (\<not> u \<longrightarrow> \<not> accepting s)"
| "stage_inv (Idle u) s \<longleftrightarrow> ctx_done s \<and> processing_done s \<and> (u \<longrightarrow> upd s = UDone) \<and> (\<not> u \<longrightarrow> \<not> accepting s)"
| "stage_inv (Quiet u) s \<longleftrightarrow> ctx_done s \<and> processing_done s \<and> \<not> accepting s \<and> (upd s = UIdle \<or> upd s = UDone)"
| "stage_inv Recovered s \<longleftrightarrow> ctx_done s \<and> processing_done s \<and> \<not> accepting s \<and> (upd s = UIdle \<or> upd s = UDone) \<and>
     count_state ''running'' (table s) = 0"
| "stage_inv Canceled_Queue s \<longleftrightarrow> ctx_done s \<and> processing_done s \<and> \<not> accepting s \<and> (upd s = UIdle \<or> upd s = UDone) \<and>
     count_state ''running'' (table s) = 0 \<and> count_state ''queued'' (table s) = 0"
| "stage_inv (Stopped ShutDown) s \<longleftrightarrow> ctx_done s \<and> processing_done s \<and> \<not> accepting s \<and> (upd s = UIdle \<or> upd s = UDone) \<and>
     count_state ''running'' (table s) = 0 \<and> count_state ''queued'' (table s) = 0"
| "stage_inv (Stopped (HandOff cand)) s \<longleftrightarrow> ctx_done s \<and> processing_done s \<and> upd s = UDone \<and> cand = candidate s"
| "stage_inv (Stopped StopFailed) s \<longleftrightarrow> ctx_done s"

declare draining_phase.simps [simp del] emptied_phase.simps [simp del] flushed_phase.simps [simp del]

lemmas phase_simps = draining_phase.simps emptied_phase.simps flushed_phase.simps

lemma phases: "flushed_phase u \<Longrightarrow> emptied_phase u" "emptied_phase u \<Longrightarrow> draining_phase u"
  by (auto simp: phase_simps)

definition srv_inv :: "ci_env \<Rightarrow> ci_config \<Rightarrow> srv \<Rightarrow> bool" where
  "srv_inv env c s \<longleftrightarrow> inv_table env c s \<and> inv_update s \<and> inv_cancel s \<and> stage_inv (stage s) s"

lemmas srv_inv_defs = srv_inv_def inv_table_def inv_update_def inv_cancel_def processing_done_def

subsection \<open>What the statements do to running and queued rows\<close>

lemma count_running_mono:
  "count_state ''running'' (snd (Acknowledge o1 i v rows)) = count_state ''running'' rows"
  "count_state ''queued'' (snd (Acknowledge o1 i v rows)) = count_state ''queued'' rows"
  "count_state ''running'' (snd (MarkCleaned o1 i rows)) = count_state ''running'' rows"
  "count_state ''queued'' (snd (MarkCleaned o1 i rows)) = count_state ''queued'' rows"
  by (simp_all add: Acknowledge_def MarkCleaned_def run_write_def stmt_ack_def stmt_cleaned_def count_state_def db_update_def
      filter_map comp_def if_distrib [of jstate] cong: if_cong split: db_outcome.splits)

lemma count_running_db_update:
  "(\<And>r. A r \<Longrightarrow> jstate (f r) \<noteq> ''running'') \<Longrightarrow>
     count_state ''running'' (db_update A f rows) \<le> count_state ''running'' rows"
  by (rule count_state_db_update_le) auto

lemma count_running_finish:
  assumes "terminal_state st"
  shows "count_state ''running'' (snd (Finish o1 o2 now i st msg rows)) \<le> count_state ''running'' rows"
proof -
  have "count_state ''running'' (fst (stmt_finish now i st msg rows)) \<le> count_state ''running'' rows"
    unfolding stmt_finish_def Let_def using assms by (simp add: count_running_db_update)
  then show ?thesis using Finish_state [of o1 o2 now i st msg rows] by (elim disjE conjE) simp_all
qed

lemma count_running_admit:
  "count_state ''running'' (snd (Admit h o1 o2 j Q rows)) \<le> count_state ''running'' rows"
proof (cases "snd (Admit h o1 o2 j Q rows) = rows")
  case False
  then show ?thesis using Admit_changes [OF False] by (auto simp: count_state_def admissible_def)
qed simp

lemma count_running_webhook:
  "count_state ''running'' (snd (postWebhook env c acc now o1 o2 req rows)) \<le> count_state ''running'' rows"
  using webhook_rows [of env c acc now o1 o2 req rows] count_running_admit by (elim disjE exE conjE) simp_all

lemma webhook_closed: "snd (postWebhook env c False now o1 o2 req rows) = rows"
  using webhook_rows [of env c False now o1 o2 req rows] by simp

lemma count_after_recover: "RecoverInterrupted o1 now rows = (None, rows') \<Longrightarrow> count_state ''running'' rows' = 0"
  by (auto simp: RecoverInterrupted_def run_write_def stmt_recover_def count_state_def db_update_def filter_empty_conv
      split: db_outcome.splits)

lemma count_after_cancel:
  assumes "CancelQueued o1 now rows = (None, rows')"
  shows "count_state ''queued'' rows' = 0" "count_state ''running'' rows' \<le> count_state ''running'' rows"
proof -
  have r: "rows' = stmt_cancel now rows" using assms by (auto simp: CancelQueued_def run_write_def split: db_outcome.splits)
  show "count_state ''queued'' rows' = 0"
    by (auto simp: r stmt_cancel_def count_state_def db_update_def filter_empty_conv)
  show "count_state ''running'' rows' \<le> count_state ''running'' rows"
    unfolding r stmt_cancel_def by (rule count_running_db_update) simp
qed

text \<open>Every section changes the table by store operations.\<close>

lemma webhook_run: "sql_run (sha256 env) (max_queued c) P rows (snd (postWebhook env c acc now o1 o2 req rows))"
  using webhook_rows [of env c acc now o1 o2 req rows]
    apply_op_run [of "sha256 env" "max_queued c" P rows "OAdmit o1 o2 _"]
  by (elim disjE exE conjE) simp_all

lemma Claim_run: "sql_run h Q P rows (snd (Claim o1 P rows))"
  using apply_op_run [of h Q P rows "OClaim o1"] by simp

lemma Finish_run: "sql_run h Q P rows (snd (Finish o1 o2 now i st msg rows))"
  using apply_op_run [of h Q P rows "OFinish o1 o2 now i st msg"] by simp

lemma write_runs:
  "sql_run h Q P rows (snd (Acknowledge o1 i v rows))" "sql_run h Q P rows (snd (MarkCleaned o1 i rows))"
  "sql_run h Q P rows (snd (RecoverInterrupted o1 now rows))" "sql_run h Q P rows (snd (CancelQueued o1 now rows))"
  using apply_op_run [of h Q P rows "OAck o1 i v"] apply_op_run [of h Q P rows "OCleaned o1 i"]
    apply_op_run [of h Q P rows "ORecover o1 now"] apply_op_run [of h Q P rows "OCancel o1 now"] by simp_all

subsection \<open>Workers and their rows\<close>

definition is_running :: "job list \<Rightarrow> string \<Rightarrow> bool" where
  "is_running rows i \<longleftrightarrow> (\<exists>r. lookup rows i = Some r \<and> jstate r = ''running'')"

lemma worker_ok_Executing: "worker_ok rows (i, Executing) = is_running rows i"
  by (simp add: is_running_def)

lemma saving_stays:
  assumes "sql_run h Q P rows rows'" "store_ok h Q P rows" "worker_ok rows (i, Saving st msg)"
  shows "worker_ok rows' (i, Saving st msg)"
proof -
  obtain r where r: "lookup rows i = Some r" "jstate r \<noteq> ''queued''" using assms(3) by auto
  obtain r' where r': "lookup rows' i = Some r'" "evolves r r'" using run_evolves [OF assms(1,2) r(1)] by blast
  then have "jstate r' \<noteq> ''queued''" using r(2) by (auto simp: evolves_def may_become_def)
  then show ?thesis using r' assms(3) by auto
qed

lemma running_saving: "is_running rows i \<Longrightarrow> terminal_state st \<Longrightarrow> worker_ok rows (i, Saving st msg)"
  by (auto simp: is_running_def)

lemma running_ack: "is_running rows i \<Longrightarrow> is_running (snd (Acknowledge o1 k v rows)) i"
  by (cases "lookup rows i")
    (simp_all add: is_running_def Acknowledge_def run_write_def stmt_ack_def lookup_db_update split: db_outcome.splits)

lemma running_cleaned: "is_running rows i \<Longrightarrow> is_running (snd (MarkCleaned o1 k rows)) i"
  by (cases "lookup rows i")
    (simp_all add: is_running_def MarkCleaned_def run_write_def stmt_cleaned_def lookup_db_update split: db_outcome.splits)

lemma running_webhook:
  assumes "is_running rows i"
  shows "is_running (snd (postWebhook env c acc now o1 o2 req rows)) i"
proof -
  have "is_running (snd (Admit h o1 o2 j Q rows)) i" for h j Q
  proof (cases "snd (Admit h o1 o2 j Q rows) = rows")
    case False
    then show ?thesis using Admit_changes [OF False] assms by (auto simp: is_running_def lookup_append)
  qed (simp add: assms)
  then show ?thesis using webhook_rows [of env c acc now o1 o2 req rows] assms by (elim disjE exE conjE) simp_all
qed

lemma running_finish:
  assumes "is_running rows i" "k \<noteq> i"
  shows "is_running (snd (Finish o1 o2 now k st msg rows)) i"
proof -
  have "is_running (fst (stmt_finish now k st msg rows)) i"
    using assms by (auto simp: stmt_finish_def Let_def is_running_def lookup_db_update dest: lookup_Some)
  then show ?thesis using Finish_state [of o1 o2 now k st msg rows] assms(1) by (elim disjE conjE) simp_all
qed

lemma claim_lookup:
  assumes "store_ok h Q P rows" "queue rows = q # qs"
  shows "lookup (db_update (\<lambda>r. job_id r = job_id q) mark_running rows) i =
    (if i = job_id q then Some (mark_running q) else lookup rows i)"
proof -
  have "lookup rows (job_id q) = Some q"
    using assms queue_hd(1) [OF assms(2)] by (auto simp: store_ok_def intro: lookup_mem)
  then show ?thesis by (cases "lookup rows i") (auto simp: lookup_db_update dest: lookup_Some)
qed

lemma running_claim:
  assumes "store_ok h Q P rows" "is_running rows i"
  shows "is_running (snd (Claim o1 P rows)) i"
proof -
  have "is_running (fst (stmt_claim P rows)) i"
    using assms claim_lookup [OF assms(1)] by (cases "queue rows") (auto simp: stmt_claim_def Let_def is_running_def)
  then show ?thesis using Claim_state [of o1 P rows] assms(2) by (elim disjE) simp_all
qed

lemma claim_result:
  assumes "store_ok h Q P rows" "Claim o1 P rows = (Inr (Some j), rows')"
  shows "is_running rows' (job_id j)" "\<exists>q. lookup rows (job_id j) = Some q \<and> jstate q = ''queued''"
proof -
  obtain q qs where q: "queue rows = q # qs"
    using assms(2) by (cases "queue rows") (auto simp: Claim_def stmt_claim_def split: if_splits)
  note l = claim_lookup [OF assms(1) q]
  have "lookup rows (job_id q) = Some q"
    using assms(1) queue_hd(1) [OF q] by (auto simp: store_ok_def intro: lookup_mem)
  then show "is_running rows' (job_id j)" "\<exists>q. lookup rows (job_id j) = Some q \<and> jstate q = ''queued''"
    using assms(2) q queue_hd(2) [OF q] by (auto simp: Claim_def stmt_claim_def Let_def l is_running_def split: if_splits)
qed

text \<open>All workers keep their rows when the executing ones do.\<close>

lemma workers_stay:
  assumes "inv_table env c s" "sql_run (sha256 env) (max_queued c) (max_parallel c) (table s) rows'"
    and "\<And>i. is_running (table s) i \<Longrightarrow> (i, Executing) \<in> set (workers s) \<Longrightarrow> is_running rows' i"
  shows "inv_table env c (s\<lparr>table := rows'\<rparr>)"
proof -
  have "worker_ok rows' w" if "w \<in> set (workers s)" for w
  proof (cases w)
    case (Pair i x)
    have ok: "store_ok (sha256 env) (max_queued c) (max_parallel c) (table s)" and w: "worker_ok (table s) (i, x)"
      using assms(1) that Pair by (auto simp: inv_table_def)
    show ?thesis
    proof (cases x)
      case Executing
      then show ?thesis using assms(3) w that Pair by (simp only: worker_ok_Executing)
    next
      case (Saving st msg)
      then show ?thesis using saving_stays [OF assms(2) ok, of i st msg] w Pair by (simp only:)
    qed
  qed
  then show ?thesis using assms(1,2) store_ok_run [OF assms(2)] by (simp add: inv_table_def)
qed

lemma map_fst_set_worker [simp]: "map fst (set_worker i w ws) = map fst ws"
  by (auto simp: set_worker_def)

lemma set_set_worker: "x \<in> set (set_worker i w ws) \<Longrightarrow> x = (i, w) \<or> x \<in> set ws"
  by (auto simp: set_worker_def split: if_splits)

lemma set_drop_worker: "x \<in> set (drop_worker i ws) \<longleftrightarrow> x \<in> set ws \<and> fst x \<noteq> i"
  by (cases x) (auto simp: drop_worker_def)

lemma distinct_drop_worker: "distinct (map fst ws) \<Longrightarrow> distinct (map fst (drop_worker i ws))"
  unfolding drop_worker_def by (rule distinct_map_filter)

text \<open>Each section keeps the invariant of the table.\<close>

lemma table_webhook: "inv_table env c s \<Longrightarrow> inv_table env c (snd (webhook_section env c now o1 o2 req s))"
  unfolding webhook_section_def case_prod_unfold Let_def snd_conv
  by (rule workers_stay) (simp_all add: webhook_run running_webhook)

lemma table_ack: "inv_table env c s \<Longrightarrow> inv_table env c (s\<lparr>table := snd (Acknowledge o1 i v (table s))\<rparr>)"
  by (rule workers_stay) (simp_all add: write_runs running_ack)

lemma table_cleaned: "inv_table env c s \<Longrightarrow> inv_table env c (s\<lparr>table := snd (MarkCleaned o1 i (table s))\<rparr>)"
  by (rule workers_stay) (simp_all add: write_runs running_cleaned)

lemma table_claim:
  assumes "inv_table env c s"
  shows "inv_table env c (claim_section c o1 s)"
proof (cases "draining s")
  case True
  then show ?thesis using assms by (simp add: claim_section_def)
next
  case False
  obtain res rows where cl: "Claim o1 (max_parallel c) (table s) = (res, rows)" by (cases "Claim o1 (max_parallel c) (table s)")
  have ok: "store_ok (sha256 env) (max_queued c) (max_parallel c) (table s)" using assms by (simp add: inv_table_def)
  have t: "inv_table env c (s\<lparr>table := rows\<rparr>)"
    using Claim_run [of "sha256 env" "max_queued c" "max_parallel c" "table s" o1] running_claim [OF ok, of _ o1] cl
    by (intro workers_stay [OF assms]) simp_all
  show ?thesis
  proof (cases "\<exists>j. res = Inr (Some j)")
    case True
    then obtain j where j: "Claim o1 (max_parallel c) (table s) = (Inr (Some j), rows)" using cl by auto
    note r = claim_result [OF ok j]
    have "worker_ok (table s) w \<Longrightarrow> fst w \<noteq> job_id j" for w
      using r(2) by (cases w; cases "snd w") auto
    then have "job_id j \<notin> fst ` set (workers s)" using assms unfolding inv_table_def by (metis imageE)
    then show ?thesis using t r(1) False by (simp add: claim_section_def j inv_table_def is_running_def)
  next
    case no: False
    then have "claim_section c o1 s = s\<lparr>table := rows\<rparr>"
      using False cl by (auto simp: claim_section_def split: sum.splits option.splits)
    then show ?thesis using t by simp
  qed
qed

lemma table_work:
  assumes "inv_table env c s" "(i, Executing) \<in> set (workers s)"
    and "\<forall>st e. exec_result ev = Returned st e \<longrightarrow> terminal_state st"
  shows "inv_table env c (worker_ends i ev s)"
proof -
  obtain st msg where o: "runJob_outcome ev = (st, msg)" by (cases "runJob_outcome ev")
  have t: "terminal_state st"
    using assms(3) o by (cases "exec_result ev") (auto simp: runJob_outcome_def runJob_body_def Let_def split: option.splits if_splits)
  have "worker_ok (table s) (i, Executing)" using assms by (auto simp: inv_table_def)
  then have "worker_ok (table s) (i, Saving st msg)" using t by (auto simp: is_running_def)
  then show ?thesis using assms(1) by (auto simp: inv_table_def worker_ends_def o dest: set_set_worker)
qed

lemma table_save:
  assumes "inv_table env c s" "(i, Saving st msg) \<in> set (workers s)"
  shows "inv_table env c (save_section o1 o2 now give_up i st msg s)"
proof -
  obtain e rows where f: "Finish o1 o2 now i st msg (table s) = (e, rows)" by (cases "Finish o1 o2 now i st msg (table s)")
  have "(k, Executing) \<in> set (workers s) \<Longrightarrow> k \<noteq> i" for k
    using assms by (auto simp: inv_table_def dest: eq_key_imp_eq_value)
  then have t: "inv_table env c (s\<lparr>table := rows\<rparr>)"
    using Finish_run [of "sha256 env" "max_queued c" "max_parallel c" "table s" o1 o2 now i st msg] f
      running_finish [of "table s" _ i o1 o2 now st msg]
    by (intro workers_stay [OF assms(1)]) auto
  then have "inv_table env c (s\<lparr>table := rows, workers := drop_worker i (workers s)\<rparr>)"
    by (simp add: inv_table_def distinct_drop_worker set_drop_worker)
  then show ?thesis using t f by (simp add: save_section_def split: option.splits)
qed

subsection \<open>The invariant holds in every reachable state\<close>

lemma stage_inv_keep:
  assumes "stage_inv g s" "ctx_done s' = ctx_done s"
    and "processing_done s \<Longrightarrow> processing_done s'" "accepting s' \<Longrightarrow> accepting s"
    and "upd s = UDone \<Longrightarrow> upd s' = UDone \<and> candidate s' = candidate s"
    and "upd s = UIdle \<Longrightarrow> \<not> accepting s \<Longrightarrow> upd s' = UIdle"
    and "processing_done s \<Longrightarrow> count_state ''running'' (table s') \<le> count_state ''running'' (table s)"
    and "processing_done s \<Longrightarrow> \<not> accepting s \<Longrightarrow> count_state ''queued'' (table s') \<le> count_state ''queued'' (table s)"
  shows "stage_inv g s'"
proof (cases g)
  case (Stopped r)
  then show ?thesis using assms by (cases r) auto
qed (use assms in auto)

lemma processing_done_upd [simp]:
  "processing_done (s\<lparr>table := t\<rparr>) = processing_done s" "processing_done (s\<lparr>upd := u\<rparr>) = processing_done s"
  "processing_done (s\<lparr>stage := g\<rparr>) = processing_done s" "processing_done (s\<lparr>accepting := a\<rparr>) = processing_done s"
  "processing_done (s\<lparr>updating := a\<rparr>) = processing_done s" "processing_done (s\<lparr>draining := a\<rparr>) = processing_done s"
  "processing_done (s\<lparr>candidate := cd\<rparr>) = processing_done s" "processing_done (s\<lparr>update_ready := a\<rparr>) = processing_done s"
  "processing_done (s\<lparr>ctx_done := a\<rparr>) = processing_done s" "processing_done (s\<lparr>signaled := a\<rparr>) = processing_done s"
  "processing_done (s\<lparr>processing_canceled := a\<rparr>) = processing_done s"
  by (simp_all add: processing_done_def)

lemma table_only:
  assumes "srv_inv env c s" "inv_table env c (s\<lparr>table := rows\<rparr>)"
    and "count_state ''running'' rows \<le> count_state ''running'' (table s)"
    and "\<not> accepting s \<Longrightarrow> count_state ''queued'' rows \<le> count_state ''queued'' (table s)"
  shows "srv_inv env c (s\<lparr>table := rows\<rparr>)"
proof -
  have "stage_inv (stage s) (s\<lparr>table := rows\<rparr>)"
    using assms(1,3,4) by - (rule stage_inv_keep [where s = s], simp_all add: srv_inv_def)
  moreover have "inv_cancel (s\<lparr>table := rows\<rparr>)" using assms(1) by (simp add: srv_inv_def inv_cancel_def)
  moreover have "emptied_phase (upd s) \<Longrightarrow> count_state ''running'' rows = 0"
    using assms(1,3) by (simp add: srv_inv_def inv_update_def)
  then have "inv_update (s\<lparr>table := rows\<rparr>)" using assms(1) by (simp add: srv_inv_def inv_update_def)
  ultimately show ?thesis using assms(2) by (simp add: srv_inv_def)
qed

lemma webhook_sel:
  "snd (webhook_section env c now o1 o2 req s) = s\<lparr>table := snd (postWebhook env c (accepting s) now o1 o2 req (table s))\<rparr>"
  by (simp add: webhook_section_def Let_def case_prod_unfold)

lemma inv_webhook:
  assumes "srv_inv env c s"
  shows "srv_inv env c (snd (webhook_section env c now o1 o2 req s))"
  using assms table_webhook [of env c s now o1 o2 req] unfolding webhook_sel
  by (intro table_only) (simp_all add: srv_inv_def count_running_webhook webhook_closed)

lemma inv_ack: "srv_inv env c s \<Longrightarrow> srv_inv env c (s\<lparr>table := snd (Acknowledge o1 i v (table s))\<rparr>)"
  by (rule table_only) (simp_all add: srv_inv_def table_ack count_running_mono)

lemma inv_cleaned: "srv_inv env c s \<Longrightarrow> srv_inv env c (s\<lparr>table := snd (MarkCleaned o1 i (table s))\<rparr>)"
  by (rule table_only) (simp_all add: srv_inv_def table_cleaned count_running_mono)

lemma inv_update_section:
  assumes "srv_inv env c s"
  shows "srv_inv env c (snd (update_section passcode authorization s))"
proof (cases "postUpdate_decision passcode authorization (updating s) (accepting s) = StartUpdate")
  case False
  then show ?thesis using assms by (simp add: update_section_def Let_def)
next
  case True
  then have ua: "\<not> updating s" "accepting s"
    by (auto simp: postUpdate_decision_def Let_def split: if_splits)
  let ?s = "s\<lparr>updating := True, upd := UBuilding\<rparr>"
  have i: "upd s = UIdle" using ua assms by (simp add: srv_inv_def inv_update_def)
  have "stage_inv (stage s) ?s"
    using assms ua i by - (rule stage_inv_keep [where s = s], simp_all add: srv_inv_def)
  then show ?thesis using assms True i
    by (auto simp: srv_inv_def inv_table_def inv_update_def inv_cancel_def update_section_def phase_simps)
qed

lemma inv_claim:
  assumes "srv_inv env c s" "dispatching s"
  shows "srv_inv env c (claim_section c o1 s)"
proof (cases "draining s")
  case True
  then show ?thesis using assms by (simp add: claim_section_def)
next
  case False
  have t: "inv_table env c (claim_section c o1 s)" using assms table_claim by (simp add: srv_inv_def)
  obtain res rows where cl: "Claim o1 (max_parallel c) (table s) = (res, rows)" by (cases "Claim o1 (max_parallel c) (table s)")
  obtain ws where e: "claim_section c o1 s = s\<lparr>table := rows, workers := ws\<rparr>"
  proof (cases "\<exists>j. res = Inr (Some j)")
    case True
    then show ?thesis using that False cl by (auto simp: claim_section_def)
  next
    case no: False
    then have "claim_section c o1 s = s\<lparr>table := rows, workers := workers s\<rparr>"
      using False cl by (auto simp: claim_section_def split: sum.splits option.splits)
    then show ?thesis by (rule that)
  qed
  have nd: "\<not> processing_done s" using assms(2) by (simp add: processing_done_def)
  have "\<not> draining_phase (upd s)" using False assms by (simp add: srv_inv_def inv_update_def)
  moreover have "stage_inv (stage s) (s\<lparr>table := rows, workers := ws\<rparr>)"
    using assms nd by - (rule stage_inv_keep [where s = s], simp_all add: srv_inv_def)
  ultimately show ?thesis using assms t False phases [of "upd s"] by (auto simp: srv_inv_def inv_update_def inv_cancel_def e)
qed

lemma inv_work:
  assumes "srv_inv env c s" "(i, Executing) \<in> set (workers s)" "\<forall>st e. exec_result ev = Returned st e \<longrightarrow> terminal_state st"
  shows "srv_inv env c (worker_ends i ev s)"
proof -
  have "workers s \<noteq> []" using assms(2) by auto
  then have nd: "\<not> processing_done s" by (simp add: processing_done_def)
  moreover have "inv_table env c (worker_ends i ev s)" using assms table_work by (simp add: srv_inv_def)
  moreover have "stage_inv (stage s) (worker_ends i ev s)"
    using assms(1) nd by - (rule stage_inv_keep [where s = s], simp_all add: srv_inv_def worker_ends_def)
  ultimately show ?thesis using assms(1)
    by (auto simp: srv_inv_def inv_update_def inv_cancel_def worker_ends_def)
qed

lemma inv_save:
  assumes "srv_inv env c s" "(i, Saving st msg) \<in> set (workers s)"
  shows "srv_inv env c (save_section o1 o2 now give_up i st msg s)"
proof -
  have "workers s \<noteq> []" using assms(2) by auto
  then have nd: "\<not> processing_done s" by (simp add: processing_done_def)
  have t: "inv_table env c (save_section o1 o2 now give_up i st msg s)" using assms table_save by (simp add: srv_inv_def)
  have trm: "terminal_state st" using assms by (auto simp: srv_inv_def inv_table_def)
  obtain e rows where f: "Finish o1 o2 now i st msg (table s) = (e, rows)" by (cases "Finish o1 o2 now i st msg (table s)")
  have "\<exists>ws. save_section o1 o2 now give_up i st msg s = s\<lparr>table := rows, workers := ws\<rparr>"
  proof (cases "e = None \<or> give_up \<and> processing_canceled s")
    case True
    then show ?thesis using f by (intro exI [of _ "drop_worker i (workers s)"]) (auto simp: save_section_def split: option.splits)
  next
    case False
    then show ?thesis using f by (intro exI [of _ "workers s"]) (auto simp: save_section_def split: option.splits)
  qed
  then obtain ws where w: "save_section o1 o2 now give_up i st msg s = s\<lparr>table := rows, workers := ws\<rparr>" by blast
  have c: "count_state ''running'' rows \<le> count_state ''running'' (table s)"
    using f count_running_finish [OF trm, of o1 o2 now i msg "table s"] by simp
  have "stage_inv (stage s) (s\<lparr>table := rows, workers := ws\<rparr>)"
    using assms(1) nd by - (rule stage_inv_keep [where s = s], simp_all add: srv_inv_def)
  then show ?thesis using assms(1) t c nd unfolding w by (auto simp: srv_inv_def inv_update_def inv_cancel_def)
qed

lemma inv_ends:
  assumes "srv_inv env c s" "processing_canceled s"
  shows "srv_inv env c (s\<lparr>dispatching := False\<rparr>)" "srv_inv env c (s\<lparr>reporting := False\<rparr>)"
proof -
  have "stage_inv (stage s) (s\<lparr>dispatching := False\<rparr>)" "stage_inv (stage s) (s\<lparr>reporting := False\<rparr>)"
    using assms by - (rule stage_inv_keep [where s = s], simp_all add: srv_inv_def processing_done_def)+
  then show "srv_inv env c (s\<lparr>dispatching := False\<rparr>)" "srv_inv env c (s\<lparr>reporting := False\<rparr>)"
    using assms by (auto simp: srv_inv_defs)
qed

text \<open>Steps of the update goroutine.\<close>

lemma inv_upd:
  assumes "srv_inv env c s" "upd s \<noteq> UIdle" "upd s \<noteq> UDone"
    and "inv_table env c s'" "inv_update s'" "inv_cancel s'" "stage s' = stage s" "ctx_done s' = ctx_done s"
    and "processing_done s' = processing_done s" "table s' = table s" "accepting s' \<Longrightarrow> accepting s"
  shows "srv_inv env c s'"
proof -
  have "stage_inv (stage s) s'" using assms by - (rule stage_inv_keep [where s = s], simp_all add: srv_inv_def)
  then show ?thesis using assms by (simp add: srv_inv_def)
qed

lemma inv_built: "srv_inv env c s \<Longrightarrow> upd s = UBuilding \<Longrightarrow> srv_inv env c (built_section built s)"
  by (rule inv_upd [where s = s])
    (auto simp: built_section_def srv_inv_def inv_table_def inv_update_def inv_cancel_def phase_simps split: option.splits)

lemma inv_poll: "srv_inv env c s \<Longrightarrow> upd s = UPolling \<Longrightarrow> srv_inv env c (poll_section o1 stop_waiting s)"
  by (rule inv_upd [where s = s])
    (auto simp: poll_section_def RunningCount_def srv_inv_def inv_table_def inv_update_def inv_cancel_def phase_simps
      split: sum.splits if_splits)

lemma inv_waiting:
  assumes "srv_inv env c s" "upd s = UWaiting"
  shows "processing_done s \<Longrightarrow> srv_inv env c (s\<lparr>upd := UFlushing\<rparr>)" "ctx_done s \<Longrightarrow> srv_inv env c (s\<lparr>upd := UFailed\<rparr>)"
  by (rule inv_upd [OF assms(1)]; use assms in \<open>auto simp: srv_inv_def inv_table_def inv_update_def inv_cancel_def phase_simps\<close>)+

lemma inv_flushing:
  assumes "srv_inv env c s" "upd s = UFlushing"
  shows "srv_inv env c (s\<lparr>upd := (if ctx_done s then UFailed else USucceeded)\<rparr>)"
  by (rule inv_upd [OF assms(1)]; use assms in \<open>auto simp: srv_inv_def inv_table_def inv_update_def inv_cancel_def phase_simps\<close>)

lemma inv_ready:
  assumes "srv_inv env c s" "upd s = USucceeded"
  shows "srv_inv env c (s\<lparr>update_ready := True, upd := UDone\<rparr>)"
  by (rule inv_upd [OF assms(1)]; use assms in \<open>auto simp: srv_inv_def inv_table_def inv_update_def inv_cancel_def phase_simps\<close>)

lemma inv_update_failed:
  assumes "srv_inv env c s" "upd s = UFailed"
  shows "srv_inv env c (update_failed_section s)"
  by (rule inv_upd [OF assms(1)]; use assms in
      \<open>auto simp: update_failed_section_def srv_inv_def inv_table_def inv_update_def inv_cancel_def phase_simps processing_done_def\<close>)

text \<open>Steps of \<open>serve\<close> and \<open>stop\<close>.\<close>

lemma inv_stage:
  assumes "srv_inv env c s" "stage_inv g (s\<lparr>stage := g\<rparr>)"
  shows "srv_inv env c (s\<lparr>stage := g\<rparr>)"
  using assms by (simp add: srv_inv_def inv_table_def inv_update_def inv_cancel_def)

lemma inv_stop:
  assumes "srv_inv env c s" "stage s = Selected u"
  shows "srv_inv env c (stop_section u s)"
  using assms by (auto simp: stop_section_def srv_inv_def inv_table_def inv_update_def inv_cancel_def processing_done_def)

lemma inv_write:
  assumes "srv_inv env c s" "processing_done s" "ctx_done s"
    and "sql_run (sha256 env) (max_queued c) (max_parallel c) (table s) (snd (op (table s)))"
    and "count_state ''running'' (snd (op (table s))) \<le> count_state ''running'' (table s)"
    and "\<And>rows. op (table s) = (None, rows) \<Longrightarrow> stage_inv g (s\<lparr>table := rows, stage := g\<rparr>)"
  shows "srv_inv env c (write_section op g s)"
proof -
  obtain e rows where o: "op (table s) = (e, rows)" by (cases "op (table s)")
  have "inv_table env c (s\<lparr>table := rows\<rparr>)"
    using assms(1,2,4) o by (intro workers_stay) (auto simp: srv_inv_def processing_done_def)
  then show ?thesis
    using assms o by (cases e) (auto simp: write_section_def srv_inv_def inv_table_def inv_update_def inv_cancel_def)
qed

lemma count_running_recover: "count_state ''running'' (snd (RecoverInterrupted o1 now rows)) \<le> count_state ''running'' rows"
  by (auto simp: RecoverInterrupted_def run_write_def stmt_recover_def intro: count_running_db_update split: db_outcome.splits)

lemma count_running_cancel: "count_state ''running'' (snd (CancelQueued o1 now rows)) \<le> count_state ''running'' rows"
  by (auto simp: CancelQueued_def run_write_def stmt_cancel_def intro: count_running_db_update split: db_outcome.splits)

lemma inv_recover:
  assumes "srv_inv env c s" "stage s = Quiet u"
  shows "srv_inv env c (write_section (RecoverInterrupted o1 now) Recovered s)"
proof (rule inv_write)
  show "stage_inv Recovered (s\<lparr>table := rows, stage := Recovered\<rparr>)"
    if "RecoverInterrupted o1 now (table s) = (None, rows)" for rows
    using assms count_after_recover [OF that] by (simp add: srv_inv_def)
qed (use assms in \<open>simp_all add: srv_inv_def write_runs count_running_recover\<close>)

lemma inv_cancel_queue:
  assumes "srv_inv env c s" "stage s = Recovered"
  shows "srv_inv env c (write_section (CancelQueued o1 now) Canceled_Queue s)"
proof (rule inv_write)
  show "stage_inv Canceled_Queue (s\<lparr>table := rows, stage := Canceled_Queue\<rparr>)"
    if "CancelQueued o1 now (table s) = (None, rows)" for rows
    using assms count_after_cancel [OF that] by (simp add: srv_inv_def)
qed (use assms count_running_cancel [of o1 now "table s"] in \<open>simp_all add: srv_inv_def write_runs\<close>)

lemma srv_inv_step: "srv_step env c passcode s s' \<Longrightarrow> srv_inv env c s \<Longrightarrow> srv_inv env c s'"
proof (induction rule: srv_step.induct)
  case (on_signal s)
  have "stage_inv (stage s) (s\<lparr>signaled := True\<rparr>)"
    using on_signal by - (rule stage_inv_keep [where s = s], simp_all add: srv_inv_def)
  then show ?case using on_signal by (simp add: srv_inv_def inv_table_def inv_update_def inv_cancel_def)
next
  case (select_ready s)
  then have "upd s = UDone" by (simp add: srv_inv_def inv_update_def)
  then show ?case using select_ready by (intro inv_stage) (auto simp: srv_inv_def)
next
  case (on_timeout s u)
  then show ?case by (intro inv_stage) (auto simp: srv_inv_def)
next
  case (on_processed s u)
  then show ?case by (intro inv_stage) (auto simp: srv_inv_def)
next
  case (on_tasks s u)
  then show ?case by (intro inv_stage) (auto simp: srv_inv_def)
next
  case (on_stopped s ok)
  then show ?case by (intro inv_stage) (auto simp: srv_inv_def)
next
  case (select_signal s)
  then show ?case by (intro inv_stage) (auto simp: srv_inv_def)
next
  case (select_error s)
  then show ?case by (intro inv_stage) (auto simp: srv_inv_def)
qed (simp_all add: inv_webhook inv_update_section inv_claim inv_ends inv_work inv_save inv_ack inv_cleaned inv_built inv_poll
      inv_waiting inv_flushing inv_ready inv_update_failed inv_stop inv_recover inv_cancel_queue)

definition srv_reachable :: "ci_env \<Rightarrow> ci_config \<Rightarrow> string \<Rightarrow> job list \<Rightarrow> srv \<Rightarrow> bool" where
  "srv_reachable env c passcode rows s \<longleftrightarrow> (srv_step env c passcode)\<^sup>*\<^sup>* (init_srv rows) s"

lemma srv_inv_init: "store_ok (sha256 env) (max_queued c) (max_parallel c) rows \<Longrightarrow> srv_inv env c (init_srv rows)"
  by (simp add: init_srv_def srv_inv_defs phase_simps)

lemma srv_inv_reachable:
  assumes "srv_reachable env c passcode rows s" "store_ok (sha256 env) (max_queued c) (max_parallel c) rows"
  shows "srv_inv env c s"
proof -
  have "srv_inv env c s" if "(srv_step env c passcode)\<^sup>*\<^sup>* (init_srv rows) s"
    using that by (induction rule: rtranclp_induct) (auto intro: srv_inv_step simp: srv_inv_init assms(2))
  then show ?thesis using assms(1) by (simp add: srv_reachable_def)
qed

subsection \<open>The table along a run\<close>

lemma section_runs:
  "sql_run (sha256 env) (max_queued c) (max_parallel c) (table s) (table (claim_section c o1 s))"
  "sql_run (sha256 env) (max_queued c) (max_parallel c) (table s) (table (save_section o1 o2 now give_up i st msg s))"
  using Claim_run [of "sha256 env" "max_queued c" "max_parallel c" "table s" o1]
    Finish_run [of "sha256 env" "max_queued c" "max_parallel c" "table s" o1 o2 now i st msg]
  by (auto simp: claim_section_def save_section_def split: prod.splits sum.splits option.splits)

lemma write_section_runs:
  "sql_run h Q P (table s) (snd (op (table s))) \<Longrightarrow> sql_run h Q P (table s) (table (write_section op g s))"
  by (cases "op (table s)") (auto simp: write_section_def split: option.splits)

lemma other_tables [simp]:
  "table (snd (update_section passcode a s)) = table s" "table (worker_ends i ev s) = table s"
  "table (built_section b s) = table s" "table (poll_section o1 w s) = table s"
  "table (update_failed_section s) = table s" "table (stop_section u s) = table s"
  by (auto simp: update_section_def Let_def worker_ends_def built_section_def poll_section_def update_failed_section_def
      stop_section_def split: option.splits sum.splits)

lemma step_table: "srv_step env c passcode s s' \<Longrightarrow> sql_run (sha256 env) (max_queued c) (max_parallel c) (table s) (table s')"
  by (induction rule: srv_step.induct)
    (simp_all add: webhook_sel webhook_run section_runs write_runs write_section_runs)

lemma steps_table:
  "(srv_step env c passcode)\<^sup>*\<^sup>* s s' \<Longrightarrow> sql_run (sha256 env) (max_queued c) (max_parallel c) (table s) (table s')"
proof (induction rule: rtranclp_induct)
  case (step y z)
  show ?case using step.IH step_table [OF step.hyps(2)] by (rule rtranclp_trans)
qed simp

lemma executing_running:
  assumes "srv_inv env c s"
  shows "int (length (filter (\<lambda>w. snd w = Executing) (workers s))) \<le> int (count_state ''running'' (table s))"
proof -
  let ?ex = "filter (\<lambda>w. snd w = Executing) (workers s)"
  have t: "inv_table env c s" and d: "distinct (map job_id (table s))"
    using assms by (auto simp: srv_inv_def inv_table_def store_ok_def)
  then have "distinct (map fst ?ex)" by (simp add: inv_table_def distinct_map_filter)
  moreover have "set (map fst ?ex) \<subseteq> running_ids (table s)"
    using t by (auto simp: inv_table_def running_ids_lookup [OF d])
  moreover have "finite (running_ids (table s))" by (simp add: running_ids_def)
  ultimately have "length ?ex \<le> card (running_ids (table s))"
    using card_mono distinct_card by (metis length_map)
  then show ?thesis by (simp add: card_running [OF d])
qed

lemma no_live_rows:
  assumes "store_ok h Q P rows" "count_state ''running'' rows = 0" "r \<in> set rows"
  shows "jstate r = ''queued'' \<or> job_terminal r" "count_state ''queued'' rows = 0 \<Longrightarrow> job_terminal r"
  using assms by (auto simp: store_ok_def row_ok_def valid_job_state_def job_terminal_def count_state_def filter_empty_conv)

text \<open>A complete update of an idle server.\<close>

lemma reach_init: "srv_reachable env c passcode rows (init_srv rows)"
  by (simp add: srv_reachable_def)

lemma reach_step: "srv_reachable env c passcode rows s \<Longrightarrow> srv_step env c passcode s s' \<Longrightarrow> srv_reachable env c passcode rows s'"
  by (simp add: srv_reachable_def)

lemma update_section_start:
  assumes "\<not> updating s" "accepting s"
  shows "update_section passcode (''Bearer '' @ passcode) s = (update_response StartUpdate, s\<lparr>updating := True, upd := UBuilding\<rparr>)"
proof -
  have "HasPrefix (''Bearer '' @ passcode) ''Bearer ''" "TrimPrefix (''Bearer '' @ passcode) ''Bearer '' = passcode"
    by (rule HasPrefix_append, rule TrimPrefix_append)
  then have "postUpdate_decision passcode (''Bearer '' @ passcode) (updating s) (accepting s) = StartUpdate"
    using assms by (simp only: postUpdate_decision_def Let_def simp_thms if_False)
  then show ?thesis by (simp only: update_section_def Let_def simp_thms if_True)
qed

lemma init_flags: "\<not> updating (init_srv rows)" "accepting (init_srv rows)"
  by (simp_all add: init_srv_def)

lemma sample_update_run:
  assumes "count_state ''running'' rows = 0"
  obtains s where "srv_reachable env c passcode rows s" "stage s = Stopped (HandOff cand)"
proof -
  note d = update_section_start [of "init_srv rows" passcode, OF init_flags]
  note r = reach_init [of env c passcode rows]
  note r = reach_step [OF r on_update [where authorization = "''Bearer '' @ passcode"]]
  note r = r [unfolded d snd_conv]
  note r = reach_step [OF r on_built [where built = "Some cand"]]
  note r = reach_step [OF r on_poll [where ?o1.0 = Commit and stop_waiting = False]]
  note r = reach_step [OF r on_dispatch_end]
  note r = reach_step [OF r on_report_end]
  note r = reach_step [OF r on_waited]
  note r = reach_step [OF r on_flushed]
  note r = reach_step [OF r on_ready]
  note r = reach_step [OF r select_ready]
  note r = reach_step [OF r on_stop [where u = True]]
  note r = reach_step [OF r on_processed [where u = True]]
  note r = reach_step [OF r on_tasks [where u = True]]
  show ?thesis
    by (rule that, rule r)
      (use assms in \<open>simp_all add: built_section_def poll_section_def RunningCount_def init_srv_def processing_done_def stop_section_def\<close>)
qed

lemma validate_jobs_None:
  "validate_jobs env c js = None \<Longrightarrow> j \<in> set js \<Longrightarrow>
     (\<not> cleaned j \<longrightarrow> workspace j = jobWorkspace (sha256 env) (euid env) c (job_id j)) \<and>
     (\<exists>repo. repo_lookup c (repository j) = Some repo)"
  by (induction js) (auto split: if_splits option.splits)

lemma ctx_done_failed: "ctx_done (update_failed_section (built_section None s)) = ctx_done s"
  by (simp add: update_failed_section_def built_section_def)

subsection \<open>Properties\<close>

text \<open>
  C1. A server that hands over to its replacement has stopped working: when \<open>serve\<close> returns
  the candidate, however webhooks, jobs, failures, retries and signals were interleaved, no
  job goroutine, dispatcher or reporter is left, no row is running, and every row is still
  queued for the replacement or finished.
\<close>

theorem hand_off_safe:
  assumes "srv_reachable env c passcode rows s" "store_ok (sha256 env) (max_queued c) (max_parallel c) rows"
    and "stage s = Stopped (HandOff cand)"
  shows "workers s = [] \<and> \<not> dispatching s \<and> \<not> reporting s \<and> count_state ''running'' (table s) = 0 \<and>
    candidate s = cand \<and> (\<forall>r \<in> set (table s). jstate r = ''queued'' \<or> job_terminal r)"
proof -
  have inv: "srv_inv env c s" using srv_inv_reachable assms(1,2) .
  then have h: "processing_done s" "upd s = UDone" "cand = candidate s" using assms(3) by (auto simp: srv_inv_def)
  then have z: "count_state ''running'' (table s) = 0" using inv by (simp add: srv_inv_def inv_update_def phase_simps)
  have "store_ok (sha256 env) (max_queued c) (max_parallel c) (table s)" using inv by (simp add: srv_inv_def inv_table_def)
  then show ?thesis using h z no_live_rows(1) [OF _ z] by (auto simp: processing_done_def)
qed

theorem hand_off_safe_witness:
  "\<exists>s :: srv. stage s = Stopped (HandOff ''/bin/new'') \<and> workers s = [] \<and> count_state ''running'' (table s) = 0"
proof -
  obtain s where s: "srv_reachable sample_env sample_config ''pw'' [] s" "stage s = Stopped (HandOff ''/bin/new'')"
    using sample_update_run [of "[]" sample_env sample_config "''pw''" "''/bin/new''"] by (auto simp: count_state_def)
  have "store_ok (sha256 sample_env) (max_queued sample_config) (max_parallel sample_config) []"
    by (simp add: store_ok_def count_state_def sample_config_def default_config_def)
  from hand_off_safe [OF s(1) this s(2)] show ?thesis using s by blast
qed

text \<open>
  C10. A shutdown that completes leaves nothing behind: every row of the table is terminal, no
  goroutine is left, and the server accepts nothing any more, so no job can appear later.
\<close>

theorem shutdown_complete:
  assumes "srv_reachable env c passcode rows s" "store_ok (sha256 env) (max_queued c) (max_parallel c) rows"
    and "stage s = Stopped ShutDown"
  shows "(\<forall>r \<in> set (table s). job_terminal r) \<and> workers s = [] \<and> \<not> accepting s \<and>
    table (snd (webhook_section env c now o1 o2 req s)) = table s"
proof -
  have inv: "srv_inv env c s" using srv_inv_reachable assms(1,2) .
  then have h: "processing_done s" "\<not> accepting s" "count_state ''running'' (table s) = 0" "count_state ''queued'' (table s) = 0"
    using assms(3) by (auto simp: srv_inv_def)
  have "store_ok (sha256 env) (max_queued c) (max_parallel c) (table s)" using inv by (simp add: srv_inv_def inv_table_def)
  then show ?thesis using h no_live_rows(2) [OF _ h(3) _ h(4)] by (auto simp: processing_done_def webhook_sel webhook_closed)
qed

theorem shutdown_complete_witness:
  "\<exists>s :: srv. stage s = Stopped ShutDown \<and> list_all job_terminal (table s)"
proof -
  note r = reach_init [of sample_env sample_config "''pw''" "[]"]
  note r = reach_step [OF r select_error]
  note r = reach_step [OF r on_stop [where u = False]]
  note r = reach_step [OF r on_dispatch_end]
  note r = reach_step [OF r on_report_end]
  note r = reach_step [OF r on_processed [where u = False]]
  note r = reach_step [OF r on_tasks [where u = False]]
  note r = reach_step [OF r on_recover [where u = False and ?o1.0 = Commit and now = 5]]
  note r = reach_step [OF r on_cancel [where ?o1.0 = Commit and now = 6]]
  note r = reach_step [OF r on_stopped [where ok = True]]
  have "\<exists>s. srv_reachable sample_env sample_config ''pw'' [] s \<and> stage s = Stopped ShutDown"
    by (rule exI, rule conjI, rule r)
      (simp_all add: init_srv_def processing_done_def stop_section_def write_section_def RecoverInterrupted_def CancelQueued_def run_write_def)
  then obtain s where s: "srv_reachable sample_env sample_config ''pw'' [] s" "stage s = Stopped ShutDown" by blast
  have "store_ok (sha256 sample_env) (max_queued sample_config) (max_parallel sample_config) []"
    by (simp add: store_ok_def count_state_def sample_config_def default_config_def)
  from shutdown_complete [OF s(1) this s(2)] show ?thesis using s by (auto simp: list_all_iff)
qed

text \<open>
  C2. At most \<open>max_parallel\<close> jobs execute at any time: a worker that is still executing owns a
  running row, whatever failed or was retried, and the table bounds those.
\<close>

theorem parallel_limit:
  assumes "srv_reachable env c passcode rows s" "store_ok (sha256 env) (max_queued c) (max_parallel c) rows"
  shows "int (length (filter (\<lambda>w. snd w = Executing) (workers s))) \<le> max_parallel c \<and>
    distinct (map fst (workers s)) \<and>
    (\<forall>i. (i, Executing) \<in> set (workers s) \<longrightarrow> (\<exists>r. lookup (table s) i = Some r \<and> jstate r = ''running''))"
proof -
  have inv: "srv_inv env c s" using srv_inv_reachable assms .
  then have "int (count_state ''running'' (table s)) \<le> max_parallel c" "distinct (map fst (workers s))"
    "\<forall>w \<in> set (workers s). worker_ok (table s) w"
    by (auto simp: srv_inv_def inv_table_def store_ok_def)
  then show ?thesis using executing_running [OF inv] by fastforce
qed

theorem parallel_limit_witness:
  "distinct (map fst (workers (claim_section (sample_config\<lparr>max_queued := 2\<rparr>) Commit (init_srv sample_rows))))"
proof -
  let ?c = "sample_config\<lparr>max_queued := 2\<rparr>"
  have "store_ok (sha256 sample_env) (max_queued ?c) (max_parallel ?c) sample_rows"
    using sample_store_ok by (simp add: sample_env_def sample_config_def default_config_def)
  moreover have "srv_reachable sample_env ?c ''pw'' sample_rows (claim_section ?c Commit (init_srv sample_rows))"
    by (rule reach_step [OF reach_init on_claim]) (simp add: init_srv_def)
  ultimately show ?thesis using parallel_limit by blast
qed

text \<open>
  C11. The server stays available: until it is told to stop it accepts webhooks at every moment,
  also during an update, and whenever no update is in progress (in particular after one
  failed) nothing drains and the dispatcher and the reporter are running.
\<close>

theorem server_available:
  assumes "srv_reachable env c passcode rows s" "store_ok (sha256 env) (max_queued c) (max_parallel c) rows"
    and "\<not> ctx_done s"
  shows "accepting s \<and> (updating s \<longleftrightarrow> upd s \<noteq> UIdle) \<and>
    (\<not> updating s \<longrightarrow> \<not> draining s \<and> \<not> processing_canceled s \<and> dispatching s \<and> reporting s \<and> \<not> update_ready s)"
proof -
  have "inv_update s" "inv_cancel s" using srv_inv_reachable [OF assms(1,2)] by (simp_all add: srv_inv_def)
  then show ?thesis using assms(3) unfolding inv_update_def inv_cancel_def
    by (cases "upd s"; simp add: phase_simps; blast)
qed

theorem server_available_witness:
  "accepting (update_failed_section (built_section None ((init_srv [])\<lparr>updating := True, upd := UBuilding\<rparr>)))"
proof -
  let ?s1 = "(init_srv [])\<lparr>updating := True, upd := UBuilding\<rparr>"
  have "srv_reachable sample_env sample_config ''pw'' [] ?s1"
    using reach_step [OF reach_init on_update, of sample_env sample_config "''pw''" "[]" "''Bearer '' @ ''pw''"]
    unfolding update_section_start [OF init_flags] snd_conv .
  then have r: "srv_reachable sample_env sample_config ''pw'' [] (update_failed_section (built_section None ?s1))"
    by (rule reach_step [OF reach_step [OF _ on_built] on_update_failed]) (simp_all add: built_section_def)
  have ok: "store_ok (sha256 sample_env) (max_queued sample_config) (max_parallel sample_config) []"
    by (simp add: store_ok_def count_state_def sample_config_def default_config_def)
  have "\<not> ctx_done (update_failed_section (built_section None ?s1))"
    by (simp add: ctx_done_failed init_srv_def)
  from server_available [OF r ok this] show ?thesis by (elim conjE)
qed

text \<open>
  C9. No accepted job is lost: from any reachable state to any later one, every row is still
  there with the same identity, its version never decreases, its state only moves forward
  and a finished job does not change its outcome.
\<close>

theorem jobs_never_lost:
  assumes "srv_reachable env c passcode rows s" "store_ok (sha256 env) (max_queued c) (max_parallel c) rows"
    and "(srv_step env c passcode)\<^sup>*\<^sup>* s s'" "lookup (table s) i = Some r"
  shows "\<exists>r'. lookup (table s') i = Some r' \<and> evolves r r' \<and> (job_terminal r \<longrightarrow> jstate r' = jstate r \<and> message r' = message r)"
proof -
  have "store_ok (sha256 env) (max_queued c) (max_parallel c) (table s)"
    using srv_inv_reachable [OF assms(1,2)] by (simp add: srv_inv_def inv_table_def)
  then obtain r' where "lookup (table s') i = Some r'" "evolves r r'"
    using run_evolves [OF steps_table [OF assms(3)] _ assms(4)] by blast
  then show ?thesis by (auto simp: evolves_def same_outcome_def)
qed

theorem jobs_never_lost_witness:
  "\<exists>r'. lookup (table (stop_section False (init_srv sample_rows\<lparr>stage := Selected False\<rparr>))) (job_id (sample_job CHR ''b'')) = Some r' \<and>
     evolves sample_queued r'"
proof -
  let ?c = "sample_config\<lparr>max_queued := 2\<rparr>"
  have "store_ok (sha256 sample_env) (max_queued ?c) (max_parallel ?c) sample_rows"
    using sample_store_ok by (simp add: sample_env_def sample_config_def default_config_def)
  moreover have "(srv_step sample_env ?c ''pw'')\<^sup>*\<^sup>* (init_srv sample_rows) (stop_section False (init_srv sample_rows\<lparr>stage := Selected False\<rparr>))"
    by (rule converse_rtranclp_into_rtranclp, rule select_error [where s = "init_srv sample_rows"], simp add: init_srv_def,
        rule r_into_rtranclp, rule on_stop, simp add: init_srv_def)
  moreover have "lookup (table (init_srv sample_rows)) (job_id (sample_job CHR ''b'')) = Some sample_queued"
    by (simp add: init_srv_def)
  ultimately show ?thesis using jobs_never_lost [OF reach_init] by blast
qed

text \<open>
  A restart continues where the old process stopped. \<open>newServer\<close> refuses to start while an
  unsettled job belongs to another workspace or to a repository that is not configured;
  otherwise interrupted jobs are recorded as errors, queued jobs stay queued, nothing else
  changes, and the server that results satisfies the invariant of every later state.
\<close>

theorem restart:
  assumes "newServer env c Commit Commit now rows = (Inr s, rows')" "store_ok (sha256 env) (max_queued c) (max_parallel c) rows"
  shows "srv_inv env c s \<and> table s = rows' \<and> count_state ''running'' rows' = 0 \<and>
    (\<forall>r \<in> set rows. \<not> cleaned r \<longrightarrow> workspace r = jobWorkspace (sha256 env) (euid env) c (job_id r)) \<and>
    (\<forall>r \<in> set rows. \<not> reported r \<or> \<not> cleaned r \<longrightarrow> (\<exists>repo. repo_lookup c (repository r) = Some repo)) \<and>
    rows' = map (\<lambda>r. if jstate r = ''running''
      then mark_terminal ''error'' ''Job interrupted by CI server shutdown or restart'' now r else r) rows"
proof -
  have v: "validateStoredJobs env c Commit rows = None"
    and r: "RecoverInterrupted Commit now rows = (None, rows')" and s: "s = init_srv rows'"
    using assms(1) by (auto simp: newServer_def split: option.splits prod.splits)
  have e: "rows' = stmt_recover now rows" using r by (simp add: RecoverInterrupted_def run_write_def)
  have "store_ok (sha256 env) (max_queued c) (max_parallel c) rows'"
    using store_ok_step [OF step_recover assms(2)] e by simp
  then have "srv_inv env c s" "table s = rows'" unfolding s by (rule srv_inv_init, simp add: init_srv_def)
  moreover have "(\<not> cleaned x \<longrightarrow> workspace x = jobWorkspace (sha256 env) (euid env) c (job_id x)) \<and>
      (\<not> reported x \<or> \<not> cleaned x \<longrightarrow> (\<exists>repo. repo_lookup c (repository x) = Some repo))" if "x \<in> set rows" for x
  proof (cases "\<not> reported x \<or> \<not> cleaned x")
    case True
    with that have "scanJob x \<in> set (map scanJob (sort_key job_key (filter (\<lambda>r. \<not> reported r \<or> \<not> cleaned r) rows)))"
      by simp
    from validate_jobs_None [OF _ this, of env c] v show ?thesis
      by (simp add: validateStoredJobs_def Unsettled_def)
  qed simp
  ultimately show ?thesis using count_after_recover [OF r] unfolding e stmt_recover_def db_update_def by blast
qed

theorem restart_witness:
  "\<exists>s :: srv. newServer sample_env sample_config Commit Commit 9 [] = (Inr s, []) \<and> srv_inv sample_env sample_config s"
proof -
  have n: "newServer sample_env sample_config Commit Commit 9 [] = (Inr (init_srv []), [])"
    by (simp add: newServer_def validateStoredJobs_def Unsettled_def RecoverInterrupted_def run_write_def stmt_recover_def db_update_def)
  have "store_ok (sha256 sample_env) (max_queued sample_config) (max_parallel sample_config) []"
    by (simp add: store_ok_def count_state_def sample_config_def default_config_def)
  from restart [OF n this] n show ?thesis by blast
qed

end
