(* ===== verification/Go_World.thy ===== *)
theory Go_World
  imports Go_Path "HOL-Library.AList"
begin

text \<open>
  The operating system as the program uses it: packages \<open>os\<close> and \<open>context\<close>.

  A \<open>world\<close> is the file tree and a schedule of faults. Every system call consumes one entry
  of the schedule: \<open>Fail e n\<close> makes it return the error \<open>e\<close> (a write has then stored its first
  \<open>n\<close> bytes), anything else lets it do what the file tree says; so a theorem about all worlds
  covers every way in which calls can fail. The errors that describe the tree itself
  (\<open>ENOENT\<close>, \<open>EEXIST\<close>) are never injected: a fault of that kind counts as \<open>EIO\<close>. \<open>now\<close> counts the calls; a context is the count at
  which it is done. Paths are cleaned absolute names; a symbolic link is followed at the end
  of a path only. Two names of one file (\<open>Link\<close>) have equal contents because nothing writes
  to a file after it was linked. An open file is known by its name: no file is renamed or
  removed while it is open for writing.
\<close>

named_theorems go_world \<open>the system calls\<close>

datatype node =
    FileNode string nat nat
  | DirNode nat nat
  | LinkNode string

datatype fault = Works | Fail errno nat

record world =
  files :: "(string \<times> node) list"
  faults :: "fault list"
  now :: nat
  fresh :: nat

type_synonym 'a io = "world \<Rightarrow> (goerr + 'a) \<times> world"

type_synonym ctx = "nat option"

subsection \<open>Sequencing\<close>

definition ret :: "'a \<Rightarrow> 'a io" where
  [go_world]: "ret a w = (Inr a, w)"

definition fail :: "goerr \<Rightarrow> 'a io" where
  [go_world]: "fail e w = (Inl e, w)"

text \<open>\<open>x, err := m; if err != nil { return err }\<close>\<close>

definition tryE :: "'a io \<Rightarrow> ('a \<Rightarrow> 'b io) \<Rightarrow> 'b io" where
  "tryE m k w = (case m w of (Inl e, w') \<Rightarrow> (Inl e, w') | (Inr a, w') \<Rightarrow> k a w')"

text \<open>\<open>x, err := m\<close> with the code looking at \<open>err\<close> itself.\<close>

definition attempt :: "'a io \<Rightarrow> (goerr + 'a \<Rightarrow> 'b io) \<Rightarrow> 'b io" where
  "attempt m k w = (case m w of (r, w') \<Rightarrow> k r w')"

text \<open>\<open>defer c()\<close> before \<open>m\<close>, ignoring the result of \<open>c\<close>.\<close>

definition deferred :: "'c io \<Rightarrow> 'a io \<Rightarrow> 'a io" where
  "deferred c m w = (case m w of (r, w') \<Rightarrow> (r, snd (c w')))"

definition wrapped :: "(goerr \<Rightarrow> goerr) \<Rightarrow> 'a io \<Rightarrow> 'a io" where
  "wrapped f m w = (case m w of (Inl e, w') \<Rightarrow> (Inl (f e), w') | (Inr a, w') \<Rightarrow> (Inr a, w'))"

definition ctx_err :: "ctx \<Rightarrow> world \<Rightarrow> goerr option" where
  "ctx_err c w = (case c of None \<Rightarrow> None | Some t \<Rightarrow> if t \<le> now w then Some (CtxErr Canceled) else None)"

text \<open>\<open>if err := ctx.Err(); err != nil { return f(err) }\<close>\<close>

definition check_ctx :: "ctx \<Rightarrow> (goerr \<Rightarrow> goerr) \<Rightarrow> 'a io \<Rightarrow> 'a io" where
  "check_ctx c f m w = (case ctx_err c w of Some e \<Rightarrow> (Inl (f e), w) | None \<Rightarrow> m w)"

subsection \<open>The file tree\<close>

definition node_at :: "world \<Rightarrow> string \<Rightarrow> node option" where
  "node_at w p = map_of (files w) p"

definition put :: "string \<Rightarrow> node \<Rightarrow> world \<Rightarrow> world" where
  "put p n w = w\<lparr>files := AList.update p n (files w)\<rparr>"

text \<open>\<open>p\<close> is a directory below the root: no call of the program moves or removes \<open>/\<close>.\<close>

definition inside :: "string \<Rightarrow> string \<Rightarrow> bool" where
  "inside p q \<longleftrightarrow> q = p \<or> HasPrefix q (p @ ''/'')"

definition prune :: "(string \<Rightarrow> bool) \<Rightarrow> world \<Rightarrow> world" where
  "prune P w = w\<lparr>files := filter (\<lambda>kv. \<not> P (fst kv)) (files w)\<rparr>"

definition move :: "string \<Rightarrow> string \<Rightarrow> world \<Rightarrow> world" where
  "move p q w =
     (let moved = map (\<lambda>kv. (q @ drop (length p) (fst kv), snd kv)) (filter (\<lambda>kv. inside p (fst kv)) (files w));
          rest = filter (\<lambda>kv. \<not> inside p (fst kv) \<and> \<not> inside q (fst kv)) (files w)
      in w\<lparr>files := moved @ rest\<rparr>)"

fun is_dir :: "node option \<Rightarrow> bool" where
  "is_dir (Some (DirNode m u)) = True"
| "is_dir _ = False"

definition children :: "world \<Rightarrow> string \<Rightarrow> string list" where
  "children w p = map (\<lambda>kv. Base (fst kv)) (filter (\<lambda>kv. fst kv \<noteq> p \<and> Dir (fst kv) = p) (files w))"

lemma node_at_put: "node_at (put p n w) q = (if q = p then Some n else node_at w q)"
  by (simp add: node_at_def put_def update_conv')

lemma map_of_filter: "map_of (filter (\<lambda>kv. P (fst kv)) xs) k = (if P k then map_of xs k else None)"
  by (induction xs) auto

lemma node_at_prune: "node_at (prune P w) q = (if P q then None else node_at w q)"
  using map_of_filter [of "\<lambda>k. \<not> P k" "files w" q] by (simp add: node_at_def prune_def)

lemma world_sel [simp]:
  "faults (put p n w) = faults w" "now (put p n w) = now w" "fresh (put p n w) = fresh w"
  "faults (prune P w) = faults w" "now (prune P w) = now w" "fresh (prune P w) = fresh w"
  "faults (move p q w) = faults w" "now (move p q w) = now w" "fresh (move p q w) = fresh w"
  by (simp_all add: put_def prune_def move_def Let_def)

lemma node_at_upd [simp]:
  "node_at (w\<lparr>faults := f\<rparr>) p = node_at w p" "node_at (w\<lparr>now := n\<rparr>) p = node_at w p"
  "node_at (w\<lparr>fresh := k\<rparr>) p = node_at w p"
  by (simp_all add: node_at_def)

lemma inside_refl [simp]: "inside p p"
  by (simp add: inside_def)

text \<open>A rename moves one file and leaves every name outside the two subtrees alone.\<close>

lemma inside_length: "inside p k \<Longrightarrow> k = p \<or> length p < length k"
  by (auto simp: inside_def HasPrefix_iff)

lemma inside_image: "inside p k \<Longrightarrow> inside q (q @ drop (length p) k)"
  by (auto simp: inside_def HasPrefix_iff)

definition renamed :: "string \<Rightarrow> string \<Rightarrow> (string \<times> node) list \<Rightarrow> (string \<times> node) list" where
  "renamed p q xs = map (\<lambda>kv. (q @ drop (length p) (fst kv), snd kv)) (filter (\<lambda>kv. inside p (fst kv)) xs)"

lemma map_of_renamed: "map_of (renamed p q xs) q = map_of xs p"
  by (induction xs) (auto simp: renamed_def dest: inside_length)

lemma map_of_renamed_other: "\<not> inside q r \<Longrightarrow> map_of (renamed p q xs) r = None"
  using inside_image by (induction xs) (auto simp: renamed_def)

lemma node_at_move_target: "node_at w p = Some n \<Longrightarrow> node_at (move p q w) q = Some n"
  by (simp add: node_at_def move_def Let_def map_add_def flip: renamed_def) (simp add: map_of_renamed)

lemma node_at_move_other:
  assumes "\<not> inside p r" "\<not> inside q r"
  shows "node_at (move p q w) r = node_at w r"
  using assms map_of_filter [of "\<lambda>k. \<not> inside p k \<and> \<not> inside q k" "files w" r]
  by (simp add: node_at_def move_def Let_def map_add_def map_of_renamed_other flip: renamed_def)

lemma node_at_move_source:
  assumes "inside p r" "\<not> inside q r"
  shows "node_at (move p q w) r = None"
  using assms map_of_filter [of "\<lambda>k. \<not> inside p k \<and> \<not> inside q k" "files w" r]
  by (simp add: node_at_def move_def Let_def map_add_def map_of_renamed_other flip: renamed_def)

subsection \<open>System calls\<close>

definition next_fault :: "world \<Rightarrow> fault \<times> world" where
  "next_fault w = (case faults w of [] \<Rightarrow> (Works, w\<lparr>now := Suc (now w)\<rparr>) | f # fs \<Rightarrow> (f, w\<lparr>faults := fs, now := Suc (now w)\<rparr>))"

text \<open>A call on path \<open>p\<close>; \<open>run\<close> is its effect and \<open>partial\<close> what it leaves when it fails.\<close>

definition syscall_with :: "(nat \<Rightarrow> world \<Rightarrow> world) \<Rightarrow> string \<Rightarrow> (world \<Rightarrow> (errno + 'a) \<times> world) \<Rightarrow> 'a io" where
  "syscall_with partial p run w =
     (case next_fault w of
        (Fail e n, w') \<Rightarrow> (Inl (SysErr (if e = ENOENT \<or> e = EEXIST then EIO else e) p), partial n w')
      | (Works, w') \<Rightarrow> (case run w' of (Inl e, w'') \<Rightarrow> (Inl (SysErr e p), w'') | (Inr a, w'') \<Rightarrow> (Inr a, w'')))"

definition syscall :: "string \<Rightarrow> (world \<Rightarrow> (errno + 'a) \<times> world) \<Rightarrow> 'a io" where
  "syscall = syscall_with (\<lambda>n w. w)"

text \<open>\<open>resolve\<close> follows the links at the end of a path, at most 40 of them.\<close>

fun resolve :: "nat \<Rightarrow> world \<Rightarrow> string \<Rightarrow> string option" where
  "resolve 0 w p = None"
| "resolve (Suc k) w p =
     (case node_at w p of
        Some (LinkNode t) \<Rightarrow> resolve k w (if isAbs t then Clean t else Join [Dir p, t])
      | _ \<Rightarrow> Some p)"

definition Lstat :: "string \<Rightarrow> node io" where
  "Lstat p = syscall p (\<lambda>w. (case node_at w p of None \<Rightarrow> Inl ENOENT | Some n \<Rightarrow> Inr n, w))"

definition Stat :: "string \<Rightarrow> node io" where
  "Stat p = syscall p (\<lambda>w.
     (case resolve 40 w p of
        None \<Rightarrow> Inl EIO
      | Some q \<Rightarrow> (case node_at w q of None \<Rightarrow> Inl ENOENT | Some n \<Rightarrow> Inr n), w))"

definition ReadFile :: "string \<Rightarrow> string io" where
  "ReadFile p = syscall p (\<lambda>w.
     (case resolve 40 w p of
        None \<Rightarrow> Inl EIO
      | Some q \<Rightarrow> (case node_at w q of Some (FileNode d m u) \<Rightarrow> Inr d | None \<Rightarrow> Inl ENOENT | _ \<Rightarrow> Inl EISDIR), w))"

definition ReadDir :: "string \<Rightarrow> string list io" where
  "ReadDir p = syscall p (\<lambda>w.
     (case node_at w p of None \<Rightarrow> Inl ENOENT | Some (DirNode m u) \<Rightarrow> Inr (children w p) | _ \<Rightarrow> Inl ENOTDIR, w))"

text \<open>
  \<open>os.CreateTemp\<close> and \<open>os.MkdirTemp\<close>: a new name made from the prefix and the next number,
  retried 10000 times while it exists. The number stands for Go's random one.
\<close>

fun temp_name :: "nat \<Rightarrow> world \<Rightarrow> string \<Rightarrow> nat \<Rightarrow> (string \<times> nat) option" where
  "temp_name 0 w p k = None"
| "temp_name (Suc n) w p k =
     (if node_at w (p @ FormatUint k) = None then Some (p @ FormatUint k, Suc k) else temp_name n w p (Suc k))"

definition in_dir :: "string \<Rightarrow> string \<Rightarrow> string" where
  "in_dir d name = (if d = ''/'' then d @ name else d @ ''/'' @ name)"

definition make_temp :: "node \<Rightarrow> string \<Rightarrow> string \<Rightarrow> string io" where
  "make_temp n dir prefix = syscall dir (\<lambda>w.
     (if \<not> is_dir (node_at w dir) then (Inl ENOENT, w)
      else case temp_name 10000 w (in_dir dir prefix) (fresh w) of
          None \<Rightarrow> (Inl EEXIST, w)
        | Some (p, k) \<Rightarrow> (Inr p, put p n (w\<lparr>fresh := k\<rparr>))))"

definition CreateTemp :: "string \<Rightarrow> string \<Rightarrow> string io" where
  "CreateTemp = make_temp (FileNode [] 384 0)"

definition MkdirTemp :: "string \<Rightarrow> string \<Rightarrow> string io" where
  "MkdirTemp = make_temp (DirNode 448 0)"

text \<open>\<open>f.Write\<close> appends; a failing write has stored \<open>n\<close> bytes.\<close>

definition append_data :: "string \<Rightarrow> string \<Rightarrow> world \<Rightarrow> world" where
  "append_data p d w =
     (case node_at w p of Some (FileNode c m u) \<Rightarrow> put p (FileNode (c @ d) m u) w | _ \<Rightarrow> w)"

definition FWrite :: "string \<Rightarrow> string \<Rightarrow> unit io" where
  "FWrite p d = syscall_with (\<lambda>n. append_data p (take n d)) p (\<lambda>w. (Inr (), append_data p d w))"

fun set_mode :: "nat \<Rightarrow> node \<Rightarrow> node" where
  "set_mode m (FileNode c _ u) = FileNode c m u"
| "set_mode m (DirNode _ u) = DirNode m u"
| "set_mode m (LinkNode t) = LinkNode t"

definition Chmod :: "string \<Rightarrow> nat \<Rightarrow> unit io" where
  "Chmod p m = syscall p (\<lambda>w.
     (case node_at w p of None \<Rightarrow> (Inl ENOENT, w) | Some n \<Rightarrow> (Inr (), put p (set_mode m n) w)))"

text \<open>\<open>Sync\<close>, \<open>Close\<close> and other calls without effect on the tree.\<close>

definition Effectless :: "string \<Rightarrow> unit io" where
  "Effectless p = syscall p (\<lambda>w. (Inr (), w))"

definition Rename :: "string \<Rightarrow> string \<Rightarrow> unit io" where
  "Rename p q = syscall p (\<lambda>w.
     (case node_at w p of
        None \<Rightarrow> (Inl ENOENT, w)
      | Some n \<Rightarrow>
          if \<not> is_dir (node_at w (Dir q)) then (Inl ENOENT, w)
          else if p = q then (Inr (), w)
          else (case (is_dir (Some n), node_at w q) of
              (_, None) \<Rightarrow> (Inr (), move p q w)
            | (False, Some (DirNode _ _)) \<Rightarrow> (Inl EISDIR, w)
            | (False, Some _) \<Rightarrow> (Inr (), move p q w)
            | (True, Some (DirNode _ _)) \<Rightarrow> if children w q = [] then (Inr (), move p q w) else (Inl ENOTEMPTY, w)
            | (True, Some _) \<Rightarrow> (Inl ENOTDIR, w))))"

definition Link :: "string \<Rightarrow> string \<Rightarrow> unit io" where
  "Link p q = syscall p (\<lambda>w.
     (case node_at w p of
        None \<Rightarrow> (Inl ENOENT, w)
      | Some (DirNode _ _) \<Rightarrow> (Inl EPERM, w)
      | Some n \<Rightarrow> if node_at w q \<noteq> None then (Inl EEXIST, w)
          else if \<not> is_dir (node_at w (Dir q)) then (Inl ENOENT, w) else (Inr (), put q n w)))"

definition Remove :: "string \<Rightarrow> unit io" where
  "Remove p = syscall p (\<lambda>w.
     (case node_at w p of
        None \<Rightarrow> (Inl ENOENT, w)
      | Some (DirNode _ _) \<Rightarrow> if children w p = [] then (Inr (), prune (\<lambda>q. q = p) w) else (Inl ENOTEMPTY, w)
      | Some _ \<Rightarrow> (Inr (), prune (\<lambda>q. q = p) w)))"

text \<open>
  A failing \<open>RemoveAll\<close> may have removed part of the subtree, here its first \<open>n\<close> names, and
  reports the name it stopped at.
\<close>

definition names_below :: "string \<Rightarrow> world \<Rightarrow> string list" where
  "names_below p w = filter (\<lambda>r. inside p r \<and> r \<noteq> p) (map fst (files w))"

definition RemoveAll :: "string \<Rightarrow> unit io" where
  "RemoveAll p w =
     (case next_fault w of
        (Fail e n, w') \<Rightarrow>
          (Inl (SysErr (if e = ENOENT \<or> e = EEXIST then EIO else e) (if n < length (names_below p w') then names_below p w' ! n else p)),
           prune (\<lambda>q. q \<in> set (take n (names_below p w'))) w')
      | (Works, w') \<Rightarrow> (Inr (), prune (inside p) w'))"

definition Mkdir :: "string \<Rightarrow> nat \<Rightarrow> nat \<Rightarrow> unit io" where
  "Mkdir p m u = syscall p (\<lambda>w.
     (if node_at w p \<noteq> None then (Inl EEXIST, w)
      else if \<not> is_dir (node_at w (Dir p)) then (Inl ENOENT, w) else (Inr (), put p (DirNode m u) w)))"

text \<open>All missing directories from the root down to the path.\<close>

fun mkdir_comps :: "nat \<Rightarrow> nat \<Rightarrow> string list \<Rightarrow> string list \<Rightarrow> world \<Rightarrow> (errno + unit) \<times> world" where
  "mkdir_comps m u done [] w = (Inr (), w)"
| "mkdir_comps m u done (c # cs) w =
     (let p = abs_path (done @ [c]) in
      case node_at w p of
        None \<Rightarrow> mkdir_comps m u (done @ [c]) cs (put p (DirNode m u) w)
      | Some (DirNode _ _) \<Rightarrow> mkdir_comps m u (done @ [c]) cs w
      | Some _ \<Rightarrow> (Inl ENOTDIR, w))"

definition MkdirAll :: "string \<Rightarrow> nat \<Rightarrow> nat \<Rightarrow> unit io" where
  "MkdirAll p m u = syscall p (mkdir_comps m u [] (comps p))"

text \<open>
  \<open>os.OpenFile\<close> with \<open>O_CREATE\<close>; \<open>excl\<close> is \<open>O_EXCL\<close>. The result is the name, which stands for
  the handle.
\<close>

definition OpenCreate :: "bool \<Rightarrow> string \<Rightarrow> nat \<Rightarrow> nat \<Rightarrow> unit io" where
  "OpenCreate excl p m u = syscall p (\<lambda>w.
     (case node_at w p of
        None \<Rightarrow> if is_dir (node_at w (Dir p)) then (Inr (), put p (FileNode [] m u) w) else (Inl ENOENT, w)
      | Some (DirNode _ _) \<Rightarrow> (Inl (if excl then EEXIST else EISDIR), w)
      | Some n \<Rightarrow> if excl then (Inl EEXIST, w) else (Inr (), w)))"

definition Symlink :: "string \<Rightarrow> string \<Rightarrow> unit io" where
  "Symlink target p = syscall p (\<lambda>w.
     (if node_at w p \<noteq> None then (Inl EEXIST, w)
      else if \<not> is_dir (node_at w (Dir p)) then (Inl ENOENT, w) else (Inr (), put p (LinkNode target) w)))"

definition OpenRead :: "string \<Rightarrow> unit io" where
  "OpenRead p = syscall p (\<lambda>w. (if node_at w p = None then Inl ENOENT else Inr (), w))"

text \<open>\<open>os.WriteFile\<close> truncates, then writes; an error can leave a prefix of the data.\<close>

definition store_file :: "string \<Rightarrow> string \<Rightarrow> nat \<Rightarrow> world \<Rightarrow> (errno + unit) \<times> world" where
  "store_file p d m w =
     (case resolve 40 w p of
        None \<Rightarrow> (Inl EIO, w)
      | Some q \<Rightarrow>
          (case node_at w q of
             Some (FileNode _ m' u') \<Rightarrow> (Inr (), put q (FileNode d m' u') w)
           | Some _ \<Rightarrow> (Inl EISDIR, w)
           | None \<Rightarrow> if is_dir (node_at w (Dir q)) then (Inr (), put q (FileNode d m 0) w) else (Inl ENOENT, w)))"

definition WriteFile :: "string \<Rightarrow> string \<Rightarrow> nat \<Rightarrow> unit io" where
  "WriteFile p d m = syscall_with (\<lambda>n w. if n = 0 then w else snd (store_file p (take (n - 1) d) m w)) p (store_file p d m)"

subsection \<open>Reasoning about calls\<close>

text \<open>
  \<open>post m Q w\<close>: running \<open>m\<close> in \<open>w\<close> ends in a result and world that satisfy \<open>Q\<close>. The rules
  compute it backwards through the program text.
\<close>

definition post :: "'a io \<Rightarrow> (goerr + 'a \<Rightarrow> world \<Rightarrow> bool) \<Rightarrow> world \<Rightarrow> bool" where
  "post m Q w \<longleftrightarrow> (case m w of (r, w') \<Rightarrow> Q r w')"

named_theorems wp \<open>backward rules\<close>

lemma post_ret [wp]: "post (ret a) Q w \<longleftrightarrow> Q (Inr a) w"
  by (simp add: post_def ret_def)

lemma post_fail [wp]: "post (fail e) Q w \<longleftrightarrow> Q (Inl e) w"
  by (simp add: post_def fail_def)

lemma post_tryE [wp]:
  "post (tryE m k) Q w \<longleftrightarrow> post m (\<lambda>r w'. case r of Inl e \<Rightarrow> Q (Inl e) w' | Inr a \<Rightarrow> post (k a) Q w') w"
  by (simp add: post_def tryE_def split: prod.splits sum.splits)

lemma post_attempt [wp]: "post (attempt m k) Q w \<longleftrightarrow> post m (\<lambda>r w'. post (k r) Q w') w"
  by (simp add: post_def attempt_def split: prod.splits)

lemma post_deferred [wp]: "post (deferred c m) Q w \<longleftrightarrow> post m (\<lambda>r w'. post c (\<lambda>_ w''. Q r w'') w') w"
  by (simp add: post_def deferred_def split: prod.splits)

lemma post_wrapped [wp]:
  "post (wrapped f m) Q w \<longleftrightarrow> post m (\<lambda>r w'. case r of Inl e \<Rightarrow> Q (Inl (f e)) w' | Inr a \<Rightarrow> Q (Inr a) w') w"
  by (simp add: post_def wrapped_def split: prod.splits sum.splits)

lemma post_check_ctx [wp]:
  "post (check_ctx c f m) Q w \<longleftrightarrow> (case ctx_err c w of Some e \<Rightarrow> Q (Inl (f e)) w | None \<Rightarrow> post m Q w)"
  by (simp add: post_def check_ctx_def split: option.splits)

lemma post_if [wp]: "post (if b then m else n) Q w \<longleftrightarrow> (if b then post m Q w else post n Q w)"
  by simp

lemma post_mono: "post m Q w \<Longrightarrow> (\<And>r w'. Q r w' \<Longrightarrow> Q' r w') \<Longrightarrow> post m Q' w"
  by (simp add: post_def split: prod.splits)

lemma postI: "(\<And>r w'. m w = (r, w') \<Longrightarrow> Q r w') \<Longrightarrow> post m Q w"
  by (simp add: post_def split: prod.splits)

lemma postD: "post m Q w \<Longrightarrow> m w = (r, w') \<Longrightarrow> Q r w'"
  by (simp add: post_def)

lemma node_at_next_fault: "next_fault w = (f, w') \<Longrightarrow> node_at w' p = node_at w p"
  by (auto simp: next_fault_def split: list.splits)

lemma files_next_fault: "next_fault w = (f, w') \<Longrightarrow> files w' = files w \<and> fresh w' = fresh w"
  by (auto simp: next_fault_def split: list.splits)

text \<open>One rule for every call: it fails with its partial effect, or runs.\<close>

lemma post_syscall_with:
  assumes "\<And>e n w'. e \<noteq> ENOENT \<Longrightarrow> files w' = files w \<Longrightarrow> fresh w' = fresh w \<Longrightarrow> Q (Inl (SysErr e p)) (partial n w')"
    and "\<And>w'. files w' = files w \<Longrightarrow> fresh w' = fresh w \<Longrightarrow>
      (case run w' of (Inl e, w'') \<Rightarrow> Q (Inl (SysErr e p)) w'' | (Inr a, w'') \<Rightarrow> Q (Inr a) w'')"
  shows "post (syscall_with partial p run) Q w"
proof -
  obtain f w' where f: "next_fault w = (f, w')" by (cases "next_fault w")
  have e: "files w' = files w" "fresh w' = fresh w" using files_next_fault [OF f] by auto
  show ?thesis
  proof (cases f)
    case Works
    obtain r w'' where r: "run w' = (r, w'')" by (cases "run w'")
    then show ?thesis using assms(2) [OF e] f Works by (cases r) (simp_all add: post_def syscall_with_def)
  next
    case (Fail x n)
    then show ?thesis using assms(1) [OF _ e, of "if x = ENOENT \<or> x = EEXIST then EIO else x" n] f
      by (simp add: post_def syscall_with_def)
  qed
qed

lemma post_syscall:
  assumes "\<And>e w'. e \<noteq> ENOENT \<Longrightarrow> files w' = files w \<Longrightarrow> fresh w' = fresh w \<Longrightarrow> Q (Inl (SysErr e p)) w'"
    and "\<And>w'. files w' = files w \<Longrightarrow> fresh w' = fresh w \<Longrightarrow>
      (case run w' of (Inl e, w'') \<Rightarrow> Q (Inl (SysErr e p)) w'' | (Inr a, w'') \<Rightarrow> Q (Inr a) w'')"
  shows "post (syscall p run) Q w"
  unfolding syscall_def by (rule post_syscall_with) (use assms in auto)

lemma node_at_files: "files w' = files w \<Longrightarrow> node_at w' p = node_at w p"
  by (simp add: node_at_def)

lemma children_files: "files w' = files w \<Longrightarrow> children w' p = children w p"
  by (simp add: children_def)

text \<open>Assertions on the file tree only.\<close>

definition tree_pred :: "(world \<Rightarrow> bool) \<Rightarrow> bool" where
  "tree_pred I \<longleftrightarrow> (\<forall>w w'. files w = files w' \<longrightarrow> I w = I w')"

text \<open>Calls that read: the tree is the same afterwards.\<close>

definition reads :: "'a io \<Rightarrow> bool" where
  "reads m \<longleftrightarrow> (\<forall>w. files (snd (m w)) = files w \<and> fresh (snd (m w)) = fresh w)"

lemma reads_syscall:
  assumes "\<And>w. snd (run w) = w"
  shows "reads (syscall p run)"
proof -
  have "post (syscall p run) (\<lambda>r w'. files w' = files w \<and> fresh w' = fresh w) w" for w
    by (rule post_syscall) (use assms in \<open>auto split: prod.splits sum.splits\<close>, (metis snd_conv)+)
  then show ?thesis by (simp add: reads_def post_def case_prod_unfold)
qed

lemma reads_calls [simp]:
  "reads (Lstat p)" "reads (Stat p)" "reads (ReadFile p)" "reads (ReadDir p)" "reads (Effectless p)" "reads (OpenRead p)"
  by (simp_all add: Lstat_def Stat_def ReadFile_def ReadDir_def Effectless_def OpenRead_def reads_syscall)

lemma reads_post:
  assumes "reads m" "\<And>r w'. files w' = files w \<Longrightarrow> fresh w' = fresh w \<Longrightarrow> m w = (r, w') \<Longrightarrow> Q r w'"
  shows "post m Q w"
  using assms by (auto simp: post_def reads_def split: prod.splits) (metis snd_conv)

lemma reads_comb [intro]:
  "reads (ret a)" "reads (fail e)"
  "reads m \<Longrightarrow> (\<And>a. reads (k a)) \<Longrightarrow> reads (tryE m k)"
  "reads m \<Longrightarrow> (\<And>r. reads (k' r)) \<Longrightarrow> reads (attempt m k')"
  "reads m \<Longrightarrow> reads (wrapped f m)" "reads m \<Longrightarrow> reads (check_ctx c f m)"
  by (auto simp: reads_def ret_def fail_def tryE_def attempt_def wrapped_def check_ctx_def split: prod.splits sum.splits option.splits)
    (metis snd_conv)+

subsection \<open>Effects of the calls on the tree\<close>

lemma node_at_move_eq:
  assumes "node_at w p = Some n" "\<And>r. inside p r \<Longrightarrow> r \<noteq> p \<Longrightarrow> node_at w r = None"
    and "\<And>r. inside q r \<Longrightarrow> r \<noteq> q \<Longrightarrow> node_at w r = None" "\<not> inside p q" "\<not> inside q p"
  shows "node_at (move p q w) = (node_at w)(p := None, q := Some n)"
proof (rule ext)
  fix r
  have clean: "node_at (move p q w) r = None" if "inside q r" "r \<noteq> q"
  proof -
    have "map_of (renamed p q (files w)) r = None"
    proof (rule ccontr)
      assume "map_of (renamed p q (files w)) r \<noteq> None"
      then obtain v where "(r, v) \<in> set (renamed p q (files w))" by (auto dest: map_of_SomeD)
      then obtain k where k: "(k, v) \<in> set (files w)" "inside p k" "r = q @ drop (length p) k"
        by (auto simp: renamed_def)
      then have "k \<noteq> p" using that(2) by auto
      then have "node_at w k = None" using assms(2) k(2) by blast
      then show False using k(1) by (force simp: node_at_def map_of_eq_None_iff)
    qed
    moreover have "map_of (filter (\<lambda>kv. \<not> inside p (fst kv) \<and> \<not> inside q (fst kv)) (files w)) r = None"
      using map_of_filter [of "\<lambda>k. \<not> inside p k \<and> \<not> inside q k" "files w" r] that by simp
    ultimately show ?thesis
      by (simp add: node_at_def move_def Let_def map_add_def flip: renamed_def)
  qed
  consider "r = q" | "r \<noteq> q" "inside q r" | "\<not> inside q r" "inside p r" | "\<not> inside q r" "\<not> inside p r" by blast
  then show "node_at (move p q w) r = ((node_at w)(p := None, q := Some n)) r"
  proof cases
    case 1
    then show ?thesis using node_at_move_target [OF assms(1)] by simp
  next
    case 2
    then show ?thesis using clean assms(3,5) by auto
  next
    case 3
    then show ?thesis using node_at_move_source [of p r q w] assms(2) by (cases "r = p") auto
  next
    case 4
    then show ?thesis using node_at_move_other [of p r q w] by auto
  qed
qed

lemma temp_name_fresh: "temp_name n w p k = Some (f, k') \<Longrightarrow> node_at w f = None \<and> (\<exists>i. f = p @ FormatUint i)"
proof (induction n arbitrary: k)
  case (Suc n)
  show ?case
  proof (cases "node_at w (p @ FormatUint k) = None")
    case True
    then have "f = p @ FormatUint k" using Suc.prems by simp
    with True show ?thesis by blast
  next
    case False
    then have "temp_name n w p (Suc k) = Some (f, k')" using Suc.prems by (simp only: temp_name.simps if_False)
    then show ?thesis by (rule Suc.IH)
  qed
qed simp

lemma node_at_ext: "files w' = files w \<Longrightarrow> node_at w' = node_at w"
  by (simp add: fun_eq_iff node_at_def)

lemma temp_name_files: "files w' = files w \<Longrightarrow> temp_name n w' p k = temp_name n w p k"
  by (induction n arbitrary: k) (simp_all add: node_at_def)

lemma post_make_temp:
  assumes "\<And>e w'. node_at w' = node_at w \<Longrightarrow> Q (Inl e) w'"
    and "\<And>i w'. is_dir (node_at w d) \<Longrightarrow> node_at w (in_dir d pre @ FormatUint i) = None \<Longrightarrow>
      node_at w' = (node_at w)(in_dir d pre @ FormatUint i \<mapsto> n) \<Longrightarrow> Q (Inr (in_dir d pre @ FormatUint i)) w'"
  shows "post (make_temp n d pre) Q w"
  unfolding make_temp_def
proof (rule post_syscall)
  fix w' :: world assume f: "files w' = files w" "fresh w' = fresh w"
  show "case (if \<not> is_dir (node_at w' d) then (Inl ENOENT, w')
         else case temp_name 10000 w' (in_dir d pre) (fresh w') of None \<Rightarrow> (Inl EEXIST, w')
           | Some (p, k) \<Rightarrow> (Inr p, put p n (w'\<lparr>fresh := k\<rparr>))) of
        (Inl e, w'') \<Rightarrow> Q (Inl (SysErr e d)) w'' | (Inr a, w'') \<Rightarrow> Q (Inr a) w''"
  proof (cases "temp_name 10000 w (in_dir d pre) (fresh w)")
    case None
    then show ?thesis using assms(1) node_at_ext [OF f(1)] temp_name_files [OF f(1)] f by simp
  next
    case (Some pk)
    obtain p k where pk: "pk = (p, k)" by (cases pk)
    then obtain i where i: "node_at w p = None" "p = in_dir d pre @ FormatUint i"
      using temp_name_fresh Some by blast
    have "node_at (put p n (w'\<lparr>fresh := k\<rparr>)) = (node_at w)(p \<mapsto> n)"
      using node_at_ext [OF f(1)] by (auto simp: node_at_put fun_eq_iff)
    then show ?thesis
      using assms node_at_ext [OF f(1)] temp_name_files [OF f(1)] f Some pk i by simp
  qed
qed (intro assms(1) node_at_ext, assumption)

lemma post_reads:
  assumes "reads m" "\<And>r w'. node_at w' = node_at w \<Longrightarrow> Q r w'"
  shows "post m Q w"
  by (rule reads_post [OF assms(1)]) (intro assms(2) node_at_ext)

lemma errIsNotExist_SysErr [simp]: "errIsNotExist (SysErr e p) \<longleftrightarrow> e = ENOENT"
  by (simp add: errIsNotExist_def)

lemma post_Lstat:
  assumes "\<And>e w'. node_at w' = node_at w \<Longrightarrow> errIsNotExist e \<longrightarrow> node_at w p = None \<Longrightarrow> Q (Inl e) w'"
    and "\<And>n w'. node_at w' = node_at w \<Longrightarrow> node_at w p = Some n \<Longrightarrow> Q (Inr n) w'"
  shows "post (Lstat p) Q w"
  unfolding Lstat_def
proof (rule post_syscall)
  fix w' :: world assume f: "files w' = files w" "fresh w' = fresh w"
  show "case (case node_at w' p of None \<Rightarrow> Inl ENOENT | Some n \<Rightarrow> Inr n, w') of
      (Inl e, w'') \<Rightarrow> Q (Inl (SysErr e p)) w'' | (Inr a, w'') \<Rightarrow> Q (Inr a) w''"
    using assms [OF node_at_ext [OF f(1)]] node_at_ext [OF f(1)] by (cases "node_at w p") auto
qed (intro assms(1) node_at_ext, simp_all)

lemma post_Chmod:
  assumes "\<And>e w'. node_at w' = node_at w \<Longrightarrow> Q (Inl e) w'"
    and "\<And>n w'. node_at w p = Some n \<Longrightarrow> node_at w' = (node_at w)(p \<mapsto> set_mode m n) \<Longrightarrow> Q (Inr ()) w'"
  shows "post (Chmod p m) Q w"
  unfolding Chmod_def
proof (rule post_syscall)
  fix w' :: world assume f: "files w' = files w" "fresh w' = fresh w"
  have n: "node_at w' = node_at w" using node_at_ext f by blast
  have "node_at (put p x w') = (node_at w)(p \<mapsto> x)" for x using n by (auto simp: node_at_put fun_eq_iff)
  then show "case (case node_at w' p of None \<Rightarrow> (Inl ENOENT, w') | Some n \<Rightarrow> (Inr (), put p (set_mode m n) w')) of
        (Inl e, w'') \<Rightarrow> Q (Inl (SysErr e p)) w'' | (Inr a, w'') \<Rightarrow> Q (Inr a) w''"
    using assms n by (cases "node_at w p") auto
qed (intro assms(1) node_at_ext, assumption)

lemma node_at_append:
  "node_at (append_data p d w) = (case node_at w p of Some (FileNode c m u) \<Rightarrow> (node_at w)(p \<mapsto> FileNode (c @ d) m u) | _ \<Rightarrow> node_at w)"
  by (auto simp: append_data_def node_at_put fun_eq_iff split: option.splits node.splits)

lemma post_FWrite:
  assumes "node_at w p = Some (FileNode c m u)"
    and "\<And>e k w'. node_at w' = (node_at w)(p \<mapsto> FileNode (c @ take k d) m u) \<Longrightarrow> Q (Inl e) w'"
    and "\<And>w'. node_at w' = (node_at w)(p \<mapsto> FileNode (c @ d) m u) \<Longrightarrow> Q (Inr ()) w'"
  shows "post (FWrite p d) Q w"
  unfolding FWrite_def
proof (rule post_syscall_with)
  fix e n and w' :: world assume f: "files w' = files w" "fresh w' = fresh w"
  show "Q (Inl (SysErr e p)) (append_data p (take n d) w')"
    by (rule assms(2)) (simp add: node_at_append node_at_ext [OF f(1)] assms(1))
next
  fix w' :: world assume f: "files w' = files w" "fresh w' = fresh w"
  show "case (Inr (), append_data p d w') of (Inl e, w'') \<Rightarrow> Q (Inl (SysErr e p)) w'' | (Inr a, w'') \<Rightarrow> Q (Inr a) w''"
    using assms(3) [of "append_data p d w'"] by (simp add: node_at_append node_at_ext [OF f(1)] assms(1))
qed

text \<open>\<open>leaf p w\<close>: nothing is below \<open>p\<close>, as for every file.\<close>

definition leaf :: "string \<Rightarrow> world \<Rightarrow> bool" where
  "leaf p w \<longleftrightarrow> (\<forall>r. inside p r \<and> r \<noteq> p \<longrightarrow> node_at w r = None)"

lemma leaf_cong: "node_at w' = node_at w \<Longrightarrow> leaf p w' = leaf p w"
  by (simp add: leaf_def)

lemma leaf_upd: "leaf p w \<Longrightarrow> node_at w' = (node_at w)(q \<mapsto> n) \<Longrightarrow> \<not> inside p q \<or> q = p \<Longrightarrow> leaf p w'"
  by (auto simp: leaf_def)

lemma post_Rename_file:
  assumes "node_at w p = Some (FileNode c m u)" "leaf p w" "leaf q w" "\<not> inside p q" "\<not> inside q p"
    and "\<And>e w'. node_at w' = node_at w \<Longrightarrow> Q (Inl e) w'"
    and "\<And>w'. is_dir (node_at w (Dir q)) \<Longrightarrow> node_at w' = (node_at w)(p := None, q \<mapsto> FileNode c m u) \<Longrightarrow> Q (Inr ()) w'"
  shows "post (Rename p q) Q w"
  unfolding Rename_def
proof (rule post_syscall)
  fix w' :: world assume f: "files w' = files w" "fresh w' = fresh w"
  have n: "node_at w' = node_at w" using node_at_ext f by blast
  have "node_at (move p q w') = (node_at w)(p := None, q \<mapsto> FileNode c m u)"
    using node_at_move_eq [of w' p "FileNode c m u" q] assms(1-5) n by (auto simp: leaf_def)
  moreover have "p \<noteq> q" using assms(4) by auto
  ultimately show "case (case node_at w' p of None \<Rightarrow> (Inl ENOENT, w')
      | Some n \<Rightarrow>
          if \<not> is_dir (node_at w' (Dir q)) then (Inl ENOENT, w')
          else if p = q then (Inr (), w')
          else (case (is_dir (Some n), node_at w' q) of
              (_, None) \<Rightarrow> (Inr (), move p q w')
            | (False, Some (DirNode _ _)) \<Rightarrow> (Inl EISDIR, w')
            | (False, Some _) \<Rightarrow> (Inr (), move p q w')
            | (True, Some (DirNode _ _)) \<Rightarrow> if children w' q = [] then (Inr (), move p q w') else (Inl ENOTEMPTY, w')
            | (True, Some _) \<Rightarrow> (Inl ENOTDIR, w'))) of
        (Inl e, w'') \<Rightarrow> Q (Inl (SysErr e p)) w'' | (Inr a, w'') \<Rightarrow> Q (Inr a) w''"
    using assms(1,6,7) n by (auto split: option.splits node.splits)
qed (intro assms(6) node_at_ext, assumption)

text \<open>Removing a file: it is gone, or nothing changed.\<close>

lemma post_Remove:
  assumes "\<And>e w'. node_at w' = node_at w \<Longrightarrow> errIsNotExist e \<longrightarrow> node_at w p = None \<Longrightarrow> Q (Inl e) w'"
    and "\<And>w'. node_at w' = (node_at w)(p := None) \<Longrightarrow> Q (Inr ()) w'"
  shows "post (Remove p) Q w"
  unfolding Remove_def
proof (rule post_syscall)
  fix w' :: world assume f: "files w' = files w" "fresh w' = fresh w"
  have n: "node_at w' = node_at w" using node_at_ext f by blast
  have "node_at (prune (\<lambda>q. q = p) w') = (node_at w)(p := None)"
    using n by (auto simp: node_at_prune fun_eq_iff)
  then show "case (case node_at w' p of
        None \<Rightarrow> (Inl ENOENT, w')
      | Some (DirNode _ _) \<Rightarrow> if children w' p = [] then (Inr (), prune (\<lambda>q. q = p) w') else (Inl ENOTEMPTY, w')
      | Some _ \<Rightarrow> (Inr (), prune (\<lambda>q. q = p) w')) of
        (Inl e, w'') \<Rightarrow> Q (Inl (SysErr e p)) w'' | (Inr a, w'') \<Rightarrow> Q (Inr a) w''"
    using assms n by (auto split: option.splits node.splits)
qed (intro assms(1) node_at_ext, simp_all)

text \<open>
  The same rules for a call followed by the rest of the function: one premise for the error
  return and one for the rest.
\<close>

lemma tryI: "post m (\<lambda>r w'. case r of Inl e \<Rightarrow> Q (Inl e) w' | Inr a \<Rightarrow> post (k a) Q w') w \<Longrightarrow> post (tryE m k) Q w"
  by (simp add: post_tryE)

lemma try_reads:
  assumes "reads m" "\<And>e w'. node_at w' = node_at w \<Longrightarrow> Q (Inl e) w'"
    and "\<And>a w'. node_at w' = node_at w \<Longrightarrow> post (k a) Q w'"
  shows "post (tryE m k) Q w"
  by (rule tryI, rule post_reads [OF assms(1)]) (simp add: assms(2,3) split: sum.splits)

lemma try_make_temp:
  assumes "\<And>e w'. node_at w' = node_at w \<Longrightarrow> Q (Inl e) w'"
    and "\<And>i w'. is_dir (node_at w d) \<Longrightarrow> node_at w (in_dir d pre @ FormatUint i) = None \<Longrightarrow>
      node_at w' = (node_at w)(in_dir d pre @ FormatUint i \<mapsto> n) \<Longrightarrow> post (k (in_dir d pre @ FormatUint i)) Q w'"
  shows "post (tryE (make_temp n d pre) k) Q w"
  by (rule tryI, rule post_make_temp) (simp_all add: assms)

lemma try_Chmod:
  assumes "node_at w p = Some n" "\<And>e w'. node_at w' = node_at w \<Longrightarrow> Q (Inl e) w'"
    and "\<And>w'. node_at w' = (node_at w)(p \<mapsto> set_mode m n) \<Longrightarrow> post (k ()) Q w'"
  shows "post (tryE (Chmod p m) k) Q w"
  by (rule tryI, rule post_Chmod) (use assms in simp_all)

lemma try_FWrite:
  assumes "node_at w p = Some (FileNode c m u)"
    and "\<And>e j w'. node_at w' = (node_at w)(p \<mapsto> FileNode (c @ take j d) m u) \<Longrightarrow> Q (Inl e) w'"
    and "\<And>w'. node_at w' = (node_at w)(p \<mapsto> FileNode (c @ d) m u) \<Longrightarrow> post (k ()) Q w'"
  shows "post (tryE (FWrite p d) k) Q w"
  by (rule tryI, rule post_FWrite [OF assms(1)]) (simp_all add: assms)

lemma try_Rename_file:
  assumes "node_at w p = Some (FileNode c m u)" "leaf p w" "leaf q w" "\<not> inside p q" "\<not> inside q p"
    and "\<And>e w'. node_at w' = node_at w \<Longrightarrow> Q (Inl e) w'"
    and "\<And>w'. is_dir (node_at w (Dir q)) \<Longrightarrow> node_at w' = (node_at w)(p := None, q \<mapsto> FileNode c m u) \<Longrightarrow> post (k ()) Q w'"
  shows "post (tryE (Rename p q) k) Q w"
  by (rule tryI, rule post_Rename_file [OF assms(1-5)]) (simp_all add: assms)

text \<open>A deferred call that at most removes \<open>p\<close> keeps every assertion that does not look at \<open>p\<close>.\<close>

lemma deferred_reads:
  assumes "reads c" "post m Q w" "\<And>r w1 w2. Q r w1 \<Longrightarrow> node_at w2 = node_at w1 \<Longrightarrow> Q r w2"
  shows "post (deferred c m) Q w"
  unfolding post_deferred
  by (rule post_mono [OF assms(2)], rule post_reads [OF assms(1)]) (rule assms(3))

lemma deferred_Remove:
  assumes "post m Q w" "\<And>r w1 w2. Q r w1 \<Longrightarrow> (\<And>q. q \<noteq> p \<Longrightarrow> node_at w2 q = node_at w1 q) \<Longrightarrow> Q r w2"
  shows "post (deferred (Remove p) m) Q w"
  unfolding post_deferred
  by (rule post_mono [OF assms(1)], rule post_Remove) (erule assms(2), simp add: fun_eq_iff)+

lemma attI: "post m (\<lambda>r w'. post (k r) Q w') w \<Longrightarrow> post (attempt m k) Q w"
  by (simp add: post_attempt)

lemma att_reads: "reads m \<Longrightarrow> (\<And>r w'. node_at w' = node_at w \<Longrightarrow> post (k r) Q w') \<Longrightarrow> post (attempt m k) Q w"
  by (rule attI) (rule post_reads)

lemma post_Link:
  assumes "\<And>e w'. node_at w' = node_at w \<Longrightarrow> Q (Inl e) w'"
    and "\<And>n w'. node_at w p = Some n \<Longrightarrow> node_at w q = None \<Longrightarrow> node_at w' = (node_at w)(q \<mapsto> n) \<Longrightarrow> Q (Inr ()) w'"
  shows "post (Link p q) Q w"
  unfolding Link_def
proof (rule post_syscall)
  fix w' :: world assume f: "files w' = files w" "fresh w' = fresh w"
  have n: "node_at w' = node_at w" using node_at_ext f by blast
  have "node_at (put q x w') = (node_at w)(q \<mapsto> x)" for x using n by (auto simp: node_at_put fun_eq_iff)
  then show "case (case node_at w' p of
        None \<Rightarrow> (Inl ENOENT, w')
      | Some (DirNode _ _) \<Rightarrow> (Inl EPERM, w')
      | Some n \<Rightarrow> if node_at w' q \<noteq> None then (Inl EEXIST, w')
          else if \<not> is_dir (node_at w' (Dir q)) then (Inl ENOENT, w') else (Inr (), put q n w')) of
        (Inl e, w'') \<Rightarrow> Q (Inl (SysErr e p)) w'' | (Inr a, w'') \<Rightarrow> Q (Inr a) w''"
    using assms n by (auto split: option.splits node.splits)
qed (intro assms(1) node_at_ext, assumption)

subsection \<open>Names below a directory\<close>

lemma SplitChar_abs_path:
  assumes "list_all safe_component cs" "cs \<noteq> []"
  shows "SplitChar (CHR ''/'') (abs_path cs) = [] # cs"
proof -
  have "SplitChar (CHR ''/'') (JoinStrings cs ''/'') = cs"
    using assms by (intro SplitChar_JoinStrings) (auto simp: list_all_iff safe_no_slash)
  then show ?thesis by (simp add: abs_path_def render_def)
qed

lemma abs_path_append:
  "cs \<noteq> [] \<Longrightarrow> abs_path (cs @ d # ds) = abs_path cs @ ''/'' @ JoinStrings (d # ds) ''/''"
proof -
  have "JoinStrings (cs @ d # ds) ''/'' = JoinStrings cs ''/'' @ ''/'' @ JoinStrings (d # ds) ''/''" if "cs \<noteq> []"
    using that by (induction cs "''/''" rule: JoinStrings.induct) auto
  then show "cs \<noteq> [] \<Longrightarrow> ?thesis" by (simp add: abs_path_def render_def)
qed

lemma inside_abs_path:
  assumes "list_all safe_component cs" "list_all safe_component ds" "cs \<noteq> []"
  shows "inside (abs_path cs) (abs_path ds) \<longleftrightarrow> (\<exists>es. ds = cs @ es)"
proof
  assume "inside (abs_path cs) (abs_path ds)"
  then consider "abs_path ds = abs_path cs" | t where "abs_path ds = abs_path cs @ CHR ''/'' # t"
    by (auto simp: inside_def HasPrefix_iff)
  then show "\<exists>es. ds = cs @ es"
  proof cases
    case 1
    then show ?thesis using assms abs_path_inject by auto
  next
    case (2 t)
    have "SplitChar (CHR ''/'') (abs_path ds) = ([] # cs) @ SplitChar (CHR ''/'') t"
      unfolding 2 SplitChar_concat using SplitChar_abs_path [OF assms(1,3)] by simp
    moreover have "ds \<noteq> []" using 2 assms(3) by (cases cs) (auto simp: abs_path_def render_def)
    ultimately show ?thesis using SplitChar_abs_path [OF assms(2)] by auto
  qed
next
  assume "\<exists>es. ds = cs @ es"
  then obtain es where "ds = cs @ es" by blast
  then show "inside (abs_path cs) (abs_path ds)"
    using abs_path_append [OF assms(3)] by (cases es) (auto simp: inside_def HasPrefix_iff)
qed

lemma in_dir_abs_path:
  assumes "list_all safe_component cs"
  shows "in_dir (abs_path cs) c = abs_path (cs @ [c])"
proof -
  have "abs_path cs = ''/'' \<longleftrightarrow> cs = []"
    using abs_path_inject [OF assms, of "[]"] by simp
  then show ?thesis by (simp add: in_dir_def abs_path_snoc)
qed

lemma siblings:
  assumes "list_all safe_component (cs @ [c])" "safe_component d" "c \<noteq> d"
  shows "\<not> inside (abs_path (cs @ [c])) (abs_path (cs @ [d]))"
  using assms by (simp add: inside_abs_path)

lemma digits_no_slash: "CHR ''/'' \<notin> set (FormatUint n)"
proof -
  have "\<not> is_digit CHR ''/''" by (simp add: is_digit_def ord_def)
  then show ?thesis using FormatUint_digits [of n] by (metis list_all_iff)
qed

text \<open>The temporary names below a directory.\<close>

definition temp_path :: "string \<Rightarrow> string list \<Rightarrow> nat \<Rightarrow> string" where
  "temp_path pre cs i = abs_path (cs @ [pre @ FormatUint i])"

lemma in_dir_temp: "list_all safe_component cs \<Longrightarrow> in_dir (abs_path cs) pre @ FormatUint i = temp_path pre cs i"
  by (simp add: temp_path_def in_dir_abs_path [symmetric]) (simp add: in_dir_def)

end
