(* ===== verification/CI_Files.thy ===== *)
theory CI_Files
  imports Go_World
begin

text \<open>
  The files of the CI server: \<open>cmd/ci/files.go\<close> (atomic writes, the update passcode, bounded
  logs) and \<open>cmd/ci/update.go\<close> (building and installing a new executable).

  Programs the server starts (\<open>git\<close>, \<open>go\<close>) are the parameter \<open>run\<close>, an effect with an output;
  \<open>exec\<close> says whether \<open>syscall.Exec\<close> fails (it does not return otherwise).
\<close>

subsection \<open>Atomic writes\<close>

definition syncDirectory :: "string \<Rightarrow> unit io" where
  "syncDirectory p = tryE (OpenRead p) (\<lambda>_. deferred (Effectless p) (Effectless p))"

definition writeAtomic :: "string \<Rightarrow> string \<Rightarrow> nat \<Rightarrow> unit io" where
  "writeAtomic path data mode =
     tryE (CreateTemp (Dir path) ''.pending-'') (\<lambda>f.
     deferred (Remove f) (deferred (Effectless f)
      (tryE (Chmod f mode) (\<lambda>_.
       tryE (FWrite f data) (\<lambda>_.
       tryE (Effectless f) (\<lambda>_.
       tryE (Effectless f) (\<lambda>_.
       tryE (Rename f path) (\<lambda>_.
       syncDirectory (Dir path)))))))))"

subsection \<open>The update passcode\<close>

definition passcode_path :: "string \<Rightarrow> string" where
  "passcode_path root = Join [root, ''update.passcode'']"

definition marker_path :: "string \<Rightarrow> string" where
  "marker_path root = Join [root, ''initialized'']"

definition readPasscode :: "string \<Rightarrow> string io" where
  "readPasscode root =
     tryE (ReadFile (passcode_path root)) (\<lambda>data.
       case HexDecode data of
         None \<Rightarrow> fail (Opaque ''invalid update.passcode; refusing to replace it'')
       | Some decoded \<Rightarrow>
           if length decoded \<noteq> 32 then fail (Opaque ''invalid update.passcode; refusing to replace it'') else ret data)"

fun require_absent :: "string list \<Rightarrow> 'a io \<Rightarrow> 'a io" where
  "require_absent [] k = k"
| "require_absent (p # ps) k =
     attempt (Lstat p) (\<lambda>r.
       case r of
         Inr n \<Rightarrow> fail (Opaque ''existing CI installation has no update.passcode; restore the original file'')
       | Inl e \<Rightarrow>
           if \<not> errIsNotExist e then fail (Opaque ''existing CI installation has no update.passcode; restore the original file'')
           else require_absent ps k)"

text \<open>\<open>rand\<close> is the result of \<open>rand.Read\<close> on 32 bytes.\<close>

definition create_passcode :: "goerr + string \<Rightarrow> string \<Rightarrow> unit io" where
  "create_passcode rand root =
     require_absent [marker_path root, Join [root, ''jobs.sqlite'']]
       (case rand of Inl e \<Rightarrow> fail e | Inr secret \<Rightarrow> writeAtomic (passcode_path root) (HexEncode secret) 384)"

definition check_marker :: "string \<Rightarrow> unit io" where
  "check_marker root =
     attempt (Lstat (marker_path root)) (\<lambda>r.
       if (case r of Inl e \<Rightarrow> errIsNotExist e | Inr n \<Rightarrow> False)
       then writeAtomic (marker_path root) [CHR ''1'', CHR 0x0A] 384
       else tryE (ReadFile (marker_path root)) (\<lambda>data.
         if data \<noteq> [CHR ''1'', CHR 0x0A] then fail (Opaque ''invalid CI initialization marker'') else ret ()))"

definition updatePasscode :: "goerr + string \<Rightarrow> string \<Rightarrow> string io" where
  "updatePasscode rand root =
     attempt (Lstat (passcode_path root)) (\<lambda>r.
       let rest = tryE (readPasscode root) (\<lambda>passcode. tryE (check_marker root) (\<lambda>_. ret passcode))
       in case r of
           Inl e \<Rightarrow> if errIsNotExist e then tryE (create_passcode rand root) (\<lambda>_. rest) else fail e
         | Inr n \<Rightarrow> rest)"

subsection \<open>Bounded logs\<close>

record blog =
  blog_path :: string
  remaining :: int

fun node_size :: "node \<Rightarrow> int" where
  "node_size (FileNode c m u) = int (length c)"
| "node_size (DirNode m u) = 4096"
| "node_size (LinkNode t) = int (length t)"

definition openLog :: "string \<Rightarrow> int \<Rightarrow> blog io" where
  "openLog path limit =
     tryE (OpenCreate False path 384 0) (\<lambda>_.
     attempt (Stat path) (\<lambda>r.
       case r of
         Inl e \<Rightarrow> deferred (Effectless path) (fail e)
       | Inr info \<Rightarrow> ret \<lparr>blog_path = path, remaining = max 0 (limit - node_size info)\<rparr>))"

text \<open>\<open>Write\<close> returns the number of bytes and the error; the log itself is updated.\<close>

definition blog_write :: "blog \<Rightarrow> string \<Rightarrow> world \<Rightarrow> (nat \<times> goerr option) \<times> blog \<times> world" where
  "blog_write l p w =
     (let q = (if int (length p) > remaining l then take (nat (remaining l)) p else p) in
      case FWrite (blog_path l) q w of
        (Inl e, w') \<Rightarrow> ((0, Some e), l, w')
      | (Inr _, w') \<Rightarrow> ((length p, None), l\<lparr>remaining := remaining l - int (length q)\<rparr>, w'))"

fun blog_writes :: "blog \<Rightarrow> string list \<Rightarrow> world \<Rightarrow> blog \<times> world" where
  "blog_writes l [] w = (l, w)"
| "blog_writes l (p # ps) w = (case blog_write l p w of (_, l', w') \<Rightarrow> blog_writes l' ps w')"

definition blog_close :: "blog \<Rightarrow> unit io" where
  "blog_close l =
     attempt (Effectless (blog_path l)) (\<lambda>r1. attempt (Effectless (blog_path l)) (\<lambda>r2.
       case joinErrs [case r1 of Inl e \<Rightarrow> Some e | _ \<Rightarrow> None, case r2 of Inl e \<Rightarrow> Some e | _ \<Rightarrow> None] of
         None \<Rightarrow> ret () | Some e \<Rightarrow> fail e))"

subsection \<open>Replacing the executable\<close>

definition res_err :: "goerr + 'a \<Rightarrow> goerr option" where
  "res_err r = (case r of Inl e \<Rightarrow> Some e | Inr _ \<Rightarrow> None)"

definition restore_executable :: "string \<Rightarrow> string \<Rightarrow> goerr \<Rightarrow> 'a io" where
  "restore_executable backup executable err =
     attempt (Rename backup executable) (\<lambda>r1.
     attempt (syncDirectory (Dir executable)) (\<lambda>r2.
       fail (JoinErr (err # somes [res_err r1, res_err r2]))))"

fun keep_open :: "string list \<Rightarrow> (goerr \<Rightarrow> 'a io) \<Rightarrow> 'a io \<Rightarrow> 'a io" where
  "keep_open [] restore k = k"
| "keep_open (fd # fds) restore k =
     attempt (Effectless fd) (\<lambda>r. case r of Inl e \<Rightarrow> restore e | Inr _ \<Rightarrow> deferred (Effectless fd) (keep_open fds restore k))"

text \<open>The result \<open>Inr ()\<close> means that the new executable runs.\<close>

definition replace_linked :: "goerr option \<Rightarrow> string \<Rightarrow> string \<Rightarrow> string \<Rightarrow> unit io" where
  "replace_linked exec candidate executable backup =
     tryE (Link executable backup) (\<lambda>_.
     tryE (Rename candidate executable) (\<lambda>_.
     attempt (syncDirectory (Dir executable)) (\<lambda>r.
       case r of
         Inl e \<Rightarrow> restore_executable backup executable e
       | Inr _ \<Rightarrow>
           keep_open [''socket'', ''lock''] (restore_executable backup executable)
             (case exec of None \<Rightarrow> ret () | Some e \<Rightarrow> restore_executable backup executable e))))"

definition replaceProcess :: "goerr option \<Rightarrow> string \<Rightarrow> string \<Rightarrow> unit io" where
  "replaceProcess exec candidate executable =
     (let backup = executable @ ''.previous'' in
      attempt (Remove backup) (\<lambda>r.
        case r of
          Inl e \<Rightarrow> if \<not> errIsNotExist e then fail e else replace_linked exec candidate executable backup
        | Inr _ \<Rightarrow> replace_linked exec candidate executable backup))"

subsection \<open>writeAtomic\<close>

lemma pending_safe: "safe_component (''.pending-'' @ FormatUint i)"
  using digits_no_slash [of i] by (auto simp: safe_component_def)

lemma reads_syncDirectory: "reads (syncDirectory p)"
proof -
  have "reads (deferred (Effectless p) (Effectless p))"
    using reads_calls(5) [of p] by (auto simp: reads_def deferred_def split: prod.splits) (metis snd_conv)+
  then show ?thesis unfolding syncDirectory_def by (intro reads_comb) simp
qed

definition only_changes :: "string \<Rightarrow> string list \<Rightarrow> world \<Rightarrow> world \<Rightarrow> bool" where
  "only_changes path cs w w' \<longleftrightarrow> (\<forall>p. p \<noteq> path \<and> (\<forall>i. p \<noteq> temp_path ''.pending-'' cs i) \<longrightarrow> node_at w' p = node_at w p)"

text \<open>What holds after \<open>writeAtomic\<close>: the file is the old one or the new one.\<close>

definition atomic_post :: "string \<Rightarrow> string list \<Rightarrow> string \<Rightarrow> nat \<Rightarrow> world \<Rightarrow> goerr + unit \<Rightarrow> world \<Rightarrow> bool" where
  "atomic_post path cs data mode w r w' \<longleftrightarrow> only_changes path cs w w' \<and>
     (node_at w' path = node_at w path \<and> r \<noteq> Inr () \<or> node_at w' path = Some (FileNode data mode 0))"

lemma atomic_post_stable:
  assumes "atomic_post path cs data mode w r w1" "\<And>i. path \<noteq> temp_path ''.pending-'' cs i"
    and "\<And>q. (\<forall>i. q \<noteq> temp_path ''.pending-'' cs i) \<Longrightarrow> node_at w2 q = node_at w1 q"
  shows "atomic_post path cs data mode w r w2"
  using assms by (simp add: atomic_post_def only_changes_def)

text \<open>Before the rename only the temporary file differs; after it the new content is in place.\<close>

lemma atomic_post_error:
  assumes "path \<noteq> temp_path ''.pending-'' cs i" "\<And>q. q \<noteq> temp_path ''.pending-'' cs i \<Longrightarrow> node_at w' q = node_at w q"
  shows "atomic_post path cs data mode w (Inl e) w'"
  using assms by (auto simp: atomic_post_def only_changes_def)

lemma atomic_post_new:
  assumes "node_at w' = (node_at w)(temp_path ''.pending-'' cs i := None, path \<mapsto> FileNode data mode 0)"
  shows "atomic_post path cs data mode w r w'"
  using assms by (auto simp: atomic_post_def only_changes_def)

lemma writeAtomic_post:
  assumes s: "list_all safe_component (cs @ [c])" "\<not> HasPrefix c ''.pending-''"
    and l: "leaf (abs_path (cs @ [c])) w" "\<And>i. leaf (temp_path ''.pending-'' cs i) w"
  shows "post (writeAtomic (abs_path (cs @ [c])) data mode) (atomic_post (abs_path (cs @ [c])) cs data mode w) w"
proof -
  let ?p = "abs_path (cs @ [c])" and ?t = "temp_path ''.pending-'' cs"
  let ?Q = "atomic_post ?p cs data mode w"
  have d: "Dir ?p = abs_path cs" by (rule Dir_abs_path [OF s(1)])
  have cs: "list_all safe_component cs" using s(1) by simp
  have np: "c \<noteq> ''.pending-'' @ FormatUint i" for i using s(2) HasPrefix_append by metis
  have sib: "\<not> inside ?p (?t i)" "\<not> inside (?t i) ?p" "?p \<noteq> ?t i" for i
    using siblings [OF s(1) pending_safe np] siblings [of cs "''.pending-'' @ FormatUint i" c] np [of i] s(1) pending_safe [of i]
    unfolding temp_path_def by (auto simp: inside_def)
  have err: "?Q (Inl e) w'" if "node_at w' = (node_at w)(?t i \<mapsto> x)" for e w' i x
    by (rule atomic_post_error [OF sib(3) [of i]]) (simp add: that)
  have body: "post (tryE (Chmod (?t i) mode) (\<lambda>_. tryE (FWrite (?t i) data) (\<lambda>_. tryE (Effectless (?t i)) (\<lambda>_.
      tryE (Effectless (?t i)) (\<lambda>_. tryE (Rename (?t i) ?p) (\<lambda>_. syncDirectory (abs_path cs))))))) ?Q w1"
    if n1: "node_at w1 = (node_at w)(?t i \<mapsto> FileNode [] 384 0)" for i w1
  proof (rule try_Chmod, simp add: n1)
    fix w2 assume "node_at w2 = (node_at w1)(?t i \<mapsto> set_mode mode (FileNode [] 384 0))"
    then have n2: "node_at w2 = (node_at w)(?t i \<mapsto> FileNode [] mode 0)" by (simp add: n1)
    show "post (tryE (FWrite (?t i) data) (\<lambda>_. tryE (Effectless (?t i)) (\<lambda>_. tryE (Effectless (?t i)) (\<lambda>_.
        tryE (Rename (?t i) ?p) (\<lambda>_. syncDirectory (abs_path cs)))))) ?Q w2"
    proof (rule try_FWrite, simp add: n2)
      fix w3 assume "node_at w3 = (node_at w2)(?t i \<mapsto> FileNode ([] @ data) mode 0)"
      then have n3: "node_at w3 = (node_at w)(?t i \<mapsto> FileNode data mode 0)" by (simp add: n2)
      have ren: "post (tryE (Rename (?t i) ?p) (\<lambda>_. syncDirectory (abs_path cs))) ?Q w4" if "node_at w4 = node_at w3" for w4
        by (rule try_Rename_file [of _ _ data mode 0], simp_all only: that n3)
          (use sib [of i] leaf_upd [OF l(1)] leaf_upd [OF l(2) [of i]] that n3 err atomic_post_new in
            \<open>auto intro!: post_reads [OF reads_syncDirectory]\<close>)
      show "post (tryE (Effectless (?t i)) (\<lambda>_. tryE (Effectless (?t i)) (\<lambda>_.
          tryE (Rename (?t i) ?p) (\<lambda>_. syncDirectory (abs_path cs))))) ?Q w3"
        by (intro try_reads reads_calls ren) (use err n3 in auto)
    qed (use err n2 in auto)
  qed (use err n1 in auto)
  have st: "?Q r w2" if "?Q r w1" "\<And>q. q \<noteq> ?t i \<Longrightarrow> node_at w2 q = node_at w1 q" for i r w1 w2
    by (rule atomic_post_stable [OF that(1) sib(3)]) (use that(2) in blast)
  have "post (deferred (Remove (?t i)) (deferred (Effectless (?t i)) (tryE (Chmod (?t i) mode) (\<lambda>_. tryE (FWrite (?t i) data)
      (\<lambda>_. tryE (Effectless (?t i)) (\<lambda>_. tryE (Effectless (?t i)) (\<lambda>_. tryE (Rename (?t i) ?p) (\<lambda>_. syncDirectory (abs_path cs))))))))) ?Q w1"
    if n1: "node_at w1 = (node_at w)(?t i \<mapsto> FileNode [] 384 0)" for i w1
    by (rule deferred_Remove, rule deferred_reads [OF reads_calls(5) body [OF n1]], erule st, simp) (rule st)
  then show ?thesis
    unfolding writeAtomic_def d CreateTemp_def
    by (intro try_make_temp) (simp_all only: in_dir_temp [OF cs], simp add: atomic_post_def only_changes_def)
qed

subsection \<open>The passcode is never replaced\<close>

lemma Join_child: "list_all safe_component (cs @ [c]) \<Longrightarrow> Join [abs_path cs, c] = abs_path (cs @ [c])"
  using Join_abs [of "abs_path cs" "[c]"] by (simp add: comps_abs_path)

lemma CI_names_safe [simp]:
  "safe_component ''update.passcode''" "safe_component ''initialized''" "safe_component ''jobs.sqlite''"
  "\<not> HasPrefix ''update.passcode'' ''.pending-''" "\<not> HasPrefix ''initialized'' ''.pending-''" "\<not> HasPrefix ''jobs.sqlite'' ''.pending-''"
  by (simp_all add: safe_component_def HasPrefix_def)

lemma not_temp_path:
  assumes "list_all safe_component (cs @ [c])" "\<not> HasPrefix c ''.pending-''"
  shows "\<not> inside (abs_path (cs @ [c])) (temp_path ''.pending-'' cs i)" "\<not> inside (temp_path ''.pending-'' cs i) (abs_path (cs @ [c]))"
    "abs_path (cs @ [c]) \<noteq> temp_path ''.pending-'' cs i"
proof -
  have np: "c \<noteq> ''.pending-'' @ FormatUint i" using assms(2) HasPrefix_append by metis
  show "\<not> inside (abs_path (cs @ [c])) (temp_path ''.pending-'' cs i)" "\<not> inside (temp_path ''.pending-'' cs i) (abs_path (cs @ [c]))"
    using siblings [OF assms(1) pending_safe np] siblings [of cs "''.pending-'' @ FormatUint i" c] np assms(1) pending_safe [of i]
    unfolding temp_path_def by auto
  then show "abs_path (cs @ [c]) \<noteq> temp_path ''.pending-'' cs i" by (auto simp: inside_def)
qed

lemma temp_paths_apart:
  assumes "list_all safe_component cs" "inside (temp_path ''.pending-'' cs i) (temp_path ''.pending-'' cs j)"
  shows "temp_path ''.pending-'' cs j = temp_path ''.pending-'' cs i"
  using assms siblings [of cs "''.pending-'' @ FormatUint i" "''.pending-'' @ FormatUint j"] pending_safe
  unfolding temp_path_def by fastforce

lemma only_changes_leaf:
  assumes "only_changes q cs w w'" "leaf p w" "inside p q \<Longrightarrow> q = p"
    "\<And>i. inside p (temp_path ''.pending-'' cs i) \<Longrightarrow> temp_path ''.pending-'' cs i = p"
  shows "leaf p w'"
  unfolding leaf_def
proof (intro allI impI)
  fix r assume r: "inside p r \<and> r \<noteq> p"
  then have "r \<noteq> q" "\<forall>i. r \<noteq> temp_path ''.pending-'' cs i" using assms(3,4) by auto
  then have "node_at w' r = node_at w r" using assms(1) by (simp add: only_changes_def)
  then show "node_at w' r = None" using assms(2) r by (simp add: leaf_def)
qed

text \<open>The CI root: the files of the server and its temporary names have nothing below them.\<close>

definition ci_files :: "string list" where
  "ci_files = [''update.passcode'', ''initialized'']"

definition ci_root :: "string list \<Rightarrow> world \<Rightarrow> bool" where
  "ci_root cs w \<longleftrightarrow> list_all safe_component cs \<and> (\<forall>c \<in> set ci_files. leaf (abs_path (cs @ [c])) w) \<and>
     (\<forall>i. leaf (temp_path ''.pending-'' cs i) w)"

lemma ci_files_names: "c \<in> set ci_files \<Longrightarrow> safe_component c \<and> \<not> HasPrefix c ''.pending-''"
  by (auto simp: ci_files_def)

lemma ci_root_cong: "node_at w' = node_at w \<Longrightarrow> ci_root cs w' = ci_root cs w"
  by (simp add: ci_root_def leaf_def)

lemma ci_root_only_changes:
  assumes r: "ci_root cs w" and c: "c \<in> set ci_files" and o: "only_changes (abs_path (cs @ [c])) cs w w'"
  shows "ci_root cs w'"
proof -
  have cs: "list_all safe_component cs" using r by (simp add: ci_root_def)
  have s: "list_all safe_component (cs @ [d])" "\<not> HasPrefix d ''.pending-''" if "d \<in> set ci_files" for d
    using ci_files_names [OF that] cs by simp_all
  have "leaf (abs_path (cs @ [d])) w'" if d: "d \<in> set ci_files" for d
  proof (rule only_changes_leaf [OF o])
    show "leaf (abs_path (cs @ [d])) w" using r d by (simp add: ci_root_def)
    show "abs_path (cs @ [c]) = abs_path (cs @ [d])" if "inside (abs_path (cs @ [d])) (abs_path (cs @ [c]))"
      using siblings [OF s(1) [OF d], of c] s(1) [OF c] that by fastforce
  qed (use not_temp_path(1) [OF s [OF d]] in blast)
  moreover have "leaf (temp_path ''.pending-'' cs i) w'" for i
  proof (rule only_changes_leaf [OF o])
    show "leaf (temp_path ''.pending-'' cs i) w" using r by (simp add: ci_root_def)
  qed (use not_temp_path(2) [OF s [OF c]] temp_paths_apart [OF cs] in blast)+
  ultimately show ?thesis using cs by (simp add: ci_root_def)
qed

lemma writeAtomic_root:
  assumes "ci_root cs w" "c \<in> set ci_files"
  shows "post (writeAtomic (abs_path (cs @ [c])) data mode)
    (\<lambda>r w'. atomic_post (abs_path (cs @ [c])) cs data mode w r w' \<and> ci_root cs w') w"
proof (rule post_mono [OF writeAtomic_post])
  show "list_all safe_component (cs @ [c])" "\<not> HasPrefix c ''.pending-''"
    using assms ci_files_names [OF assms(2)] by (simp_all add: ci_root_def)
  show "leaf (abs_path (cs @ [c])) w" "leaf (temp_path ''.pending-'' cs i) w" for i
    using assms by (simp_all add: ci_root_def)
  fix r and w' :: world assume a: "atomic_post (abs_path (cs @ [c])) cs data mode w r w'"
  then have "ci_root cs w'" using ci_root_only_changes [OF assms] by (simp add: atomic_post_def)
  with a show "atomic_post (abs_path (cs @ [c])) cs data mode w r w' \<and> ci_root cs w'" by simp
qed

lemma post_ReadFile_links:
  assumes "\<And>e w'. node_at w' = node_at w \<Longrightarrow> Q (Inl e) w'"
    and "\<And>d w'. node_at w' = node_at w \<Longrightarrow> node_at w p \<noteq> None \<Longrightarrow> Q (Inr d) w'"
  shows "post (ReadFile p) Q w"
  unfolding ReadFile_def
proof (rule post_syscall)
  fix w' :: world assume f: "files w' = files w" "fresh w' = fresh w"
  have "resolve 40 w p = Some p" if "node_at w p = None" for w :: world
    using that by (simp add: numeral_eq_Suc)
  then show "case (case resolve 40 w' p of None \<Rightarrow> Inl EIO
      | Some q \<Rightarrow> (case node_at w' q of Some (FileNode d m u) \<Rightarrow> Inr d | None \<Rightarrow> Inl ENOENT | _ \<Rightarrow> Inl EISDIR), w') of
        (Inl e, w'') \<Rightarrow> Q (Inl (SysErr e p)) w'' | (Inr a, w'') \<Rightarrow> Q (Inr a) w''"
    using assms [OF node_at_ext [OF f(1)]] node_at_ext [OF f(1)]
    by (cases "node_at w p = None") (auto split: option.splits node.splits)
qed (intro assms(1) node_at_ext, assumption)

definition is_passcode :: "string \<Rightarrow> bool" where
  "is_passcode s \<longleftrightarrow> length s = 64 \<and> HexDecode s \<noteq> None"

lemma try_readPasscode:
  assumes "\<And>e w'. node_at w' = node_at w \<Longrightarrow> Q (Inl e) w'"
    and "\<And>s w'. node_at w' = node_at w \<Longrightarrow> node_at w (passcode_path root) \<noteq> None \<Longrightarrow> is_passcode s \<Longrightarrow> post (k s) Q w'"
  shows "post (tryE (readPasscode root) k) Q w"
  unfolding readPasscode_def
proof (rule tryI, rule tryI, rule post_ReadFile_links)
  fix d and w' :: world
  assume n: "node_at w' = node_at w" "node_at w (passcode_path root) \<noteq> None"
  have "is_passcode d" if "HexDecode d = Some x" "length x = 32" for x
    using length_HexDecode [OF that(1)] that by (simp add: is_passcode_def)
  then show "case Inr d of Inl e \<Rightarrow> (case Inl e of Inl e \<Rightarrow> Q (Inl e) w' | Inr a \<Rightarrow> post (k a) Q w')
      | Inr data \<Rightarrow> post (case HexDecode data of None \<Rightarrow> fail (Opaque ''invalid update.passcode; refusing to replace it'')
          | Some decoded \<Rightarrow> if length decoded \<noteq> 32 then fail (Opaque ''invalid update.passcode; refusing to replace it'') else ret data)
          (\<lambda>r w'. case r of Inl e \<Rightarrow> Q (Inl e) w' | Inr a \<Rightarrow> post (k a) Q w') w'"
    using assms [OF n(1)] n(2) by (auto simp: wp split: option.split)
qed (simp add: assms)

text \<open>What \<open>updatePasscode\<close> does to the passcode \<open>P\<close> and the marker \<open>M\<close>.\<close>

definition passcode_kept :: "goerr + string \<Rightarrow> string list \<Rightarrow> world \<Rightarrow> world \<Rightarrow> bool" where
  "passcode_kept rand cs w w' \<longleftrightarrow>
     node_at w' (passcode_path (abs_path cs)) = node_at w (passcode_path (abs_path cs)) \<or>
     node_at w (passcode_path (abs_path cs)) = None \<and> node_at w (marker_path (abs_path cs)) = None \<and>
     node_at w (Join [abs_path cs, ''jobs.sqlite'']) = None \<and>
     (\<exists>secret. rand = Inr secret \<and> node_at w' (passcode_path (abs_path cs)) = Some (FileNode (HexEncode secret) 384 0))"

definition marker_after :: "string list \<Rightarrow> world \<Rightarrow> world \<Rightarrow> bool" where
  "marker_after cs w w' \<longleftrightarrow> node_at w' (marker_path (abs_path cs)) = node_at w (marker_path (abs_path cs)) \<or>
     node_at w' (passcode_path (abs_path cs)) \<noteq> None"

lemma CI_paths:
  assumes "list_all safe_component cs"
  shows "passcode_path (abs_path cs) = abs_path (cs @ [''update.passcode''])"
    "marker_path (abs_path cs) = abs_path (cs @ [''initialized''])"
  using assms by (simp_all add: passcode_path_def marker_path_def Join_child)

text \<open>The part after the passcode exists: it and the marker are checked, the marker made.\<close>

lemma passcode_rest:
  assumes r: "ci_root cs w"
  shows "post (tryE (readPasscode (abs_path cs)) (\<lambda>passcode. tryE (check_marker (abs_path cs)) (\<lambda>_. ret passcode)))
    (\<lambda>r w'. node_at w' (passcode_path (abs_path cs)) = node_at w (passcode_path (abs_path cs)) \<and> marker_after cs w w' \<and>
       (case r of Inl e \<Rightarrow> True | Inr s \<Rightarrow> is_passcode s \<and> node_at w' (passcode_path (abs_path cs)) \<noteq> None)) w"
    (is "post _ ?Q w")
proof (rule try_readPasscode)
  fix s and w1 :: world
  assume n1: "node_at w1 = node_at w" and P: "node_at w (passcode_path (abs_path cs)) \<noteq> None" and s: "is_passcode s"
  have cs: "list_all safe_component cs" using r by (simp add: ci_root_def)
  have pm: "passcode_path (abs_path cs) \<noteq> marker_path (abs_path cs)"
    "passcode_path (abs_path cs) \<noteq> temp_path ''.pending-'' cs i" for i
    using not_temp_path(3) [of cs "''update.passcode''"] cs by (simp_all add: CI_paths abs_path_inject)
  have Q: "?Q r' w'" if "node_at w' (passcode_path (abs_path cs)) = node_at w (passcode_path (abs_path cs))" "r' = Inr s \<or> (\<exists>e. r' = Inl e)" for r' w'
    using that P s by (auto simp: marker_after_def)
  have wr: "post (writeAtomic (marker_path (abs_path cs)) d m) (\<lambda>r w'. node_at w' (passcode_path (abs_path cs)) = node_at w (passcode_path (abs_path cs))) w2"
    if n2: "node_at w2 = node_at w" for d m and w2 :: world
  proof -
    have r2: "ci_root cs w2" using r ci_root_cong [OF n2] by simp
    show ?thesis
      unfolding CI_paths(2) [OF cs]
      by (rule post_mono [OF writeAtomic_root [OF r2]])
        (use pm in \<open>simp_all add: ci_files_def CI_paths cs atomic_post_def only_changes_def n2\<close>)
  qed
  let ?K = "\<lambda>w'. node_at w' (passcode_path (abs_path cs)) = node_at w (passcode_path (abs_path cs))"
  have "post (check_marker (abs_path cs)) (\<lambda>r. ?K) w1"
    unfolding check_marker_def
  proof (rule att_reads, simp)
    fix r' and w2 :: world assume "node_at w2 = node_at w1"
    then have n2: "node_at w2 = node_at w" using n1 by simp
    have k: "?K w3" if "node_at w3 = node_at w2" for w3 :: world using that n2 by simp
    show "post (if case r' of Inl e \<Rightarrow> errIsNotExist e | Inr n \<Rightarrow> False then writeAtomic (marker_path (abs_path cs)) [CHR ''1'', CHR 0x0A] 384
       else tryE (ReadFile (marker_path (abs_path cs))) (\<lambda>data. if data \<noteq> [CHR ''1'', CHR 0x0A]
         then fail (Opaque ''invalid CI initialization marker'') else ret ())) (\<lambda>r. ?K) w2"
      unfolding post_if
      by (simp only: wr [OF n2] if_cancel simp_thms split: if_split)
        (intro impI try_reads, simp_all add: wp k)
  qed
  then show "post (tryE (check_marker (abs_path cs)) (\<lambda>_. ret s)) ?Q w1"
  proof (intro tryI, elim post_mono)
    fix r' and w' :: world assume k: "?K w'"
    have q: "?Q (Inl e) w'" "?Q (Inr s) w'" for e by (rule Q [OF k], blast)+
    show "case r' of Inl e \<Rightarrow> ?Q (Inl e) w' | Inr a \<Rightarrow> post (ret s) ?Q w'"
    proof (cases r')
      case (Inl e)
      show ?thesis unfolding Inl sum.case by (rule q(1) [unfolded sum.case])
    next
      case (Inr u)
      show ?thesis unfolding Inr sum.case post_ret by (rule q(2) [unfolded sum.case])
    qed
  qed
qed (simp add: marker_after_def)

lemma post_require_absent:
  assumes "\<And>e w'. node_at w' = node_at w \<Longrightarrow> Q (Inl e) w'"
    and "\<And>w'. node_at w' = node_at w \<Longrightarrow> list_all (\<lambda>p. node_at w p = None) ps \<Longrightarrow> post k Q w'"
  shows "post (require_absent ps k) Q w"
  using assms
proof (induction ps arbitrary: w)
  case (Cons p ps)
  have "post (require_absent ps k) Q w'" if "node_at w' = node_at w" "node_at w p = None" for w' :: world
    by (rule Cons.IH) (use Cons.prems that in auto)
  then show ?case
    by (simp only: require_absent.simps) (rule attI, rule post_Lstat, use Cons.prems(1) in \<open>auto simp: wp\<close>)
qed simp

lemma create_passcode_post:
  assumes r: "ci_root cs w" and P: "node_at w (passcode_path (abs_path cs)) = None"
  shows "post (create_passcode rand (abs_path cs))
    (\<lambda>r w'. passcode_kept rand cs w w' \<and> ci_root cs w' \<and>
       node_at w' (marker_path (abs_path cs)) = node_at w (marker_path (abs_path cs))) w" (is "post _ ?Q w")
  unfolding create_passcode_def
proof (rule post_require_absent)
  have cs: "list_all safe_component cs" using r by (simp add: ci_root_def)
  have mp: "marker_path (abs_path cs) \<noteq> passcode_path (abs_path cs)" "marker_path (abs_path cs) \<noteq> temp_path ''.pending-'' cs i" for i
    using not_temp_path(3) [of cs "''initialized''"] cs by (simp_all add: CI_paths abs_path_inject)
  have same: "?Q r' w'" if "node_at w' = node_at w" for r' and w' :: world
    using that r ci_root_cong [OF that] by (simp add: passcode_kept_def)
  show "?Q (Inl e) w'" if "node_at w' = node_at w" for e and w' :: world using same [OF that] .
  fix w1 :: world
  assume n: "node_at w1 = node_at w" and a: "list_all (\<lambda>p. node_at w p = None) [marker_path (abs_path cs), Join [abs_path cs, ''jobs.sqlite'']]"
  show "post (case rand of Inl e \<Rightarrow> fail e | Inr secret \<Rightarrow> writeAtomic (passcode_path (abs_path cs)) (HexEncode secret) 384) ?Q w1"
  proof (cases rand)
    case (Inr secret)
    have r1: "ci_root cs w1" using r ci_root_cong [OF n] by simp
    have "post (writeAtomic (passcode_path (abs_path cs)) (HexEncode secret) 384) ?Q w1"
      unfolding CI_paths(1) [OF cs]
    proof (rule post_mono [OF writeAtomic_root [OF r1]], simp add: ci_files_def, elim conjE)
      fix r' and w' :: world
      assume p: "atomic_post (abs_path (cs @ [''update.passcode''])) cs (HexEncode secret) 384 w1 r' w'" and "ci_root cs w'"
      moreover have "node_at w' (marker_path (abs_path cs)) = node_at w1 (marker_path (abs_path cs))"
        using p mp by (simp add: atomic_post_def only_changes_def CI_paths [OF cs])
      moreover have "node_at w' (passcode_path (abs_path cs)) = node_at w (passcode_path (abs_path cs)) \<or>
          node_at w' (passcode_path (abs_path cs)) = Some (FileNode (HexEncode secret) 384 0)"
        using p n by (auto simp: atomic_post_def CI_paths [OF cs])
      ultimately show "?Q r' w'" using n a P Inr unfolding passcode_kept_def by auto
    qed
    then show ?thesis using Inr by simp
  next
    case (Inl e)
    then show ?thesis using same [OF n] by (simp add: wp)
  qed
qed

lemma passcode_kept_trans:
  assumes "passcode_kept rand cs w w1" "node_at w' (passcode_path (abs_path cs)) = node_at w1 (passcode_path (abs_path cs))"
  shows "passcode_kept rand cs w w'"
  using assms by (simp add: passcode_kept_def)

lemma marker_after_trans:
  assumes "node_at w1 (marker_path (abs_path cs)) = node_at w (marker_path (abs_path cs))" "marker_after cs w1 w'"
  shows "marker_after cs w w'"
  using assms by (simp add: marker_after_def)

lemma updatePasscode_post:
  assumes r: "ci_root cs w"
  shows "post (updatePasscode rand (abs_path cs)) (\<lambda>r w'. passcode_kept rand cs w w' \<and> marker_after cs w w' \<and>
       (case r of Inl e \<Rightarrow> True | Inr s \<Rightarrow> is_passcode s \<and> node_at w' (passcode_path (abs_path cs)) \<noteq> None)) w" (is "post _ ?Q w")
proof -
  let ?P = "passcode_path (abs_path cs)"
  let ?rest = "tryE (readPasscode (abs_path cs)) (\<lambda>passcode. tryE (check_marker (abs_path cs)) (\<lambda>_. ret passcode))"
  have rest: "post ?rest ?Q w1"
    if w1: "ci_root cs w1" "passcode_kept rand cs w w1" "node_at w1 (marker_path (abs_path cs)) = node_at w (marker_path (abs_path cs))" for w1
    by (rule post_mono [OF passcode_rest [OF w1(1)]], elim conjE, intro conjI, erule passcode_kept_trans [OF w1(2)],
        erule marker_after_trans [OF w1(3)])
  have same: "ci_root cs w1" "passcode_kept rand cs w w1" "marker_after cs w w1" if "node_at w1 = node_at w" for w1 :: world
    using that r ci_root_cong [OF that] by (simp_all add: passcode_kept_def marker_after_def)
  show ?thesis
    unfolding updatePasscode_def Let_def
  proof (rule attI, rule post_Lstat)
    fix e and w1 :: world assume n: "node_at w1 = node_at w" and a: "errIsNotExist e \<longrightarrow> node_at w ?P = None"
    have "post (tryE (create_passcode rand (abs_path cs)) (\<lambda>_. ?rest)) ?Q w1" if P: "node_at w ?P = None"
    proof (rule tryI, rule post_mono [OF create_passcode_post], rule same(1) [OF n], simp add: n P, elim conjE)
      fix r' and w' :: world
      assume h: "passcode_kept rand cs w1 w'" "ci_root cs w'" "node_at w' (marker_path (abs_path cs)) = node_at w1 (marker_path (abs_path cs))"
      have k: "passcode_kept rand cs w w'" using h(1) n by (simp add: passcode_kept_def)
      then show "case r' of Inl e \<Rightarrow> ?Q (Inl e) w' | Inr _ \<Rightarrow> post ?rest ?Q w'"
        using rest [OF h(2) k] h(3) n by (simp add: marker_after_def split: sum.split)
    qed
    then show "post (case Inl e of Inl e \<Rightarrow> if errIsNotExist e then tryE (create_passcode rand (abs_path cs)) (\<lambda>_. ?rest) else fail e | Inr n \<Rightarrow> ?rest) ?Q w1"
      using a same [OF n] by (simp add: wp)
  next
    fix x and w1 :: world assume n: "node_at w1 = node_at w"
    show "post (case Inr x of Inl e \<Rightarrow> if errIsNotExist e then tryE (create_passcode rand (abs_path cs)) (\<lambda>_. ?rest) else fail e | Inr n \<Rightarrow> ?rest) ?Q w1"
      using rest [OF same(1) [OF n] same(2) [OF n]] n by simp
  qed
qed

text \<open>
  C17. The update passcode is never replaced or damaged: for every sequence of failing calls,
  \<open>updatePasscode\<close> leaves the file as it was, or creates it with the complete random secret
  (mode 0600) in a root that has neither passcode nor marker nor database. The marker is only
  written when the passcode is in place, and a passcode that is returned is 64 hexadecimal
  digits and is on disk.
\<close>
theorem passcode_never_replaced:
  assumes "ci_root cs w" and "updatePasscode rand (abs_path cs) w = (r, w')"
  shows "(node_at w' (passcode_path (abs_path cs)) = node_at w (passcode_path (abs_path cs)) \<or>
      node_at w (passcode_path (abs_path cs)) = None \<and> node_at w (marker_path (abs_path cs)) = None \<and>
      node_at w (Join [abs_path cs, ''jobs.sqlite'']) = None \<and>
      (\<exists>secret. rand = Inr secret \<and> node_at w' (passcode_path (abs_path cs)) = Some (FileNode (HexEncode secret) 384 0))) \<and>
    (node_at w' (marker_path (abs_path cs)) = node_at w (marker_path (abs_path cs)) \<or> node_at w' (passcode_path (abs_path cs)) \<noteq> None) \<and>
    (\<forall>s. r = Inr s \<longrightarrow> length s = 64 \<and> HexDecode s \<noteq> None \<and> node_at w' (passcode_path (abs_path cs)) \<noteq> None)"
  using postD [OF updatePasscode_post [OF assms(1), of rand] assms(2)]
  unfolding passcode_kept_def marker_after_def is_passcode_def by auto

lemma node_at_dom: "leaf p w" if "list_all (\<lambda>kv. fst kv = p \<or> \<not> inside p (fst kv)) (files w)"
  using that by (force simp: leaf_def node_at_def map_of_eq_None_iff list_all_iff)

text \<open>A root with a marker and no passcode: the server refuses to start and creates nothing.\<close>

definition damaged_root :: world where
  "damaged_root = \<lparr>files = [(''/srv'', DirNode 448 0), (''/srv/initialized'', FileNode [CHR ''1'', CHR 0x0A] 384 0)], faults = [], now = 0, fresh = 0\<rparr>"

lemma damaged_root_ok: "ci_root [''srv''] damaged_root"
proof -
  have f: "files damaged_root = [(abs_path [''srv''], DirNode 448 0), (abs_path [''srv'', ''initialized''], FileNode [CHR ''1'', CHR 0x0A] 384 0)]"
    by (simp add: damaged_root_def abs_path_def render_def)
  have s: "safe_component ''srv''" by (simp add: safe_component_def)
  have t: "safe_component (''.pending-'' @ FormatUint i)" "''.pending-'' @ FormatUint i \<noteq> ''initialized''" for i
    by (rule pending_safe) simp
  have "leaf (abs_path [''srv'', c]) damaged_root" if c: "safe_component c" for c
    by (rule node_at_dom) (use c s in \<open>auto simp: f inside_abs_path abs_path_inject\<close>)
  then show ?thesis using s t by (simp add: ci_root_def ci_files_def temp_path_def)
qed

theorem passcode_never_replaced_witness:
  "\<exists>e w'. updatePasscode (Inr (replicate 32 (CHR ''k''))) ''/srv'' damaged_root = (Inl (Opaque e), w') \<and> node_at w' ''/srv/update.passcode'' = None"
proof -
  have p: "abs_path [''srv''] = ''/srv''" "passcode_path ''/srv'' = ''/srv/update.passcode''" "marker_path ''/srv'' = ''/srv/initialized''"
    by code_simp+
  obtain e w' where e: "updatePasscode (Inr (replicate 32 (CHR ''k''))) ''/srv'' damaged_root = (Inl (Opaque e), w')"
    by (simp add: updatePasscode_def attempt_def Lstat_def syscall_def syscall_with_def next_fault_def damaged_root_def p node_at_def
        tryE_def create_passcode_def fail_def Errors.errIsNotExist_def)
  have "node_at damaged_root ''/srv/initialized'' \<noteq> None" "node_at damaged_root ''/srv/update.passcode'' = None"
    by (simp_all add: node_at_def damaged_root_def)
  then show ?thesis
    using passcode_never_replaced [OF damaged_root_ok, unfolded p, OF e] e by auto
qed

subsection \<open>Atomic writes and the executable\<close>

text \<open>
  C19. \<open>writeAtomic\<close> is atomic: whatever calls fail, the file has its old or its complete new
  content, the new one if the call succeeds, and no other file changes but the temporary one.
\<close>
theorem write_is_atomic:
  assumes "list_all safe_component (cs @ [c])" "\<not> HasPrefix c ''.pending-''"
    and "leaf (abs_path (cs @ [c])) w" "\<And>i. leaf (temp_path ''.pending-'' cs i) w"
    and "writeAtomic (abs_path (cs @ [c])) data mode w = (r, w')"
  shows "(node_at w' (abs_path (cs @ [c])) = node_at w (abs_path (cs @ [c])) \<or> node_at w' (abs_path (cs @ [c])) = Some (FileNode data mode 0)) \<and>
    (r = Inr () \<longrightarrow> node_at w' (abs_path (cs @ [c])) = Some (FileNode data mode 0)) \<and>
    (\<forall>p. p \<noteq> abs_path (cs @ [c]) \<and> (\<forall>i. p \<noteq> temp_path ''.pending-'' cs i) \<longrightarrow> node_at w' p = node_at w p)"
  using postD [OF writeAtomic_post [OF assms(1-4)] assms(5)]
  unfolding atomic_post_def only_changes_def by blast

theorem write_is_atomic_witness:
  "\<exists>w'. snd (writeAtomic ''/srv/initialized'' ''x'' 384 damaged_root) = w' \<and>
     (node_at w' ''/srv/initialized'' = Some (FileNode [CHR ''1'', CHR 0x0A] 384 0) \<or> node_at w' ''/srv/initialized'' = Some (FileNode ''x'' 384 0))"
proof -
  have p: "abs_path ([''srv''] @ [''initialized'']) = ''/srv/initialized''" by code_simp
  have s: "list_all safe_component ([''srv''] @ [''initialized''])" by (simp add: safe_component_def)
  have l: "leaf (abs_path ([''srv''] @ [''initialized''])) damaged_root" "leaf (temp_path ''.pending-'' [''srv''] i) damaged_root" for i
    using damaged_root_ok by (simp_all add: ci_root_def ci_files_def)
  have n: "node_at damaged_root ''/srv/initialized'' = Some (FileNode [CHR ''1'', CHR 0x0A] 384 0)"
    by (simp add: node_at_def damaged_root_def)
  obtain r w' where e: "writeAtomic ''/srv/initialized'' ''x'' 384 damaged_root = (r, w')" by fastforce
  show ?thesis
    using write_is_atomic [OF s CI_names_safe(5) l, of "''x''" 384, unfolded p, OF e] n e by auto
qed

definition new_or_old :: "string \<Rightarrow> string \<Rightarrow> node \<Rightarrow> node \<Rightarrow> goerr + unit \<Rightarrow> world \<Rightarrow> bool" where
  "new_or_old exe backup old new r w' \<longleftrightarrow>
     (node_at w' exe = Some old \<and> r \<noteq> Inr () \<or> node_at w' exe = Some new \<and> node_at w' backup = Some old)"

lemma restore_post:
  assumes "node_at w exe = Some (FileNode c1 m1 u1)" "node_at w backup = Some (FileNode c m u)" "leaf backup w" "leaf exe w"
    "\<not> inside backup exe" "\<not> inside exe backup"
  shows "post (restore_executable backup exe err) (new_or_old exe backup (FileNode c m u) (FileNode c1 m1 u1)) w"
proof -
  let ?Q = "new_or_old exe backup (FileNode c m u) (FileNode c1 m1 u1)"
  have k: "post (attempt (syncDirectory (Dir exe)) (\<lambda>r2. fail (JoinErr (err # somes [res_err r1, res_err r2])))) ?Q w1"
    if "?Q (Inl err) w1" for r1 :: "goerr + unit" and w1
    by (rule att_reads [OF reads_syncDirectory]) (use that in \<open>simp add: wp new_or_old_def\<close>)
  show ?thesis
    unfolding restore_executable_def
    by (rule attI, rule post_Rename_file [OF assms(2,3,4,5,6)]; rule k) (use assms in \<open>auto simp: new_or_old_def\<close>)
qed

lemma replace_linked_post:
  assumes E: "node_at w exe = Some (FileNode c m u)" and C: "node_at w cand = Some (FileNode c1 m1 u1)"
    and l: "leaf backup w" "leaf exe w" "leaf cand w"
    and d: "\<not> inside backup exe" "\<not> inside exe backup" "\<not> inside cand exe" "\<not> inside exe cand" "\<not> inside cand backup" "\<not> inside backup cand"
  shows "post (replace_linked exec cand exe backup) (new_or_old exe backup (FileNode c m u) (FileNode c1 m1 u1)) w"
proof -
  let ?Q = "new_or_old exe backup (FileNode c m u) (FileNode c1 m1 u1)"
  have ne: "exe \<noteq> backup" "cand \<noteq> exe" "cand \<noteq> backup" using d by auto
  show ?thesis
    unfolding replace_linked_def
  proof (rule tryI, rule post_Link)
    fix n and w1 :: world
    assume n: "node_at w exe = Some n" "node_at w backup = None" and w1: "node_at w1 = (node_at w)(backup \<mapsto> n)"
    have n1: "node_at w1 exe = Some (FileNode c m u)" "node_at w1 backup = Some (FileNode c m u)" "node_at w1 cand = Some (FileNode c1 m1 u1)"
      using w1 n E C ne by auto
    have l1: "leaf backup w1" "leaf exe w1" "leaf cand w1"
      using leaf_upd [OF l(1) w1] leaf_upd [OF l(2) w1] leaf_upd [OF l(3) w1] d by auto
    have "post (tryE (Rename cand exe) (\<lambda>_. attempt (syncDirectory (Dir exe)) (\<lambda>r. case r of
          Inl e \<Rightarrow> restore_executable backup exe e
        | Inr _ \<Rightarrow> keep_open [''socket'', ''lock''] (restore_executable backup exe)
            (case exec of None \<Rightarrow> ret () | Some e \<Rightarrow> restore_executable backup exe e)))) ?Q w1"
    proof (rule try_Rename_file [OF n1(3) l1(3,2) d(3,4)])
      show "?Q (Inl e) w2" if "node_at w2 = node_at w1" for e and w2 :: world using that n1 by (simp add: new_or_old_def)
      fix w2 :: world assume w2: "node_at w2 = (node_at w1)(cand := None, exe \<mapsto> FileNode c1 m1 u1)"
      have n2: "node_at w2 exe = Some (FileNode c1 m1 u1)" "node_at w2 backup = Some (FileNode c m u)" using w2 n1 ne by auto
      have l2: "leaf backup w2" "leaf exe w2" using l1 w2 d by (auto simp: leaf_def)
      have res: "post (restore_executable backup exe e) ?Q w3" if "node_at w3 = node_at w2" for e and w3 :: world
        by (rule restore_post) (use that n2 l2 d leaf_cong [OF that] in auto)
      have fin: "post (case exec of None \<Rightarrow> ret () | Some e \<Rightarrow> restore_executable backup exe e) ?Q w3" if "node_at w3 = node_at w2" for w3 :: world
        using res [OF that] that n2 by (auto simp: wp new_or_old_def split: option.split)
      have ko: "post (keep_open fds (restore_executable backup exe) (case exec of None \<Rightarrow> ret () | Some e \<Rightarrow> restore_executable backup exe e)) ?Q w3"
        if "node_at w3 = node_at w2" for fds and w3 :: world
        using that
      proof (induction fds arbitrary: w3)
        case (Cons fd fds)
        have st: "?Q r w5" if "?Q r w4" "node_at w5 = node_at w4" for r and w4 w5 :: world using that by (simp add: new_or_old_def)
        show ?case
          by (simp only: keep_open.simps, rule att_reads, simp)
            (use Cons res st in \<open>auto intro!: deferred_reads split: sum.split\<close>)
      qed (simp only: keep_open.simps fin)
      show "post (attempt (syncDirectory (Dir exe)) (\<lambda>r. case r of
          Inl e \<Rightarrow> restore_executable backup exe e
        | Inr _ \<Rightarrow> keep_open [''socket'', ''lock''] (restore_executable backup exe)
            (case exec of None \<Rightarrow> ret () | Some e \<Rightarrow> restore_executable backup exe e))) ?Q w2"
        by (rule att_reads [OF reads_syncDirectory]) (simp only: res ko split: sum.split, blast)
    qed
    then show "case Inr () of Inl e \<Rightarrow> ?Q (Inl e) w1 | Inr a \<Rightarrow> post (tryE (Rename cand exe) (\<lambda>_. attempt (syncDirectory (Dir exe)) (\<lambda>r. case r of
          Inl e \<Rightarrow> restore_executable backup exe e
        | Inr _ \<Rightarrow> keep_open [''socket'', ''lock''] (restore_executable backup exe)
            (case exec of None \<Rightarrow> ret () | Some e \<Rightarrow> restore_executable backup exe e)))) ?Q w1" by (simp only: sum.case)
  qed (simp add: new_or_old_def E)
qed

text \<open>
  C18. Replacing the executable never loses it: whatever calls fail, the executable is the old
  one, or the new one with the old one kept as \<open>.previous\<close>; and the new one runs only when
  it is in place.
\<close>
theorem executable_never_lost:
  assumes "list_all safe_component cs" "safe_component c" "safe_component d" "d \<noteq> c" "d \<noteq> c @ ''.previous''"
    and "node_at w (abs_path (cs @ [c])) = Some (FileNode old m u)" "node_at w (abs_path (cs @ [d])) = Some (FileNode new m1 u1)"
    and "leaf (abs_path (cs @ [c])) w" "leaf (abs_path (cs @ [d])) w" "leaf (abs_path (cs @ [c]) @ ''.previous'') w"
    and "replaceProcess exec (abs_path (cs @ [d])) (abs_path (cs @ [c])) w = (r, w')"
  shows "(node_at w' (abs_path (cs @ [c])) = Some (FileNode old m u) \<and> r \<noteq> Inr ()) \<or>
    (node_at w' (abs_path (cs @ [c])) = Some (FileNode new m1 u1) \<and> node_at w' (abs_path (cs @ [c]) @ ''.previous'') = Some (FileNode old m u))"
proof -
  let ?exe = "abs_path (cs @ [c])" and ?cand = "abs_path (cs @ [d])" and ?b = "abs_path (cs @ [c]) @ ''.previous''"
  have b: "?b = abs_path (cs @ [c @ ''.previous''])" by (simp add: abs_path_snoc)
  have sc: "safe_component (c @ ''.previous'')" using assms(2) by (auto simp: safe_component_def)
  have ap: "\<not> inside (abs_path (cs @ [x])) (abs_path (cs @ [y]))" if "safe_component x" "safe_component y" "x \<noteq> y" for x y
    using siblings [of cs x y] that assms(1) by simp
  have d: "\<not> inside ?b ?exe" "\<not> inside ?exe ?b" "\<not> inside ?cand ?exe" "\<not> inside ?exe ?cand" "\<not> inside ?cand ?b" "\<not> inside ?b ?cand"
    unfolding b using assms(2-5) sc by (simp_all add: ap)
  have ne: "?exe \<noteq> ?b" "?cand \<noteq> ?b" using d by auto
  have link: "post (replace_linked exec ?cand ?exe ?b) (new_or_old ?exe ?b (FileNode old m u) (FileNode new m1 u1)) w1"
    if "node_at w1 = (node_at w)(?b := x)" for x and w1 :: world
  proof (rule replace_linked_post)
    have "leaf p w1" if "leaf p w" "\<not> inside p ?b \<or> p = ?b" for p
      using that \<open>node_at w1 = _\<close> by (auto simp: leaf_def)
    then show "leaf ?b w1" "leaf ?exe w1" "leaf ?cand w1" using assms(8-10) d by auto
  qed (use that assms(6,7) ne d in auto)
  have "post (replaceProcess exec ?cand ?exe) (new_or_old ?exe ?b (FileNode old m u) (FileNode new m1 u1)) w"
    unfolding replaceProcess_def Let_def
  proof (rule attI, rule post_Remove)
    fix e and w1 :: world assume n: "node_at w1 = node_at w"
    then have "node_at w1 = (node_at w)(?b := node_at w ?b)" by simp
    from link [OF this] show "post (case Inl e of Inl e \<Rightarrow> if \<not> errIsNotExist e then fail e else replace_linked exec ?cand ?exe ?b
        | Inr _ \<Rightarrow> replace_linked exec ?cand ?exe ?b) (new_or_old ?exe ?b (FileNode old m u) (FileNode new m1 u1)) w1"
      using n assms(6) by (auto simp: wp new_or_old_def)
  qed (simp only: sum.case, rule link)
  from postD [OF this assms(11)] show ?thesis unfolding new_or_old_def by blast
qed

definition update_world :: world where
  "update_world = \<lparr>files = [(''/srv'', DirNode 493 0), (''/srv/ci'', FileNode ''old'' 493 0), (''/srv/up'', FileNode ''new'' 493 0)],
     faults = [Works, Works, Works, Fail EIO 0], now = 0, fresh = 0\<rparr>"

theorem executable_never_lost_witness:
  "case replaceProcess None ''/srv/up'' ''/srv/ci'' update_world of (r, w') \<Rightarrow>
     node_at w' ''/srv/ci'' = Some (FileNode ''old'' 493 0) \<or>
     node_at w' ''/srv/ci'' = Some (FileNode ''new'' 493 0) \<and> node_at w' ''/srv/ci.previous'' = Some (FileNode ''old'' 493 0)"
proof -
  have p: "abs_path ([''srv''] @ [''ci'']) = ''/srv/ci''" "abs_path ([''srv''] @ [''up'']) = ''/srv/up''" by code_simp+
  have b: "''/srv/ci'' @ ''.previous'' = ''/srv/ci.previous''" by simp
  have s: "list_all safe_component [''srv'']" "safe_component ''ci''" "safe_component ''up''" by (simp_all add: safe_component_def)
  have n: "node_at update_world ''/srv/ci'' = Some (FileNode ''old'' 493 0)" "node_at update_world ''/srv/up'' = Some (FileNode ''new'' 493 0)"
    by (simp_all add: node_at_def update_world_def)
  have l: "leaf ''/srv/ci'' update_world" "leaf ''/srv/up'' update_world" "leaf ''/srv/ci.previous'' update_world"
    by (rule node_at_dom, simp add: update_world_def inside_def HasPrefix_def)+
  obtain r w' where e: "replaceProcess None ''/srv/up'' ''/srv/ci'' update_world = (r, w')" by fastforce
  show ?thesis
    using executable_never_lost [OF s, unfolded p b, OF _ _ n l e] e by auto
qed

subsection \<open>Logs\<close>

definition no_faults :: "world \<Rightarrow> bool" where
  "no_faults w \<longleftrightarrow> list_all (\<lambda>f. f = Works) (faults w)"

lemma next_fault_works:
  "no_faults w \<Longrightarrow> \<exists>w'. next_fault w = (Works, w') \<and> files w' = files w \<and> no_faults w'"
  by (cases "faults w") (auto simp: next_fault_def no_faults_def)

lemma FWrite_works:
  assumes "no_faults w" "node_at w p = Some (FileNode c m u)"
  shows "\<exists>w'. FWrite p d w = (Inr (), w') \<and> no_faults w' \<and> node_at w' = (node_at w)(p \<mapsto> FileNode (c @ d) m u)"
proof -
  obtain w1 where w1: "next_fault w = (Works, w1)" "files w1 = files w" "no_faults w1" using next_fault_works [OF assms(1)] by blast
  have n: "node_at w1 = node_at w" by (rule node_at_ext [OF w1(2)])
  have "no_faults (append_data p d w1)" using w1(3) by (simp add: no_faults_def append_data_def split: option.split node.split)
  then show ?thesis using w1(1) n assms(2) by (simp add: FWrite_def syscall_with_def node_at_append)
qed

text \<open>One write that works: the log grows by what is left of the limit.\<close>

lemma blog_write_works:
  assumes "no_faults w" "node_at w (blog_path l) = Some (FileNode c m u)" "0 \<le> remaining l"
  shows "\<exists>l' w'. blog_write l p w = ((length p, None), l', w') \<and> no_faults w' \<and> blog_path l' = blog_path l \<and>
     remaining l' = remaining l - int (min (length p) (nat (remaining l))) \<and>
     node_at w' = (node_at w)(blog_path l \<mapsto> FileNode (c @ take (nat (remaining l)) p) m u)"
proof -
  let ?q = "if int (length p) > remaining l then take (nat (remaining l)) p else p"
  have q: "?q = take (nat (remaining l)) p" using assms(3) by auto
  obtain w' where "FWrite (blog_path l) (take (nat (remaining l)) p) w = (Inr (), w')" "no_faults w'"
    "node_at w' = (node_at w)(blog_path l \<mapsto> FileNode (c @ take (nat (remaining l)) p) m u)"
    using FWrite_works [OF assms(1,2)] by blast
  then show ?thesis unfolding blog_write_def Let_def q by (simp add: min_def)
qed

lemma blog_writes_works:
  assumes "no_faults w" "node_at w (blog_path l) = Some (FileNode c m u)" "0 \<le> remaining l"
  shows "node_at (snd (blog_writes l ps w)) (blog_path l) = Some (FileNode (c @ take (nat (remaining l)) (concat ps)) m u)"
  using assms
proof (induction ps arbitrary: l c w)
  case (Cons p ps)
  obtain l' w' where s: "blog_write l p w = ((length p, None), l', w')" "no_faults w'" "blog_path l' = blog_path l"
    "remaining l' = remaining l - int (min (length p) (nat (remaining l)))"
    "node_at w' = (node_at w)(blog_path l \<mapsto> FileNode (c @ take (nat (remaining l)) p) m u)"
    using blog_write_works [OF Cons.prems] by blast
  have r: "nat (remaining l') = nat (remaining l) - length p" "0 \<le> remaining l'" using s(4) Cons.prems(3) by auto
  show ?case
    using Cons.IH [OF s(2) _ r(2), of "c @ take (nat (remaining l)) p"] s(1,3,5) r(1) by (simp add: case_prod_unfold)
qed simp

lemma openLog_works:
  assumes "no_faults w" "node_at w p = Some (FileNode c m u)"
  shows "\<exists>w'. openLog p limit w = (Inr \<lparr>blog_path = p, remaining = max 0 (limit - int (length c))\<rparr>, w') \<and> no_faults w' \<and> node_at w' = node_at w"
proof -
  obtain w1 where w1: "next_fault w = (Works, w1)" "files w1 = files w" "no_faults w1" using next_fault_works [OF assms(1)] by blast
  obtain w2 where w2: "next_fault w1 = (Works, w2)" "files w2 = files w1" "no_faults w2" using next_fault_works [OF w1(3)] by blast
  have n: "node_at w1 = node_at w" "node_at w2 = node_at w" using node_at_ext w1(2) w2(2) by metis+
  have "resolve 40 w2 p = Some p" using assms(2) n by (simp add: numeral_eq_Suc)
  then show ?thesis
    using w1 w2 n assms(2) by (simp add: openLog_def tryE_def attempt_def OpenCreate_def Stat_def syscall_def syscall_with_def ret_def)
qed

text \<open>
  C21. A log keeps to its limit: when no call fails, an existing log \<open>c\<close> opened with a limit
  holds after any writes \<open>c\<close> and the first bytes of what was written, up to the limit, and
  every write reports its whole length.
\<close>
theorem log_keeps_limit:
  assumes "no_faults w" "node_at w p = Some (FileNode c m u)" "openLog p limit w = (Inr l, w1)"
  shows "node_at (snd (blog_writes l ps w1)) p = Some (FileNode (c @ take (nat (limit - int (length c))) (concat ps)) m u) \<and>
    (\<forall>q. fst (blog_write l q w1) = (length q, None))"
proof -
  have l: "l = \<lparr>blog_path = p, remaining = max 0 (limit - int (length c))\<rparr>" "no_faults w1" "node_at w1 = node_at w"
    using openLog_works [OF assms(1,2), of limit] assms(3) by auto
  have r: "0 \<le> remaining l" "nat (remaining l) = nat (limit - int (length c))" "blog_path l = p" using l(1) by auto
  have n: "node_at w1 (blog_path l) = Some (FileNode c m u)" using l(3) r(3) assms(2) by simp
  have "fst (blog_write l q w1) = (length q, None)" for q using blog_write_works [OF l(2) n r(1), of q] by auto
  then show ?thesis using blog_writes_works [OF l(2) n r(1), of ps] r(2,3) by simp
qed

definition log_world :: "fault list \<Rightarrow> world" where
  "log_world fs = \<lparr>files = [(''/l'', FileNode ''ab'' 384 0)], faults = fs, now = 0, fresh = 0\<rparr>"

theorem log_keeps_limit_witness:
  "case openLog ''/l'' 5 (log_world []) of (Inl e, w) \<Rightarrow> False
   | (Inr l, w) \<Rightarrow> node_at (snd (blog_writes l [''cd'', ''ef'', ''g''] w)) ''/l'' = Some (FileNode ''abcde'' 384 0)"
proof -
  have w: "no_faults (log_world [])" "node_at (log_world []) ''/l'' = Some (FileNode ''ab'' 384 0)"
    by (simp_all add: no_faults_def log_world_def node_at_def)
  obtain l w1 where o: "openLog ''/l'' 5 (log_world []) = (Inr l, w1)" using openLog_works [OF w, of 5] by auto
  show ?thesis using log_keeps_limit [OF w o, of "[''cd'', ''ef'', ''g'']"] o by simp
qed

lemma blog_write_partial:
  assumes "faults w = Fail e (length p) # fs" "node_at w (blog_path l) = Some (FileNode c m u)" "int (length p) \<le> remaining l"
  shows "\<exists>w' x. blog_write l p w = ((0, Some x), l, w') \<and> faults w' = fs \<and> node_at w' (blog_path l) = Some (FileNode (c @ p) m u)"
proof -
  have "files (w\<lparr>faults := fs, now := Suc (now w)\<rparr>) = files w" by simp
  then have n: "node_at (w\<lparr>faults := fs, now := Suc (now w)\<rparr>) = node_at w" by (rule node_at_ext)
  then show ?thesis using assms
    by (simp add: blog_write_def Let_def FWrite_def syscall_with_def next_fault_def node_at_append)
      (simp add: append_data_def)
qed

text \<open>
  C22. A write that fails after it stored its data does not count against the limit: \<open>k\<close>
  such writes of \<open>p\<close> leave \<open>k\<close> copies in the file and the remaining size as it was, so the
  limit does not bound a log whose writes fail.
\<close>
theorem log_partial_writes:
  assumes "faults w = replicate k (Fail e (length p))" "node_at w (blog_path l) = Some (FileNode c m u)" "int (length p) \<le> remaining l"
  shows "case blog_writes l (replicate k p) w of (l', w') \<Rightarrow>
    l' = l \<and> node_at w' (blog_path l) = Some (FileNode (c @ concat (replicate k p)) m u)"
  using assms
proof (induction k arbitrary: c w)
  case (Suc k)
  obtain w' x where s: "blog_write l p w = ((0, Some x), l, w')" "faults w' = replicate k (Fail e (length p))"
    "node_at w' (blog_path l) = Some (FileNode (c @ p) m u)"
    using blog_write_partial [of w e p "replicate k (Fail e (length p))" l c m u] Suc.prems by auto
  then show ?case using Suc.IH [OF s(2,3) Suc.prems(3)] by (simp add: case_prod_unfold)
qed simp

theorem log_partial_writes_witness:
  "case blog_writes \<lparr>blog_path = ''/l'', remaining = 4\<rparr> (replicate 3 ''wxyz'') (log_world (replicate 3 (Fail EIO 4))) of (l', w') \<Rightarrow>
     remaining l' = 4 \<and> node_at w' ''/l'' = Some (FileNode ''abwxyzwxyzwxyz'' 384 0)"
proof -
  have "faults (log_world (replicate 3 (Fail EIO 4))) = replicate 3 (Fail EIO (length ''wxyz''))"
    "node_at (log_world (replicate 3 (Fail EIO 4))) (blog_path \<lparr>blog_path = ''/l'', remaining = 4\<rparr>) = Some (FileNode ''ab'' 384 0)"
    "int (length ''wxyz'') \<le> remaining \<lparr>blog_path = ''/l'', remaining = 4\<rparr>"
    by (simp_all add: log_world_def node_at_def)
  from log_partial_writes [OF this] show ?thesis by (simp add: numeral_eq_Suc case_prod_unfold)
qed

end
