(* ===== verification/Workspace.thy ===== *)
theory Workspace
  imports Go_World
begin

text \<open>
  \<open>pkg/shared/hostfs\<close>: private directories and the workspaces in which images, bundles and
  runtime state live.

  The operations are those of \<open>defaultFilesystemOps\<close>. Owners of files are numbered relative
  to the process: \<open>0\<close> is its effective user. \<open>SecureJoin\<close> (package \<open>filepath-securejoin\<close>) is a
  parameter; the code relies on it being the lexical join when no component is a symbolic link.
\<close>

subsection \<open>Data\<close>

record FeatureSet =
  PrivateDirs :: bool
  FileFsync :: bool
  DirectoryFsync :: bool
  AtomicFileRename :: bool
  AtomicDirectoryRename :: bool

record hostfs_config =
  cfg_root :: string
  cfg_tmp :: string
  Requirements :: FeatureSet

record workspace =
  ws_root :: string
  ws_tmp :: string
  ws_features :: FeatureSet

text \<open>What the code asks the process environment for.\<close>

record host_env =
  getwd :: "goerr + string"
  temp_dir :: string
  host_euid :: nat

type_synonym secure_join = "string \<Rightarrow> string \<Rightarrow> string io"

definition DefaultTmpRoot :: "host_env \<Rightarrow> string \<Rightarrow> string" where
  "DefaultTmpRoot env name =
     (let root = Join [temp_dir env, ''chamber-'' @ FormatUint (host_euid env)]; name' = TrimSpace name
      in if name' = [] then root else Join [root, name'])"

subsection \<open>Paths\<close>

definition Abs :: "host_env \<Rightarrow> string \<Rightarrow> goerr + string" where
  "Abs env p =
     (if isAbs p then Inr (Clean p)
      else case getwd env of Inl e \<Rightarrow> Inl e | Inr wd \<Rightarrow> Inr (Join [wd, p]))"

definition absolutePath :: "host_env \<Rightarrow> string \<Rightarrow> string \<Rightarrow> goerr + string" where
  "absolutePath env label p =
     (let path = TrimSpace p in
      if path = [] then Inl (codef ErrInvalidRequest (label @ '' is required'') [])
      else case Abs env path of
          Inl e \<Rightarrow> Inl (codef ErrInvalidRequest (''resolve '' @ label) [e])
        | Inr a \<Rightarrow> Inr (Clean a))"

text \<open>\<open>filepath.Rel\<close> on two rooted paths.\<close>

fun strip_common :: "string list \<Rightarrow> string list \<Rightarrow> string list \<times> string list" where
  "strip_common (b # bs) (t # ts) = (if b = t then strip_common bs ts else (b # bs, t # ts))"
| "strip_common bs ts = (bs, ts)"

definition Rel :: "string \<Rightarrow> string \<Rightarrow> goerr + string" where
  "Rel base targ =
     (if isAbs base \<noteq> isAbs targ then Inl (Opaque ''Rel: can't make path relative'')
      else case strip_common (comps base) (comps targ) of
          (bs, ts) \<Rightarrow>
            if isAbs base \<or> ''..'' \<notin> set bs then Inr (render False (map (\<lambda>_. ''..'') bs @ ts))
            else Inl (Opaque ''Rel: can't make path relative''))"

fun is_link :: "node \<Rightarrow> bool" where
  "is_link (LinkNode t) = True"
| "is_link _ = False"

fun reject_links :: "string \<Rightarrow> string list \<Rightarrow> unit io" where
  "reject_links current [] = ret ()"
| "reject_links current (c # cs) =
     (let current' = Join [current, c] in
      attempt (Lstat current') (\<lambda>r.
        case r of
          Inr n \<Rightarrow>
            if is_link n then fail (codef ErrInvalidRequest ''workspace path contains symlink component'' [])
            else reject_links current' cs
        | Inl e \<Rightarrow>
            if errIsNotExist e then ret ()
            else fail (codef ErrFilesystemFailed ''inspect workspace path component'' [e])))"

definition RejectSymlinkComponents :: "string \<Rightarrow> string \<Rightarrow> unit io" where
  "RejectSymlinkComponents root rel =
     (if TrimSpace rel = [] then fail (codef ErrInvalidRequest ''workspace-relative path is required'' [])
      else let cleanRel = Clean rel in
        if isAbs cleanRel \<or> cleanRel = ''..'' \<or> HasPrefix cleanRel ''../''
        then fail (codef ErrInvalidRequest ''workspace-relative path escapes workspace'' [])
        else if cleanRel = ''.'' then ret ()
        else reject_links root (SplitChar (CHR ''/'') cleanRel))"

definition scopedPath :: "secure_join \<Rightarrow> string \<Rightarrow> string \<Rightarrow> string io" where
  "scopedPath SecureJoin root rel =
     tryE (RejectSymlinkComponents root rel) (\<lambda>_.
       wrapped (\<lambda>e. codef ErrInvalidRequest ''resolve workspace-relative path'' [e]) (SecureJoin root (Clean rel)))"

subsection \<open>Private directories\<close>

text \<open>\<open>Mode().Perm() & 0077\<close> are the low six bits of the mode.\<close>

definition privateDirMetadata :: "node \<Rightarrow> goerr option" where
  "privateDirMetadata info =
     (case info of
        DirNode mode uid \<Rightarrow>
          if mode mod 64 \<noteq> 0 then Some (codef ErrInvalidRequest ''path must not be readable, writable, or executable by group or other users'' [])
          else if uid \<noteq> 0 then Some (codef ErrInvalidRequest ''private directory must be owned by the current user'' [])
          else None
      | _ \<Rightarrow> Some (codef ErrInvalidRequest ''is not a directory'' []))"

definition lift_err :: "goerr option \<Rightarrow> unit io" where
  "lift_err e = (case e of None \<Rightarrow> ret () | Some x \<Rightarrow> fail x)"

definition directory_checked :: "bool \<Rightarrow> node \<Rightarrow> bool io" where
  "directory_checked requirePrivate info =
     (if \<not> is_dir (Some info) then fail (codef ErrInvalidRequest ''is not a directory'' [])
      else case privateDirMetadata info of
          None \<Rightarrow> ret True
        | Some e \<Rightarrow> if requirePrivate then fail e else ret False)"

definition createDirectory :: "string \<Rightarrow> string \<Rightarrow> bool \<Rightarrow> bool io" where
  "createDirectory path label requirePrivate =
     attempt (Stat path) (\<lambda>r.
       case r of
         Inr info \<Rightarrow> directory_checked requirePrivate info
       | Inl err \<Rightarrow>
           if errIsNotExist err then
             tryE (wrapped (\<lambda>e. codef ErrFilesystemFailed (''create '' @ label) [e]) (MkdirAll path 448 0)) (\<lambda>_.
             tryE (wrapped (\<lambda>e. codef ErrFilesystemFailed (''read '' @ label @ '' metadata'') [e]) (Stat path))
               (directory_checked requirePrivate))
           else fail (codef ErrFilesystemFailed (''read '' @ label @ '' metadata'') [err]))"

definition lift_sum :: "goerr + 'a \<Rightarrow> 'a io" where
  "lift_sum r = (case r of Inl e \<Rightarrow> fail e | Inr a \<Rightarrow> ret a)"

definition CheckPrivateDirectory :: "host_env \<Rightarrow> string \<Rightarrow> unit io" where
  "CheckPrivateDirectory env p =
     tryE (lift_sum (absolutePath env ''private directory'' p)) (\<lambda>path.
     tryE (lift_sum (Rel ''/'' path)) (\<lambda>rel.
     tryE (RejectSymlinkComponents ''/'' rel) (\<lambda>_.
     tryE (Stat path) (\<lambda>info. lift_err (privateDirMetadata info)))))"

definition CreatePrivateDirectory :: "host_env \<Rightarrow> string \<Rightarrow> unit io" where
  "CreatePrivateDirectory env p =
     tryE (lift_sum (absolutePath env ''private directory'' p)) (\<lambda>path.
     attempt (CheckPrivateDirectory env path) (\<lambda>r.
       case r of
         Inr _ \<Rightarrow> ret ()
       | Inl e \<Rightarrow>
           if \<not> errIsNotExist e then fail e
           else tryE (createDirectory path ''private directory'' True) (\<lambda>_. ret ())))"

subsection \<open>Workspace operations\<close>

definition requireReady :: "workspace option \<Rightarrow> goerr option" where
  "requireReady w =
     (case w of
        None \<Rightarrow> Some (codef ErrInvalidRequest ''host filesystem workspace is not initialized'' [])
      | Some ws \<Rightarrow>
          if TrimSpace (ws_root ws) = [] \<or> TrimSpace (ws_tmp ws) = []
          then Some (codef ErrInvalidRequest ''host filesystem workspace is not initialized'' []) else None)"

text \<open>A nil workspace has the empty root, which \<open>requireReady\<close> has rejected before.\<close>

definition rootPath :: "secure_join \<Rightarrow> workspace option \<Rightarrow> string \<Rightarrow> string io" where
  "rootPath SJ w rel = scopedPath SJ (case w of None \<Rightarrow> [] | Some ws \<Rightarrow> ws_root ws) rel"

definition tmpPath :: "secure_join \<Rightarrow> workspace option \<Rightarrow> string \<Rightarrow> string io" where
  "tmpPath SJ w rel = scopedPath SJ (case w of None \<Rightarrow> [] | Some ws \<Rightarrow> ws_tmp ws) rel"

definition MkdirPrivate :: "secure_join \<Rightarrow> workspace option \<Rightarrow> string \<Rightarrow> string io" where
  "MkdirPrivate SJ w relDir =
     tryE (lift_err (requireReady w)) (\<lambda>_.
     tryE (rootPath SJ w relDir) (\<lambda>path.
     tryE (createDirectory path ''private directory'' True) (\<lambda>_. ret path)))"

definition errIsExist :: "goerr \<Rightarrow> bool" where
  "errIsExist e \<longleftrightarrow> err_any (\<lambda>x. case x of SysErr n _ \<Rightarrow> n = EEXIST \<or> n = ENOTEMPTY | _ \<Rightarrow> False) e"

definition CreatePrivate :: "secure_join \<Rightarrow> workspace option \<Rightarrow> string \<Rightarrow> string io" where
  "CreatePrivate SJ w rel =
     tryE (lift_err (requireReady w)) (\<lambda>_.
     tryE (rootPath SJ w rel) (\<lambda>path.
     if Base path = ''.'' then fail (codef ErrInvalidRequest ''private file path is required'' [])
     else
       tryE (wrapped (\<lambda>e. codef ErrInvalidRequest ''resolve private file parent'' [e])
           (lift_sum (Rel (case w of None \<Rightarrow> [] | Some ws \<Rightarrow> ws_root ws) (Dir path)))) (\<lambda>parentRel.
       tryE (MkdirPrivate SJ w parentRel) (\<lambda>_.
       attempt (OpenCreate True path 384 0) (\<lambda>r.
         case r of
           Inr _ \<Rightarrow> ret path
         | Inl e \<Rightarrow>
             if errIsExist e then fail (codef ErrInvalidRequest ''create private file: already exists'' [])
             else fail (codef ErrFilesystemFailed ''create private file'' [e]))))))"

definition ws_MkdirTemp :: "secure_join \<Rightarrow> workspace option \<Rightarrow> string \<Rightarrow> string \<Rightarrow> string io" where
  "ws_MkdirTemp SJ w relDir pattern =
     tryE (lift_err (requireReady w)) (\<lambda>_.
     tryE (tmpPath SJ w relDir) (\<lambda>parent.
     tryE (createDirectory parent ''temporary directory parent'' True) (\<lambda>_.
       wrapped (\<lambda>e. codef ErrFilesystemFailed ''create temporary directory'' [e]) (MkdirTemp parent pattern))))"

definition ws_CreateTemp :: "secure_join \<Rightarrow> workspace option \<Rightarrow> string \<Rightarrow> string \<Rightarrow> string io" where
  "ws_CreateTemp SJ w relDir pattern =
     tryE (lift_err (requireReady w)) (\<lambda>_.
     tryE (tmpPath SJ w relDir) (\<lambda>parent.
     tryE (createDirectory parent ''temporary file parent'' True) (\<lambda>_.
       wrapped (\<lambda>e. codef ErrFilesystemFailed ''create temporary file'' [e]) (CreateTemp parent pattern))))"

subsection \<open>Feature probes\<close>

text \<open>Only the outcome of a call counts: \<open>err == nil\<close>.\<close>

definition succeeded :: "goerr + 'a \<Rightarrow> bool" where
  "succeeded r = (case r of Inl e \<Rightarrow> False | Inr _ \<Rightarrow> True)"

definition probeFileFsync :: "string \<Rightarrow> bool io" where
  "probeFileFsync parent =
     (let path = Join [parent, ''fsync-file'']; close_failed = attempt (Effectless path) (\<lambda>_. ret False) in
      attempt (OpenCreate True path 384 0) (\<lambda>r.
        if \<not> succeeded r then ret False
        else deferred (Remove path)
          (attempt (FWrite path ''probe'') (\<lambda>r. if \<not> succeeded r then close_failed else
           attempt (Effectless path) (\<lambda>r. if \<not> succeeded r then close_failed else
           attempt (Effectless path) (\<lambda>r. ret (succeeded r)))))))"

definition probeRenameFile :: "string \<Rightarrow> string \<Rightarrow> bool io" where
  "probeRenameFile srcParent dstParent =
     attempt (CreateTemp srcParent ''.hostfs-file-src-'') (\<lambda>r.
       case r of
         Inl e \<Rightarrow> ret False
       | Inr srcPath \<Rightarrow>
           let dstPath = Join [dstParent, ''.hostfs-file-dst-'' @ Base srcPath] in
           deferred (Remove srcPath) (deferred (Remove dstPath)
             (attempt (FWrite srcPath ''probe'') (\<lambda>r. if \<not> succeeded r then attempt (Effectless srcPath) (\<lambda>_. ret False) else
              attempt (Effectless srcPath) (\<lambda>r. if \<not> succeeded r then ret False else
              attempt (Rename srcPath dstPath) (\<lambda>r. ret (succeeded r)))))))"

definition probeRenameDirectory :: "string \<Rightarrow> string \<Rightarrow> bool io" where
  "probeRenameDirectory srcParent dstParent =
     attempt (MkdirTemp srcParent ''.hostfs-dir-src-'') (\<lambda>r.
       case r of
         Inl e \<Rightarrow> ret False
       | Inr srcPath \<Rightarrow>
           let dstPath = Join [dstParent, ''.hostfs-dir-dst-'' @ Base srcPath] in
           deferred (RemoveAll srcPath) (deferred (RemoveAll dstPath)
             (attempt (Rename srcPath dstPath) (\<lambda>r. ret (succeeded r)))))"

text \<open>\<open>a && b && c\<close> of probes, which run in order until one fails.\<close>

fun all_probes :: "bool io list \<Rightarrow> bool io" where
  "all_probes [] = ret True"
| "all_probes (p # ps) = tryE p (\<lambda>b. if b then all_probes ps else ret False)"

definition probeFileRename :: "string \<Rightarrow> string \<Rightarrow> bool io" where
  "probeFileRename rootProbe tmpRoot =
     all_probes [probeRenameFile rootProbe rootProbe, probeRenameFile tmpRoot tmpRoot, probeRenameFile tmpRoot rootProbe]"

definition probeDirectoryRename :: "string \<Rightarrow> string \<Rightarrow> bool io" where
  "probeDirectoryRename rootProbe tmpRoot =
     all_probes [probeRenameDirectory rootProbe rootProbe, probeRenameDirectory tmpRoot tmpRoot, probeRenameDirectory tmpRoot rootProbe]"

definition errDirectorySyncUnsupported :: goerr where
  "errDirectorySyncUnsupported = Opaque ''directory sync unsupported''"

definition hostfs_syncDirectory :: "string \<Rightarrow> unit io" where
  "hostfs_syncDirectory path =
     tryE (wrapped (wrapf ''open directory'') (OpenRead path)) (\<lambda>_.
     deferred (Effectless path)
       (wrapped (\<lambda>e. if err_any (\<lambda>x. case x of SysErr n _ \<Rightarrow> n \<in> {EINVAL, ENOTSUP, EISDIR} | _ \<Rightarrow> False) e
            then errDirectorySyncUnsupported else wrapf ''sync directory'' e)
          (Effectless path)))"

definition probeFeatures :: "string \<Rightarrow> string \<Rightarrow> bool \<Rightarrow> FeatureSet io" where
  "probeFeatures root tmpRoot privateDirs =
     tryE (wrapped (\<lambda>e. codef ErrFilesystemFailed ''create host filesystem probe directory'' [e]) (MkdirTemp root ''.hostfs-probe-'')) (\<lambda>probeRoot.
     deferred (RemoveAll probeRoot)
       (tryE (probeFileFsync probeRoot) (\<lambda>fsync.
        tryE (probeFileRename probeRoot tmpRoot) (\<lambda>fileRename.
        tryE (probeDirectoryRename probeRoot tmpRoot) (\<lambda>dirRename.
        let features = \<lparr>PrivateDirs = privateDirs, FileFsync = fsync, DirectoryFsync = False,
              AtomicFileRename = fileRename, AtomicDirectoryRename = dirRename\<rparr> in
        attempt (hostfs_syncDirectory probeRoot) (\<lambda>r.
          case r of
            Inr _ \<Rightarrow> ret (features\<lparr>DirectoryFsync := True\<rparr>)
          | Inl e \<Rightarrow>
              if err_any (\<lambda>x. x = errDirectorySyncUnsupported) e then ret features
              else fail (codef ErrFilesystemFailed ''probe directory fsync'' [e])))))))"

definition requireFeatures :: "FeatureSet \<Rightarrow> FeatureSet \<Rightarrow> goerr option" where
  "requireFeatures required observed =
     (let missing = (\<lambda>what. Some (codef ErrFilesystemFailed (''host filesystem does not provide required '' @ what @ '' support'') [])) in
      if PrivateDirs required \<and> \<not> PrivateDirs observed then missing ''private directory''
      else if FileFsync required \<and> \<not> FileFsync observed then missing ''file fsync''
      else if DirectoryFsync required \<and> \<not> DirectoryFsync observed then missing ''directory fsync''
      else if AtomicFileRename required \<and> \<not> AtomicFileRename observed then missing ''atomic file rename''
      else if AtomicDirectoryRename required \<and> \<not> AtomicDirectoryRename observed then missing ''atomic directory rename''
      else None)"

definition newWorkspace :: "host_env \<Rightarrow> hostfs_config \<Rightarrow> workspace io" where
  "newWorkspace env config =
     tryE (lift_sum (absolutePath env ''workspace root'' (cfg_root config))) (\<lambda>root.
     let tmp = TrimSpace (cfg_tmp config); tmp' = (if tmp = [] then DefaultTmpRoot env [] else tmp) in
     tryE (lift_sum (absolutePath env ''workspace temporary root'' tmp')) (\<lambda>tmpRoot.
     tryE (createDirectory root ''workspace root'' (PrivateDirs (Requirements config))) (\<lambda>rootPrivate.
     tryE (createDirectory tmpRoot ''workspace temporary root'' (PrivateDirs (Requirements config))) (\<lambda>tmpPrivate.
     tryE (probeFeatures root tmpRoot (rootPrivate \<and> tmpPrivate)) (\<lambda>features.
     tryE (lift_err (requireFeatures (Requirements config) features)) (\<lambda>_.
       ret \<lparr>ws_root = root, ws_tmp = tmpRoot, ws_features = features\<rparr>))))))"

subsection \<open>Relative paths\<close>

lemma stack_relative:
  assumes "list_all safe_component cs" "CHR ''/'' \<notin> set c"
  shows "\<exists>k' cs'. clean_step False c (rev cs @ replicate k ''..'') = rev cs' @ replicate k' ''..'' \<and> list_all safe_component cs'"
proof -
  consider "c = [] \<or> c = ''.''" | "c = ''..''" | "safe_component c" using assms(2) by (auto simp: safe_component_def)
  then show ?thesis
  proof cases
    case 1
    then show ?thesis using assms(1) by (auto simp: clean_step.simps)
  next
    case 2
    show ?thesis
    proof (cases cs rule: rev_cases)
      case Nil
      have "clean_step False c (replicate k ''..'') = rev [] @ replicate (Suc k) ''..''"
        using 2 by (cases k) (simp_all add: clean_step.simps)
      then show ?thesis using Nil by (intro exI [of _ "Suc k"] exI [of _ "[]"]) simp
    next
      case (snoc ds d)
      have "safe_component d" using assms(1) snoc by simp
      then have "clean_step False c (rev cs @ replicate k ''..'') = rev ds @ replicate k ''..''"
        using 2 snoc by (auto simp: clean_step.simps safe_component_def)
      then show ?thesis using assms(1) snoc by auto
    qed
  next
    case 3
    then have "clean_step False c (rev cs @ replicate k ''..'') = rev (cs @ [c]) @ replicate k ''..''" by (simp add: clean_step_safe)
    moreover have "list_all safe_component (cs @ [c])" using 3 assms(1) by simp
    ultimately show ?thesis by blast
  qed
qed

lemma fold_relative:
  assumes "\<forall>f \<in> set fs. CHR ''/'' \<notin> set f" "list_all safe_component cs"
  shows "\<exists>k' cs'. fold (clean_step False) fs (rev cs @ replicate k ''..'') = rev cs' @ replicate k' ''..'' \<and> list_all safe_component cs'"
  using assms
proof (induction fs arbitrary: cs k)
  case (Cons f fs)
  obtain k1 cs1 where s: "clean_step False f (rev cs @ replicate k ''..'') = rev cs1 @ replicate k1 ''..''" "list_all safe_component cs1"
    using stack_relative [of cs f k] Cons.prems by auto
  show ?case using Cons.IH [OF _ s(2), of k1] Cons.prems(1) s(1) by simp
qed auto

lemma comps_relative:
  assumes "\<not> isAbs p"
  shows "\<exists>k cs. comps p = replicate k ''..'' @ cs \<and> list_all safe_component cs"
proof -
  obtain k cs where f: "fold (clean_step False) (SplitChar (CHR ''/'') p) [] = rev cs @ replicate k ''..''" "list_all safe_component cs"
    using fold_relative [of "SplitChar (CHR ''/'') p" "[]" 0] SplitChar_fields by fastforce
  have "comps p = replicate k ''..'' @ cs" using assms f(1) by (simp add: comps_def clean_comps_def)
  with f(2) show ?thesis by blast
qed

text \<open>A relative path that does not start with \<open>..\<close> is a sequence of safe components.\<close>

lemma relative_inside:
  assumes "\<not> isAbs (Clean rel)" "Clean rel \<noteq> ''..''" "\<not> HasPrefix (Clean rel) ''../''"
  shows "\<not> isAbs rel" "list_all safe_component (comps rel)"
    "Clean rel \<noteq> ''.'' \<Longrightarrow> SplitChar (CHR ''/'') (Clean rel) = comps rel"
    "Clean rel = ''.'' \<Longrightarrow> comps rel = []"
proof -
  show na: "\<not> isAbs rel" using assms(1) Clean_isAbs [of rel] by auto
  obtain k cs where c: "comps rel = replicate k ''..'' @ cs" "list_all safe_component cs" using comps_relative [OF na] by blast
  have "k = 0"
  proof (cases k)
    case (Suc j)
    have r: "Clean rel = JoinStrings (''..'' # replicate j ''..'' @ cs) ''/''"
      using na c Suc by (simp add: Clean_def render_def)
    show ?thesis
    proof (cases "replicate j ''..'' @ cs")
      case Nil
      then show ?thesis using r assms(2) by simp
    next
      case (Cons d ds)
      then have "Clean rel = ''../'' @ JoinStrings (d # ds) ''/''" using r by simp
      then show ?thesis using assms(3) by (metis HasPrefix_append)
    qed
  qed simp
  then show s: "list_all safe_component (comps rel)" using c by simp
  have r: "Clean rel = (if comps rel = [] then ''.'' else JoinStrings (comps rel) ''/'')" using na by (simp add: Clean_def render_def)
  show "SplitChar (CHR ''/'') (Clean rel) = comps rel" if "Clean rel \<noteq> ''.''"
    using that r s SplitChar_JoinStrings [of "comps rel" "CHR ''/''"] by (auto simp: list_all_iff safe_no_slash)
  show "comps rel = []" if "Clean rel = ''.''"
  proof (rule ccontr)
    assume ne: "comps rel \<noteq> []"
    then have "SplitChar (CHR ''/'') (Clean rel) = comps rel"
      using r s SplitChar_JoinStrings [of "comps rel" "CHR ''/''"] by (auto simp: list_all_iff safe_no_slash)
    then have "comps rel = [''.'']" using that by simp
    then show False using s by (simp add: safe_component_def)
  qed
qed

subsection \<open>No symbolic links below the root\<close>

text \<open>A file exists only in an existing directory.\<close>

definition tree_closed :: "world \<Rightarrow> bool" where
  "tree_closed w \<longleftrightarrow> (\<forall>ds c. list_all safe_component (ds @ [c]) \<longrightarrow> node_at w (abs_path ds) = None \<longrightarrow> node_at w (abs_path (ds @ [c])) = None)"

lemma tree_closed_prefix:
  assumes "tree_closed w" "list_all safe_component (ds @ es)" "node_at w (abs_path ds) = None"
  shows "node_at w (abs_path (ds @ es)) = None"
  using assms(2)
proof (induction es rule: rev_induct)
  case (snoc e es)
  then have "node_at w (abs_path (ds @ es)) = None" "list_all safe_component ((ds @ es) @ [e])" by auto
  then show ?case using assms(1) unfolding tree_closed_def by (metis append.assoc)
qed (simp add: assms(3))

definition no_links :: "world \<Rightarrow> string list \<Rightarrow> string list \<Rightarrow> bool" where
  "no_links w rs cs \<longleftrightarrow> (\<forall>ds es t. cs = ds @ es \<longrightarrow> ds \<noteq> [] \<longrightarrow> node_at w (abs_path (rs @ ds)) \<noteq> Some (LinkNode t))"

lemma no_links_cong: "node_at w' = node_at w \<Longrightarrow> no_links w' rs cs = no_links w rs cs"
  by (simp add: no_links_def)

lemma no_links_Cons:
  assumes "\<And>t. node_at w (abs_path (rs @ [c])) \<noteq> Some (LinkNode t)" "no_links w (rs @ [c]) cs"
  shows "no_links w rs (c # cs)"
  unfolding no_links_def
proof (intro allI impI)
  fix ds es t assume d: "c # cs = ds @ es" "ds \<noteq> []"
  then obtain ds' where ds: "ds = c # ds'" "cs = ds' @ es" by (cases ds) auto
  show "node_at w (abs_path (rs @ ds)) \<noteq> Some (LinkNode t)"
  proof (cases "ds' = []")
    case True
    then show ?thesis using assms(1) ds by simp
  next
    case False
    then have "node_at w (abs_path ((rs @ [c]) @ ds')) \<noteq> Some (LinkNode t)" using assms(2) ds(2) unfolding no_links_def by blast
    then show ?thesis using ds(1) by simp
  qed
qed

lemma Join_step: "list_all safe_component (rs @ [c]) \<Longrightarrow> Join [abs_path rs, c] = abs_path (rs @ [c])"
  using Join_abs [of "abs_path rs" "[c]"] by (simp add: comps_abs_path)

lemma reject_links_post:
  assumes "tree_closed w" "list_all safe_component (rs @ cs)" "node_at w0 = node_at w"
  shows "post (reject_links (abs_path rs) cs) (\<lambda>r w'. node_at w' = node_at w \<and> (r = Inr () \<longrightarrow> no_links w rs cs)) w0"
  using assms(2,3)
proof (induction cs arbitrary: rs w0)
  case Nil
  then show ?case by (simp add: wp no_links_def)
next
  case (Cons c cs)
  have s: "list_all safe_component (rs @ [c])" using Cons.prems(1) by simp
  show ?case
    unfolding reject_links.simps Let_def Join_step [OF s]
  proof (rule attI, rule post_Lstat)
    fix e and w1 :: world
    assume w1: "node_at w1 = node_at w0" "errIsNotExist e \<longrightarrow> node_at w0 (abs_path (rs @ [c])) = None"
    have "no_links w rs (c # cs)" if "errIsNotExist e"
      unfolding no_links_def
    proof (intro allI impI)
      fix ds es t assume d: "c # cs = ds @ es" "ds \<noteq> []"
      then obtain ds' where ds: "ds = c # ds'" by (cases ds) auto
      have "list_all safe_component ((rs @ [c]) @ ds')" using Cons.prems(1) d ds by simp
      then have "node_at w (abs_path ((rs @ [c]) @ ds')) = None"
        using tree_closed_prefix [OF assms(1), of "rs @ [c]" ds'] w1(2) that Cons.prems(2) by simp
      then show "node_at w (abs_path (rs @ ds)) \<noteq> Some (LinkNode t)" using ds by simp
    qed
    then show "post (case Inl e of
        Inl e \<Rightarrow> if errIsNotExist e then ret () else fail (codef ErrFilesystemFailed ''inspect workspace path component'' [e])
      | Inr n \<Rightarrow> if is_link n then fail (codef ErrInvalidRequest ''workspace path contains symlink component'' []) else reject_links (abs_path (rs @ [c])) cs)
      (\<lambda>r w'. node_at w' = node_at w \<and> (r = Inr () \<longrightarrow> no_links w rs (c # cs))) w1"
      using w1(1) Cons.prems(2) by (simp add: wp)
  next
    fix n and w1 :: world
    assume w1: "node_at w1 = node_at w0" "node_at w0 (abs_path (rs @ [c])) = Some n"
    have "post (reject_links (abs_path (rs @ [c])) cs) (\<lambda>r w'. node_at w' = node_at w \<and> (r = Inr () \<longrightarrow> no_links w rs (c # cs))) w1"
      if n: "\<not> is_link n"
    proof (rule post_mono [OF Cons.IH])
      show "list_all safe_component ((rs @ [c]) @ cs)" using Cons.prems(1) by simp
      show "node_at w1 = node_at w" using w1(1) Cons.prems(2) by simp
      have "node_at w (abs_path (rs @ [c])) \<noteq> Some (LinkNode t)" for t using w1(2) Cons.prems(2) n by auto
      then show "node_at w' = node_at w \<and> (r = Inr () \<longrightarrow> no_links w rs (c # cs))"
        if "node_at w' = node_at w \<and> (r = Inr () \<longrightarrow> no_links w (rs @ [c]) cs)" for r and w' :: world
        using that no_links_Cons by blast
    qed
    then show "post (case Inr n of
        Inl e \<Rightarrow> if errIsNotExist e then ret () else fail (codef ErrFilesystemFailed ''inspect workspace path component'' [e])
      | Inr n \<Rightarrow> if is_link n then fail (codef ErrInvalidRequest ''workspace path contains symlink component'' []) else reject_links (abs_path (rs @ [c])) cs)
      (\<lambda>r w'. node_at w' = node_at w \<and> (r = Inr () \<longrightarrow> no_links w rs (c # cs))) w1"
      using w1(1) Cons.prems(2) by (simp add: wp)
  qed
qed

lemma RejectSymlink_post:
  assumes "tree_closed w" "list_all safe_component rs" "node_at w0 = node_at w"
  shows "post (RejectSymlinkComponents (abs_path rs) rel)
    (\<lambda>r w'. node_at w' = node_at w \<and> (r = Inr () \<longrightarrow> \<not> isAbs rel \<and> list_all safe_component (comps rel) \<and> no_links w rs (comps rel))) w0"
proof (cases "isAbs (Clean rel) \<or> Clean rel = ''..'' \<or> HasPrefix (Clean rel) ''../''")
  case True
  then show ?thesis using assms(3) by (simp add: RejectSymlinkComponents_def Let_def wp)
next
  case False
  then have c: "\<not> isAbs (Clean rel)" "Clean rel \<noteq> ''..''" "\<not> HasPrefix (Clean rel) ''../''" by auto
  note r = relative_inside [OF c]
  have "post (reject_links (abs_path rs) (SplitChar (CHR ''/'') (Clean rel)))
      (\<lambda>r w'. node_at w' = node_at w \<and> (r = Inr () \<longrightarrow> \<not> isAbs rel \<and> list_all safe_component (comps rel) \<and> no_links w rs (comps rel))) w0"
    if "Clean rel \<noteq> ''.''"
    unfolding r(3) [OF that]
    by (rule post_mono [OF reject_links_post [OF assms(1) _ assms(3)]]) (use r(1,2) assms(2) in auto)
  moreover have "comps rel = []" if "Clean rel = ''.''" using r(4) that by simp
  ultimately show ?thesis
    using False r(1,2) assms(3) by (auto simp: RejectSymlinkComponents_def Let_def wp no_links_def)
qed

text \<open>
  What \<open>securejoin.SecureJoin\<close> documents and the code relies on: it reads the file system
  only, and when no component is a symbolic link its result is the lexical join.
\<close>

definition secure_join_ok :: "secure_join \<Rightarrow> bool" where
  "secure_join_ok SJ \<longleftrightarrow> (\<forall>rs cs rel w. list_all safe_component (rs @ cs) \<and> comps rel = cs \<and> \<not> isAbs rel \<and> no_links w rs cs \<longrightarrow>
     post (SJ (abs_path rs) (Clean rel)) (\<lambda>r w'. node_at w' = node_at w \<and> (\<forall>p. r = Inr p \<longrightarrow> p = Join [abs_path rs, Clean rel])) w)"

lemma Join_relative:
  assumes "list_all safe_component rs" "\<not> isAbs rel" "list_all safe_component (comps rel)"
  shows "Join [abs_path rs, Clean rel] = abs_path (rs @ comps rel)"
proof -
  have r: "Clean rel = (if comps rel = [] then ''.'' else JoinStrings (comps rel) ''/'')" using assms(2) by (simp add: Clean_def render_def)
  have nz: "abs_path rs \<noteq> []" using isAbs_abs_path [of rs] by (auto simp: isAbs_iff)
  have sp: "SplitChar (CHR ''/'') (Clean rel) = (if comps rel = [] then [''.''] else comps rel)"
    using r assms(3) SplitChar_JoinStrings [of "comps rel" "CHR ''/''"] by (auto simp: list_all_iff safe_no_slash)
  have sp2: "SplitChar (CHR ''/'') (abs_path rs @ CHR ''/'' # Clean rel) = SplitChar (CHR ''/'') (abs_path rs) @ SplitChar (CHR ''/'') (Clean rel)"
    by (rule SplitChar_concat)
  have a: "isAbs (abs_path rs @ CHR ''/'' # Clean rel)" using isAbs_abs_path [of rs] by (auto simp: isAbs_iff)
  have "comps (abs_path rs @ CHR ''/'' # Clean rel) = rs @ comps rel"
  proof -
    have f: "fold (clean_step True) (SplitChar (CHR ''/'') (abs_path rs)) [] = rev rs"
      using comps_abs_path [OF assms(1)] by (simp add: comps_def clean_comps_def rev_swap)
    have "fold (clean_step True) (if comps rel = [] then [''.''] else comps rel) (rev rs) = rev (comps rel) @ rev rs"
      using assms(3) by (simp add: fold_clean_safe) (simp add: clean_step.simps)
    then show ?thesis using a by (simp add: comps_def [of "abs_path rs @ _"] clean_comps_def sp2 sp f)
  qed
  then show ?thesis using a nz by (simp add: Join_def Clean_isAbs)
qed

lemma scopedPath_post:
  assumes "secure_join_ok SJ" "tree_closed w" "list_all safe_component rs" "node_at w0 = node_at w"
  shows "post (scopedPath SJ (abs_path rs) rel)
    (\<lambda>r w'. node_at w' = node_at w \<and> (\<forall>p. r = Inr p \<longrightarrow> \<not> isAbs rel \<and> list_all safe_component (comps rel) \<and>
        p = abs_path (rs @ comps rel) \<and> no_links w rs (comps rel))) w0"
  unfolding scopedPath_def
proof (rule tryI, rule post_mono [OF RejectSymlink_post [OF assms(2-4)]])
  fix r and w1 :: world
  assume h: "node_at w1 = node_at w \<and> (r = Inr () \<longrightarrow> \<not> isAbs rel \<and> list_all safe_component (comps rel) \<and> no_links w rs (comps rel))"
  let ?Q = "\<lambda>r w'. node_at w' = node_at w \<and> (\<forall>p. r = Inr p \<longrightarrow> \<not> isAbs rel \<and> list_all safe_component (comps rel) \<and>
        p = abs_path (rs @ comps rel) \<and> no_links w rs (comps rel))"
  show "case r of Inl e \<Rightarrow> ?Q (Inl e) w1
    | Inr _ \<Rightarrow> post (wrapped (\<lambda>e. codef ErrInvalidRequest ''resolve workspace-relative path'' [e]) (SJ (abs_path rs) (Clean rel))) ?Q w1"
  proof (cases r)
    case (Inr u)
    then have k: "\<not> isAbs rel" "list_all safe_component (comps rel)" "no_links w rs (comps rel)" "node_at w1 = node_at w" using h by auto
    have n1: "no_links w1 rs (comps rel)" using k(3) no_links_cong [OF k(4)] by simp
    have "post (SJ (abs_path rs) (Clean rel)) (\<lambda>r w'. node_at w' = node_at w1 \<and> (\<forall>p. r = Inr p \<longrightarrow> p = Join [abs_path rs, Clean rel])) w1"
      by (rule assms(1) [unfolded secure_join_ok_def, rule_format]) (use assms(3) k n1 in simp)
    then have "post (wrapped (\<lambda>e. codef ErrInvalidRequest ''resolve workspace-relative path'' [e]) (SJ (abs_path rs) (Clean rel))) ?Q w1"
      unfolding post_wrapped
      by (rule post_mono) (use k Join_relative [OF assms(3) k(1,2)] in \<open>auto split: sum.splits\<close>)
    then show ?thesis using Inr by simp
  qed (use h in simp)
qed

subsection \<open>Directories that are created\<close>

lemma mkdir_comps_adds:
  "mkdir_comps m u dn cs w = (r, w') \<Longrightarrow> node_at w' q = node_at w q \<or> node_at w q = None \<and> node_at w' q = Some (DirNode m u)"
proof (induction m u dn cs w rule: mkdir_comps.induct)
  case (2 m u dn c cs w)
  then show ?case
    by (auto simp: Let_def node_at_put split: option.splits node.splits if_splits)
qed simp

text \<open>The tree after \<open>MkdirAll\<close>: some directories were added.\<close>

definition dirs_added :: "world \<Rightarrow> world \<Rightarrow> bool" where
  "dirs_added w w' \<longleftrightarrow> (\<forall>q. node_at w' q = node_at w q \<or> node_at w q = None \<and> node_at w' q = Some (DirNode 448 0))"

lemma post_MkdirAll: "post (MkdirAll p 448 0) (\<lambda>r w'. dirs_added w w') w"
  unfolding MkdirAll_def
proof (rule post_syscall)
  fix w1 :: world assume f: "files w1 = files w" "fresh w1 = fresh w"
  obtain r w2 where m: "mkdir_comps 448 0 [] (comps p) w1 = (r, w2)" by fastforce
  then show "case mkdir_comps 448 0 [] (comps p) w1 of (Inl e, w'') \<Rightarrow> dirs_added w w'' | (Inr a, w'') \<Rightarrow> dirs_added w w''"
    using mkdir_comps_adds [OF m] node_at_ext [OF f(1)] by (cases r) (auto simp: dirs_added_def)
next
  fix e and w' :: world assume "files w' = files w"
  then show "dirs_added w w'" using node_at_ext [of w' w] by (simp add: dirs_added_def)
qed

lemma resolve_cong: "node_at w' = node_at w \<Longrightarrow> resolve k w' x = resolve k w x"
  by (induction k arbitrary: x) (simp_all split: option.split node.split)

lemma post_Stat:
  assumes "\<And>e w'. node_at w' = node_at w \<Longrightarrow> Q (Inl e) w'"
    and "\<And>q n w'. node_at w' = node_at w \<Longrightarrow> resolve 40 w p = Some q \<Longrightarrow> node_at w q = Some n \<Longrightarrow> Q (Inr n) w'"
  shows "post (Stat p) Q w"
  unfolding Stat_def
proof (rule post_syscall)
  fix w' :: world assume f: "files w' = files w" "fresh w' = fresh w"
  have n: "node_at w' = node_at w" by (rule node_at_ext [OF f(1)])
  have "resolve k w' x = resolve k w x" for k x by (rule resolve_cong [OF n])
  then show "case (case resolve 40 w' p of None \<Rightarrow> Inl EIO
      | Some q \<Rightarrow> (case node_at w' q of None \<Rightarrow> Inl ENOENT | Some n \<Rightarrow> Inr n), w') of
        (Inl e, w'') \<Rightarrow> Q (Inl (SysErr e p)) w'' | (Inr a, w'') \<Rightarrow> Q (Inr a) w''"
    using assms [OF n] n by (auto split: option.splits)
qed (intro assms(1) node_at_ext, assumption)

lemma resolve_nonlink: "\<forall>t. node_at w p \<noteq> Some (LinkNode t) \<Longrightarrow> resolve (Suc k) w p = Some p"
  by (auto split: option.splits node.splits)

definition private_dir :: "world \<Rightarrow> string \<Rightarrow> bool" where
  "private_dir w p \<longleftrightarrow> (\<exists>m. node_at w p = Some (DirNode m 0) \<and> m mod 64 = 0)"

lemma privateDirMetadata_None: "privateDirMetadata n = None \<longleftrightarrow> (\<exists>m. n = DirNode m 0 \<and> m mod 64 = 0)"
  by (cases n) (auto simp: privateDirMetadata_def)

lemma directory_checked_post:
  "post (directory_checked True n) (\<lambda>r w'. w' = w \<and> (r \<noteq> Inr False) \<and> (r = Inr True \<longrightarrow> (\<exists>m. n = DirNode m 0 \<and> m mod 64 = 0))) w"
  using privateDirMetadata_None [of n] by (auto simp: directory_checked_def wp split: option.split)

text \<open>When \<open>createDirectory\<close> requires privacy and succeeds, the directory is private.\<close>

lemma createDirectory_post:
  assumes "\<forall>t. node_at w p \<noteq> Some (LinkNode t)"
  shows "post (createDirectory p label True) (\<lambda>r w'. dirs_added w w' \<and> ((\<exists>b. r = Inr b) \<longrightarrow> private_dir w' p)) w"
proof -
  let ?Q = "\<lambda>r w'. dirs_added w w' \<and> ((\<exists>b. r = Inr b) \<longrightarrow> private_dir w' p)"
  have same: "dirs_added w w'" if "node_at w' = node_at w" for w' :: world using that by (simp add: dirs_added_def)
  have chk: "post (directory_checked True n) ?Q w'" if "dirs_added w w'" "node_at w' p = Some n" for n and w' :: world
    by (rule post_mono [OF directory_checked_post]) (use that in \<open>auto simp: private_dir_def\<close>)
  have stat: "post (tryE (wrapped f (Stat p)) (directory_checked True)) ?Q w1" if a: "dirs_added w w1" for f and w1 :: world
  proof -
    have nl: "\<forall>t. node_at w1 p \<noteq> Some (LinkNode t)" using a assms unfolding dirs_added_def by (metis node.distinct(5) option.inject)
    have tr: "dirs_added w w2" if "node_at w2 = node_at w1" for w2 :: world using a that by (simp add: dirs_added_def)
    have "resolve 40 w1 p = Some p" using resolve_nonlink [OF nl, of 39] by (simp add: numeral_eq_Suc)
    then show ?thesis
      unfolding post_tryE post_wrapped
      by (intro post_Stat) (auto simp: tr intro!: chk)
  qed
  have "resolve 40 w p = Some p" using resolve_nonlink [OF assms, of 39] by (simp add: numeral_eq_Suc)
  then show ?thesis
    unfolding createDirectory_def
  proof (intro attI post_Stat)
    fix e and w1 :: world assume n: "node_at w1 = node_at w"
    have "post (MkdirAll p 448 0) (\<lambda>r. dirs_added w) w1"
      by (rule post_mono [OF post_MkdirAll]) (simp add: dirs_added_def n)
    then have "post (tryE (wrapped (\<lambda>e. codef ErrFilesystemFailed (''create '' @ label) [e]) (MkdirAll p 448 0)) (\<lambda>_.
          tryE (wrapped (\<lambda>e. codef ErrFilesystemFailed (''read '' @ label @ '' metadata'') [e]) (Stat p)) (directory_checked True))) ?Q w1"
      unfolding post_tryE [of "wrapped _ (MkdirAll _ _ _)"] post_wrapped [of _ "MkdirAll _ _ _"]
      by (rule post_mono) (auto intro: stat split: sum.split)
    then show "post (case Inl e of Inl err \<Rightarrow> if errIsNotExist err then
          tryE (wrapped (\<lambda>e. codef ErrFilesystemFailed (''create '' @ label) [e]) (MkdirAll p 448 0)) (\<lambda>_.
          tryE (wrapped (\<lambda>e. codef ErrFilesystemFailed (''read '' @ label @ '' metadata'') [e]) (Stat p)) (directory_checked True))
        else fail (codef ErrFilesystemFailed (''read '' @ label @ '' metadata'') [err]) | Inr info \<Rightarrow> directory_checked True info) ?Q w1"
      using same [OF n] by (simp add: post_fail)
  next
    fix q n and w1 :: world assume h: "resolve 40 w p = Some p" "node_at w1 = node_at w" "resolve 40 w p = Some q" "node_at w q = Some n"
    then show "post (case Inr n of Inl err \<Rightarrow> if errIsNotExist err then
          tryE (wrapped (\<lambda>e. codef ErrFilesystemFailed (''create '' @ label) [e]) (MkdirAll p 448 0)) (\<lambda>_.
          tryE (wrapped (\<lambda>e. codef ErrFilesystemFailed (''read '' @ label @ '' metadata'') [e]) (Stat p)) (directory_checked True))
        else fail (codef ErrFilesystemFailed (''read '' @ label @ '' metadata'') [err]) | Inr info \<Rightarrow> directory_checked True info) ?Q w1"
      using chk [OF same [OF h(2)]] by simp
  qed
qed

lemma post_lift_err: "post (lift_err e) Q w \<longleftrightarrow> (case e of None \<Rightarrow> Q (Inr ()) w | Some x \<Rightarrow> Q (Inl x) w)"
  by (simp add: lift_err_def wp split: option.split)

lemma post_lift_sum: "post (lift_sum r) Q w \<longleftrightarrow> Q r w"
  by (simp add: lift_sum_def wp split: sum.split)

declare post_lift_err [wp] post_lift_sum [wp]

lemma no_links_path: "no_links w rs cs \<Longrightarrow> cs \<noteq> [] \<Longrightarrow> node_at w (abs_path (rs @ cs)) \<noteq> Some (LinkNode t)"
  unfolding no_links_def by blast

text \<open>\<open>MkdirPrivate\<close> with a path below the root; a link at the root itself is the caller's.\<close>

lemma MkdirPrivate_post:
  assumes "secure_join_ok SJ" "tree_closed w" "list_all safe_component rs" "ws_root ws = abs_path rs"
    and "\<forall>t. node_at w (abs_path rs) \<noteq> Some (LinkNode t)"
  shows "post (MkdirPrivate SJ (Some ws) rel) (\<lambda>r w'. dirs_added w w' \<and> (\<forall>p. r = Inr p \<longrightarrow>
      \<not> isAbs rel \<and> list_all safe_component (comps rel) \<and> p = abs_path (rs @ comps rel) \<and> no_links w rs (comps rel) \<and> private_dir w' p)) w" (is "post _ ?Q w")
proof -
  have same: "dirs_added w w'" if "node_at w' = node_at w" for w' :: world using that by (simp add: dirs_added_def)
  have "post (tryE (rootPath SJ (Some ws) rel) (\<lambda>path. tryE (createDirectory path ''private directory'' True) (\<lambda>_. ret path))) ?Q w"
    unfolding rootPath_def option.case assms(4)
  proof (rule tryI, rule post_mono [OF scopedPath_post [OF assms(1-3) refl]])
    fix r :: "goerr + string" and w1 :: world
    assume h: "node_at w1 = node_at w \<and> (\<forall>p. r = Inr p \<longrightarrow> \<not> isAbs rel \<and> list_all safe_component (comps rel) \<and>
        p = abs_path (rs @ comps rel) \<and> no_links w rs (comps rel))"
    show "case r of Inl e \<Rightarrow> ?Q (Inl e) w1 | Inr path \<Rightarrow> post (tryE (createDirectory path ''private directory'' True) (\<lambda>_. ret path)) ?Q w1"
    proof (cases r)
      case (Inr p)
      then have k: "\<not> isAbs rel" "list_all safe_component (comps rel)" "p = abs_path (rs @ comps rel)" "no_links w rs (comps rel)" "node_at w1 = node_at w"
        using h by auto
      have nl: "\<forall>t. node_at w1 p \<noteq> Some (LinkNode t)"
        using no_links_path [OF k(4)] assms(5) k(3,5) by (cases "comps rel = []") auto
      have "post (createDirectory p ''private directory'' True) (\<lambda>r w'. dirs_added w w' \<and> ((\<exists>b. r = Inr b) \<longrightarrow> private_dir w' p)) w1"
        by (rule post_mono [OF createDirectory_post [OF nl]]) (simp add: dirs_added_def k(5))
      then have "post (tryE (createDirectory p ''private directory'' True) (\<lambda>_. ret p)) ?Q w1"
        unfolding post_tryE post_ret by (rule post_mono) (use k in \<open>auto split: sum.split\<close>)
      then show ?thesis using Inr by simp
    qed (use same h in simp)
  qed
  then show ?thesis
    unfolding MkdirPrivate_def post_tryE [of "lift_err _"] post_lift_err using same [OF refl] by (simp split: option.split)
qed

lemma Rel_inside:
  assumes "list_all safe_component rs" "list_all safe_component cs"
  shows "Rel (abs_path rs) (abs_path (rs @ cs)) = Inr (render False cs)"
proof -
  have "strip_common rs (rs @ cs) = ([], cs)" by (induction rs) auto
  then show ?thesis using assms by (simp add: Rel_def comps_abs_path)
qed

lemma comps_render: "list_all safe_component cs \<Longrightarrow> comps (render False cs) = cs \<and> \<not> isAbs (render False cs)"
proof (cases "cs = []")
  case True
  then show ?thesis by (simp add: render_def comps_def isAbs_def HasPrefix_def clean_comps_def clean_step.simps)
next
  case False
  assume s: "list_all safe_component cs"
  have "SplitChar (CHR ''/'') (JoinStrings cs ''/'') = cs"
    using False s by (intro SplitChar_JoinStrings) (auto simp: list_all_iff safe_no_slash)
  moreover have "\<not> isAbs (JoinStrings cs ''/'')"
  proof
    assume "isAbs (JoinStrings cs ''/'')"
    then obtain q where "JoinStrings cs ''/'' = CHR ''/'' # q" by (auto simp: isAbs_iff)
    then have "[] \<in> set cs" using calculation by (metis SplitChar.simps(2) list.set_intros(1))
    then show False using s by (auto simp: list_all_iff safe_component_def)
  qed
  ultimately show ?thesis using s False by (simp add: render_def comps_def clean_comps_def fold_clean_safe)
qed

lemma post_OpenCreate_excl:
  assumes "\<And>e w'. node_at w' = node_at w \<Longrightarrow> Q (Inl e) w'"
    and "\<And>w'. node_at w p = None \<Longrightarrow> node_at w' = (node_at w)(p \<mapsto> FileNode [] m u) \<Longrightarrow> Q (Inr ()) w'"
  shows "post (OpenCreate True p m u) Q w"
  unfolding OpenCreate_def
proof (rule post_syscall)
  fix w' :: world assume f: "files w' = files w" "fresh w' = fresh w"
  have n: "node_at w' = node_at w" by (rule node_at_ext [OF f(1)])
  have "node_at (put p x w') = (node_at w)(p \<mapsto> x)" for x using n by (auto simp: node_at_put fun_eq_iff)
  then show "case (case node_at w' p of
        None \<Rightarrow> if is_dir (node_at w' (Dir p)) then (Inr (), put p (FileNode [] m u) w') else (Inl ENOENT, w')
      | Some (DirNode _ _) \<Rightarrow> (Inl (if True then EEXIST else EISDIR), w')
      | Some n \<Rightarrow> if True then (Inl EEXIST, w') else (Inr (), w')) of
        (Inl e, w'') \<Rightarrow> Q (Inl (SysErr e p)) w'' | (Inr a, w'') \<Rightarrow> Q (Inr a) w''"
    using assms n by (auto split: option.splits node.splits)
qed (intro assms(1) node_at_ext, assumption)

lemma tree_closed_cong: "node_at w' = node_at w \<Longrightarrow> tree_closed w' = tree_closed w"
  by (simp add: tree_closed_def)

lemma post_wrapped_lift:
  assumes "\<And>e. Q (Inl e) w" "post (tryE (lift_sum r) k) Q w"
  shows "post (tryE (wrapped f (lift_sum r)) k) Q w"
  using assms by (cases r) (simp_all add: wp)

lemma Clean_dotdot: "Clean ''..'' = ''..''" "TrimSpace ''..'' \<noteq> []"
  by code_simp+

lemma CreatePrivate_post:
  assumes SJ: "secure_join_ok SJ" and cl: "tree_closed w" and rs: "list_all safe_component rs" "rs \<noteq> []" and ws: "ws_root ws = abs_path rs"
    and nl: "\<forall>t. node_at w (abs_path rs) \<noteq> Some (LinkNode t)"
  shows "post (CreatePrivate SJ (Some ws) rel) (\<lambda>r w'. (\<forall>p. r = Inr p \<longrightarrow>
      p = abs_path (rs @ comps rel) \<and> below (abs_path rs) p \<and> node_at w p = None \<and> node_at w' p = Some (FileNode [] 384 0) \<and> private_dir w' (Dir p))) w"
    (is "post _ ?Q w")
proof -
  let ?open = "\<lambda>path. attempt (OpenCreate True path 384 0) (\<lambda>r. case r of Inr _ \<Rightarrow> ret path
         | Inl e \<Rightarrow> if errIsExist e then fail (codef ErrInvalidRequest ''create private file: already exists'' [])
             else fail (codef ErrFilesystemFailed ''create private file'' [e]))"
  have parent: "post (tryE (lift_sum (Rel (abs_path rs) (Dir p))) (\<lambda>parentRel. tryE (MkdirPrivate SJ (Some ws) parentRel) (\<lambda>_. ?open p))) ?Q w1"
    if k: "list_all safe_component (comps rel)" "p = abs_path (rs @ comps rel)" "no_links w rs (comps rel)" "node_at w1 = node_at w" for p w1
  proof (cases "comps rel" rule: rev_cases)
    case Nil
    obtain rs' x where x: "rs = rs' @ [x]" using rs(2) by (cases rs rule: rev_cases) auto
    have sc: "strip_common (rs' @ [x]) rs' = ([x], [])" by (induction rs') auto
    have "Rel (abs_path rs) (Dir p) = Inr ''..''"
      using Dir_abs_path [of rs' x] rs(1) k(2) Nil x sc by (simp add: Rel_def comps_abs_path render_def)
    then show ?thesis
      by (simp add: wp MkdirPrivate_def rootPath_def scopedPath_def RejectSymlinkComponents_def Clean_dotdot split: option.split)
  next
    case (snoc cs c)
    have s: "list_all safe_component (rs @ cs @ [c])" using k(1) rs(1) snoc by simp
    have d: "Dir p = abs_path (rs @ cs)" using Dir_abs_path [of "rs @ cs" c] s k(2) snoc by simp
    have rr: "Rel (abs_path rs) (Dir p) = Inr (render False cs)" using Rel_inside [of rs cs] s d by simp
    have cr: "comps (render False cs) = cs" using comps_render [of cs] s by simp
    have "post (MkdirPrivate SJ (Some ws) (render False cs)) (\<lambda>r w'. case r of Inl e \<Rightarrow> ?Q (Inl e) w' | Inr _ \<Rightarrow> post (?open p) ?Q w') w1"
    proof (rule post_mono [OF MkdirPrivate_post [OF SJ _ rs(1) ws]])
      show "tree_closed w1" "\<forall>t. node_at w1 (abs_path rs) \<noteq> Some (LinkNode t)" using cl nl tree_closed_cong [OF k(4)] k(4) by auto
      fix r :: "goerr + string" and w2 :: world
      assume h: "dirs_added w1 w2 \<and> (\<forall>q. r = Inr q \<longrightarrow> \<not> isAbs (render False cs) \<and> list_all safe_component (comps (render False cs)) \<and>
          q = abs_path (rs @ comps (render False cs)) \<and> no_links w1 rs (comps (render False cs)) \<and> private_dir w2 q)"
      have "post (?open p) ?Q w2" if "r = Inr q" for q
      proof -
        have pd: "private_dir w2 (Dir p)" using h that cr d by auto
        have nn: "node_at w p = None" if "node_at w2 p = None" using h that k(4) unfolding dirs_added_def by metis
        have bl: "below (abs_path rs) p" using s k(2) snoc by (simp add: below_def comps_abs_path)
        have ne: "Dir p \<noteq> p" using d k(2) snoc s abs_path_inject [of "rs @ cs" "rs @ cs @ [c]"] by auto
        show ?thesis
          unfolding post_attempt
          by (rule post_OpenCreate_excl) (use pd nn bl ne k(2) in \<open>auto simp: wp private_dir_def\<close>)
      qed
      then show "case r of Inl e \<Rightarrow> ?Q (Inl e) w2 | Inr _ \<Rightarrow> post (?open p) ?Q w2" by (cases r) auto
    qed
    then show ?thesis unfolding post_tryE post_lift_sum rr by simp
  qed
  have "post (tryE (rootPath SJ (Some ws) rel) (\<lambda>path. if Base path = ''.'' then fail (codef ErrInvalidRequest ''private file path is required'' [])
     else tryE (wrapped (\<lambda>e. codef ErrInvalidRequest ''resolve private file parent'' [e]) (lift_sum (Rel (abs_path rs) (Dir path))))
       (\<lambda>parentRel. tryE (MkdirPrivate SJ (Some ws) parentRel) (\<lambda>_. ?open path)))) ?Q w"
    unfolding rootPath_def option.case ws
  proof (rule tryI, rule post_mono [OF scopedPath_post [OF SJ cl rs(1) refl]])
    fix r :: "goerr + string" and w1 :: world
    assume h: "node_at w1 = node_at w \<and> (\<forall>p. r = Inr p \<longrightarrow> \<not> isAbs rel \<and> list_all safe_component (comps rel) \<and>
        p = abs_path (rs @ comps rel) \<and> no_links w rs (comps rel))"
    show "case r of Inl e \<Rightarrow> ?Q (Inl e) w1 | Inr path \<Rightarrow> post (if Base path = ''.'' then fail (codef ErrInvalidRequest ''private file path is required'' [])
     else tryE (wrapped (\<lambda>e. codef ErrInvalidRequest ''resolve private file parent'' [e]) (lift_sum (Rel (abs_path rs) (Dir path))))
       (\<lambda>parentRel. tryE (MkdirPrivate SJ (Some ws) parentRel) (\<lambda>_. ?open path))) ?Q w1"
    proof (cases r)
      case (Inr p)
      then have "post (tryE (lift_sum (Rel (abs_path rs) (Dir p))) (\<lambda>parentRel. tryE (MkdirPrivate SJ (Some ws) parentRel) (\<lambda>_. ?open p))) ?Q w1"
        using parent h by blast
      then have "post (tryE (wrapped (\<lambda>e. codef ErrInvalidRequest ''resolve private file parent'' [e]) (lift_sum (Rel (abs_path rs) (Dir p))))
          (\<lambda>parentRel. tryE (MkdirPrivate SJ (Some ws) parentRel) (\<lambda>_. ?open p))) ?Q w1"
        by (rule post_wrapped_lift [rotated]) simp
      then show ?thesis unfolding Inr sum.case post_if by (simp only: post_fail if_True if_False split: if_split) simp
    qed simp
  qed
  then show ?thesis
    unfolding CreatePrivate_def post_tryE [of "lift_err _"] post_lift_err option.case ws by (simp split: option.split)
qed

subsection \<open>Properties\<close>

text \<open>
  C20. A workspace path never leaves its root: a path that \<open>scopedPath\<close> accepts is the root
  followed by safe components, none of which was a symbolic link, and accepting it changes
  no file.
\<close>

theorem workspace_path_confined:
  assumes "secure_join_ok SJ" "tree_closed w" "list_all safe_component rs" "scopedPath SJ (abs_path rs) rel w = (Inr p, w')"
  shows "(p = abs_path rs \<or> below (abs_path rs) p) \<and> node_at w' = node_at w \<and>
    (\<forall>ds es t. comps p = rs @ ds @ es \<longrightarrow> ds \<noteq> [] \<longrightarrow> node_at w (abs_path (rs @ ds)) \<noteq> Some (LinkNode t))"
proof -
  have h: "node_at w' = node_at w" "list_all safe_component (comps rel)" "p = abs_path (rs @ comps rel)" "no_links w rs (comps rel)"
    using postD [OF scopedPath_post [OF assms(1-3) refl] assms(4)] by auto
  have c: "comps p = rs @ comps rel" using h(2,3) assms(3) by (simp add: comps_abs_path)
  have "p = abs_path rs \<or> below (abs_path rs) p"
    using c h(2,3) assms(3) by (cases "comps rel = []") (auto simp: below_def comps_abs_path)
  moreover have "node_at w (abs_path (rs @ ds)) \<noteq> Some (LinkNode t)" if "comps p = rs @ ds @ es" "ds \<noteq> []" for ds es t
    using h(4) that c unfolding no_links_def by auto
  ultimately show ?thesis using h(1) by blast
qed

text \<open>A join that is lexical, and a tree with one link that leaves the root.\<close>

definition lexical_join :: secure_join where
  "lexical_join root rel w = (Inr (Join [root, rel]), w)"

lemma lexical_join_ok: "secure_join_ok lexical_join"
  by (simp add: secure_join_ok_def lexical_join_def post_def)

definition link_world :: world where
  "link_world = \<lparr>files = [(''/'', DirNode 493 1), (''/w'', DirNode 448 0), (''/w/out'', LinkNode ''/''), (''/w/in'', DirNode 448 0)],
     faults = [], now = 0, fresh = 0\<rparr>"

lemma link_world_files:
  "files link_world = [(abs_path [], DirNode 493 1), (abs_path [''w''], DirNode 448 0), (abs_path [''w'', ''out''], LinkNode ''/''), (abs_path [''w'', ''in''], DirNode 448 0)]"
  by (simp add: link_world_def abs_path_def render_def)

lemma link_world_closed: "tree_closed link_world"
  unfolding tree_closed_def
proof (intro allI impI)
  fix ds c assume s: "list_all safe_component (ds @ [c])" and n: "node_at link_world (abs_path ds) = None"
  have sc: "safe_component ''w''" "safe_component ''out''" "safe_component ''in''" by (simp_all add: safe_component_def)
  have e: "abs_path xs = abs_path ys \<longleftrightarrow> xs = ys" if "list_all safe_component xs" "list_all safe_component ys" for xs ys
    using abs_path_inject that by blast
  have "ds \<notin> {[], [''w'']}" using n sc by (auto simp: node_at_def link_world_files e simp del: abs_path_root)
  then show "node_at link_world (abs_path (ds @ [c])) = None"
    using s sc by (auto simp: node_at_def link_world_files e simp del: abs_path_root)
qed

theorem workspace_path_confined_witness:
  "(case scopedPath lexical_join ''/w'' ''./in/x'' link_world of (Inr p, w') \<Rightarrow> below ''/w'' p | _ \<Rightarrow> False) \<and>
   (case scopedPath lexical_join ''/w'' ''out/x'' link_world of (Inr p, w') \<Rightarrow> False | _ \<Rightarrow> True)"
proof -
  have w: "abs_path [''w''] = ''/w''" "list_all safe_component [''w'']" by (simp_all add: abs_path_def render_def safe_component_def)
  have e1: "fst (scopedPath lexical_join ''/w'' ''./in/x'' link_world) = Inr ''/w/in/x''" by code_simp
  then obtain w1 where s1: "scopedPath lexical_join ''/w'' ''./in/x'' link_world = (Inr ''/w/in/x'', w1)" by (metis prod.collapse)
  have "below ''/w'' ''/w/in/x''"
    using workspace_path_confined [OF lexical_join_ok link_world_closed w(2), unfolded w(1), OF s1] by simp
  moreover have "case fst (scopedPath lexical_join ''/w'' ''out/x'' link_world) of Inr p \<Rightarrow> False | Inl e \<Rightarrow> True" by code_simp
  ultimately show ?thesis using s1 by (cases "scopedPath lexical_join ''/w'' ''out/x'' link_world") (auto split: sum.splits)
qed

text \<open>
  Files of a workspace are private: a file that \<open>CreatePrivate\<close> returns is below the root,
  did not exist before, is empty with mode 0600, and its directory belongs to the user and
  gives nothing to others.
\<close>

theorem private_files:
  assumes "secure_join_ok SJ" "tree_closed w" "list_all safe_component rs" "rs \<noteq> []" "ws_root ws = abs_path rs"
    and "\<forall>t. node_at w (abs_path rs) \<noteq> Some (LinkNode t)" "CreatePrivate SJ (Some ws) rel w = (Inr p, w')"
  shows "below (abs_path rs) p \<and> node_at w p = None \<and> node_at w' p = Some (FileNode [] 384 0) \<and>
    (\<exists>m. node_at w' (Dir p) = Some (DirNode m 0) \<and> m mod 64 = 0)"
  using postD [OF CreatePrivate_post [OF assms(1-6)] assms(7)] unfolding private_dir_def by blast

definition sample_workspace :: workspace where
  "sample_workspace = \<lparr>ws_root = ''/w'', ws_tmp = ''/w'', ws_features = \<lparr>PrivateDirs = True, FileFsync = True,
     DirectoryFsync = True, AtomicFileRename = True, AtomicDirectoryRename = True\<rparr>\<rparr>"

theorem private_files_witness:
  "case CreatePrivate lexical_join (Some sample_workspace) ''in/a/b'' link_world of
     (Inr p, w') \<Rightarrow> p = ''/w/in/a/b'' \<and> node_at w' p = Some (FileNode [] 384 0) \<and> below ''/w'' p | _ \<Rightarrow> False"
proof -
  have w: "abs_path [''w''] = ''/w''" "list_all safe_component [''w'']" "[''w''] \<noteq> []" by (simp_all add: abs_path_def render_def safe_component_def)
  have nl: "\<forall>t. node_at link_world ''/w'' \<noteq> Some (LinkNode t)" by (simp add: node_at_def link_world_def)
  have ws: "ws_root sample_workspace = ''/w''" by (simp add: sample_workspace_def)
  have "fst (CreatePrivate lexical_join (Some sample_workspace) ''in/a/b'' link_world) = Inr ''/w/in/a/b''" by code_simp
  then obtain w1 where s: "CreatePrivate lexical_join (Some sample_workspace) ''in/a/b'' link_world = (Inr ''/w/in/a/b'', w1)" by (metis prod.collapse)
  show ?thesis
    using private_files [OF lexical_join_ok link_world_closed w(2,3), unfolded w(1), OF ws nl s] s by simp
qed

end
