(* ===== verification/Runtime_Spec.thy ===== *)
theory Runtime_Spec
  imports Workspace "HOL-Library.Word"
begin

text \<open>
  The runtime configuration of a bundle: \<open>pkg/bundle/contract.go\<close> and the functions of
  \<open>pkg/bundle/internal/directory/provisioner.go\<close> that edit it.

  Of the OCI runtime specification the records hold the fields the program reads or writes;
  \<open>other\<close> stands for the rest, which it carries along. A nil pointer or slice is \<open>None\<close> where
  the code distinguishes it. IDs are 32-bit words, compared as 64-bit words as in the code.
\<close>

type_synonym u32 = "32 word"
type_synonym u64 = "64 word"

subsection \<open>Data\<close>

record LinuxIDMapping =
  ContainerID :: u32
  HostID :: u32
  Size :: u32

record oci_mount =
  Destination :: string
  MountType :: string
  MountSource :: string
  Options :: "string list"

record oci_user =
  UID :: u32
  GID :: u32
  AdditionalGids :: "u32 list"

record oci_process =
  Terminal :: bool
  User :: oci_user
  Args :: "string list"
  Env :: "string list"
  Cwd :: string
  Bounding :: "string list option"
  NoNewPrivileges :: bool
  process_other :: string

record oci_namespace =
  ns_type :: string
  ns_path :: string

record oci_linux =
  UIDMappings :: "LinuxIDMapping list"
  GIDMappings :: "LinuxIDMapping list"
  Namespaces :: "oci_namespace list"
  CgroupsPath :: string
  Resources :: "string option"
  MaskedPaths :: "string list"
  ReadonlyPaths :: "string list"
  linux_other :: string

record oci_spec =
  Process :: "oci_process option"
  Mounts :: "oci_mount list"
  Linux :: "oci_linux option"
  spec_other :: string

text \<open>The request of the caller.\<close>

record bundle_mount =
  bm_type :: string
  bm_source :: string
  bm_target :: string
  bm_options :: "string list"

record process_user =
  want_uid :: "u32 option"
  want_gid :: "u32 option"
  want_gids :: "u32 list option"

record process_spec =
  want_args :: "string list"
  want_env :: "string list"
  want_cwd :: string
  want_user :: process_user
  want_terminal :: "bool option"

definition zero_linux :: oci_linux where
  "zero_linux = \<lparr>UIDMappings = [], GIDMappings = [], Namespaces = [], CgroupsPath = [], Resources = None,
     MaskedPaths = [], ReadonlyPaths = [], linux_other = []\<rparr>"

subsection \<open>Mapped IDs\<close>

definition in_mapping :: "u32 \<Rightarrow> LinuxIDMapping \<Rightarrow> bool" where
  "in_mapping i m \<longleftrightarrow>
     (let start = ucast (ContainerID m) :: u64; stop = start + ucast (Size m); value = ucast i
      in value \<ge> start \<and> value < stop)"

fun processUserIDMappedInNamespace :: "u32 \<Rightarrow> LinuxIDMapping list \<Rightarrow> bool" where
  "processUserIDMappedInNamespace i [] = False"
| "processUserIDMappedInNamespace i (m # ms) = (if in_mapping i m then True else processUserIDMappedInNamespace i ms)"

fun gids_mapped :: "u32 list \<Rightarrow> LinuxIDMapping list \<Rightarrow> goerr option" where
  "gids_mapped [] ms = None"
| "gids_mapped (g # gs) ms =
     (if \<not> processUserIDMappedInNamespace g ms
      then Some (codef ErrInvalidProcessSpec ''additional process GID is not mapped by the rootless user namespace'' [])
      else gids_mapped gs ms)"

definition validateProcessUserIDsMapped :: "oci_user \<Rightarrow> LinuxIDMapping list \<Rightarrow> LinuxIDMapping list \<Rightarrow> goerr option" where
  "validateProcessUserIDsMapped user uids gids =
     (if \<not> processUserIDMappedInNamespace (UID user) uids
      then Some (codef ErrInvalidProcessSpec ''process UID is not mapped by the rootless user namespace'' [])
      else if \<not> processUserIDMappedInNamespace (GID user) gids
      then Some (codef ErrInvalidProcessSpec ''process GID is not mapped by the rootless user namespace'' [])
      else gids_mapped (AdditionalGids user) gids)"

subsection \<open>Namespaces and mounts\<close>

fun prune_loop :: "oci_namespace list \<Rightarrow> bool \<Rightarrow> oci_namespace list" where
  "prune_loop [] has = (if has then [] else [\<lparr>ns_type = ''user'', ns_path = []\<rparr>])"
| "prune_loop (n # ns) has =
     (if ns_type n = ''network'' \<or> ns_type n = ''cgroup'' then prune_loop ns has
      else if ns_type n = ''user'' then (if has then prune_loop ns has else n # prune_loop ns True)
      else n # prune_loop ns has)"

definition pruneNamespaces :: "oci_namespace list \<Rightarrow> oci_namespace list" where
  "pruneNamespaces ns = prune_loop ns False"

definition isCgroupMount :: "oci_mount \<Rightarrow> bool" where
  "isCgroupMount m \<longleftrightarrow> MountType m = ''cgroup'' \<or> MountType m = ''cgroup2'' \<or>
     Destination m = ''/sys/fs/cgroup'' \<or> HasPrefix (Destination m) ''/sys/fs/cgroup/''"

definition removeCgroupMounts :: "oci_mount list \<Rightarrow> oci_mount list" where
  "removeCgroupMounts ms = filter (\<lambda>m. \<not> isCgroupMount m) ms"

text \<open>The clone has the same value; slices are values here.\<close>

definition cloneMounts :: "oci_mount list \<Rightarrow> oci_mount list" where
  "cloneMounts ms = map (\<lambda>m. m\<lparr>Options := Options m\<rparr>) ms"

definition is_proc_path :: "string \<Rightarrow> bool" where
  "is_proc_path p \<longleftrightarrow> p = ''/proc'' \<or> HasPrefix p ''/proc/''"

fun add_missing :: "string list \<Rightarrow> string list \<Rightarrow> string list" where
  "add_missing [] caps = caps"
| "add_missing (c # cs) caps = add_missing cs (if c \<in> set caps then caps else caps @ [c])"

subsection \<open>setupRootlessRuntimeSpec\<close>

definition override_user :: "process_user \<Rightarrow> oci_user \<Rightarrow> oci_user" where
  "override_user r u =
     u\<lparr>UID := case_option (UID u) id (want_uid r), GID := case_option (GID u) id (want_gid r),
       AdditionalGids := case_option (AdditionalGids u) id (want_gids r)\<rparr>"

definition override_process :: "process_spec \<Rightarrow> oci_process \<Rightarrow> oci_process" where
  "override_process r p =
     p\<lparr>Terminal := case_option (Terminal p) id (want_terminal r),
       Args := (if want_args r \<noteq> [] then want_args r else Args p),
       Env := (if want_env r \<noteq> [] then want_env r else Env p),
       Cwd := (if want_cwd r \<noteq> [] then want_cwd r else Cwd p),
       User := override_user (want_user r) (User p)\<rparr>"

definition rootless_linux :: "LinuxIDMapping list \<Rightarrow> LinuxIDMapping list \<Rightarrow> oci_linux \<Rightarrow> oci_linux" where
  "rootless_linux uids gids l =
     l\<lparr>MaskedPaths := filter (\<lambda>p. \<not> is_proc_path p) (MaskedPaths l),
       ReadonlyPaths := filter (\<lambda>p. \<not> is_proc_path p) (ReadonlyPaths l),
       UIDMappings := uids, GIDMappings := gids, Namespaces := pruneNamespaces (Namespaces l),
       CgroupsPath := [], Resources := None\<rparr>"

definition setupRootlessRuntimeSpec ::
    "oci_spec option \<Rightarrow> LinuxIDMapping list \<Rightarrow> LinuxIDMapping list \<Rightarrow> process_spec \<Rightarrow> oci_mount list \<Rightarrow> goerr + oci_spec" where
  "setupRootlessRuntimeSpec spec uids gids process mounts =
     (case spec of
        None \<Rightarrow> Inl (codef ErrInvalidProcessSpec ''runtime spec is required'' [])
      | Some s \<Rightarrow>
          (case Process s of
             None \<Rightarrow> Inl (codef ErrInvalidProcessSpec ''runtime spec process is required'' [])
           | Some p \<Rightarrow>
               let l = rootless_linux uids gids (case Linux s of None \<Rightarrow> zero_linux | Some l \<Rightarrow> l);
                   bounding = add_missing [''CAP_SETUID'', ''CAP_SETGID''] (case Bounding p of None \<Rightarrow> [] | Some b \<Rightarrow> b);
                   p' = override_process process (p\<lparr>NoNewPrivileges := False, Bounding := Some bounding\<rparr>);
                   ms = removeCgroupMounts (Mounts s) @ cloneMounts mounts
               in (case validateProcessUserIDsMapped (User p') (UIDMappings l) (GIDMappings l) of
                     Some e \<Rightarrow> Inl e
                   | None \<Rightarrow> Inr (s\<lparr>Process := Some p', Linux := Some l, Mounts := ms\<rparr>))))"

subsection \<open>Bind mounts\<close>

definition translate_mount :: "host_env \<Rightarrow> bundle_mount \<Rightarrow> oci_mount io" where
  "translate_mount env m =
     (let mountType = (if TrimSpace (bm_type m) = [] then ''bind'' else TrimSpace (bm_type m)) in
      if mountType \<noteq> ''bind'' then fail (codef ErrInvalidBundleMount ''unsupported rootless mount type'' [])
      else let source = TrimSpace (bm_source m) in
      if source = [] then fail (codef ErrInvalidBundleMount ''bind mount source is required'' [])
      else tryE (wrapped (\<lambda>e. codef ErrInvalidBundleMount ''resolve bind mount source'' [e]) (lift_sum (Abs env source))) (\<lambda>absoluteSource.
        attempt (Stat absoluteSource) (\<lambda>r.
          case r of
            Inl e \<Rightarrow>
              if errIsNotExist e then fail (codef ErrInvalidBundleMount ''bind mount source does not exist'' [])
              else fail (codef ErrInvalidBundleMount ''stat bind mount source'' [e])
          | Inr _ \<Rightarrow>
              let target = Clean (TrimSpace (bm_target m)) in
              if \<not> isAbs target \<or> target = ''/''
              then fail (codef ErrInvalidBundleMount ''bind mount target must be an absolute container path below root'' [])
              else ret \<lparr>Destination = target, MountType = ''bind'', MountSource = absoluteSource,
                Options = (if bm_options m = [] then [''rbind'', ''rw''] else bm_options m)\<rparr>)))"

fun translateToOCIBindMounts :: "host_env \<Rightarrow> bundle_mount list \<Rightarrow> oci_mount list io" where
  "translateToOCIBindMounts env [] = ret []"
| "translateToOCIBindMounts env (m # ms) =
     tryE (translate_mount env m) (\<lambda>o1. tryE (translateToOCIBindMounts env ms) (\<lambda>os. ret (o1 # os)))"

definition sanitizeBindMountTargetPath :: "secure_join \<Rightarrow> string \<Rightarrow> string \<Rightarrow> string io" where
  "sanitizeBindMountTargetPath SJ rootfs target =
     (let cleanTarget = Clean target in
      if \<not> isAbs cleanTarget \<or> cleanTarget = ''/''
      then fail (codef ErrInvalidBundleMount ''bind mount target must be an absolute container path below root'' [])
      else wrapped (\<lambda>e. codef ErrInvalidBundleMount ''resolve bind mount target'' [e]) (SJ rootfs (TrimPrefix cleanTarget ''/'')))"

definition dir_target :: "string \<Rightarrow> unit io" where
  "dir_target targetPath =
     attempt (Stat targetPath) (\<lambda>r.
       case r of
         Inr info \<Rightarrow>
           if \<not> is_dir (Some info) then fail (codef ErrInvalidBundleMount ''bind mount target is a file but source is a directory'' [])
           else wrapped (\<lambda>e. codef ErrBundlePrepareFailed ''create bind mount directory target'' [e]) (MkdirAll targetPath 448 0)
       | Inl e \<Rightarrow>
           if \<not> errIsNotExist e then fail (codef ErrBundlePrepareFailed ''stat bind mount target'' [e])
           else wrapped (\<lambda>e. codef ErrBundlePrepareFailed ''create bind mount directory target'' [e]) (MkdirAll targetPath 448 0))"

definition file_target :: "string \<Rightarrow> unit io" where
  "file_target targetPath =
     tryE (wrapped (\<lambda>e. codef ErrBundlePrepareFailed ''create bind mount file target parent'' [e]) (MkdirAll (Dir targetPath) 448 0)) (\<lambda>_.
     attempt (Stat targetPath) (\<lambda>r.
       case r of
         Inr info \<Rightarrow>
           if is_dir (Some info) then fail (codef ErrInvalidBundleMount ''bind mount target is a directory but source is a file'' []) else ret ()
       | Inl e \<Rightarrow>
           if \<not> errIsNotExist e then fail (codef ErrBundlePrepareFailed ''stat bind mount target'' [e])
           else tryE (wrapped (\<lambda>e. codef ErrBundlePrepareFailed ''create bind mount file target'' [e]) (OpenCreate True targetPath 384 0)) (\<lambda>_.
             wrapped (\<lambda>e. codef ErrBundlePrepareFailed ''close bind mount file target'' [e]) (Effectless targetPath))))"

fun createBindMountTargetPaths :: "secure_join \<Rightarrow> string \<Rightarrow> oci_mount list \<Rightarrow> unit io" where
  "createBindMountTargetPaths SJ rootfs [] = ret ()"
| "createBindMountTargetPaths SJ rootfs (m # ms) =
     tryE (wrapped (\<lambda>e. codef ErrInvalidBundleMount ''stat bind mount source'' [e]) (Stat (MountSource m))) (\<lambda>sourceInfo.
     tryE (sanitizeBindMountTargetPath SJ rootfs (Destination m)) (\<lambda>targetPath.
     tryE (if is_dir (Some sourceInfo) then dir_target targetPath else file_target targetPath) (\<lambda>_.
       createBindMountTargetPaths SJ rootfs ms)))"

subsection \<open>What a rootless runtime configuration is\<close>

lemma in_mapping_iff:
  "in_mapping i m \<longleftrightarrow> unat (ContainerID m) \<le> unat i \<and> unat i < unat (ContainerID m) + unat (Size m)"
proof -
  have b: "unat x < 4294967296" for x :: u32 using unsigned_less [of x] by simp
  have u: "unat (ucast x :: u64) = unat x" for x :: u32
    using b [of x] by (simp add: unsigned_ucast_eq take_bit_nat_eq_self)
  have "unat (ucast (ContainerID m) + ucast (Size m) :: u64) = unat (ContainerID m) + unat (Size m)"
    using b [of "ContainerID m"] b [of "Size m"] by (subst unat_add_lem [THEN iffD1]) (simp_all add: u)
  then show ?thesis by (simp add: in_mapping_def Let_def word_le_nat_alt word_less_nat_alt u)
qed

definition mapped :: "u32 \<Rightarrow> LinuxIDMapping list \<Rightarrow> bool" where
  "mapped i ms \<longleftrightarrow> (\<exists>m \<in> set ms. unat (ContainerID m) \<le> unat i \<and> unat i < unat (ContainerID m) + unat (Size m))"

lemma mapped_iff: "processUserIDMappedInNamespace i ms \<longleftrightarrow> mapped i ms"
  by (induction ms) (auto simp: mapped_def in_mapping_iff)

lemma gids_mapped_None: "gids_mapped gs ms = None \<longleftrightarrow> (\<forall>g \<in> set gs. mapped g ms)"
  by (induction gs) (auto simp: mapped_iff)

lemma validate_None:
  "validateProcessUserIDsMapped u uids gids = None \<longleftrightarrow> mapped (UID u) uids \<and> mapped (GID u) gids \<and> (\<forall>g \<in> set (AdditionalGids u). mapped g gids)"
  by (simp add: validateProcessUserIDsMapped_def mapped_iff gids_mapped_None)

lemma prune_loop_types: "list_all (\<lambda>n. ns_type n \<noteq> ''network'' \<and> ns_type n \<noteq> ''cgroup'') (prune_loop ns has)"
  by (induction ns arbitrary: has) simp_all

lemma prune_loop_user: "length (filter (\<lambda>n. ns_type n = ''user'') (prune_loop ns has)) = (if has then 0 else 1)"
  by (induction ns arbitrary: has) (simp_all del: length_0_conv)

lemma set_add_missing: "set (add_missing cs caps) = set cs \<union> set caps"
  by (induction cs arbitrary: caps) auto

definition rootless_spec :: "LinuxIDMapping list \<Rightarrow> LinuxIDMapping list \<Rightarrow> oci_mount list \<Rightarrow> oci_spec \<Rightarrow> oci_spec \<Rightarrow> bool" where
  "rootless_spec uids gids mounts s s' \<longleftrightarrow> (\<exists>p' l'. Process s' = Some p' \<and> Linux s' = Some l' \<and>
     UIDMappings l' = uids \<and> GIDMappings l' = gids \<and> Resources l' = None \<and> CgroupsPath l' = [] \<and>
     list_all (\<lambda>n. ns_type n \<noteq> ''network'' \<and> ns_type n \<noteq> ''cgroup'') (Namespaces l') \<and>
     length (filter (\<lambda>n. ns_type n = ''user'') (Namespaces l')) = 1 \<and>
     Mounts s' = filter (\<lambda>m. \<not> isCgroupMount m) (Mounts s) @ mounts \<and>
     mapped (UID (User p')) uids \<and> mapped (GID (User p')) gids \<and> list_all (\<lambda>g. mapped g gids) (AdditionalGids (User p')))"

text \<open>
  C26. A runtime configuration that \<open>setupRootlessRuntimeSpec\<close> accepts is rootless: it has
  exactly one user namespace and no network or cgroup namespace, no cgroup path or limits, the
  given ID mappings, the image's mounts without the cgroup ones followed by the requested ones,
  and every ID of its process is mapped, without wrap-around; of the masked and read-only paths
  exactly those under \<open>/proc\<close> are dropped, and no capability is lost.
\<close>

theorem rootless_runtime_spec:
  assumes "setupRootlessRuntimeSpec (Some s) uids gids r mounts = Inr s'" "Process s = Some p" "Linux s = Some l"
  shows "rootless_spec uids gids mounts s s' \<and>
    map_option MaskedPaths (Linux s') = Some (filter (\<lambda>q. \<not> is_proc_path q) (MaskedPaths l)) \<and>
    map_option ReadonlyPaths (Linux s') = Some (filter (\<lambda>q. \<not> is_proc_path q) (ReadonlyPaths l)) \<and>
    (\<exists>b. map_option Bounding (Process s') = Some (Some b) \<and> set b = {''CAP_SETUID'', ''CAP_SETGID''} \<union> set (case_option [] id (Bounding p)))"
proof -
  let ?p' = "override_process r (p\<lparr>NoNewPrivileges := False, Bounding := Some (add_missing [''CAP_SETUID'', ''CAP_SETGID''] (case Bounding p of None \<Rightarrow> [] | Some b \<Rightarrow> b))\<rparr>)"
  have v: "validateProcessUserIDsMapped (User ?p') uids gids = None"
    and s': "s' = s\<lparr>Process := Some ?p', Linux := Some (rootless_linux uids gids l), Mounts := removeCgroupMounts (Mounts s) @ cloneMounts mounts\<rparr>"
    using assms by (auto simp: setupRootlessRuntimeSpec_def Let_def rootless_linux_def split: option.splits)
  have "cloneMounts mounts = mounts" by (simp add: cloneMounts_def)
  moreover have "list_all (\<lambda>n. ns_type n \<noteq> ''network'' \<and> ns_type n \<noteq> ''cgroup'') (pruneNamespaces (Namespaces l))"
    "length (filter (\<lambda>n. ns_type n = ''user'') (pruneNamespaces (Namespaces l))) = 1"
    unfolding pruneNamespaces_def by (rule prune_loop_types) (simp add: prune_loop_user)
  ultimately have "rootless_spec uids gids mounts s s'"
    using v unfolding rootless_spec_def s' validate_None by (simp add: rootless_linux_def removeCgroupMounts_def list_all_iff)
  moreover have "map_option Bounding (Process s') = Some (Some (add_missing [''CAP_SETUID'', ''CAP_SETGID''] (case Bounding p of None \<Rightarrow> [] | Some b \<Rightarrow> b)))"
    by (simp add: s' override_process_def)
  moreover have "set (add_missing [''CAP_SETUID'', ''CAP_SETGID''] (case Bounding p of None \<Rightarrow> [] | Some b \<Rightarrow> b)) =
      {''CAP_SETUID'', ''CAP_SETGID''} \<union> set (case_option [] id (Bounding p))"
    unfolding set_add_missing by (auto split: option.splits)
  moreover have "map_option MaskedPaths (Linux s') = Some (filter (\<lambda>q. \<not> is_proc_path q) (MaskedPaths l))"
    "map_option ReadonlyPaths (Linux s') = Some (filter (\<lambda>q. \<not> is_proc_path q) (ReadonlyPaths l))"
    by (simp_all add: s' rootless_linux_def)
  ultimately show ?thesis by blast
qed

definition sample_spec :: oci_spec where
  "sample_spec = \<lparr>Process = Some \<lparr>Terminal = False, User = \<lparr>UID = 5, GID = 0, AdditionalGids = [7]\<rparr>, Args = [''sh''], Env = [], Cwd = ''/'',
       Bounding = Some [''CAP_KILL''], NoNewPrivileges = True, process_other = []\<rparr>,
     Mounts = [\<lparr>Destination = ''/sys/fs/cgroup/x'', MountType = ''bind'', MountSource = ''/x'', Options = []\<rparr>,
       \<lparr>Destination = ''/proc'', MountType = ''proc'', MountSource = ''proc'', Options = []\<rparr>],
     Linux = Some \<lparr>UIDMappings = [], GIDMappings = [], Namespaces = [\<lparr>ns_type = ''network'', ns_path = []\<rparr>, \<lparr>ns_type = ''pid'', ns_path = []\<rparr>],
       CgroupsPath = ''/c'', Resources = Some ''r'', MaskedPaths = [''/proc/kcore'', ''/sys/firmware''], ReadonlyPaths = [], linux_other = []\<rparr>,
     spec_other = []\<rparr>"

definition sample_maps :: "LinuxIDMapping list" where
  "sample_maps = [\<lparr>ContainerID = 0, HostID = 1000, Size = 1\<rparr>, \<lparr>ContainerID = 1, HostID = 100000, Size = 65536\<rparr>]"

definition no_overrides :: process_spec where
  "no_overrides = \<lparr>want_args = [], want_env = [], want_cwd = [], want_user = \<lparr>want_uid = None, want_gid = None, want_gids = None\<rparr>, want_terminal = None\<rparr>"

theorem rootless_runtime_spec_witness:
  "case setupRootlessRuntimeSpec (Some sample_spec) sample_maps sample_maps no_overrides [] of
     Inl e \<Rightarrow> False
   | Inr s' \<Rightarrow> rootless_spec sample_maps sample_maps [] sample_spec s' \<and> map_option MaskedPaths (Linux s') = Some [''/sys/firmware'']"
proof -
  obtain p l where pl: "Process sample_spec = Some p" "Linux sample_spec = Some l" by (simp add: sample_spec_def)
  have m: "MaskedPaths l = [''/proc/kcore'', ''/sys/firmware'']" using pl(2) by (auto simp: sample_spec_def)
  have "case setupRootlessRuntimeSpec (Some sample_spec) sample_maps sample_maps no_overrides [] of Inl e \<Rightarrow> False | Inr s' \<Rightarrow> True"
    by code_simp
  then obtain s' where s: "setupRootlessRuntimeSpec (Some sample_spec) sample_maps sample_maps no_overrides [] = Inr s'"
    by (auto split: sum.splits)
  show ?thesis using rootless_runtime_spec [OF s pl] s m by (simp add: is_proc_path_def HasPrefix_def)
qed

end
