(* ===== verification/User_NS.thy ===== *)
theory User_NS
  imports Runtime_Spec
begin

text \<open>
  The user namespace of rootless containers: \<open>pkg/bundle/internal/directory/userns.go\<close>, its
  part on \<open>/etc/subuid\<close> and \<open>/etc/subgid\<close> and the command line of \<open>unshare\<close>.
\<close>

subsection \<open>Subordinate IDs\<close>

record userNamespace =
  ns_uid :: "LinuxIDMapping list"
  ns_gid :: "LinuxIDMapping list"

text \<open>
  \<open>bufio.Scanner\<close>: the lines without their end, a carriage return before it dropped, up to the
  first line of 65536 bytes or more, which is the error \<open>ErrTooLong\<close>.
\<close>

definition drop_cr :: "string \<Rightarrow> string" where
  "drop_cr s = (if s \<noteq> [] \<and> last s = CHR 0x0D then butlast s else s)"

definition raw_lines :: "string \<Rightarrow> string list" where
  "raw_lines data = (let ls = SplitChar (CHR 0x0A) data in if last ls = [] then butlast ls else ls)"

definition scan_lines :: "string \<Rightarrow> string list \<times> goerr option" where
  "scan_lines data =
     (let ls = raw_lines data; ok = takeWhile (\<lambda>l. int (length l) < 65536) ls
      in (map drop_cr ok, if length ok < length ls then Some (Opaque ''bufio.Scanner: token too long'') else None))"

definition max_uint32 :: u64 where
  "max_uint32 = 4294967295"

text \<open>The entry of one line that names the account; \<open>start\<close> and \<open>count\<close> are 64-bit values.\<close>

definition range_entry :: "string list \<Rightarrow> u32 \<Rightarrow> goerr + LinuxIDMapping" where
  "range_entry fs ownID =
     (if length fs \<noteq> 3 then Inl (Opaque ''invalid subordinate ID entry'')
      else case (ParseUint (fs ! 1) 32, ParseUint (fs ! 2) 32) of
          (Some s, Some c) \<Rightarrow>
            let start = of_nat s :: u64; count = of_nat c :: u64 in
            if start = 0 \<or> count = 0 \<or> start + count > max_uint32 \<or>
               (ucast ownID \<ge> start \<and> ucast ownID < start + count)
            then Inl (Opaque ''invalid or overlapping subordinate ID range'')
            else Inr \<lparr>ContainerID = 1, HostID = ucast start, Size = ucast count\<rparr>
        | _ \<Rightarrow> Inl (Opaque ''invalid or overlapping subordinate ID range''))"

fun scan_ranges :: "string list \<Rightarrow> goerr option \<Rightarrow> string \<Rightarrow> u32 \<Rightarrow> u32 \<Rightarrow> goerr + LinuxIDMapping option" where
  "scan_ranges [] err name accountID ownID = (case err of Some e \<Rightarrow> Inl e | None \<Rightarrow> Inr None)"
| "scan_ranges (text # ls) err name accountID ownID =
     (let line = TrimSpace text in
      if line = [] \<or> HasPrefix line ''#'' then scan_ranges ls err name accountID ownID
      else let fs = SplitChar (CHR '':'') line in
        if (name = [] \<or> hd fs \<noteq> name) \<and> hd fs \<noteq> FormatUint (unat accountID)
        then scan_ranges ls err name accountID ownID
        else map_sum id Some (range_entry fs ownID))"

definition subordinateRange :: "string \<Rightarrow> string \<Rightarrow> u32 \<Rightarrow> u32 \<Rightarrow> goerr + LinuxIDMapping option" where
  "subordinateRange data name accountID ownID =
     (case scan_lines data of (ls, err) \<Rightarrow> scan_ranges ls err name accountID ownID)"

definition own_mapping :: "u32 \<Rightarrow> LinuxIDMapping" where
  "own_mapping own = \<lparr>ContainerID = 0, HostID = own, Size = 1\<rparr>"

text \<open>One of the two files: a missing file adds nothing.\<close>

definition read_ranges :: "string \<Rightarrow> string \<Rightarrow> u32 \<Rightarrow> u32 \<Rightarrow> LinuxIDMapping list io" where
  "read_ranges path name uid own =
     attempt (ReadFile path) (\<lambda>r.
       case r of
         Inl e \<Rightarrow> if errIsNotExist e then ret [own_mapping own] else fail (codef ErrUnsupportedHost (''read '' @ path) [e])
       | Inr data \<Rightarrow>
           (case subordinateRange data name uid own of
              Inl e \<Rightarrow> fail (codef ErrUnsupportedHost path [e])
            | Inr None \<Rightarrow> ret [own_mapping own]
            | Inr (Some m) \<Rightarrow> ret [own_mapping own, m]))"

text \<open>\<open>account\<close> is the result of \<open>user.Current\<close>.\<close>

definition currentUserNamespace :: "u32 \<Rightarrow> u32 \<Rightarrow> goerr + string \<Rightarrow> userNamespace io" where
  "currentUserNamespace uid gid account =
     (let name = (case account of Inl e \<Rightarrow> [] | Inr n \<Rightarrow> n) in
      tryE (read_ranges ''/etc/subuid'' name uid uid) (\<lambda>us.
      tryE (read_ranges ''/etc/subgid'' name uid gid) (\<lambda>gs.
        if (length us > 1) \<noteq> (length gs > 1)
        then fail (codef ErrUnsupportedHost ''configure both /etc/subuid and /etc/subgid for this user'' [])
        else ret \<lparr>ns_uid = us, ns_gid = gs\<rparr>)))"

definition multipleIDs :: "userNamespace \<Rightarrow> bool" where
  "multipleIDs ns \<longleftrightarrow> length (ns_uid ns) > 1 \<and> length (ns_gid ns) > 1"

subsection \<open>The unshare command line\<close>

definition map_flag :: "string \<Rightarrow> LinuxIDMapping \<Rightarrow> string" where
  "map_flag name m = ''--map-'' @ name @ ''='' @ FormatUint (unat (HostID m)) @ '','' @ FormatUint (unat (ContainerID m)) @ '','' @ FormatUint (unat (Size m))"

definition ns_flags :: "userNamespace \<Rightarrow> string \<Rightarrow> string list \<Rightarrow> string list" where
  "ns_flags ns program args =
     [''--user'', ''--map-root-user''] @ map (map_flag ''users'') (drop 1 (ns_uid ns)) @
     map (map_flag ''groups'') (drop 1 (ns_gid ns)) @ [''--'', program] @ args"

subsection \<open>The mapping is one to one\<close>

lemma unat_ucast_u64: "unat (ucast x :: u64) = unat (x :: u32)"
proof -
  have "unat x < 4294967296" using unsigned_less [of x] by simp
  then show ?thesis by (simp add: unsigned_ucast_eq take_bit_nat_eq_self)
qed

lemma unat_of_nat_u64: "n < 2 ^ 32 \<Longrightarrow> unat (of_nat n :: u64) = n"
  by (simp add: unsigned_of_nat take_bit_nat_eq_self)

lemma unat_narrow: "unat (x :: u64) < 2 ^ 32 \<Longrightarrow> unat (ucast x :: u32) = unat x"
  by (simp add: unsigned_ucast_eq take_bit_nat_eq_self)

text \<open>A range that is accepted: nonempty, below \<open>2 ^ 32\<close>, without the account's own ID.\<close>

definition range_ok :: "u32 \<Rightarrow> LinuxIDMapping \<Rightarrow> bool" where
  "range_ok own m \<longleftrightarrow> ContainerID m = 1 \<and> 0 < unat (HostID m) \<and> 0 < unat (Size m) \<and>
     unat (HostID m) + unat (Size m) < 2 ^ 32 \<and> \<not> (unat (HostID m) \<le> unat own \<and> unat own < unat (HostID m) + unat (Size m))"

lemma range_entry_ok: "range_entry fs own = Inr m \<Longrightarrow> range_ok own m"
proof -
  assume r: "range_entry fs own = Inr m"
  then obtain s c where p: "ParseUint (fs ! 1) 32 = Some s" "ParseUint (fs ! 2) 32 = Some c"
    by (auto simp: range_entry_def split: if_splits option.splits)
  let ?s = "of_nat s :: u64" and ?c = "of_nat c :: u64"
  have b: "s < 2 ^ 32" "c < 2 ^ 32" using ParseUint_bound p by blast+
  have u: "unat ?s = s" "unat ?c = c" using b by (simp_all only: unat_of_nat_u64)
  have sum: "unat (?s + ?c) = s + c" using b by (subst unat_add_lem [THEN iffD1]) (simp_all only: u, simp)
  have k: "?s \<noteq> 0" "?c \<noteq> 0" "\<not> ?s + ?c > max_uint32" "\<not> (ucast own \<ge> ?s \<and> ucast own < ?s + ?c)"
    and m: "m = \<lparr>ContainerID = 1, HostID = ucast ?s, Size = ucast ?c\<rparr>"
    using r p by (auto simp: range_entry_def Let_def split: if_splits)
  have n: "unat (HostID m) = s" "unat (Size m) = c" using b u by (simp_all only: m LinuxIDMapping.simps unat_narrow)
  have "s \<noteq> 0" using k(1) by (cases "s = 0") simp_all
  moreover have "c \<noteq> 0" using k(2) by (cases "c = 0") simp_all
  moreover have "s + c < 2 ^ 32" using k(3) sum by (simp add: word_less_nat_alt max_uint32_def)
  moreover have "\<not> (s \<le> unat own \<and> unat own < s + c)"
    using k(4) by (simp only: word_le_nat_alt word_less_nat_alt unat_ucast_u64 u sum simp_thms)
  ultimately show ?thesis using n m unfolding range_ok_def by simp
qed

lemma scan_ranges_ok: "scan_ranges ls err name acc own = Inr (Some m) \<Longrightarrow> range_ok own m"
proof (induction ls err name acc own rule: scan_ranges.induct)
  case (2 t ls err name acc own)
  then show ?case
    by (auto simp: Let_def split: if_splits) (auto dest!: range_entry_ok simp: map_sum_def split: sum.splits)
qed (simp split: option.splits)

text \<open>Where an ID of the container lies on the host.\<close>

definition host_id :: "LinuxIDMapping list \<Rightarrow> nat \<Rightarrow> nat option" where
  "host_id ms c =
     map_option (\<lambda>m. unat (HostID m) + (c - unat (ContainerID m)))
       (find (\<lambda>m. unat (ContainerID m) \<le> c \<and> c < unat (ContainerID m) + unat (Size m)) ms)"

definition maps_ok :: "u32 \<Rightarrow> LinuxIDMapping list \<Rightarrow> bool" where
  "maps_ok own ms \<longleftrightarrow> ms = [own_mapping own] \<or> (\<exists>m. ms = [own_mapping own, m] \<and> range_ok own m)"

lemma read_ranges_post:
  "post (read_ranges path name uid own) (\<lambda>r w'. \<forall>ms. r = Inr ms \<longrightarrow> maps_ok own ms) w"
proof -
  have k: "maps_ok own [own_mapping own, m]" if "subordinateRange data name uid own = Inr (Some m)" for data m
    using that scan_ranges_ok by (auto simp: subordinateRange_def maps_ok_def split: prod.splits)
  show ?thesis
    unfolding read_ranges_def
  proof (rule attI, rule post_reads, simp)
    fix r and w' :: world
    have own: "maps_ok own [own_mapping own]" by (simp add: maps_ok_def)
    show "post (case r of Inl e \<Rightarrow> if errIsNotExist e then ret [own_mapping own] else fail (codef ErrUnsupportedHost (''read '' @ path) [e])
       | Inr data \<Rightarrow> (case subordinateRange data name uid own of
              Inl e \<Rightarrow> fail (codef ErrUnsupportedHost path [e])
            | Inr None \<Rightarrow> ret [own_mapping own]
            | Inr (Some m) \<Rightarrow> ret [own_mapping own, m])) (\<lambda>r w'. \<forall>ms. r = Inr ms \<longrightarrow> maps_ok own ms) w'"
      by (cases r) (simp_all add: wp own k split: sum.split option.split)
  qed
qed

lemma host_id_range:
  assumes "range_ok own m"
  shows "host_id [own_mapping own, m] c =
    (if c = 0 then Some (unat own) else if c \<le> unat (Size m) then Some (unat (HostID m) + (c - 1)) else None)"
  using assms by (auto simp: host_id_def own_mapping_def range_ok_def)

lemma maps_injective:
  assumes "maps_ok own ms" "host_id ms c = Some h" "host_id ms d = Some h"
  shows "c = d"
  using assms(1) unfolding maps_ok_def
proof
  assume "ms = [own_mapping own]"
  then show ?thesis using assms(2,3) by (auto simp: host_id_def own_mapping_def split: if_splits)
next
  assume "\<exists>m. ms = [own_mapping own, m] \<and> range_ok own m"
  then obtain m where m: "ms = [own_mapping own, m]" "range_ok own m" by blast
  have ap: "unat own \<noteq> unat (HostID m) + (k - 1)" if "k \<noteq> 0" "k \<le> unat (Size m)" for k
    using m(2) that unfolding range_ok_def by auto
  show ?thesis using assms(2,3) ap [of c] ap [of d] unfolding m(1) host_id_range [OF m(2)] by (auto split: if_splits)
qed

lemma both_ranges_post:
  "post (tryE (read_ranges p name uid uid) (\<lambda>us. tryE (read_ranges q name uid gid) (\<lambda>gs.
        if (length us > 1) \<noteq> (length gs > 1) then fail e else ret \<lparr>ns_uid = us, ns_gid = gs\<rparr>)))
     (\<lambda>r w'. \<forall>ns. r = Inr ns \<longrightarrow> maps_ok uid (ns_uid ns) \<and> maps_ok gid (ns_gid ns) \<and>
        (length (ns_uid ns) > 1) = (length (ns_gid ns) > 1)) w" (is "post _ ?Q w")
proof (rule tryI, rule post_mono [OF read_ranges_post])
  fix r :: "goerr + LinuxIDMapping list" and w1 :: world assume u: "\<forall>us. r = Inr us \<longrightarrow> maps_ok uid us"
  have "post (tryE (read_ranges q name uid gid) (\<lambda>gs. if (length us > 1) \<noteq> (length gs > 1) then fail e else ret \<lparr>ns_uid = us, ns_gid = gs\<rparr>)) ?Q w1"
    if "maps_ok uid us" for us
    by (rule tryI, rule post_mono [OF read_ranges_post]) (use that in \<open>auto simp: wp split: sum.split\<close>)
  then show "case r of Inl e \<Rightarrow> ?Q (Inl e) w1 | Inr us \<Rightarrow> post (tryE (read_ranges q name uid gid)
      (\<lambda>gs. if (length us > 1) \<noteq> (length gs > 1) then fail e else ret \<lparr>ns_uid = us, ns_gid = gs\<rparr>)) ?Q w1"
    using u by (cases r) simp_all
qed

text \<open>
  C24. The user namespace is sound: container root is the caller, distinct container IDs are
  distinct host IDs below \<open>2 ^ 32\<close>, host root is never mapped for an unprivileged caller, and
  either both kinds of IDs have a subordinate range or neither has.
\<close>

theorem namespace_one_to_one:
  assumes "currentUserNamespace uid gid account w = (Inr ns, w')"
  shows "host_id (ns_uid ns) 0 = Some (unat uid) \<and> host_id (ns_gid ns) 0 = Some (unat gid) \<and>
    (\<forall>c d h. host_id (ns_uid ns) c = Some h \<and> host_id (ns_uid ns) d = Some h \<longrightarrow> c = d) \<and>
    (\<forall>c d h. host_id (ns_gid ns) c = Some h \<and> host_id (ns_gid ns) d = Some h \<longrightarrow> c = d) \<and>
    (\<forall>c. uid \<noteq> 0 \<longrightarrow> host_id (ns_uid ns) c \<noteq> Some 0) \<and> (\<forall>c h. host_id (ns_uid ns) c = Some h \<longrightarrow> h < 2 ^ 32) \<and>
    (multipleIDs ns \<or> length (ns_uid ns) = 1 \<and> length (ns_gid ns) = 1)"
proof -
  have "post (currentUserNamespace uid gid account) (\<lambda>r w'. \<forall>ns. r = Inr ns \<longrightarrow>
      maps_ok uid (ns_uid ns) \<and> maps_ok gid (ns_gid ns) \<and> (length (ns_uid ns) > 1) = (length (ns_gid ns) > 1)) w"
    unfolding currentUserNamespace_def Let_def by (rule both_ranges_post)
  from postD [OF this assms] have m: "maps_ok uid (ns_uid ns)" "maps_ok gid (ns_gid ns)"
    "(length (ns_uid ns) > 1) = (length (ns_gid ns) > 1)" by auto
  have z: "host_id ms 0 = Some (unat own)" if "maps_ok own ms" for own ms
    using that by (auto simp: maps_ok_def host_id_def own_mapping_def)
  have r: "host_id ms c = Some h \<Longrightarrow> h < 2 ^ 32 \<and> (own \<noteq> 0 \<longrightarrow> h \<noteq> 0)" if "maps_ok own ms" for own ms c h
  proof -
    assume h: "host_id ms c = Some h"
    have o: "unat own < 2 ^ 32" using unsigned_less [of own] by simp
    have "own \<noteq> 0 \<longrightarrow> unat own \<noteq> 0" by (simp add: unat_eq_zero)
    with that h o show ?thesis
      unfolding maps_ok_def
      by (elim disjE exE conjE) (simp_all only: host_id_range, auto simp: host_id_def own_mapping_def range_ok_def split: if_splits)
  qed
  have "multipleIDs ns \<or> length (ns_uid ns) = 1 \<and> length (ns_gid ns) = 1"
    using m by (auto simp: multipleIDs_def maps_ok_def)
  then show ?thesis using z [OF m(1)] z [OF m(2)] maps_injective [OF m(1)] maps_injective [OF m(2)] r [OF m(1)] by blast
qed

definition subid_world :: world where
  "subid_world = \<lparr>files = [(''/etc/subuid'', FileNode ''ci:100000:65536'' 420 1), (''/etc/subgid'', FileNode ''ci:200000:65536'' 420 1)],
     faults = [], now = 0, fresh = 0\<rparr>"

lemma sample_ranges:
  "subordinateRange ''ci:100000:65536'' ''ci'' 1000 1000 = Inr (Some \<lparr>ContainerID = 1, HostID = 100000, Size = 65536\<rparr>)"
  "subordinateRange ''ci:200000:65536'' ''ci'' 1000 1000 = Inr (Some \<lparr>ContainerID = 1, HostID = 200000, Size = 65536\<rparr>)"
  by (simp_all add: subordinateRange_def scan_lines_def raw_lines_def Let_def drop_cr_def TrimSpace_def is_space_def ord_def HasPrefix_def
      range_entry_def ParseUint_def digits_value_def is_digit_def max_uint32_def)

lemma sample_reads:
  "\<exists>w1. read_ranges ''/etc/subuid'' ''ci'' 1000 1000 subid_world = (Inr [own_mapping 1000, \<lparr>ContainerID = 1, HostID = 100000, Size = 65536\<rparr>], w1) \<and>
     (\<exists>w2. read_ranges ''/etc/subgid'' ''ci'' 1000 1000 w1 = (Inr [own_mapping 1000, \<lparr>ContainerID = 1, HostID = 200000, Size = 65536\<rparr>], w2))"
  by (simp add: read_ranges_def attempt_def ReadFile_def syscall_def syscall_with_def next_fault_def subid_world_def numeral_eq_Suc(1)
      node_at_def sample_ranges ret_def)

theorem namespace_one_to_one_witness:
  "case currentUserNamespace 1000 1000 (Inr ''ci'') subid_world of
     (Inr ns, w') \<Rightarrow> multipleIDs ns \<and> host_id (ns_uid ns) 0 = Some 1000 \<and> host_id (ns_gid ns) 5 \<noteq> host_id (ns_gid ns) 6
   | _ \<Rightarrow> False"
proof -
  obtain ns w' where e: "currentUserNamespace 1000 1000 (Inr ''ci'') subid_world = (Inr ns, w')"
    and ns: "ns = \<lparr>ns_uid = [own_mapping 1000, \<lparr>ContainerID = 1, HostID = 100000, Size = 65536\<rparr>],
      ns_gid = [own_mapping 1000, \<lparr>ContainerID = 1, HostID = 200000, Size = 65536\<rparr>]\<rparr>"
    using sample_reads by (auto simp: currentUserNamespace_def Let_def tryE_def ret_def)
  have t: "host_id (ns_uid ns) 0 = Some (unat (1000 :: u32))" "\<forall>c d h. host_id (ns_gid ns) c = Some h \<and> host_id (ns_gid ns) d = Some h \<longrightarrow> c = d"
    using namespace_one_to_one [OF e] by blast+
  have h: "host_id (ns_gid ns) 5 = Some 200004" by (simp add: ns host_id_def own_mapping_def)
  have "host_id (ns_gid ns) 5 \<noteq> host_id (ns_gid ns) 6"
  proof
    assume "host_id (ns_gid ns) 5 = host_id (ns_gid ns) 6"
    then have "(5 :: nat) = 6" using t(2) h by metis
    then show False by simp
  qed
  moreover have "multipleIDs ns" by (simp add: ns multipleIDs_def)
  ultimately show ?thesis using e t(1) by simp
qed

end
