(* ===== verification/Bundle_Removal.thy ===== *)
theory Bundle_Removal
  imports User_NS
begin

text \<open>
  Removing bundles: the functions of \<open>pkg/bundle/internal/directory/provisioner.go\<close> and
  \<open>userns.go\<close> that delete a bundle whose files a runtime may have mounted or made unreadable.

  The table of mounts is not modelled: \<open>/proc/self/mountinfo\<close> is a file and \<open>Unmount\<close> a call
  that can fail. \<open>unshare\<close> runs a command and \<open>decode_spec\<close> is the JSON decoder; both are
  parameters.
\<close>

subsection \<open>Mount points\<close>

text \<open>\<open>strings.ReplaceAll\<close> with a nonempty old string.\<close>

fun ReplaceAll :: "nat \<Rightarrow> string \<Rightarrow> string \<Rightarrow> string \<Rightarrow> string" where
  "ReplaceAll k old new [] = []"
| "ReplaceAll (Suc k) old new (c # s) = ReplaceAll k old new s"
| "ReplaceAll 0 old new (c # s) =
     (if HasPrefix (c # s) old then new @ ReplaceAll (length old - 1) old new s else c # ReplaceAll 0 old new s)"

definition unescapeMountInfoPath :: "string \<Rightarrow> string" where
  "unescapeMountInfoPath path =
     (let path = ReplaceAll 0 [CHR 0x5C, CHR ''0'', CHR ''4'', CHR ''0''] [CHR 0x20] path;
          path = ReplaceAll 0 [CHR 0x5C, CHR ''0'', CHR ''1'', CHR ''1''] [CHR 0x09] path;
          path = ReplaceAll 0 [CHR 0x5C, CHR ''0'', CHR ''1'', CHR ''2''] [CHR 0x0A] path
      in ReplaceAll 0 [CHR 0x5C, CHR ''1'', CHR ''3'', CHR ''4''] [CHR 0x5C] path)"

definition pathIsWithin :: "string \<Rightarrow> string \<Rightarrow> bool" where
  "pathIsWithin parent child =
     (case Rel parent child of
        Inl e \<Rightarrow> False
      | Inr relative \<Rightarrow> relative = ''.'' \<or> (relative \<noteq> ''..'' \<and> \<not> HasPrefix relative ''../''))"

text \<open>\<open>strings.Fields\<close>\<close>

fun fields_acc :: "string \<Rightarrow> string \<Rightarrow> string list" where
  "fields_acc cur [] = (if cur = [] then [] else [rev cur])"
| "fields_acc cur (c # s) =
     (if is_space c then (if cur = [] then fields_acc [] s else rev cur # fields_acc [] s) else fields_acc (c # cur) s)"

definition Fields :: "string \<Rightarrow> string list" where
  "Fields s = fields_acc [] s"

definition mount_points :: "string \<Rightarrow> string list \<Rightarrow> string list" where
  "mount_points root ls =
     filter (pathIsWithin root) (concat (map (\<lambda>l. let f = Fields l in if length f < 5 then [] else [unescapeMountInfoPath (f ! 4)]) ls))"

fun errno_in :: "errno set \<Rightarrow> goerr \<Rightarrow> bool" where
  "errno_in es e = err_any (\<lambda>x. case x of SysErr n _ \<Rightarrow> n \<in> es | _ \<Rightarrow> False) e"

definition Unmount :: "string \<Rightarrow> unit io" where
  "Unmount p = Effectless p"

fun unmount_all :: "string list \<Rightarrow> unit io" where
  "unmount_all [] = ret ()"
| "unmount_all (p # ps) =
     attempt (Unmount p) (\<lambda>r.
       case r of
         Inl e \<Rightarrow> if errno_in {EINVAL, ENOENT} e then unmount_all ps else fail e
       | Inr _ \<Rightarrow> unmount_all ps)"

definition unmountNestedMounts :: "string \<Rightarrow> unit io" where
  "unmountNestedMounts root =
     attempt (OpenRead ''/proc/self/mountinfo'') (\<lambda>r.
       case r of
         Inl e \<Rightarrow> ret ()
       | Inr _ \<Rightarrow>
           deferred (Effectless ''/proc/self/mountinfo'')
            (tryE (ReadFile ''/proc/self/mountinfo'') (\<lambda>data.
               case scan_lines data of
                 (ls, Some e) \<Rightarrow> fail e
               | (ls, None) \<Rightarrow> unmount_all (sort_key (\<lambda>m. - int (length m)) (mount_points (Clean root) ls)))))"

subsection \<open>Removal\<close>

text \<open>\<open>filepath.WalkDir\<close> visits the directories of the tree in lexical order, each before its entries.\<close>

definition walk_dirs :: "world \<Rightarrow> string \<Rightarrow> string list" where
  "walk_dirs w root = sort (map fst (filter (\<lambda>kv. inside root (fst kv) \<and> is_dir (Some (snd kv))) (files w)))"

fun chmod_dirs :: "string list \<Rightarrow> unit io" where
  "chmod_dirs [] = ret ()"
| "chmod_dirs (d # ds) = tryE (Chmod d 448) (\<lambda>_. tryE (ReadDir d) (\<lambda>_. chmod_dirs ds))"

definition makeBundleDirectoriesWritable :: "string \<Rightarrow> unit io" where
  "makeBundleDirectoriesWritable root =
     attempt (Chmod root 448) (\<lambda>r.
       case r of
         Inl e \<Rightarrow> if \<not> errIsNotExist e then fail e else tryE (Lstat root) (\<lambda>_. \<lambda>w. chmod_dirs (walk_dirs w root) w)
       | Inr _ \<Rightarrow> tryE (Lstat root) (\<lambda>_. \<lambda>w. chmod_dirs (walk_dirs w root) w))"

text \<open>What follows a failed removal; \<open>again\<close> is the next round with the updated tables.\<close>

definition removal_failed ::
    "string \<Rightarrow> string list \<Rightarrow> (string \<Rightarrow> nat) \<Rightarrow> (string list \<Rightarrow> (string \<Rightarrow> nat) \<Rightarrow> unit io) \<Rightarrow> goerr \<Rightarrow> unit io" where
  "removal_failed dir notExist busy again err =
     (case err of
        SysErr n p \<Rightarrow>
          if errIsNotExist err then
            if p \<in> set notExist then fail (codef ErrFilesystemFailed ''remove bundle'' [err])
            else if p = dir then ret () else again (p # notExist) busy
          else if n \<noteq> EBUSY then fail (codef ErrFilesystemFailed ''remove bundle'' [err])
          else attempt (Unmount p) (\<lambda>r.
            if (case r of Inl e \<Rightarrow> \<not> errno_in {EINVAL, ENOENT} e | Inr _ \<Rightarrow> False)
            then fail (codef ErrFilesystemFailed ''unmount busy bundle path'' (case r of Inl e \<Rightarrow> [e] | Inr _ \<Rightarrow> []))
            else if busy p = 50 then fail (codef ErrFilesystemFailed ''remove bundle'' [err])
            else again notExist (busy(p := busy p + 1)))
      | _ \<Rightarrow> fail (codef ErrFilesystemFailed ''remove bundle'' [err]))"

fun remove_loop :: "nat \<Rightarrow> ctx \<Rightarrow> string \<Rightarrow> string list \<Rightarrow> (string \<Rightarrow> nat) \<Rightarrow> unit io" where
  "remove_loop 0 c dir notExist busy = fail (Opaque ''rounds exhausted'')"
| "remove_loop (Suc rounds) c dir notExist busy =
     check_ctx c (\<lambda>e. codef ErrCanceled ''bundle removal canceled'' [e])
      (attempt (RemoveAll dir) (\<lambda>r.
         case r of
           Inr _ \<Rightarrow> ret ()
         | Inl err \<Rightarrow>
             if errno_in {EACCES, EPERM} err then
               attempt (makeBundleDirectoriesWritable dir) (\<lambda>r2.
                 case r2 of
                   Inl ce \<Rightarrow> fail (codef ErrFilesystemFailed ''make bundle removable'' [ce])
                 | Inr _ \<Rightarrow>
                     attempt (RemoveAll dir) (\<lambda>r3.
                       case r3 of
                         Inr _ \<Rightarrow> ret ()
                       | Inl err \<Rightarrow> removal_failed dir notExist busy (remove_loop rounds c dir) err))
             else removal_failed dir notExist busy (remove_loop rounds c dir) err))"

text \<open>
  The rounds that can occur: for each name of the tree 50 retries while it is busy and one when
  it is missing, and the last round.
\<close>

definition removal_rounds :: "world \<Rightarrow> nat" where
  "removal_rounds w = length (files w) * 51 + 52"

definition removeRuntimeMutatedBundle :: "ctx \<Rightarrow> string \<Rightarrow> unit io" where
  "removeRuntimeMutatedBundle c dir =
     check_ctx c (\<lambda>e. codef ErrCanceled ''bundle removal canceled'' [e])
      (attempt (RemoveAll dir) (\<lambda>r.
         case r of
           Inr _ \<Rightarrow> ret ()
         | Inl _ \<Rightarrow> attempt (unmountNestedMounts dir) (\<lambda>_. \<lambda>w. remove_loop (removal_rounds w) c dir [] (\<lambda>_. 0) w)))"

text \<open>\<open>unshare argv dir\<close> runs \<open>unshare\<close> with the arguments in a directory and returns its output.\<close>

record bundle_tools =
  unshare :: "string list \<Rightarrow> string \<Rightarrow> string io"
  decode_spec :: "string \<Rightarrow> goerr + oci_spec"

definition cleanup_script :: string where
  "cleanup_script = ''set -e'' @ [CHR 0x0A] @ ''chmod -R u+rwX -- '' @ [CHR 0x22, CHR ''$'', CHR ''1'', CHR 0x22] @ [CHR 0x0A] @
     ''exec rm -rf --one-file-system -- '' @ [CHR 0x22, CHR ''$'', CHR ''1'', CHR 0x22]"

definition removeBundleDirectory :: "bundle_tools \<Rightarrow> ctx \<Rightarrow> string \<Rightarrow> unit io" where
  "removeBundleDirectory tools c path =
     attempt (Lstat (Join [path, ''rootfs''])) (\<lambda>r.
       case r of
         Inl e \<Rightarrow>
           if errIsNotExist e then removeRuntimeMutatedBundle c path
           else fail (codef ErrFilesystemFailed ''inspect bundle rootfs'' [e])
       | Inr _ \<Rightarrow>
     attempt (ReadFile (Join [path, ''config.json''])) (\<lambda>r.
       case r of
         Inl e \<Rightarrow>
           if errIsNotExist e then removeRuntimeMutatedBundle c path
           else fail (codef ErrFilesystemFailed ''read bundle namespace'' [e])
       | Inr data \<Rightarrow>
     (case decode_spec tools data of
        Inl e \<Rightarrow> fail (codef ErrFilesystemFailed ''read bundle namespace'' [e])
      | Inr spec \<Rightarrow>
     (case Linux spec of
        None \<Rightarrow> removeRuntimeMutatedBundle c path
      | Some l \<Rightarrow>
          let ns = \<lparr>ns_uid = UIDMappings l, ns_gid = GIDMappings l\<rparr> in
          if \<not> multipleIDs ns then removeRuntimeMutatedBundle c path
          else attempt (unshare tools (ns_flags ns ''/bin/sh'' [''-c'', cleanup_script, ''chamber-bundle-cleanup'', path]) []) (\<lambda>r.
            case r of
              Inl e \<Rightarrow> check_ctx c (\<lambda>x. codef ErrCanceled ''remove mapped bundle'' [x]) (fail (codef ErrFilesystemFailed ''remove mapped bundle'' [e]))
            | Inr _ \<Rightarrow> ret ())))))"

fun remove_entries :: "bundle_tools \<Rightarrow> ctx \<Rightarrow> string \<Rightarrow> string \<Rightarrow> string list \<Rightarrow> unit io" where
  "remove_entries tools c tmpRoot prefix [] = ret ()"
| "remove_entries tools c tmpRoot prefix (name # names) =
     (if \<not> HasPrefix name prefix then remove_entries tools c tmpRoot prefix names
      else tryE (removeBundleDirectory tools c (Join [tmpRoot, name])) (\<lambda>_. remove_entries tools c tmpRoot prefix names))"

text \<open>The entries of a directory that are directories themselves, in the order of \<open>os.ReadDir\<close>.\<close>

definition dir_entries :: "world \<Rightarrow> string \<Rightarrow> string list \<Rightarrow> string list" where
  "dir_entries w dir names = filter (\<lambda>n. is_dir (node_at w (Join [dir, n]))) (sort names)"

definition removeTemporaryBundles :: "bundle_tools \<Rightarrow> ctx \<Rightarrow> string \<Rightarrow> string \<Rightarrow> unit io" where
  "removeTemporaryBundles tools c tmpRoot containerID =
     attempt (ReadDir tmpRoot) (\<lambda>r.
       case r of
         Inl e \<Rightarrow> if errIsNotExist e then ret () else fail (codef ErrFilesystemFailed ''list temporary bundles'' [e])
       | Inr names \<Rightarrow> (\<lambda>w. remove_entries tools c tmpRoot (''.'' @ containerID @ ''.tmp-'') (dir_entries w tmpRoot names) w))"

subsection \<open>Removing a provisioned bundle\<close>

record provisioner =
  prov_root :: string
  prov_ns :: userNamespace
  prov_ws :: "workspace option"

record provisioned_bundle =
  BundleID :: string
  BundlePath :: string

definition prov_Remove :: "bundle_tools \<Rightarrow> host_env \<Rightarrow> provisioner option \<Rightarrow> ctx option \<Rightarrow> provisioned_bundle \<Rightarrow> unit io" where
  "prov_Remove tools env op oc b =
     (case oc of
        None \<Rightarrow> fail (codef ErrInvalidRequest ''context is required'' [])
      | Some c \<Rightarrow>
          check_ctx c (\<lambda>e. codef ErrCanceled ''bundle removal canceled before start'' [e])
           (case op of
              None \<Rightarrow> fail (codef ErrInvalidRequest ''bundle workspace is required'' [])
            | Some p \<Rightarrow>
                (case prov_ws p of
                   None \<Rightarrow> fail (codef ErrInvalidRequest ''bundle workspace is required'' [])
                 | Some ws \<Rightarrow>
                     if TrimSpace (prov_root p) = [] then fail (codef ErrInvalidRequest ''bundle root is required'' [])
                     else tryE (lift_err (ValidateBundleID (BundleID b))) (\<lambda>_.
                       let bundlePath = Join [prov_root p, BundleID b];
                           remove = tryE (removeTemporaryBundles tools c (ws_tmp ws) (BundleID b)) (\<lambda>_. removeBundleDirectory tools c bundlePath)
                       in if TrimSpace (BundlePath b) = [] then remove
                          else tryE (wrapped (\<lambda>e. codef ErrInvalidRequest ''resolve bundle path'' [e]) (lift_sum (Abs env bundlePath))) (\<lambda>expected.
                            tryE (wrapped (\<lambda>e. codef ErrInvalidRequest ''resolve provisioned bundle path'' [e]) (lift_sum (Abs env (BundlePath b)))) (\<lambda>actual.
                              if Clean actual \<noteq> Clean expected
                              then fail (codef ErrInvalidRequest ''provisioned bundle path is not owned by bundle root'' [])
                              else remove))))))"

subsection \<open>Escaped mount points\<close>

lemma ReplaceAll_skip: "ReplaceAll (length t) old new (t @ s) = ReplaceAll 0 old new s"
  by (induction t) simp_all

text \<open>Text without a backslash is copied, since every old string starts with one.\<close>

lemma ReplaceAll_plain: "CHR 0x5C \<notin> set t \<Longrightarrow> ReplaceAll 0 (CHR 0x5C # old) new (t @ s) = t @ ReplaceAll 0 (CHR 0x5C # old) new s"
  by (induction t) (auto simp: HasPrefix_def)

text \<open>A character is written as itself or as a backslash and three digits.\<close>

definition token :: "string \<Rightarrow> char \<Rightarrow> bool" where
  "token t c \<longleftrightarrow> (t = [c] \<and> c \<noteq> CHR 0x5C) \<or> (\<exists>u. t = CHR 0x5C # u \<and> length u = 3 \<and> CHR 0x5C \<notin> set u)"

lemma ReplaceAll_tokens:
  assumes "f d = CHR 0x5C # u" "length u = 3" "CHR 0x5C \<notin> set u" "g d = [d]"
    and "\<And>c. c \<noteq> d \<Longrightarrow> g c = f c \<and> token (f c) c \<and> f c \<noteq> f d"
  shows "ReplaceAll 0 (CHR 0x5C # u) [d] (concat (map f p)) = concat (map g p)"
proof (induction p)
  case (Cons c p)
  show ?case
  proof (cases "c = d")
    case True
    have "HasPrefix (CHR 0x5C # u @ concat (map f p)) (CHR 0x5C # u)" using HasPrefix_append [of "CHR 0x5C # u" "concat (map f p)"] by simp
    then show ?thesis using Cons True assms(1,4) ReplaceAll_skip [of u "CHR 0x5C # u" "[d]" "concat (map f p)"] by simp
  next
    case False
    then have g: "g c = f c" "token (f c) c" "f c \<noteq> CHR 0x5C # u" using assms(1,5) by auto
    from g(2) consider "f c = [c]" "c \<noteq> CHR 0x5C" | v where "f c = CHR 0x5C # v" "length v = 3" "CHR 0x5C \<notin> set v"
      by (auto simp: token_def)
    then show ?thesis
    proof cases
      case 1
      then show ?thesis using Cons g(1) ReplaceAll_plain [of "[c]" u "[d]" "concat (map f p)"] by simp
    next
      case (2 v)
      have "\<not> HasPrefix (CHR 0x5C # v @ concat (map f p)) (CHR 0x5C # u)" using 2 assms(2) g(3) by (simp add: HasPrefix_def)
      then show ?thesis using Cons g(1) 2 ReplaceAll_plain [of v u "[d]" "concat (map f p)"] by simp
    qed
  qed
qed simp

text \<open>How the kernel writes a path in \<open>mountinfo\<close>: white space and backslashes in octal.\<close>

definition mountinfo_char :: "char set \<Rightarrow> char \<Rightarrow> string" where
  "mountinfo_char done c =
     (if c \<in> done then [c]
      else if c = CHR 0x20 then [CHR 0x5C, CHR ''0'', CHR ''4'', CHR ''0''] else if c = CHR 0x09 then [CHR 0x5C, CHR ''0'', CHR ''1'', CHR ''1'']
      else if c = CHR 0x0A then [CHR 0x5C, CHR ''0'', CHR ''1'', CHR ''2''] else if c = CHR 0x5C then [CHR 0x5C, CHR ''1'', CHR ''3'', CHR ''4'']
      else [c])"

definition mountinfo_escape :: "string \<Rightarrow> string" where
  "mountinfo_escape p = concat (map (mountinfo_char {}) p)"

text \<open>
  C29. Reading a mount point back is exact: \<open>unescapeMountInfoPath\<close> inverts the kernel's octal
  escapes for every path, so also for paths with backslashes and digits.
\<close>

theorem mount_point_roundtrip: "unescapeMountInfoPath (mountinfo_escape p) = p"
proof -
  have 1: "ReplaceAll 0 [CHR 0x5C, CHR ''0'', CHR ''4'', CHR ''0''] [CHR 0x20] (concat (map (mountinfo_char {}) p)) =
      concat (map (mountinfo_char {CHR 0x20}) p)"
    by (rule ReplaceAll_tokens) (auto simp: mountinfo_char_def token_def)
  have 2: "ReplaceAll 0 [CHR 0x5C, CHR ''0'', CHR ''1'', CHR ''1''] [CHR 0x09] (concat (map (mountinfo_char {CHR 0x20}) p)) =
      concat (map (mountinfo_char {CHR 0x20, CHR 0x09}) p)"
    by (rule ReplaceAll_tokens) (auto simp: mountinfo_char_def token_def)
  have 3: "ReplaceAll 0 [CHR 0x5C, CHR ''0'', CHR ''1'', CHR ''2''] [CHR 0x0A] (concat (map (mountinfo_char {CHR 0x20, CHR 0x09}) p)) =
      concat (map (mountinfo_char {CHR 0x20, CHR 0x09, CHR 0x0A}) p)"
    by (rule ReplaceAll_tokens) (auto simp: mountinfo_char_def token_def)
  have 4: "ReplaceAll 0 [CHR 0x5C, CHR ''1'', CHR ''3'', CHR ''4''] [CHR 0x5C] (concat (map (mountinfo_char {CHR 0x20, CHR 0x09, CHR 0x0A}) p)) =
      concat (map (\<lambda>c. [c]) p)"
    by (rule ReplaceAll_tokens) (auto simp: mountinfo_char_def token_def)
  show ?thesis by (simp add: unescapeMountInfoPath_def mountinfo_escape_def Let_def 1 2 3 4)
qed

subsection \<open>Relations that calls keep\<close>

text \<open>\<open>keeps R m\<close>: the worlds before and after \<open>m\<close> are related by \<open>R\<close>.\<close>

definition keeps :: "(world \<Rightarrow> world \<Rightarrow> bool) \<Rightarrow> 'a io \<Rightarrow> bool" where
  "keeps R m \<longleftrightarrow> (\<forall>w. R w (snd (m w)))"

named_theorems keeps_rules

lemma keepsI: "(\<And>w. post m (\<lambda>r w'. R w w') w) \<Longrightarrow> keeps R m"
  by (simp add: keeps_def post_def case_prod_unfold)

lemma keeps_post: "keeps R m \<Longrightarrow> post m (\<lambda>r w'. R w w') w"
  by (simp add: keeps_def post_def case_prod_unfold)

lemma keeps_if [keeps_rules]: "(b \<Longrightarrow> keeps R m) \<Longrightarrow> (\<not> b \<Longrightarrow> keeps R n) \<Longrightarrow> keeps R (if b then m else n)"
  by simp

lemma keeps_case_sum [keeps_rules]:
  "(\<And>e. r = Inl e \<Longrightarrow> keeps R (f e)) \<Longrightarrow> (\<And>a. r = Inr a \<Longrightarrow> keeps R (g a)) \<Longrightarrow> keeps R (case r of Inl e \<Rightarrow> f e | Inr a \<Rightarrow> g a)"
  by (simp split: sum.split)

lemma keeps_case_option [keeps_rules]:
  "(r = None \<Longrightarrow> keeps R f) \<Longrightarrow> (\<And>a. r = Some a \<Longrightarrow> keeps R (g a)) \<Longrightarrow> keeps R (case r of None \<Rightarrow> f | Some a \<Rightarrow> g a)"
  by (simp split: option.split)

lemma keeps_world: "(\<And>w. keeps R (f w)) \<Longrightarrow> keeps R (\<lambda>w. f w w)"
  by (simp add: keeps_def)

text \<open>The laws: a preorder that depends on the files only.\<close>

locale file_order =
  fixes R :: "world \<Rightarrow> world \<Rightarrow> bool"
  assumes same_files: "files w' = files w \<Longrightarrow> R w w'"
    and trans: "R u v \<Longrightarrow> R v w \<Longrightarrow> R u w"
begin

lemma keeps_ret [keeps_rules]: "keeps R (ret a)"
  by (simp add: keeps_def ret_def same_files)

lemma keeps_fail [keeps_rules]: "keeps R (fail e)"
  by (simp add: keeps_def fail_def same_files)

lemma keeps_reads: "reads m \<Longrightarrow> keeps R m"
  by (simp add: keeps_def reads_def same_files)

lemma keeps_tryE [keeps_rules]: "keeps R m \<Longrightarrow> (\<And>a. keeps R (k a)) \<Longrightarrow> keeps R (tryE m k)"
  by (simp add: keeps_def tryE_def split: prod.split sum.split) (metis snd_conv trans)

lemma keeps_attempt [keeps_rules]: "keeps R m \<Longrightarrow> (\<And>r. keeps R (k r)) \<Longrightarrow> keeps R (attempt m k)"
  by (simp add: keeps_def attempt_def split: prod.split) (metis snd_conv trans)

lemma keeps_deferred [keeps_rules]: "keeps R c \<Longrightarrow> keeps R m \<Longrightarrow> keeps R (deferred c m)"
  by (simp add: keeps_def deferred_def split: prod.split) (metis snd_conv trans)

lemma keeps_wrapped [keeps_rules]: "keeps R m \<Longrightarrow> keeps R (wrapped f m)"
  by (simp add: keeps_def wrapped_def split: prod.split sum.split) (metis snd_conv)

lemma keeps_check_ctx [keeps_rules]: "keeps R m \<Longrightarrow> keeps R (check_ctx c f m)"
  by (simp add: keeps_def check_ctx_def same_files split: option.split)

lemmas keeps_calls [keeps_rules] = reads_calls [THEN keeps_reads]

end

text \<open>No name appears, and nothing changes outside the directories \<open>D\<close>.\<close>

definition names :: "world \<Rightarrow> string set" where
  "names w = fst ` set (files w)"

definition shrinks :: "world \<Rightarrow> world \<Rightarrow> bool" where
  "shrinks w w' \<longleftrightarrow> names w' \<subseteq> names w"

definition unchanged :: "string set \<Rightarrow> world \<Rightarrow> world \<Rightarrow> bool" where
  "unchanged D w w' \<longleftrightarrow> (\<forall>q. (\<forall>d \<in> D. \<not> inside d q) \<longrightarrow> node_at w' q = node_at w q)"

interpretation shrinks: file_order shrinks
  by unfold_locales (auto simp: shrinks_def names_def)

interpretation unchanged: file_order "unchanged D" for D
  by unfold_locales (auto simp: unchanged_def node_at_def)

lemma names_prune: "names (prune P w) \<subseteq> names w"
  by (auto simp: names_def prune_def)

lemma names_put: "node_at w p \<noteq> None \<Longrightarrow> names (put p n w) = names w"
  by (simp add: names_def put_def node_at_def map_of_eq_None_iff AList.dom_update) blast

lemma names_below_subset: "set (names_below p w) \<subseteq> {q \<in> names w. inside p q}"
  by (auto simp: names_below_def names_def)

lemma post_RemoveAll:
  assumes "\<And>n q w'. q \<in> insert p (names w) \<Longrightarrow> shrinks w w' \<Longrightarrow> unchanged {p} w w' \<Longrightarrow> Q (Inl (SysErr n q)) w'"
    and "\<And>w'. shrinks w w' \<Longrightarrow> unchanged {p} w w' \<Longrightarrow> Q (Inr ()) w'"
  shows "post (RemoveAll p) Q w"
proof -
  obtain f w' where f: "next_fault w = (f, w')" by (cases "next_fault w")
  then have w': "files w' = files w" using files_next_fault by blast
  have n: "names w' = names w" by (simp add: names_def w')
  have prune: "shrinks w (prune P w')" "(\<And>q. P q \<Longrightarrow> inside p q) \<Longrightarrow> unchanged {p} w (prune P w')" for P
    using names_prune [of P w'] node_at_files [OF w'] by (auto simp: shrinks_def unchanged_def node_at_prune n)
  show ?thesis
  proof (cases f)
    case Works
    then show ?thesis using f assms(2) [OF prune] by (simp add: post_def RemoveAll_def)
  next
    case (Fail e j)
    let ?q = "if j < length (names_below p w') then names_below p w' ! j else p"
    have q: "?q \<in> insert p (names w)" using names_below_subset [of p w'] n by (auto dest: nth_mem)
    have "inside p q" if "q \<in> set (take j (names_below p w'))" for q
      using in_set_takeD [OF that] names_below_subset [of p w'] by blast
    then show ?thesis using f Fail assms(1) [OF q prune] by (simp add: post_def RemoveAll_def)
  qed
qed

lemma shrinks_RemoveAll [keeps_rules]: "keeps shrinks (RemoveAll p)"
  by (rule keepsI, rule post_RemoveAll)

lemma unchanged_mono: "unchanged D w w' \<Longrightarrow> D \<subseteq> E \<Longrightarrow> unchanged E w w'"
  unfolding unchanged_def by blast

lemma unchanged_RemoveAll: "d \<in> D \<Longrightarrow> keeps (unchanged D) (RemoveAll d)"
  by (rule keepsI, rule post_RemoveAll) (auto intro: unchanged_mono)

lemma shrinks_Chmod [keeps_rules]: "keeps shrinks (Chmod p m)"
proof (rule keepsI, unfold Chmod_def syscall_def, rule post_syscall_with)
  fix w w' :: world assume "files w' = files w"
  then have w': "names w' = names w" "node_at w' p = node_at w p" by (simp_all add: names_def node_at_def)
  show "case case node_at w' p of None \<Rightarrow> (Inl ENOENT, w') | Some n \<Rightarrow> (Inr (), put p (set_mode m n) w') of
      (Inl e, w'') \<Rightarrow> shrinks w w'' | (Inr a, w'') \<Rightarrow> shrinks w w''"
    using w' by (auto simp: shrinks_def names_put split: option.split)
qed (auto simp: shrinks_def names_def)

lemma unchanged_Chmod: "d \<in> D \<Longrightarrow> inside d p \<Longrightarrow> keeps (unchanged D) (Chmod p m)"
  by (rule keepsI, rule post_Chmod) (auto simp: unchanged_def)

subsection \<open>Making directories writable\<close>

lemma shrinks_chmod_dirs: "keeps shrinks (chmod_dirs ps)"
  by (induction ps) (auto intro!: keeps_rules)

lemma shrinks_writable: "keeps shrinks (makeBundleDirectoriesWritable d)"
  unfolding makeBundleDirectoriesWritable_def
  by (intro keeps_rules keeps_world [where f = "\<lambda>w. chmod_dirs (walk_dirs w d)"] shrinks_chmod_dirs)

lemma unchanged_chmod_dirs: "d \<in> D \<Longrightarrow> list_all (inside d) ps \<Longrightarrow> keeps (unchanged D) (chmod_dirs ps)"
  by (induction ps) (auto intro!: keeps_rules unchanged_Chmod)

lemma unchanged_writable: "d \<in> D \<Longrightarrow> keeps (unchanged D) (makeBundleDirectoriesWritable d)"
  unfolding makeBundleDirectoriesWritable_def
  by (intro keeps_rules keeps_world [where f = "\<lambda>w. chmod_dirs (walk_dirs w d)"] unchanged_chmod_dirs unchanged_Chmod inside_refl)
    (auto simp: walk_dirs_def list_all_iff)

subsection \<open>The removal loop ends\<close>

text \<open>What is left to try: retries of busy names and first failures of missing ones.\<close>

definition tries_left :: "string set \<Rightarrow> string list \<Rightarrow> (string \<Rightarrow> nat) \<Rightarrow> nat" where
  "tries_left S ne busy = (\<Sum>p\<in>S. (50 - busy p) + (if p \<in> set ne then 0 else 1))"

lemma tries_left_missing:
  assumes "finite S" "p \<in> S" "p \<notin> set ne"
  shows "tries_left S (p # ne) busy < tries_left S ne busy"
  unfolding tries_left_def by (rule sum_strict_mono_ex1) (use assms in auto)

lemma tries_left_busy:
  assumes "finite S" "p \<in> S" "busy p < 50"
  shows "tries_left S ne (busy(p := Suc (busy p))) < tries_left S ne busy"
  unfolding tries_left_def by (rule sum_strict_mono_ex1) (use assms in auto)

text \<open>\<open>ends f g w\<close>: both programs do the same from \<open>w\<close> and \<open>f\<close> does not run out of rounds.\<close>

definition ends :: "unit io \<Rightarrow> unit io \<Rightarrow> world \<Rightarrow> bool" where
  "ends f g w \<longleftrightarrow> f w = g w \<and> fst (f w) \<noteq> Inl (Opaque ''rounds exhausted'')"

lemma ends_ret [simp]: "ends (ret ()) (ret ()) w"
  by (simp add: ends_def ret_def)

lemma ends_codef [simp]: "ends (fail (codef k m es)) (fail (codef k m es)) w"
  by (simp add: ends_def fail_def codef_def)

lemma ends_attempt: "post m (\<lambda>r w'. ends (k r) (k' r) w') w \<Longrightarrow> ends (attempt m k) (attempt m k') w"
  by (auto simp: ends_def post_def attempt_def split: prod.splits)

lemma ends_check_ctx: "ends f g w \<Longrightarrow> ends (check_ctx c (\<lambda>e. codef k s (es e)) f) (check_ctx c (\<lambda>e. codef k s (es e)) g) w"
  by (auto simp: ends_def check_ctx_def codef_def split: option.split)

lemma ends_removal_failed:
  assumes "finite S" "q \<in> S" "\<forall>p. busy p \<le> 50"
    and "\<And>ne' busy' w'. shrinks w w' \<Longrightarrow> tries_left S ne' busy' < tries_left S ne busy \<Longrightarrow> \<forall>p. busy' p \<le> 50 \<Longrightarrow> ends (f ne' busy') (g ne' busy') w'"
  shows "ends (removal_failed dir ne busy f (SysErr n q)) (removal_failed dir ne busy g (SysErr n q)) w"
proof -
  have missing: "ends (f (q # ne) busy) (g (q # ne) busy) w" if "q \<notin> set ne"
    by (rule assms(4)) (use assms that in \<open>auto intro: shrinks.same_files tries_left_missing\<close>)
  have busy: "ends (f ne (busy(q := busy q + 1))) (g ne (busy(q := busy q + 1))) w'" if "shrinks w w'" "busy q \<noteq> 50" for w'
  proof -
    have q: "busy q < 50" using assms(3) [rule_format, of q] that(2) by linarith
    show ?thesis by (rule assms(4)) (use that q assms(3) tries_left_busy [where busy = busy, OF assms(1,2) q] in auto)
  qed
  have retry: "ends
      (attempt (Unmount q) (\<lambda>r. if (case r of Inl e \<Rightarrow> \<not> errno_in {EINVAL, ENOENT} e | Inr _ \<Rightarrow> False)
            then fail (codef ErrFilesystemFailed ''unmount busy bundle path'' (case r of Inl e \<Rightarrow> [e] | Inr _ \<Rightarrow> []))
            else if busy q = 50 then fail (codef ErrFilesystemFailed ''remove bundle'' [SysErr n q]) else f ne (busy(q := busy q + 1))))
      (attempt (Unmount q) (\<lambda>r. if (case r of Inl e \<Rightarrow> \<not> errno_in {EINVAL, ENOENT} e | Inr _ \<Rightarrow> False)
            then fail (codef ErrFilesystemFailed ''unmount busy bundle path'' (case r of Inl e \<Rightarrow> [e] | Inr _ \<Rightarrow> []))
            else if busy q = 50 then fail (codef ErrFilesystemFailed ''remove bundle'' [SysErr n q]) else g ne (busy(q := busy q + 1)))) w"
    by (rule ends_attempt, unfold Unmount_def, rule post_mono [OF keeps_post [OF shrinks.keeps_calls(5)]])
      (use busy in simp)
  show ?thesis unfolding removal_failed_def goerr.case by (simp only: retry missing ends_codef ends_ret split: if_split) (simp add: missing)
qed

lemma ends_remove_loop:
  assumes "tries_left S ne busy < n" "tries_left S ne busy < m" "\<forall>p. busy p \<le> 50" "finite S" "dir \<in> S" "names w \<subseteq> S"
  shows "ends (remove_loop n c dir ne busy) (remove_loop m c dir ne busy) w"
  using assms(1-3,6)
proof (induction n arbitrary: m busy ne w)
  case (Suc n)
  then obtain k where m: "m = Suc k" by (cases m) auto
  let ?f = "remove_loop n c dir" and ?g = "remove_loop k c dir"
  have failed: "ends (removal_failed dir ne busy ?f (SysErr x q)) (removal_failed dir ne busy ?g (SysErr x q)) w'"
    if "q \<in> insert dir (names u)" "names u \<subseteq> S" "shrinks u w'" for x q u w'
    by (rule ends_removal_failed [OF assms(4)]) (use that Suc.prems Suc.IH assms(5) m in \<open>auto simp: shrinks_def\<close>)
  have again: "ends (attempt (RemoveAll dir) (\<lambda>r. case r of Inr _ \<Rightarrow> ret () | Inl err \<Rightarrow> removal_failed dir ne busy ?f err))
      (attempt (RemoveAll dir) (\<lambda>r. case r of Inr _ \<Rightarrow> ret () | Inl err \<Rightarrow> removal_failed dir ne busy ?g err)) u"
    if "names u \<subseteq> S" for u
    by (rule ends_attempt, rule post_RemoveAll) (use failed that in auto)
  let ?round = "\<lambda>f r. case r of Inr _ \<Rightarrow> ret ()
      | Inl err \<Rightarrow> if errno_in {EACCES, EPERM} err then
          attempt (makeBundleDirectoriesWritable dir) (\<lambda>r2. case r2 of
              Inl ce \<Rightarrow> fail (codef ErrFilesystemFailed ''make bundle removable'' [ce])
            | Inr _ \<Rightarrow> attempt (RemoveAll dir) (\<lambda>r3. case r3 of Inr _ \<Rightarrow> ret () | Inl err \<Rightarrow> removal_failed dir ne busy f err))
        else removal_failed dir ne busy f err"
  have chmod: "ends
      (attempt (makeBundleDirectoriesWritable dir) (\<lambda>r2. case r2 of
          Inl ce \<Rightarrow> fail (codef ErrFilesystemFailed ''make bundle removable'' [ce])
        | Inr _ \<Rightarrow> attempt (RemoveAll dir) (\<lambda>r3. case r3 of Inr _ \<Rightarrow> ret () | Inl err \<Rightarrow> removal_failed dir ne busy ?f err)))
      (attempt (makeBundleDirectoriesWritable dir) (\<lambda>r2. case r2 of
          Inl ce \<Rightarrow> fail (codef ErrFilesystemFailed ''make bundle removable'' [ce])
        | Inr _ \<Rightarrow> attempt (RemoveAll dir) (\<lambda>r3. case r3 of Inr _ \<Rightarrow> ret () | Inl err \<Rightarrow> removal_failed dir ne busy ?g err))) u"
    if "names u \<subseteq> S" for u
  proof (rule ends_attempt, rule post_mono [OF keeps_post [OF shrinks_writable]])
    fix r :: "goerr + unit" and w' assume "shrinks u w'"
    then show "ends
        (case r of Inl ce \<Rightarrow> fail (codef ErrFilesystemFailed ''make bundle removable'' [ce])
         | Inr _ \<Rightarrow> attempt (RemoveAll dir) (\<lambda>r3. case r3 of Inr _ \<Rightarrow> ret () | Inl err \<Rightarrow> removal_failed dir ne busy ?f err))
        (case r of Inl ce \<Rightarrow> fail (codef ErrFilesystemFailed ''make bundle removable'' [ce])
         | Inr _ \<Rightarrow> attempt (RemoveAll dir) (\<lambda>r3. case r3 of Inr _ \<Rightarrow> ret () | Inl err \<Rightarrow> removal_failed dir ne busy ?g err)) w'"
      using that by (cases r) (simp_all only: sum.case again ends_codef shrinks_def subset_trans)
  qed
  show ?case unfolding m remove_loop.simps
  proof (rule ends_check_ctx, rule ends_attempt, rule post_RemoveAll)
    fix x q w' assume "q \<in> insert dir (names w)" "shrinks w w'"
    moreover from this have "names w' \<subseteq> S" using Suc.prems(4) by (auto simp: shrinks_def)
    ultimately show "ends (?round ?f (Inl (SysErr x q))) (?round ?g (Inl (SysErr x q))) w'"
      by (simp only: sum.case chmod failed [OF _ Suc.prems(4)] split: if_split) simp
  qed simp
qed simp

text \<open>
  C28. Removing a bundle ends: whatever calls fail, the retry loop of
  \<open>removeRuntimeMutatedBundle\<close> finishes within its rounds, 51 for each name of the tree: it
  never runs out of them, and giving it more makes no difference.
\<close>

theorem removal_terminates:
  "remove_loop (removal_rounds w + n) c dir [] (\<lambda>_. 0) w = remove_loop (removal_rounds w) c dir [] (\<lambda>_. 0) w \<and>
   fst (remove_loop (removal_rounds w) c dir [] (\<lambda>_. 0) w) \<noteq> Inl (Opaque ''rounds exhausted'')"
proof -
  let ?S = "insert dir (names w)"
  have "card (names w) \<le> length (files w)"
    unfolding names_def by (metis card_length length_map set_map)
  then have "card ?S \<le> Suc (length (files w))" using card_insert_if [of "names w" dir] by (simp add: names_def split: if_splits)
  then have "tries_left ?S [] (\<lambda>_. 0) < removal_rounds w" by (simp add: tries_left_def removal_rounds_def)
  then have "ends (remove_loop (removal_rounds w) c dir [] (\<lambda>_. 0)) (remove_loop (removal_rounds w + n) c dir [] (\<lambda>_. 0)) w"
    by (intro ends_remove_loop [where S = ?S]) (auto simp: names_def)
  then show ?thesis by (simp only: ends_def simp_thms) (metis)
qed

subsection \<open>Removal stays inside the bundle\<close>

lemma keeps_unchanged_mono: "keeps (unchanged D) m \<Longrightarrow> D \<subseteq> E \<Longrightarrow> keeps (unchanged E) m"
  unfolding keeps_def by (blast intro: unchanged_mono)

lemma reads_unmount_all: "reads (unmount_all ps)"
proof (induction ps)
  case (Cons p ps)
  have "reads (case r of Inl e \<Rightarrow> if errno_in {EINVAL, ENOENT} e then unmount_all ps else fail e | Inr _ \<Rightarrow> unmount_all ps)" for r :: "goerr + unit"
    using Cons by (auto split: sum.split)
  then show ?case unfolding unmount_all.simps Unmount_def by (intro reads_comb reads_calls)
qed auto

lemma unchanged_unmount: "keeps (unchanged D) (unmountNestedMounts p)"
  unfolding unmountNestedMounts_def
  by (intro keeps_rules) (auto intro!: keeps_rules unchanged.keeps_reads [OF reads_unmount_all] split: prod.split option.split)

lemma unchanged_removal_failed: "(\<And>n b. keeps (unchanged D) (f n b)) \<Longrightarrow> keeps (unchanged D) (removal_failed dir ne busy f err)"
  unfolding removal_failed_def Unmount_def by (cases err) (auto intro!: keeps_rules)

lemma unchanged_remove_loop: "d \<in> D \<Longrightarrow> keeps (unchanged D) (remove_loop n c d ne busy)"
proof (induction n arbitrary: ne busy)
  case (Suc n)
  show ?case
    unfolding remove_loop.simps
    by (intro keeps_rules unchanged_writable unchanged_removal_failed unchanged_RemoveAll Suc.IH Suc.prems)
qed (auto intro: keeps_rules)

lemma unchanged_mutated: "d \<in> D \<Longrightarrow> keeps (unchanged D) (removeRuntimeMutatedBundle c d)"
  unfolding removeRuntimeMutatedBundle_def
  by (intro keeps_rules unchanged_unmount unchanged_RemoveAll
      keeps_world [where f = "\<lambda>w. remove_loop (removal_rounds w) c d [] (\<lambda>_. 0)"] unchanged_remove_loop)

text \<open>What the code relies on of the cleanup command: \<open>rm -rf\<close> in the namespace removes its argument only.\<close>

definition cleanup_confined :: "bundle_tools \<Rightarrow> bool" where
  "cleanup_confined tools \<longleftrightarrow>
     (\<forall>ns p. keeps (unchanged {p}) (unshare tools (ns_flags ns ''/bin/sh'' [''-c'', cleanup_script, ''chamber-bundle-cleanup'', p]) []))"

lemma unchanged_removeBundleDirectory:
  assumes "cleanup_confined tools" "p \<in> D"
  shows "keeps (unchanged D) (removeBundleDirectory tools c p)"
proof -
  have u: "keeps (unchanged D) (unshare tools (ns_flags ns ''/bin/sh'' [''-c'', cleanup_script, ''chamber-bundle-cleanup'', p]) [])" for ns
    by (rule keeps_unchanged_mono [of "{p}"]) (use assms in \<open>auto simp: cleanup_confined_def\<close>)
  show ?thesis
    unfolding removeBundleDirectory_def Let_def
    by (intro keeps_rules u unchanged_mutated assms(2))
qed

lemma unchanged_remove_entries:
  assumes "cleanup_confined tools" "\<And>n. n \<in> set ns \<Longrightarrow> HasPrefix n prefix \<Longrightarrow> Join [tmpRoot, n] \<in> D"
  shows "keeps (unchanged D) (remove_entries tools c tmpRoot prefix ns)"
  using assms(2) by (induction ns) (auto intro!: keeps_rules unchanged_removeBundleDirectory assms(1))

lemma Base_plain: "Base p = ''/'' \<or> CHR ''/'' \<notin> set (Base p)"
  by (auto simp: Base_def split: list.split dest!: set_takeWhileD)

text \<open>The staging directories of a bundle ID, below the directory for temporary files.\<close>

definition staging_dirs :: "string \<Rightarrow> string \<Rightarrow> string set" where
  "staging_dirs tmp i = {Join [tmp, n] |n. HasPrefix n (''.'' @ i @ ''.tmp-'') \<and> safe_component n}"

lemma staging_entry:
  assumes "n \<in> set (children w tmp)" "HasPrefix n (''.'' @ i @ ''.tmp-'')"
  shows "Join [tmp, n] \<in> staging_dirs tmp i"
proof -
  obtain r where r: "n = ''.'' @ i @ ''.tmp-'' @ r"
    using assms(2) append_take_drop_id [of "length (''.'' @ i @ ''.tmp-'')" n] unfolding HasPrefix_def by (metis append.assoc)
  then have "n \<noteq> ''/''" by (cases i) auto
  then have "CHR ''/'' \<notin> set n" using assms(1) Base_plain by (auto simp: children_def)
  then show ?thesis using r assms(2) unfolding staging_dirs_def safe_component_def by fastforce
qed

lemma unchanged_removeTemporaryBundles:
  assumes "cleanup_confined tools" "staging_dirs tmp i \<subseteq> D"
  shows "keeps (unchanged D) (removeTemporaryBundles tools c tmp i)"
proof (rule keepsI, unfold removeTemporaryBundles_def, rule attI, rule postI)
  fix w r and w1 :: world assume rd: "ReadDir tmp w = (r, w1)"
  have w1: "files w1 = files w" using reads_calls(4) [of tmp] rd by (auto simp: reads_def dest: spec [where x = w])
  have same: "unchanged D w w1" by (rule unchanged.same_files) (rule w1)
  show "post (case r of
      Inl e \<Rightarrow> if errIsNotExist e then ret () else fail (codef ErrFilesystemFailed ''list temporary bundles'' [e])
    | Inr ns \<Rightarrow> (\<lambda>w. remove_entries tools c tmp (''.'' @ i @ ''.tmp-'') (dir_entries w tmp ns) w)) (\<lambda>r w'. unchanged D w w') w1"
  proof (cases r)
    case (Inr ns)
    then have "ns = children w tmp"
      using rd by (auto simp: ReadDir_def syscall_def syscall_with_def children_def split: prod.splits fault.splits option.splits node.splits dest!: files_next_fault)
    then have "keeps (unchanged D) (remove_entries tools c tmp (''.'' @ i @ ''.tmp-'') (dir_entries w1 tmp ns))"
      using assms staging_entry [of _ w tmp i] by (intro unchanged_remove_entries) (auto simp: dir_entries_def)
    from keeps_post [OF this, of w1] show ?thesis using Inr same by (auto simp: post_def split: prod.splits intro: unchanged.trans)
  qed (simp add: post_if post_ret post_fail same)
qed


text \<open>A world with two bundles, one of them still being staged, and tools that remove their last argument.\<close>

definition removal_world :: world where
  "removal_world =
     \<lparr>files = [(''/'', DirNode 493 1), (''/b'', DirNode 448 0), (''/b/a'', DirNode 448 0), (''/b/a/config.json'', FileNode ''{}'' 420 0),
        (''/b/c'', DirNode 448 0), (''/t'', DirNode 448 0), (''/t/.a.tmp-1'', DirNode 448 0), (''/t/.a.tmp-x.tmp-1'', DirNode 448 0)],
      faults = [], now = 0, fresh = 0\<rparr>"

definition removal_tools :: bundle_tools where
  "removal_tools = \<lparr>unshare = \<lambda>argv dir. tryE (RemoveAll (last argv)) (\<lambda>_. ret []), decode_spec = \<lambda>_. Inl (Opaque ''json'')\<rparr>"

definition removal_env :: host_env where
  "removal_env = \<lparr>getwd = Inr ''/'', temp_dir = ''/t'', host_euid = 1000\<rparr>"

definition removal_prov :: provisioner where
  "removal_prov = \<lparr>prov_root = ''/b'', prov_ns = \<lparr>ns_uid = [], ns_gid = []\<rparr>,
     prov_ws = Some \<lparr>ws_root = ''/'', ws_tmp = ''/t'', ws_features = ws_features sample_workspace\<rparr>\<rparr>"

text \<open>Without faults and without a \<open>rootfs\<close> the first attempt succeeds.\<close>

lemma removeBundleDirectory_plain:
  assumes "faults w = []" "node_at w (Join [d, ''rootfs'']) = None"
  shows "removeBundleDirectory tools None d w = (Inr (), prune (inside d) (w\<lparr>now := Suc (Suc (now w))\<rparr>))"
  using assms
  by (simp add: removeBundleDirectory_def removeRuntimeMutatedBundle_def attempt_def Lstat_def syscall_def syscall_with_def
      next_fault_def RemoveAll_def check_ctx_def ctx_err_def errIsNotExist_def ret_def)

text \<open>The two staging directories and the bundle \<open>a\<close> are removed.\<close>

definition removed_world :: world where
  "removed_world = prune (inside ''/b/a'') (prune (inside ''/t/.a.tmp-x.tmp-1'') (prune (inside ''/t/.a.tmp-1'') (removal_world\<lparr>now := 7\<rparr>)))"

lemma prov_Remove_a:
  "prov_Remove removal_tools removal_env (Some removal_prov) (Some None) \<lparr>BundleID = ''a'', BundlePath = []\<rparr> removal_world = (Inr (), removed_world)"
proof -
  have paths: "Join [''/b'', ''a''] = ''/b/a''" "Join [''/t'', ''.a.tmp-1''] = ''/t/.a.tmp-1''" "Join [''/t'', ''.a.tmp-x.tmp-1''] = ''/t/.a.tmp-x.tmp-1''"
    "Join [''/b/a'', ''rootfs''] = ''/b/a/rootfs''" "Join [''/t/.a.tmp-1'', ''rootfs''] = ''/t/.a.tmp-1/rootfs''"
    "Join [''/t/.a.tmp-x.tmp-1'', ''rootfs''] = ''/t/.a.tmp-x.tmp-1/rootfs''"
    by code_simp+
  have checks: "ValidateBundleID ''a'' = None" "TrimSpace ''/b'' \<noteq> []" "TrimSpace [] = []" by code_simp+
  have dir: "ReadDir ''/t'' removal_world = (Inr [''.a.tmp-1'', ''.a.tmp-x.tmp-1''], removal_world\<lparr>now := Suc 0\<rparr>)"
    "dir_entries (removal_world\<lparr>now := Suc 0\<rparr>) ''/t'' [''.a.tmp-1'', ''.a.tmp-x.tmp-1''] = [''.a.tmp-1'', ''.a.tmp-x.tmp-1'']"
    by code_simp+
  have pre: "HasPrefix ''.a.tmp-1'' ''.a.tmp-''" "HasPrefix ''.a.tmp-x.tmp-1'' ''.a.tmp-''" by code_simp+
  have no_rootfs: "node_at removal_world p = None" if "p \<in> {''/b/a/rootfs'', ''/t/.a.tmp-1/rootfs'', ''/t/.a.tmp-x.tmp-1/rootfs''}" for p
    using that by (auto simp: node_at_def removal_world_def)
  have faultless: "faults (prune P v) = faults v" "now (prune P v) = now v" "(prune P v)\<lparr>now := n\<rparr> = prune P (v\<lparr>now := n\<rparr>)"
    "node_at (v\<lparr>now := n\<rparr>) = node_at v" "faults removal_world = []" for P v n
    by (simp_all add: prune_def node_at_def [abs_def] removal_world_def)
  show ?thesis
    by (simp add: prov_Remove_def removal_prov_def check_ctx_def ctx_err_def lift_err_def checks tryE_def ret_def removeTemporaryBundles_def
        attempt_def dir pre paths removeBundleDirectory_plain faultless node_at_prune no_rootfs removed_world_def eval_nat_numeral)
qed

lemma removal_tools_confined: "cleanup_confined removal_tools"
  by (auto simp: cleanup_confined_def removal_tools_def ns_flags_def intro!: keeps_rules unchanged_RemoveAll)



end
