(* ===== verification/Image_Layout.thy ===== *)
theory Image_Layout
  imports Workspace
begin

text \<open>
  \<open>pkg/image/contract.go\<close>: platforms, references and the validation of OCI image layouts.

  JSON decoding, the digest library and the reference parser are parameters. Nested indexes
  recurse in the code; \<open>depth\<close> is the nesting its stack allows.
\<close>

subsection \<open>Data\<close>

record platform =
  OS :: string
  Architecture :: string
  Variant :: string

record descriptor =
  MediaType :: string
  Digest :: string
  DescSize :: int
  Platform :: "platform option"
  Annotations :: "(string \<times> string) list"

record manifest =
  Config :: descriptor
  Layers :: "descriptor list"

record image =
  LayoutPath :: string
  Reference :: string
  ImageDigest :: string
  ImagePlatform :: platform
  Source :: string
  SizeBytes :: int
  CreatedAt :: int
  UpdatedAt :: int

record image_lib =
  parse_version :: "string \<Rightarrow> goerr + string"
  parse_index :: "string \<Rightarrow> goerr + descriptor list"
  parse_manifest :: "string \<Rightarrow> goerr + manifest"
  digest_validate :: "string \<Rightarrow> goerr option"
  digest_algorithm :: "string \<Rightarrow> string"
  digest_encoded :: "string \<Rightarrow> string"
  digest_verifies :: "string \<Rightarrow> string \<Rightarrow> bool"
  parse_reference :: "string \<Rightarrow> goerr + string"

subsection \<open>References and platforms\<close>

definition CanonicalImageReference :: "image_lib \<Rightarrow> string \<Rightarrow> goerr + string" where
  "CanonicalImageReference lib raw =
     (case parse_reference lib raw of
        Inl e \<Rightarrow> Inl (codef ErrInvalidImageReference ''invalid image reference'' [e])
      | Inr name \<Rightarrow> Inr name)"

definition ValidateImageReference :: "image_lib \<Rightarrow> string \<Rightarrow> goerr option" where
  "ValidateImageReference lib raw = (case CanonicalImageReference lib raw of Inl e \<Rightarrow> Some e | Inr _ \<Rightarrow> None)"

definition IsValidImageReference :: "image_lib \<Rightarrow> string \<Rightarrow> bool" where
  "IsValidImageReference lib raw \<longleftrightarrow> ValidateImageReference lib raw = None"

text \<open>\<open>goarch\<close> is the architecture of the host.\<close>

definition NormalizePlatform :: "string \<Rightarrow> platform \<Rightarrow> platform" where
  "NormalizePlatform goarch p =
     (let os = TrimSpace (OS p); arch = TrimSpace (Architecture p) in
      \<lparr>OS = (if os = [] then ''linux'' else os), Architecture = (if arch = [] then goarch else arch), Variant = TrimSpace (Variant p)\<rparr>)"

subsection \<open>Validation\<close>

definition index_type :: "string \<Rightarrow> bool" where
  "index_type t \<longleftrightarrow> t = ''application/vnd.oci.image.index.v1+json'' \<or> t = ''application/vnd.docker.distribution.manifest.list.v2+json''"

definition manifest_type :: "string \<Rightarrow> bool" where
  "manifest_type t \<longleftrightarrow> t = ''application/vnd.oci.image.manifest.v1+json'' \<or> t = ''application/vnd.docker.distribution.manifest.v2+json''"

definition blob_path :: "image_lib \<Rightarrow> string \<Rightarrow> string \<Rightarrow> string" where
  "blob_path lib root d = Join [root, ''blobs'', digest_algorithm lib d, digest_encoded lib d]"

fun node_len :: "node \<Rightarrow> int" where
  "node_len (FileNode c m u) = int (length c)"
| "node_len (DirNode m u) = 4096"
| "node_len (LinkNode t) = int (length t)"

text \<open>The content a handle that was opened at \<open>p\<close> reads.\<close>

definition open_content :: "world \<Rightarrow> string \<Rightarrow> string" where
  "open_content w p =
     (case resolve 40 w p of
        Some q \<Rightarrow> (case node_at w q of Some (FileNode c m u) \<Rightarrow> c | _ \<Rightarrow> [])
      | None \<Rightarrow> [])"

text \<open>\<open>io.Copy\<close> from a \<open>contextReader\<close>: reads of 32 KiB until the end of the file, each between two checks.\<close>

fun contextReader :: "ctx \<Rightarrow> string \<Rightarrow> nat \<Rightarrow> unit io" where
  "contextReader c p 0 = ret ()"
| "contextReader c p (Suc n) = check_ctx c id (tryE (Effectless p) (\<lambda>_. check_ctx c id (contextReader c p n)))"

definition copy_verified :: "image_lib \<Rightarrow> ctx \<Rightarrow> string \<Rightarrow> string \<Rightarrow> string \<Rightarrow> unit io" where
  "copy_verified lib c p digest content =
     attempt (contextReader c p (nat (int (length content) div 32768) + 1)) (\<lambda>r.
       case r of
         Inl e \<Rightarrow> check_ctx c (\<lambda>x. codef ErrCanceled ''validate OCI image layout blob canceled'' [x])
           (fail (codef ErrFilesystemFailed ''read OCI image layout blob'' [e]))
       | Inr _ \<Rightarrow>
           if digest_verifies lib digest content then ret ()
           else fail (codef ErrInvalidImageLayout ''OCI image layout blob content does not match digest'' []))"

definition validateBlobDigest :: "image_lib \<Rightarrow> ctx \<Rightarrow> string \<Rightarrow> descriptor \<Rightarrow> unit io" where
  "validateBlobDigest lib c p d =
     tryE (wrapped (\<lambda>e. codef ErrFilesystemFailed ''open OCI image layout blob'' [e]) (OpenRead p)) (\<lambda>_.
     deferred (Effectless p) (\<lambda>w. copy_verified lib c p (Digest d) (open_content w p) w))"

text \<open>The checks of one descriptor, before its children.\<close>

definition validate_blob :: "image_lib \<Rightarrow> ctx \<Rightarrow> string \<Rightarrow> descriptor \<Rightarrow> unit io" where
  "validate_blob lib c root d =
     check_ctx c (\<lambda>e. codef ErrCanceled ''validate OCI image layout descriptor canceled'' [e])
      (if Digest d = [] then fail (codef ErrInvalidImageLayout ''OCI image layout descriptor is missing digest'' [])
       else case digest_validate lib (Digest d) of
           Some e \<Rightarrow> fail (codef ErrInvalidImageLayout ''validate OCI image layout descriptor digest'' [e])
         | None \<Rightarrow>
             let p = blob_path lib root (Digest d) in
             attempt (Stat p) (\<lambda>r.
               case r of
                 Inl e \<Rightarrow>
                   if errIsNotExist e then fail (codef ErrInvalidImageLayout ''OCI image layout blob is missing'' [])
                   else fail (codef ErrFilesystemFailed ''stat OCI image layout blob'' [e])
               | Inr info \<Rightarrow>
                   if is_dir (Some info) then fail (codef ErrInvalidImageLayout ''OCI image layout blob is a directory'' [])
                   else if node_len info \<noteq> DescSize d then fail (codef ErrInvalidImageLayout ''OCI image layout blob size'' [])
                   else validateBlobDigest lib c p d))"

fun each :: "('a \<Rightarrow> unit io) \<Rightarrow> 'a list \<Rightarrow> unit io" where
  "each f [] = ret ()"
| "each f (x # xs) = tryE (f x) (\<lambda>_. each f xs)"

definition validateLayoutManifestBlob :: "image_lib \<Rightarrow> ctx \<Rightarrow> string \<Rightarrow> string \<Rightarrow> unit io" where
  "validateLayoutManifestBlob lib c root p =
     tryE (wrapped (\<lambda>e. codef ErrFilesystemFailed ''read OCI image layout manifest'' [e]) (ReadFile p)) (\<lambda>data.
     check_ctx c (\<lambda>e. codef ErrCanceled ''validate OCI image layout manifest canceled'' [e])
      (case parse_manifest lib data of
         Inl e \<Rightarrow> fail (codef ErrInvalidImageLayout ''decode OCI image layout manifest'' [e])
       | Inr m \<Rightarrow> tryE (validate_blob lib c root (Config m)) (\<lambda>_. each (validate_blob lib c root) (Layers m))))"

text \<open>\<open>rec\<close> is \<open>validateLayoutDescriptor\<close> with \<open>expand\<close>.\<close>

definition validateLayoutIndexBlob :: "image_lib \<Rightarrow> ctx \<Rightarrow> (descriptor \<Rightarrow> unit io) \<Rightarrow> string \<Rightarrow> unit io" where
  "validateLayoutIndexBlob lib c rec p =
     tryE (wrapped (\<lambda>e. codef ErrFilesystemFailed ''read OCI image layout nested index'' [e]) (ReadFile p)) (\<lambda>data.
     check_ctx c (\<lambda>e. codef ErrCanceled ''validate OCI image layout nested index canceled'' [e])
      (case parse_index lib data of
         Inl e \<Rightarrow> fail (codef ErrInvalidImageLayout ''decode OCI image layout nested index'' [e])
       | Inr ds \<Rightarrow>
           if ds = [] then fail (codef ErrInvalidImageLayout ''OCI image layout nested index has no manifests'' [])
           else each rec ds))"

fun validateLayoutDescriptor :: "nat \<Rightarrow> image_lib \<Rightarrow> ctx \<Rightarrow> string \<Rightarrow> bool \<Rightarrow> descriptor \<Rightarrow> unit io" where
  "validateLayoutDescriptor 0 lib c root expand d = fail (Opaque ''stack overflow'')"
| "validateLayoutDescriptor (Suc depth) lib c root expand d =
     tryE (validate_blob lib c root d) (\<lambda>_.
       let p = blob_path lib root (Digest d) in
       if \<not> expand then ret ()
       else if index_type (MediaType d) then validateLayoutIndexBlob lib c (validateLayoutDescriptor depth lib c root True) p
       else if manifest_type (MediaType d) then validateLayoutManifestBlob lib c root p
       else ret ())"

definition ValidateLayoutContext :: "nat \<Rightarrow> image_lib \<Rightarrow> ctx option \<Rightarrow> string \<Rightarrow> unit io" where
  "ValidateLayoutContext depth lib oc path =
     (case oc of
        None \<Rightarrow> fail (codef ErrInvalidRequest ''context is required'' [])
      | Some c \<Rightarrow>
          check_ctx c (\<lambda>e. codef ErrCanceled ''validate OCI image layout canceled before start'' [e])
          (if TrimSpace path = [] then fail (codef ErrInvalidImageLayout ''image layout path is required'' [])
           else attempt (Stat path) (\<lambda>r. case r of
             Inl e \<Rightarrow>
               if errIsNotExist e then fail (codef ErrInvalidImageLayout ''OCI image layout path does not exist'' [])
               else fail (codef ErrFilesystemFailed ''stat OCI image layout path'' [e])
           | Inr info \<Rightarrow>
           if \<not> is_dir (Some info) then fail (codef ErrInvalidImageLayout ''OCI image layout path is not a directory'' [])
           else attempt (ReadFile (Join [path, ''oci-layout''])) (\<lambda>r. case r of
             Inl e \<Rightarrow>
               if errIsNotExist e then fail (codef ErrInvalidImageLayout ''OCI image layout metadata is missing'' [])
               else fail (codef ErrFilesystemFailed ''read OCI image layout metadata'' [e])
           | Inr layoutFile \<Rightarrow>
           check_ctx c (\<lambda>e. codef ErrCanceled ''validate OCI image layout canceled after reading metadata'' [e])
           (case parse_version lib layoutFile of
             Inl e \<Rightarrow> fail (codef ErrInvalidImageLayout ''decode OCI image layout metadata'' [e])
           | Inr version \<Rightarrow>
           if version = [] then fail (codef ErrInvalidImageLayout ''OCI image layout version is missing'' [])
           else attempt (ReadFile (Join [path, ''index.json''])) (\<lambda>r. case r of
             Inl e \<Rightarrow>
               if errIsNotExist e then fail (codef ErrInvalidImageLayout ''OCI image layout index is missing'' [])
               else fail (codef ErrFilesystemFailed ''read OCI image layout index'' [e])
           | Inr indexFile \<Rightarrow>
           check_ctx c (\<lambda>e. codef ErrCanceled ''validate OCI image layout canceled after reading index'' [e])
           (case parse_index lib indexFile of
             Inl e \<Rightarrow> fail (codef ErrInvalidImageLayout ''decode OCI image layout index'' [e])
           | Inr ds \<Rightarrow>
           if ds = [] then fail (codef ErrInvalidImageLayout ''OCI image layout index has no manifests'' [])
           else each (validateLayoutDescriptor depth lib c path True) ds)))))))"

definition LayoutExistsContext :: "nat \<Rightarrow> image_lib \<Rightarrow> ctx option \<Rightarrow> string \<Rightarrow> bool io" where
  "LayoutExistsContext depth lib oc path =
     attempt (ValidateLayoutContext depth lib oc path) (\<lambda>r. ret (case r of Inl e \<Rightarrow> False | Inr _ \<Rightarrow> True))"

definition ValidateLayout :: "nat \<Rightarrow> image_lib \<Rightarrow> string \<Rightarrow> unit io" where
  "ValidateLayout depth lib path = ValidateLayoutContext depth lib (Some None) path"

definition LayoutExists :: "nat \<Rightarrow> image_lib \<Rightarrow> string \<Rightarrow> bool io" where
  "LayoutExists depth lib path = LayoutExistsContext depth lib (Some None) path"

subsection \<open>A validated layout\<close>

definition blob_content :: "image_lib \<Rightarrow> world \<Rightarrow> string \<Rightarrow> descriptor \<Rightarrow> string" where
  "blob_content lib w root d = open_content w (blob_path lib root (Digest d))"

text \<open>A blob that is what its descriptor says.\<close>

definition blob_ok :: "image_lib \<Rightarrow> world \<Rightarrow> string \<Rightarrow> descriptor \<Rightarrow> bool" where
  "blob_ok lib w root d \<longleftrightarrow> Digest d \<noteq> [] \<and> digest_validate lib (Digest d) = None \<and>
     (\<exists>q m u. resolve 40 w (blob_path lib root (Digest d)) = Some q \<and> node_at w q = Some (FileNode (blob_content lib w root d) m u)) \<and>
     int (length (blob_content lib w root d)) = DescSize d \<and> digest_verifies lib (Digest d) (blob_content lib w root d)"

text \<open>The descriptors that belong to the image: \<open>(d, True)\<close> is expanded, a config or layer is not.\<close>

inductive reaches :: "image_lib \<Rightarrow> world \<Rightarrow> string \<Rightarrow> descriptor \<times> bool \<Rightarrow> descriptor \<times> bool \<Rightarrow> bool" for lib w root where
  self: "reaches lib w root x x"
| index: "reaches lib w root x (d, True) \<Longrightarrow> index_type (MediaType d) \<Longrightarrow> parse_index lib (blob_content lib w root d) = Inr ds \<Longrightarrow>
    e \<in> set ds \<Longrightarrow> reaches lib w root x (e, True)"
| manifest: "reaches lib w root x (d, True) \<Longrightarrow> \<not> index_type (MediaType d) \<Longrightarrow> manifest_type (MediaType d) \<Longrightarrow>
    parse_manifest lib (blob_content lib w root d) = Inr m \<Longrightarrow> e \<in> set (Config m # Layers m) \<Longrightarrow> reaches lib w root x (e, False)"

lemma open_content_cong: "node_at w' = node_at w \<Longrightarrow> open_content w' p = open_content w p"
  unfolding open_content_def by (simp only: resolve_cong [of w' w])

lemma blob_ok_cong: "node_at w' = node_at w \<Longrightarrow> blob_ok lib w' root d = blob_ok lib w root d"
  unfolding blob_ok_def blob_content_def by (simp only: open_content_cong [of w' w] resolve_cong [of w' w])

text \<open>A step that keeps the tree and whose success means \<open>P\<close>.\<close>

definition checks :: "(string \<Rightarrow> node option) \<Rightarrow> 'a io \<Rightarrow> ('a \<Rightarrow> bool) \<Rightarrow> bool" where
  "checks t m P \<longleftrightarrow> (\<forall>w. node_at w = t \<longrightarrow> post m (\<lambda>r w'. node_at w' = t \<and> (\<forall>a. r = Inr a \<longrightarrow> P a)) w)"

named_theorems checks_rules

lemma checksD:
  assumes "checks (node_at w) m P"
  shows "post m (\<lambda>r w'. node_at w' = node_at w \<and> (\<forall>a. r = Inr a \<longrightarrow> P a)) w"
  using assms unfolding checks_def by (elim allE impE) (rule refl)

lemma checks_fail [checks_rules]: "checks t (fail e) P"
  by (simp add: checks_def wp)

lemma checks_ret [checks_rules]: "P a \<Longrightarrow> checks t (ret a) P"
  by (simp add: checks_def wp)

lemma checks_mono: "checks t m P \<Longrightarrow> (\<And>a. P a \<Longrightarrow> Q a) \<Longrightarrow> checks t m Q"
  unfolding checks_def by (intro allI impI) (erule allE, erule impE, assumption, erule post_mono, blast)

lemma checks_tryE:
  assumes "checks t m P" "\<And>a. P a \<Longrightarrow> checks t (k a) Q"
  shows "checks t (tryE m k) Q"
  unfolding checks_def
proof (intro allI impI, rule tryI, rule post_mono)
  fix w assume "node_at w = t"
  then show "post m (\<lambda>r w'. node_at w' = t \<and> (\<forall>a. r = Inr a \<longrightarrow> P a)) w" using assms(1) by (simp add: checks_def)
  show "case r of Inl e \<Rightarrow> node_at w' = t \<and> (\<forall>a. Inl e = Inr a \<longrightarrow> Q a)
      | Inr a \<Rightarrow> post (k a) (\<lambda>r w'. node_at w' = t \<and> (\<forall>a. r = Inr a \<longrightarrow> Q a)) w'"
    if "node_at w' = t \<and> (\<forall>a. r = Inr a \<longrightarrow> P a)" for r w'
    using that assms(2) by (cases r) (auto simp: checks_def)
qed

lemma checks_attempt:
  assumes "checks t m P" "\<And>e. checks t (k (Inl e)) Q" "\<And>a. P a \<Longrightarrow> checks t (k (Inr a)) Q"
  shows "checks t (attempt m k) Q"
  unfolding checks_def
proof (intro allI impI, rule attI, rule post_mono)
  fix w assume "node_at w = t"
  then show "post m (\<lambda>r w'. node_at w' = t \<and> (\<forall>a. r = Inr a \<longrightarrow> P a)) w" using assms(1) by (simp add: checks_def)
  show "post (k r) (\<lambda>r w'. node_at w' = t \<and> (\<forall>a. r = Inr a \<longrightarrow> Q a)) w'"
    if "node_at w' = t \<and> (\<forall>a. r = Inr a \<longrightarrow> P a)" for r w'
    using that assms(2,3) by (cases r) (auto simp: checks_def)
qed

lemma checks_wrapped [checks_rules]: "checks t m P \<Longrightarrow> checks t (wrapped f m) P"
  unfolding checks_def post_wrapped by (intro allI impI) (erule allE, erule impE, assumption, erule post_mono, simp split: sum.splits)

lemma checks_check_ctx [checks_rules]: "checks t m P \<Longrightarrow> checks t (check_ctx c f m) P"
  by (simp add: checks_def wp split: option.split)

lemma checks_if [checks_rules]: "(b \<Longrightarrow> checks t m P) \<Longrightarrow> (\<not> b \<Longrightarrow> checks t n P) \<Longrightarrow> checks t (if b then m else n) P"
  by simp

lemma checks_case_sum [checks_rules]:
  "(\<And>e. r = Inl e \<Longrightarrow> checks t (f e) P) \<Longrightarrow> (\<And>a. r = Inr a \<Longrightarrow> checks t (g a) P) \<Longrightarrow> checks t (case r of Inl e \<Rightarrow> f e | Inr a \<Rightarrow> g a) P"
  by (simp split: sum.split)

lemma checks_case_option [checks_rules]:
  "(r = None \<Longrightarrow> checks t f P) \<Longrightarrow> (\<And>a. r = Some a \<Longrightarrow> checks t (g a) P) \<Longrightarrow> checks t (case r of None \<Rightarrow> f | Some a \<Rightarrow> g a) P"
  by (simp split: option.split)

lemma checks_reads: "reads m \<Longrightarrow> checks t m (\<lambda>a. True)"
  unfolding checks_def by (intro allI impI post_reads) auto

lemma checks_deferred: "reads c \<Longrightarrow> checks t m P \<Longrightarrow> checks t (deferred c m) P"
  unfolding checks_def by (intro allI impI deferred_reads) auto

lemma checks_Stat:
  assumes "node_at w0 = t"
  shows "checks t (Stat p) (\<lambda>n. \<exists>q. resolve 40 w0 p = Some q \<and> node_at w0 q = Some n)"
  unfolding checks_def
proof (intro allI impI, rule post_Stat)
  fix w q n and w' :: world
  assume "node_at w = t" "node_at w' = node_at w" "resolve 40 w p = Some q" "node_at w q = Some n"
  then show "node_at w' = t \<and> (\<forall>a. Inr n = Inr a \<longrightarrow> (\<exists>q. resolve 40 w0 p = Some q \<and> node_at w0 q = Some a))"
    using assms resolve_cong [of w w0] by auto
qed simp

lemma checks_ReadFile:
  assumes "node_at w0 = t"
  shows "checks t (ReadFile p) (\<lambda>d. d = open_content w0 p)"
  unfolding checks_def ReadFile_def
proof (intro allI impI, rule post_syscall)
  fix w w' :: world assume w: "node_at w = t" and f: "files w' = files w"
  have n: "node_at w' = node_at w0" using node_at_ext [OF f] w assms by simp
  show "case (case resolve 40 w' p of None \<Rightarrow> Inl EIO
      | Some q \<Rightarrow> (case node_at w' q of Some (FileNode d m u) \<Rightarrow> Inr d | None \<Rightarrow> Inl ENOENT | _ \<Rightarrow> Inl EISDIR), w') of
        (Inl e, w'') \<Rightarrow> node_at w'' = t \<and> (\<forall>a. Inl (SysErr e p) = Inr a \<longrightarrow> a = open_content w0 p)
      | (Inr a, w'') \<Rightarrow> node_at w'' = t \<and> (\<forall>b. Inr a = Inr b \<longrightarrow> b = open_content w0 p)"
    unfolding open_content_def resolve_cong [OF n] n using assms n by (auto split: option.split node.split)
next
  fix w e and w' :: world assume "node_at w = t" "files w' = files w"
  then show "node_at w' = t \<and> (\<forall>a. Inl (SysErr e p) = Inr a \<longrightarrow> a = open_content w0 p)" using node_at_ext [of w' w] by simp
qed

lemma reads_deferred: "reads c \<Longrightarrow> reads m \<Longrightarrow> reads (deferred c m)"
  by (simp add: reads_def deferred_def split: prod.splits) (metis snd_conv)

lemma reads_contextReader: "reads (contextReader c p n)"
  by (induction n) (auto intro!: reads_comb)

lemma checks_world: "(\<And>w. node_at w = t \<Longrightarrow> checks t (f w) P) \<Longrightarrow> checks t (\<lambda>w. f w w) P"
  by (simp add: checks_def post_def)

lemma checks_blob_digest:
  assumes "node_at w0 = t"
  shows "checks t (validateBlobDigest lib c p d) (\<lambda>a. digest_verifies lib (Digest d) (open_content w0 p))"
proof -
  have w: "checks t (\<lambda>w. copy_verified lib c p (Digest d) (open_content w p) w) (\<lambda>a. digest_verifies lib (Digest d) (open_content w0 p))"
  proof (rule checks_world [where f = "\<lambda>w. copy_verified lib c p (Digest d) (open_content w p)"])
    fix w assume "node_at w = t"
    then have ct: "open_content w p = open_content w0 p" using assms open_content_cong [of w w0] by simp
    show "checks t (copy_verified lib c p (Digest d) (open_content w p)) (\<lambda>a. digest_verifies lib (Digest d) (open_content w0 p))"
      unfolding copy_verified_def ct
      by (rule checks_attempt [OF checks_reads [OF reads_contextReader]]) (simp_all add: checks_rules)
  qed
  show ?thesis
    unfolding validateBlobDigest_def
    by (rule checks_tryE [OF checks_wrapped [OF checks_reads]], simp, rule checks_deferred [OF _ w], simp)
qed

lemma checks_blob:
  assumes t: "node_at w0 = t"
  shows "checks t (validate_blob lib c root d) (\<lambda>a. blob_ok lib w0 root d)"
proof -
  let ?p = "blob_path lib root (Digest d)"
  have fin: "checks t (if is_dir (Some info) then fail (codef ErrInvalidImageLayout ''OCI image layout blob is a directory'' [])
        else if node_len info \<noteq> DescSize d then fail (codef ErrInvalidImageLayout ''OCI image layout blob size'' [])
        else validateBlobDigest lib c ?p d) (\<lambda>a. blob_ok lib w0 root d)"
    if "Digest d \<noteq> []" "digest_validate lib (Digest d) = None" "resolve 40 w0 ?p = Some q" "node_at w0 q = Some info" for q info
  proof (intro checks_if checks_fail)
    assume nd: "\<not> is_dir (Some info)" and len: "\<not> node_len info \<noteq> DescSize d"
    have "\<not> is_link info"
    proof
      assume l: "is_link info"
      have "node_at w (the (resolve k w x)) = Some n \<Longrightarrow> resolve k w x = Some y \<Longrightarrow> \<not> is_link n" for k w x y n
        by (induction k arbitrary: x) (auto split: option.splits node.splits if_splits)
      then show False using l that by force
    qed
    then obtain ct m u where i: "info = FileNode ct m u" using nd by (cases info) auto
    have "blob_content lib w0 root d = ct" using that i by (simp add: blob_content_def open_content_def)
    then show "checks t (validateBlobDigest lib c ?p d) (\<lambda>a. blob_ok lib w0 root d)"
      using that i len by (intro checks_mono [OF checks_blob_digest [OF t]]) (auto simp: blob_ok_def blob_content_def)
  qed
  show ?thesis
    unfolding validate_blob_def Let_def
  proof (rule checks_check_ctx, rule checks_if, rule checks_fail, rule checks_case_option, rule checks_attempt [OF checks_Stat [OF t]])
    fix info assume "Digest d \<noteq> []" "digest_validate lib (Digest d) = None" "\<exists>q. resolve 40 w0 ?p = Some q \<and> node_at w0 q = Some info"
    then show "checks t (case Inr info of
        Inl e \<Rightarrow> if errIsNotExist e then fail (codef ErrInvalidImageLayout ''OCI image layout blob is missing'' [])
          else fail (codef ErrFilesystemFailed ''stat OCI image layout blob'' [e])
      | Inr info \<Rightarrow> if is_dir (Some info) then fail (codef ErrInvalidImageLayout ''OCI image layout blob is a directory'' [])
          else if node_len info \<noteq> DescSize d then fail (codef ErrInvalidImageLayout ''OCI image layout blob size'' [])
          else validateBlobDigest lib c ?p d) (\<lambda>a. blob_ok lib w0 root d)"
      unfolding sum.case using fin by blast
  qed (simp_all only: sum.case checks_fail if_cancel checks_if)
qed

lemma checks_each:
  assumes "\<And>x. x \<in> set xs \<Longrightarrow> checks t (f x) (\<lambda>a. P x)"
  shows "checks t (each f xs) (\<lambda>a. \<forall>x \<in> set xs. P x)"
  using assms
proof (induction xs)
  case (Cons x xs)
  have "checks t (each f xs) (\<lambda>a. \<forall>x \<in> set xs. P x)" by (rule Cons.IH) (use Cons.prems in simp)
  then show ?case unfolding each.simps
    by (intro checks_tryE [OF Cons.prems]) (auto intro: checks_mono)
qed (simp add: checks_rules)

text \<open>Reachability from the front.\<close>

lemma reaches_leaf: "reaches lib w root (d, False) y \<Longrightarrow> y = (d, False)"
  by (induction "(d, False)" y rule: reaches.induct) auto

lemma reaches_front:
  assumes "reaches lib w root (d, True) y"
  shows "y = (d, True) \<or>
    (\<exists>ds e. index_type (MediaType d) \<and> parse_index lib (blob_content lib w root d) = Inr ds \<and> e \<in> set ds \<and> reaches lib w root (e, True) y) \<or>
    (\<exists>m e. \<not> index_type (MediaType d) \<and> manifest_type (MediaType d) \<and> parse_manifest lib (blob_content lib w root d) = Inr m \<and>
        e \<in> set (Config m # Layers m) \<and> y = (e, False))"
  using assms
proof (induction "(d, True)" y rule: reaches.induct)
  case (index d' ds e)
  then show ?case using reaches.self reaches.index by blast
next
  case (manifest d' m e)
  then show ?case using reaches.manifest by blast
qed simp

lemma checks_descriptor:
  assumes t: "node_at w0 = t"
  shows "checks t (validateLayoutDescriptor depth lib c root True d) (\<lambda>a. \<forall>e b. reaches lib w0 root (d, True) (e, b) \<longrightarrow> blob_ok lib w0 root e)"
proof (induction depth arbitrary: d)
  case 0
  then show ?case by (simp add: checks_rules)
next
  case (Suc depth)
  let ?P = "\<lambda>d. \<forall>e b. reaches lib w0 root (d, True) (e, b) \<longrightarrow> blob_ok lib w0 root e"
  let ?p = "blob_path lib root (Digest d)"
  have index: "checks t (validateLayoutIndexBlob lib c (validateLayoutDescriptor depth lib c root True) ?p) (\<lambda>a. ?P d)"
    if d: "blob_ok lib w0 root d" "index_type (MediaType d)"
    unfolding validateLayoutIndexBlob_def
  proof (rule checks_tryE [OF checks_wrapped [OF checks_ReadFile [OF t]]], rule checks_check_ctx, rule checks_case_sum, rule checks_fail, rule checks_if, rule checks_fail)
    fix data ds assume data: "data = open_content w0 ?p" "parse_index lib data = Inr ds"
    have "?P d" if "\<forall>e \<in> set ds. ?P e"
    proof (intro allI impI)
      fix e b assume "reaches lib w0 root (d, True) (e, b)"
      from reaches_front [OF this] show "blob_ok lib w0 root e"
        using that d data unfolding blob_content_def by auto
    qed
    then show "checks t (each (validateLayoutDescriptor depth lib c root True) ds) (\<lambda>a. ?P d)"
      by (intro checks_mono [OF checks_each [OF Suc.IH]])
  qed
  have man: "checks t (validateLayoutManifestBlob lib c root ?p) (\<lambda>a. ?P d)"
    if d: "blob_ok lib w0 root d" "\<not> index_type (MediaType d)" "manifest_type (MediaType d)"
    unfolding validateLayoutManifestBlob_def
  proof (rule checks_tryE [OF checks_wrapped [OF checks_ReadFile [OF t]]], rule checks_check_ctx, rule checks_case_sum, rule checks_fail)
    fix data m assume data: "data = open_content w0 ?p" "parse_manifest lib data = Inr m"
    have "?P d" if "blob_ok lib w0 root (Config m)" "\<forall>e \<in> set (Layers m). blob_ok lib w0 root e"
    proof (intro allI impI)
      fix e b assume "reaches lib w0 root (d, True) (e, b)"
      from reaches_front [OF this] show "blob_ok lib w0 root e"
        using that d data unfolding blob_content_def by auto
    qed
    then show "checks t (tryE (validate_blob lib c root (Config m)) (\<lambda>_. each (validate_blob lib c root) (Layers m))) (\<lambda>a. ?P d)"
      by (intro checks_tryE [OF checks_blob [OF t]] checks_mono [OF checks_each [OF checks_blob [OF t]]])
  qed
  have leaf: "?P d" if d: "blob_ok lib w0 root d" "\<not> index_type (MediaType d)" "\<not> manifest_type (MediaType d)"
  proof (intro allI impI)
    fix e b assume "reaches lib w0 root (d, True) (e, b)"
    from reaches_front [OF this] show "blob_ok lib w0 root e" using d by auto
  qed
  show ?case
    unfolding validateLayoutDescriptor.simps Let_def
    by (rule checks_tryE [OF checks_blob [OF t]]) (simp only: not_True_eq_False if_False, intro checks_if index man checks_ret leaf)
qed

text \<open>What the index of a validated layout lists.\<close>

definition layout_valid :: "image_lib \<Rightarrow> world \<Rightarrow> string \<Rightarrow> bool" where
  "layout_valid lib w root \<longleftrightarrow> (\<exists>ds. parse_index lib (open_content w (Join [root, ''index.json''])) = Inr ds \<and> ds \<noteq> [] \<and>
     (\<forall>d \<in> set ds. \<forall>e b. reaches lib w root (d, True) (e, b) \<longrightarrow> blob_ok lib w root e))"

lemma checks_layout:
  assumes t: "node_at w0 = t"
  shows "checks t (ValidateLayoutContext depth lib oc root) (\<lambda>a. layout_valid lib w0 root)"
proof -
  have idx: "checks t (case parse_index lib data of Inl e \<Rightarrow> fail (codef ErrInvalidImageLayout ''decode OCI image layout index'' [e])
      | Inr ds \<Rightarrow> if ds = [] then fail (codef ErrInvalidImageLayout ''OCI image layout index has no manifests'' [])
           else each (validateLayoutDescriptor depth lib c root True) ds) (\<lambda>a. layout_valid lib w0 root)"
    if data: "data = open_content w0 (Join [root, ''index.json''])" for data c
  proof (rule checks_case_sum, rule checks_fail, rule checks_if, rule checks_fail)
    fix ds assume "parse_index lib data = Inr ds" "ds \<noteq> []"
    then show "checks t (each (validateLayoutDescriptor depth lib c root True) ds) (\<lambda>a. layout_valid lib w0 root)"
      using data unfolding layout_valid_def by (intro checks_mono [OF checks_each [OF checks_descriptor [OF t]]]) blast
  qed
  show ?thesis
    unfolding ValidateLayoutContext_def
    by (rule checks_case_option, rule checks_fail, rule checks_check_ctx, rule checks_if, rule checks_fail,
        rule checks_attempt [OF checks_Stat [OF t]], simp only: sum.case, intro checks_if checks_fail,
        simp only: sum.case, rule checks_if, rule checks_fail,
        rule checks_attempt [OF checks_ReadFile [OF t]], simp only: sum.case, intro checks_if checks_fail,
        simp only: sum.case, rule checks_check_ctx, rule checks_case_sum, rule checks_fail, rule checks_if, rule checks_fail,
        rule checks_attempt [OF checks_ReadFile [OF t]], simp only: sum.case, intro checks_if checks_fail,
        simp only: sum.case, rule checks_check_ctx, rule idx, rule refl)
qed

text \<open>
  C25. A layout that \<open>ValidateLayoutContext\<close> accepts is intact: its index is not empty, and every
  blob reachable from it through nested indexes and manifests (manifests, configurations and
  layers) exists, has the size its descriptor states and the content its digest names. The
  validation changes no file.
\<close>

theorem layout_intact:
  assumes "ValidateLayoutContext depth lib oc root w = (Inr (), w')"
  shows "node_at w' = node_at w \<and> (\<exists>ds. parse_index lib (open_content w (Join [root, ''index.json''])) = Inr ds \<and> ds \<noteq> [] \<and>
     (\<forall>d \<in> set ds. \<forall>e b. reaches lib w root (d, True) (e, b) \<longrightarrow> blob_ok lib w root e))"
proof -
  have "checks (node_at w) (ValidateLayoutContext depth lib oc root) (\<lambda>a. layout_valid lib w root)"
    by (rule checks_layout) (rule refl)
  note p = checksD [OF this]
  from postD [OF p assms] have "node_at w' = node_at w" "layout_valid lib w root" by blast+
  then show ?thesis unfolding layout_valid_def by (rule conjI)
qed

definition toy_descriptor :: "string \<Rightarrow> string \<Rightarrow> descriptor" where
  "toy_descriptor t d = \<lparr>MediaType = t, Digest = d, DescSize = int (length d), Platform = None, Annotations = []\<rparr>"

text \<open>A digest is the content itself; one manifest with a configuration and a layer.\<close>

definition toy_lib :: image_lib where
  "toy_lib = \<lparr>parse_version = Inr, parse_index = (\<lambda>s. if s = ''index'' then Inr [toy_descriptor ''application/vnd.oci.image.manifest.v1+json'' ''man''] else Inl (Opaque s)),
     parse_manifest = (\<lambda>s. if s = ''man'' then Inr \<lparr>Config = toy_descriptor ''c'' ''conf'', Layers = [toy_descriptor ''l'' ''layer'']\<rparr> else Inl (Opaque s)),
     digest_validate = (\<lambda>d. None), digest_algorithm = (\<lambda>d. ''id''), digest_encoded = (\<lambda>d. d), digest_verifies = (\<lambda>d c. d = c), parse_reference = Inr\<rparr>"

definition toy_world :: world where
  "toy_world = \<lparr>files = [(''/i'', DirNode 448 0), (''/i/oci-layout'', FileNode ''1.0.0'' 384 0), (''/i/index.json'', FileNode ''index'' 384 0),
     (''/i/blobs/id/man'', FileNode ''man'' 384 0), (''/i/blobs/id/conf'', FileNode ''conf'' 384 0), (''/i/blobs/id/layer'', FileNode ''layer'' 384 0)],
     faults = [], now = 0, fresh = 0\<rparr>"

theorem layout_intact_witness:
  "fst (ValidateLayoutContext 3 toy_lib (Some None) ''/i'' toy_world) = Inr () \<and> blob_ok toy_lib toy_world ''/i'' (toy_descriptor ''l'' ''layer'')"
proof -
  have e: "fst (ValidateLayoutContext 3 toy_lib (Some None) ''/i'' toy_world) = Inr ()" by code_simp
  then obtain w' where w': "ValidateLayoutContext 3 toy_lib (Some None) ''/i'' toy_world = (Inr (), w')" by (metis prod.collapse)
  let ?m = "toy_descriptor ''application/vnd.oci.image.manifest.v1+json'' ''man''"
  have i: "open_content toy_world (Join [''/i'', ''index.json'']) = ''index''" by code_simp
  have "parse_index toy_lib ''index'' = Inr [?m]" by (simp add: toy_lib_def)
  then have r: "\<forall>e b. reaches toy_lib toy_world ''/i'' (?m, True) (e, b) \<longrightarrow> blob_ok toy_lib toy_world ''/i'' e"
    using layout_intact [OF w'] i by auto
  have mc: "blob_content toy_lib toy_world ''/i'' ?m = ''man''" by code_simp
  have mt: "\<not> index_type (MediaType ?m)" "manifest_type (MediaType ?m)" by code_simp+
  have "parse_manifest toy_lib ''man'' = Inr \<lparr>Config = toy_descriptor ''c'' ''conf'', Layers = [toy_descriptor ''l'' ''layer'']\<rparr>" by (simp add: toy_lib_def)
  then have "reaches toy_lib toy_world ''/i'' (?m, True) (toy_descriptor ''l'' ''layer'', False)"
    using reaches.manifest [OF reaches.self mt] mc by simp
  then show ?thesis using r e by blast
qed

end
