(* ===== verification/Provisioner.thy ===== *)
theory Provisioner
  imports Bundle_Removal Image_Layout
begin

text \<open>
  Making a bundle: \<open>Provision\<close> of \<open>pkg/bundle/internal/directory/provisioner.go\<close> and the mapped
  unpacking of \<open>userns.go\<close>.

  Third-party code is a parameter: the umoci library and its helper, JSON, digests, the HTTP
  client and the search for programs. What the theorems need of it is stated as a predicate on
  the parameters.
\<close>

subsection \<open>Data and parameters\<close>

record provision_request =
  req_bundle_id :: string
  req_layout :: string
  req_ref :: string
  req_digest :: string
  req_platform :: platform
  req_process :: process_spec
  req_mounts :: "bundle_mount list"

text \<open>What the decoder of a blob returns: a manifest, the raw bytes, or something else.\<close>

datatype blob_data = ManifestData manifest | ReaderData string | OtherData

record response =
  resp_status :: nat
  resp_body :: string
  resp_err :: "goerr option"

record provision_tools =
  pt_removal :: bundle_tools
  pt_image :: image_lib
  pt_join :: secure_join
  pt_depth :: nat
  pt_arch :: string
  minute :: nat
  open_layout :: "string \<Rightarrow> unit io"
  resolve_reference :: "string \<Rightarrow> descriptor list io"
  from_descriptor :: "descriptor \<Rightarrow> (string \<times> blob_data) io"
  decode_manifest :: "string \<Rightarrow> goerr + manifest"
  digest_parse :: "string \<Rightarrow> goerr + string"
  digest_of :: "string \<Rightarrow> string"
  sha256_hex :: "string \<Rightarrow> string"
  unpack_manifest :: "string \<Rightarrow> userNamespace \<Rightarrow> manifest \<Rightarrow> unit io"
  decode_spec_stream :: "string \<Rightarrow> goerr + oci_spec"
  encode_spec_indent :: "oci_spec \<Rightarrow> goerr + string"
  encode_spec :: "oci_spec \<Rightarrow> goerr + string"
  encode_manifest :: "manifest \<Rightarrow> goerr + string"
  encode_index :: "descriptor list \<Rightarrow> goerr + string"
  to_rootless :: "oci_spec \<Rightarrow> goerr + oci_spec"
  look_path :: "string \<Rightarrow> goerr option"
  http_get :: "ctx \<Rightarrow> string \<Rightarrow> response io"

subsection \<open>Selecting the manifest\<close>

definition platformMatches :: "platform option \<Rightarrow> platform \<Rightarrow> bool" where
  "platformMatches candidate requested =
     (case candidate of
        None \<Rightarrow> False
      | Some p \<Rightarrow> OS p = OS requested \<and> Architecture p = Architecture requested \<and> Variant p = Variant requested)"

definition platformString :: "platform \<Rightarrow> string" where
  "platformString p = OS p @ ''/'' @ Architecture p @ (if Variant p = [] then [] else ''/'' @ Variant p)"

definition manifestFromDescriptor :: "provision_tools \<Rightarrow> ctx \<Rightarrow> descriptor \<Rightarrow> manifest io" where
  "manifestFromDescriptor tools c d =
     attempt (from_descriptor tools d) (\<lambda>r.
       case r of
         Inl e \<Rightarrow> check_ctx c (\<lambda>x. codef ErrCanceled ''read image manifest canceled'' [x])
           (fail (codef ErrInvalidImageLayout ''read image manifest'' [e]))
       | Inr (mediaType, data) \<Rightarrow>
           deferred (Effectless (Digest d))
            (if \<not> manifest_type mediaType then fail (codef ErrInvalidImageLayout ''image descriptor is not an image manifest'' [])
             else (case data of
                 ManifestData m \<Rightarrow> ret m
               | OtherData \<Rightarrow> fail (codef ErrInvalidImageLayout ''image manifest has unexpected decoded type'' [])
               | ReaderData bytes \<Rightarrow>
                   wrapped (\<lambda>e. codef ErrInvalidImageLayout ''decode image manifest'' [e]) (lift_sum (decode_manifest tools bytes)))))"

fun find_descriptor :: "string \<Rightarrow> platform \<Rightarrow> descriptor list \<Rightarrow> descriptor option" where
  "find_descriptor expected p [] = None"
| "find_descriptor expected p (d # ds) =
     (if Digest d = expected \<and> platformMatches (Platform d) p then Some d else find_descriptor expected p ds)"

definition imageManifestInLayout :: "provision_tools \<Rightarrow> ctx \<Rightarrow> string \<Rightarrow> string \<Rightarrow> platform \<Rightarrow> manifest io" where
  "imageManifestInLayout tools c imageRef imageDigest imagePlatform =
     check_ctx c (\<lambda>e. codef ErrCanceled ''resolve image ref canceled before start'' [e])
      (attempt (resolve_reference tools imageRef) (\<lambda>r.
        case r of
          Inl e \<Rightarrow> check_ctx c (\<lambda>x. codef ErrCanceled ''resolve image ref canceled'' [x])
            (fail (codef ErrInvalidImageLayout ''resolve image ref'' [e]))
        | Inr ds \<Rightarrow>
            if ds = [] then fail (codef ErrInvalidImageLayout ''image ref is not present in image layout'' [])
            else if TrimSpace imageDigest \<noteq> [] then
              (case digest_parse tools imageDigest of
                 Inl e \<Rightarrow> fail (codef ErrInvalidImageLayout ''image digest is invalid'' [e])
               | Inr expected \<Rightarrow>
                   let p = NormalizePlatform (pt_arch tools) imagePlatform in
                   (case find_descriptor expected p ds of
                      None \<Rightarrow> fail (codef ErrInvalidImageLayout (''no descriptor for digest '' @ expected @ '' and platform '' @ platformString p) [])
                    | Some d \<Rightarrow>
                        if Digest d = [] then fail (codef ErrInvalidImageLayout (''no descriptor for digest '' @ expected @ '' and platform '' @ platformString p) [])
                        else manifestFromDescriptor tools c d))
            else if length ds \<noteq> 1 then fail (codef ErrInvalidImageLayout ''image ref is ambiguous in image layout'' [])
            else manifestFromDescriptor tools c (hd ds)))"

subsection \<open>The runtime configuration\<close>

definition prepare_failed :: "string \<Rightarrow> goerr \<Rightarrow> goerr" where
  "prepare_failed what e = codef ErrBundlePrepareFailed what [e]"

definition writeRootlessRuntimeSpec ::
    "provision_tools \<Rightarrow> string \<Rightarrow> userNamespace \<Rightarrow> process_spec \<Rightarrow> oci_mount list \<Rightarrow> unit io" where
  "writeRootlessRuntimeSpec tools bundlePath ns process mounts =
     (let configPath = Join [bundlePath, ''config.json''] in
      tryE (wrapped (prepare_failed ''open runtime spec'') (OpenRead configPath)) (\<lambda>_.
      attempt (ReadFile configPath) (\<lambda>rd.
      attempt (Effectless configPath) (\<lambda>closed.
      tryE (wrapped (prepare_failed ''decode runtime spec'') (lift_sum (case rd of Inl e \<Rightarrow> Inl e | Inr data \<Rightarrow> decode_spec_stream tools data))) (\<lambda>spec.
      tryE (wrapped (prepare_failed ''close runtime spec'') (lift_sum closed)) (\<lambda>_.
      tryE (lift_sum (setupRootlessRuntimeSpec (Some spec) (ns_uid ns) (ns_gid ns) process mounts)) (\<lambda>spec'.
      tryE (wrapped (prepare_failed ''encode runtime spec'') (lift_sum (encode_spec_indent tools spec'))) (\<lambda>output.
      tryE (wrapped (prepare_failed ''write runtime spec'') (WriteFile configPath (output @ [CHR 0x0A]) 384)) (\<lambda>_.
        wrapped (prepare_failed ''set runtime spec mode'') (Chmod configPath 384))))))))))"

subsection \<open>The unpack helper\<close>

definition helper_version :: string where
  "helper_version = ''v0.6.0''"

definition helper_checksum :: "string \<Rightarrow> string option" where
  "helper_checksum arch =
     (if arch = ''amd64'' then Some ''b51c267ec394499e42c6fde47f240b7b7dba57ea49df0b5acd304378b82a3b71''
      else if arch = ''arm64'' then Some ''5cfd17f2e7a4bcf9ed67ea1b955ca893d200349b9ce6a3d3707dba415f458a1f''
      else None)"

definition helper_url :: "string \<Rightarrow> string" where
  "helper_url arch =
     ''https://github.com/opencontainers/umoci/releases/download/'' @ helper_version @ ''/umoci.linux.'' @ arch"

definition limit_bytes :: "int \<Rightarrow> string \<Rightarrow> string" where
  "limit_bytes n s = (if int (length s) \<le> n then s else take (nat n) s)"

text \<open>\<open>io.Copy\<close> of the limited body: what was read is written before a read error is returned.\<close>

definition copy_body :: "string \<Rightarrow> response \<Rightarrow> string io" where
  "copy_body stage r =
     (let data = limit_bytes 67108864 (resp_body r) in
      tryE (FWrite stage data) (\<lambda>_.
        case resp_err r of
          Some e \<Rightarrow> if int (length (resp_body r)) < 67108864 then fail e else ret data
        | None \<Rightarrow> ret data))"

definition install_failed :: "goerr \<Rightarrow> goerr" where
  "install_failed e = codef ErrBundlePrepareFailed ''install umoci helper'' [e]"

definition download_helper :: "provision_tools \<Rightarrow> workspace option \<Rightarrow> ctx \<Rightarrow> string \<Rightarrow> string \<Rightarrow> string io" where
  "download_helper tools ws c path checksum =
     tryE (wrapped (\<lambda>e. codef ErrBundlePrepareFailed ''download umoci helper'' [e]) (http_get tools c (helper_url (pt_arch tools)))) (\<lambda>r.
     deferred (Effectless ''body'')
      (if resp_status r \<noteq> 200 then fail (codef ErrBundlePrepareFailed ''download umoci helper: HTTP status'' [])
       else tryE (wrapped install_failed (ws_CreateTemp (pt_join tools) ws ''.bin'' ''.umoci-download-'')) (\<lambda>stage.
       deferred (Remove stage) (deferred (Effectless stage)
        (tryE (wrapped install_failed (copy_body stage r)) (\<lambda>data.
         if sha256_hex tools data \<noteq> checksum then fail (codef ErrBundlePrepareFailed ''umoci helper checksum mismatch'' [])
         else tryE (wrapped install_failed (Chmod stage 448)) (\<lambda>_.
         tryE (wrapped install_failed (Effectless stage)) (\<lambda>_.
         tryE (wrapped install_failed (Effectless stage)) (\<lambda>_.
         tryE (wrapped install_failed (Rename stage path)) (\<lambda>_. ret path))))))))))"

definition installUnpackHelper :: "provision_tools \<Rightarrow> workspace option \<Rightarrow> ctx \<Rightarrow> string io" where
  "installUnpackHelper tools ws c =
     (case helper_checksum (pt_arch tools) of
        None \<Rightarrow> fail (codef ErrUnsupportedHost (''umoci helper does not support '' @ pt_arch tools) [])
      | Some checksum \<Rightarrow>
          tryE (wrapped (\<lambda>e. codef ErrBundlePrepareFailed ''create umoci binary directory'' [e]) (MkdirPrivate (pt_join tools) ws ''.bin'')) (\<lambda>binDir.
            let path = Join [binDir, ''umoci-'' @ helper_version @ ''-'' @ pt_arch tools] in
            attempt (OpenRead path) (\<lambda>opened.
              case opened of
                Inl e \<Rightarrow> download_helper tools ws c path checksum
              | Inr _ \<Rightarrow>
                  attempt (ReadFile path) (\<lambda>rd.
                  attempt (Effectless path) (\<lambda>closed.
                    if (case (rd, closed) of (Inr data, Inr _) \<Rightarrow> sha256_hex tools data = checksum | _ \<Rightarrow> False)
                    then ret path
                    else download_helper tools ws c path checksum)))))"

subsection \<open>Unpacking in a mapped namespace\<close>

fun look_up_helpers :: "provision_tools \<Rightarrow> string list \<Rightarrow> goerr option" where
  "look_up_helpers tools [] = None"
| "look_up_helpers tools (h # hs) =
     (case look_path tools h of
        Some e \<Rightarrow> Some (codef ErrUnsupportedHost (''mapped rootless bundles require '' @ h) [e])
      | None \<Rightarrow> look_up_helpers tools hs)"

definition mapped_failed :: "goerr \<Rightarrow> goerr" where
  "mapped_failed e = codef ErrBundlePrepareFailed ''prepare mapped bundle'' [e]"

definition link_blob :: "provision_tools \<Rightarrow> host_env \<Rightarrow> string \<Rightarrow> string \<Rightarrow> descriptor \<Rightarrow> unit io" where
  "link_blob tools env layout view d =
     (let lib = pt_image tools in
      tryE (wrapped mapped_failed (lift_err (digest_validate lib (Digest d)))) (\<lambda>_.
      let target = Join [view, ''blobs'', digest_algorithm lib (Digest d), digest_encoded lib (Digest d)] in
      tryE (wrapped mapped_failed (MkdirAll (Dir target) 448 0)) (\<lambda>_.
      tryE (wrapped mapped_failed (lift_sum (Abs env (Join [layout, ''blobs'', digest_algorithm lib (Digest d), digest_encoded lib (Digest d)])))) (\<lambda>source.
      attempt (Symlink source target) (\<lambda>r.
        case r of
          Inl e \<Rightarrow> if errIsExist e then ret () else fail (mapped_failed e)
        | Inr _ \<Rightarrow> ret ())))))"

fun link_blobs :: "provision_tools \<Rightarrow> host_env \<Rightarrow> string \<Rightarrow> string \<Rightarrow> descriptor list \<Rightarrow> unit io" where
  "link_blobs tools env layout view [] = ret ()"
| "link_blobs tools env layout view (d # ds) =
     tryE (link_blob tools env layout view d) (\<lambda>_. link_blobs tools env layout view ds)"

fun run_helper :: "provision_tools \<Rightarrow> ctx \<Rightarrow> userNamespace \<Rightarrow> string \<Rightarrow> string \<Rightarrow> string list list \<Rightarrow> unit io" where
  "run_helper tools c ns view helper [] = ret ()"
| "run_helper tools c ns view helper (args # rest) =
     attempt (unshare (pt_removal tools) (ns_flags ns helper args) view) (\<lambda>r.
       case r of
         Inl e \<Rightarrow> check_ctx c (\<lambda>x. codef ErrCanceled ''unpack mapped image'' [x])
           (fail (codef ErrBundlePrepareFailed ''unpack in rootless user namespace'' [e]))
       | Inr _ \<Rightarrow> run_helper tools c ns view helper rest)"

definition index_entry :: "provision_tools \<Rightarrow> string \<Rightarrow> descriptor" where
  "index_entry tools data =
     \<lparr>MediaType = ''application/vnd.oci.image.manifest.v1+json'', Digest = digest_of tools data, DescSize = int (length data),
      Platform = None, Annotations = [(''org.opencontainers.image.ref.name'', ''unpack'')]\<rparr>"

definition layout_marker :: string where
  "layout_marker = [CHR ''{'', CHR 0x22] @ ''imageLayoutVersion'' @ [CHR 0x22, CHR '':'', CHR 0x22] @ ''1.0.0'' @ [CHR 0x22, CHR ''}'']"

definition write_view :: "provision_tools \<Rightarrow> host_env \<Rightarrow> string \<Rightarrow> string \<Rightarrow> manifest \<Rightarrow> unit io" where
  "write_view tools env layout view m =
     (let blobRoot = Join [view, ''blobs'', ''sha256''] in
      tryE (wrapped mapped_failed (MkdirAll blobRoot 448 0)) (\<lambda>_.
      tryE (link_blobs tools env layout view (Config m # Layers m)) (\<lambda>_.
      tryE (wrapped mapped_failed (lift_sum (encode_manifest tools m))) (\<lambda>data.
      tryE (wrapped mapped_failed (WriteFile (Join [blobRoot, digest_encoded (pt_image tools) (digest_of tools data)]) data 384)) (\<lambda>_.
      tryE (wrapped mapped_failed (lift_sum (encode_index tools [index_entry tools data]))) (\<lambda>index.
      tryE (wrapped mapped_failed (WriteFile (Join [view, ''index.json'']) index 384)) (\<lambda>_.
        wrapped mapped_failed (WriteFile (Join [view, ''oci-layout'']) layout_marker 384))))))))"

definition stub_spec :: "userNamespace \<Rightarrow> oci_spec" where
  "stub_spec ns =
     \<lparr>Process = None, Mounts = [], Linux = Some (zero_linux\<lparr>UIDMappings := ns_uid ns, GIDMappings := ns_gid ns\<rparr>), spec_other = []\<rparr>"

definition publish_config :: "provision_tools \<Rightarrow> userNamespace \<Rightarrow> string \<Rightarrow> string \<Rightarrow> unit io" where
  "publish_config tools ns configStage configPath =
     tryE (wrapped mapped_failed (ReadFile configStage)) (\<lambda>data.
     tryE (wrapped mapped_failed (lift_sum (decode_spec (pt_removal tools) data))) (\<lambda>spec.
     tryE (wrapped mapped_failed (lift_sum (to_rootless tools spec))) (\<lambda>spec.
     case Linux spec of
       None \<Rightarrow> fail (Opaque ''panic: nil pointer dereference'')
     | Some l \<Rightarrow>
         tryE (wrapped mapped_failed (lift_sum (encode_spec tools
             (spec\<lparr>Linux := Some (l\<lparr>UIDMappings := ns_uid ns, GIDMappings := ns_gid ns\<rparr>)\<rparr>)))) (\<lambda>data.
         tryE (wrapped mapped_failed (WriteFile configStage data 384)) (\<lambda>_.
           wrapped (\<lambda>e. codef ErrBundlePrepareFailed ''publish mapped runtime config'' [e]) (Rename configStage configPath))))))"

definition unpack_view :: "provision_tools \<Rightarrow> host_env \<Rightarrow> ctx \<Rightarrow> userNamespace \<Rightarrow> string \<Rightarrow> string \<Rightarrow> string \<Rightarrow> string \<Rightarrow> manifest \<Rightarrow> unit io" where
  "unpack_view tools env c ns helper view layout bundle m =
     (let configPath = Join [bundle, ''config.json'']; rootfs = Join [bundle, ''rootfs'']; configStage = Join [bundle, ''.config-next.json''] in
      tryE (write_view tools env layout view m) (\<lambda>_.
      tryE (wrapped mapped_failed (lift_sum (encode_spec tools (stub_spec ns)))) (\<lambda>data.
      tryE (wrapped mapped_failed (WriteFile configPath data 384)) (\<lambda>_.
      tryE (run_helper tools c ns view helper
          [[''raw'', ''unpack'', ''--image'', ''.:unpack'', rootfs],
           [''raw'', ''runtime-config'', ''--image'', ''.:unpack'', ''--rootfs'', rootfs, configStage]]) (\<lambda>_.
        publish_config tools ns configStage configPath)))))"

definition unpackMapped ::
    "provision_tools \<Rightarrow> host_env \<Rightarrow> provisioner \<Rightarrow> ctx \<Rightarrow> string \<Rightarrow> string \<Rightarrow> manifest \<Rightarrow> unit io" where
  "unpackMapped tools env p c layout bundle m =
     (case look_up_helpers tools [''unshare'', ''newuidmap'', ''newgidmap''] of
        Some e \<Rightarrow> fail e
      | None \<Rightarrow>
          attempt (installUnpackHelper tools (prov_ws p) c) (\<lambda>r.
            case r of
              Inl e \<Rightarrow> check_ctx c (\<lambda>x. codef ErrCanceled ''install unpack helper'' [x]) (fail e)
            | Inr helper \<Rightarrow>
                tryE (wrapped mapped_failed (ws_MkdirTemp (pt_join tools) (prov_ws p) ''.'' ''.unpack-image-'')) (\<lambda>view.
                  deferred (RemoveAll view) (unpack_view tools env c (prov_ns p) helper view layout bundle m))))"

subsection \<open>Provisioning\<close>

definition unpack_image ::
    "provision_tools \<Rightarrow> host_env \<Rightarrow> provisioner \<Rightarrow> ctx \<Rightarrow> string \<Rightarrow> string \<Rightarrow> manifest \<Rightarrow> unit io" where
  "unpack_image tools env p c layout bundle m =
     (if multipleIDs (prov_ns p) then unpackMapped tools env p c layout bundle m
      else wrapped (\<lambda>e. codef ErrBundlePrepareFailed ''unpack OCI image into runtime bundle'' [e])
        (unpack_manifest tools bundle (prov_ns p) m))"

text \<open>What happens between the creation of the staging directory and the commit.\<close>

definition fill_bundle ::
    "provision_tools \<Rightarrow> host_env \<Rightarrow> provisioner \<Rightarrow> ctx \<Rightarrow> provision_request \<Rightarrow> string \<Rightarrow> string \<Rightarrow> string \<Rightarrow> provisioned_bundle io" where
  "fill_bundle tools env p c req imageRef tmpBundle finalBundle =
     tryE (ValidateLayoutContext (pt_depth tools) (pt_image tools) (Some c) (req_layout req)) (\<lambda>_.
     tryE (wrapped (\<lambda>e. codef ErrInvalidImageLayout ''open OCI image layout'' [e]) (open_layout tools (req_layout req))) (\<lambda>_.
     deferred (Effectless (req_layout req))
      (tryE (imageManifestInLayout tools c imageRef (req_digest req) (req_platform req)) (\<lambda>m.
       tryE (unpack_image tools env p c (req_layout req) tmpBundle m) (\<lambda>_.
       check_ctx c (\<lambda>e. codef ErrCanceled ''bundle provisioning canceled after unpack'' [e])
       (tryE (translateToOCIBindMounts env (req_mounts req)) (\<lambda>mounts.
        tryE (if multipleIDs (prov_ns p) then ret () else createBindMountTargetPaths (pt_join tools) (Join [tmpBundle, ''rootfs'']) mounts) (\<lambda>_.
        tryE (writeRootlessRuntimeSpec tools tmpBundle (prov_ns p) (req_process req) mounts) (\<lambda>_.
        tryE (wrapped (prepare_failed ''commit runtime bundle'') (Rename tmpBundle finalBundle)) (\<lambda>_.
          ret \<lparr>BundleID = req_bundle_id req, BundlePath = finalBundle\<rparr>))))))))))"

text \<open>The deferred removal of a bundle that was not committed, with its own deadline.\<close>

definition or_clean_up :: "provision_tools \<Rightarrow> string \<Rightarrow> 'a io \<Rightarrow> 'a io" where
  "or_clean_up tools tmpBundle m =
     attempt m (\<lambda>r.
       case r of
         Inr b \<Rightarrow> ret b
       | Inl e \<Rightarrow> (\<lambda>w.
           attempt (removeBundleDirectory (pt_removal tools) (Some (now w + minute tools)) tmpBundle) (\<lambda>r2.
             fail (case r2 of Inl e2 \<Rightarrow> JoinErr [e, e2] | Inr _ \<Rightarrow> JoinErr [e])) w))"

definition check_request :: "provision_tools \<Rightarrow> provisioner option \<Rightarrow> provision_request \<Rightarrow> goerr + (provisioner \<times> string)" where
  "check_request tools op req =
     (case op of
        None \<Rightarrow> Inl (codef ErrInvalidRequest ''bundle workspace is required'' [])
      | Some p \<Rightarrow>
          if prov_ws p = None then Inl (codef ErrInvalidRequest ''bundle workspace is required'' [])
          else if prov_root p = [] then Inl (codef ErrInvalidRequest ''bundle root is required'' [])
          else (case ValidateBundleID (req_bundle_id req) of
              Some e \<Rightarrow> Inl e
            | None \<Rightarrow>
                if req_layout req = [] then Inl (codef ErrInvalidImageLayout ''image layout is required'' [])
                else if req_ref req = [] then Inl (codef ErrInvalidImageReference ''image ref is required'' [])
                else (case CanonicalImageReference (pt_image tools) (req_ref req) of Inl e \<Rightarrow> Inl e | Inr ref \<Rightarrow> Inr (p, ref))))"

definition Provision ::
    "provision_tools \<Rightarrow> host_env \<Rightarrow> provisioner option \<Rightarrow> ctx option \<Rightarrow> provision_request \<Rightarrow> provisioned_bundle io" where
  "Provision tools env op oc req =
     (case oc of
        None \<Rightarrow> fail (codef ErrInvalidRequest ''context is required'' [])
      | Some c \<Rightarrow>
          check_ctx c (\<lambda>e. codef ErrCanceled ''bundle provisioning canceled before start'' [e])
           (tryE (lift_sum (check_request tools op req)) (\<lambda>(p, imageRef).
            tryE (wrapped (\<lambda>e. codef ErrFilesystemFailed ''create temporary bundle'' [])
                (ws_MkdirTemp (pt_join tools) (prov_ws p) ''.'' (''.'' @ req_bundle_id req @ ''.tmp-''))) (\<lambda>tmpBundle.
              or_clean_up tools tmpBundle
                (fill_bundle tools env p c req imageRef tmpBundle (Join [prov_root p, req_bundle_id req]))))))"

subsection \<open>Additions and preserved files\<close>

text \<open>\<open>adds\<close>: new names may appear, but no links. \<open>preserved D\<close>: what existed outside \<open>D\<close> is as it was.\<close>

definition adds :: "world \<Rightarrow> world \<Rightarrow> bool" where
  "adds w w' \<longleftrightarrow> (\<forall>q. node_at w' q = node_at w q \<or> node_at w q = None \<and> (\<forall>t. node_at w' q \<noteq> Some (LinkNode t)))"

definition preserved :: "string set \<Rightarrow> world \<Rightarrow> world \<Rightarrow> bool" where
  "preserved D w w' \<longleftrightarrow> (\<forall>q. (\<forall>d \<in> D. \<not> inside d q) \<longrightarrow> node_at w q \<noteq> None \<longrightarrow> node_at w' q = node_at w q)"

locale tree_order = file_order +
  assumes same_tree: "node_at w' = node_at w \<Longrightarrow> R w w'"
begin

lemma keeps_checks: "(\<And>w. checks (node_at w) m (P w)) \<Longrightarrow> keeps R m"
  by (rule keepsI, rule post_mono, rule checksD, assumption) (use same_tree in blast)

end

interpretation adds: tree_order adds
proof
  show "adds u w" if "adds u v" "adds v w" for u v w using that unfolding adds_def by metis
qed (auto simp: adds_def node_at_def)

interpretation preserved: tree_order "preserved D" for D
proof
  show "preserved D u w" if "preserved D u v" "preserved D v w" for u v w using that unfolding preserved_def by metis
qed (auto simp: preserved_def node_at_def)

lemma adds_preserved: "adds w w' \<Longrightarrow> preserved D w w'"
  unfolding adds_def preserved_def by metis

lemma preserved_mono: "preserved D w w' \<Longrightarrow> D \<subseteq> E \<Longrightarrow> preserved E w w'"
  unfolding preserved_def by blast

lemma unchanged_preserved: "unchanged D w w' \<Longrightarrow> preserved D w w'"
  unfolding unchanged_def preserved_def by blast

lemma adds_MkdirAll [keeps_rules]: "keeps adds (MkdirAll p 448 0)"
  by (rule keepsI, rule post_mono [OF post_MkdirAll]) (auto simp: adds_def dirs_added_def)

lemma adds_put: "node_at w' = (node_at w)(p \<mapsto> n) \<Longrightarrow> node_at w p = None \<Longrightarrow> \<forall>t. n \<noteq> LinkNode t \<Longrightarrow> adds w w'"
  by (auto simp: adds_def)

lemma adds_OpenCreate [keeps_rules]: "keeps adds (OpenCreate True p m u)"
  by (rule keepsI, rule post_OpenCreate_excl) (auto intro: adds_put adds.same_tree)

lemma adds_make_temp: "\<forall>t. n \<noteq> LinkNode t \<Longrightarrow> keeps adds (make_temp n d pre)"
  by (rule keepsI, rule post_make_temp) (auto intro: adds_put adds.same_tree)

lemma reads_lifts [simp]: "reads (lift_err e)" "reads (lift_sum r)"
  by (auto simp: lift_err_def lift_sum_def split: option.split sum.split)

lemmas keeps_lifts [keeps_rules] =
  reads_lifts [THEN adds.keeps_reads] reads_lifts [THEN preserved.keeps_reads]

lemma adds_createDirectory [keeps_rules]: "keeps adds (createDirectory p label priv)"
  unfolding createDirectory_def directory_checked_def
  by (intro keeps_rules)

text \<open>A link-free target is written in place.\<close>

lemma post_WriteFile:
  assumes "\<forall>t. node_at w p \<noteq> Some (LinkNode t)"
    and "\<And>e w'. (\<And>q. q \<noteq> p \<Longrightarrow> node_at w' q = node_at w q) \<Longrightarrow> Q (Inl e) w'"
    and "\<And>m' u w'. node_at w' = (node_at w)(p \<mapsto> FileNode d m' u) \<Longrightarrow> Q (Inr ()) w'"
  shows "post (WriteFile p d m) Q w"
  unfolding WriteFile_def
proof (rule post_syscall_with)
  fix e n and w1 :: world assume f: "files w1 = files w" "fresh w1 = fresh w"
  have n: "node_at w1 = node_at w" by (rule node_at_ext [OF f(1)])
  have r: "resolve 40 w1 p = Some p" using resolve_nonlink [of w1 p 39] assms(1) n by (simp add: numeral_eq_Suc)
  show "Q (Inl (SysErr e p)) (if n = 0 then w1 else snd (store_file p (take (n - 1) d) m w1))"
    by (rule assms(2)) (auto simp: store_file_def r n node_at_put split: option.split node.split)
next
  fix w1 :: world assume f: "files w1 = files w" "fresh w1 = fresh w"
  have n: "node_at w1 = node_at w" by (rule node_at_ext [OF f(1)])
  have r: "resolve 40 w1 p = Some p" using resolve_nonlink [of w1 p 39] assms(1) n by (simp add: numeral_eq_Suc)
  have e: "Q (Inl x) w1" for x by (rule assms(2)) (simp add: n)
  have s: "Q (Inr ()) (put p (FileNode d m' u) w1)" for m' u
    by (rule assms(3) [of _ m' u]) (auto simp: node_at_put n)
  show "case store_file p d m w1 of (Inl e, w'') \<Rightarrow> Q (Inl (SysErr e p)) w'' | (Inr a, w'') \<Rightarrow> Q (Inr a) w''"
    using e s by (auto simp: store_file_def r split: option.split node.split)
qed

lemma post_Rename:
  assumes "\<And>e w'. node_at w' = node_at w \<Longrightarrow> Q (Inl e) w'"
    and "\<And>w1. node_at w1 = node_at w \<Longrightarrow> Q (Inr ()) (move p q w1)" "\<And>w1. p = q \<Longrightarrow> node_at w1 = node_at w \<Longrightarrow> Q (Inr ()) w1"
  shows "post (Rename p q) Q w"
  unfolding Rename_def
proof (rule post_syscall)
  fix w' :: world assume f: "files w' = files w" "fresh w' = fresh w"
  have n: "node_at w' = node_at w" using node_at_ext f by blast
  show "case (case node_at w' p of
        None \<Rightarrow> (Inl ENOENT, w')
      | Some n \<Rightarrow>
          if \<not> is_dir (node_at w' (Dir q)) then (Inl ENOENT, w')
          else if p = q then (Inr (), w')
          else (case (is_dir (Some n), node_at w' q) of
              (_, None) \<Rightarrow> (Inr (), move p q w')
            | (False, Some (DirNode _ _)) \<Rightarrow> (Inl EISDIR, w')
            | (False, Some _) \<Rightarrow> (Inr (), move p q w')
            | (True, Some (DirNode _ _)) \<Rightarrow> if children w' q = [] then (Inr (), move p q w') else (Inl ENOTEMPTY, w')
            | (True, Some _) \<Rightarrow> (Inl ENOTDIR, w'))) of
        (Inl e, w'') \<Rightarrow> Q (Inl (SysErr e p)) w'' | (Inr a, w'') \<Rightarrow> Q (Inr a) w''"
    using assms(1) [OF n] assms(2) [OF n] assms(3) [OF _ n] by (auto split: option.splits node.splits bool.splits)
qed (intro assms(1) node_at_ext, assumption)

lemma map_of_renamed_below:
  assumes "inside p k"
  shows "map_of (renamed p q xs) (q @ drop (length p) k) = map_of xs k"
proof (induction xs)
  case (Cons kv xs)
  have inj: "drop (length p) k' = drop (length p) k \<longleftrightarrow> k' = k" if "inside p k'" for k'
    using that assms by (auto simp: inside_def HasPrefix_iff)
  have step: "renamed p q (kv # xs) = (if inside p (fst kv) then (q @ drop (length p) (fst kv), snd kv) # renamed p q xs else renamed p q xs)"
    by (simp add: renamed_def)
  have front: "map_of (kv # xs) k = (if fst kv = k then Some (snd kv) else map_of xs k)" by (cases kv) simp
  show ?case
  proof (cases "inside p (fst kv)")
    case True
    then show ?thesis using Cons inj [OF True] unfolding step front by auto
  next
    case False
    then have "fst kv \<noteq> k" using assms by blast
    then show ?thesis using Cons False unfolding step front by simp
  qed
qed (simp add: renamed_def)

lemma node_at_move_below: "inside p k \<Longrightarrow> node_at w k \<noteq> None \<Longrightarrow> node_at (move p q w) (q @ drop (length p) k) = node_at w k"
  by (auto simp: node_at_def move_def Let_def map_add_def map_of_renamed_below split: option.split simp flip: renamed_def)

subsection \<open>Provisioning is all or nothing\<close>

text \<open>What the code relies on of its libraries when it unpacks without a mapped namespace.\<close>

definition unpack_ok :: "provision_tools \<Rightarrow> bool" where
  "unpack_ok tools \<longleftrightarrow> (\<forall>b ns m w. post (unpack_manifest tools b ns m)
     (\<lambda>r w'. preserved {b} w w' \<and> (r = Inr () \<longrightarrow> (\<forall>t. node_at w' (Join [b, ''config.json'']) \<noteq> Some (LinkNode t)))) w)"

definition libraries_ok :: "provision_tools \<Rightarrow> bool" where
  "libraries_ok tools \<longleftrightarrow> unpack_ok tools \<and> cleanup_confined (pt_removal tools) \<and> secure_join_ok (pt_join tools) \<and>
     (\<forall>r p. reads (pt_join tools r p)) \<and> (\<forall>p. reads (open_layout tools p)) \<and>
     (\<forall>p. reads (resolve_reference tools p)) \<and> (\<forall>d. reads (from_descriptor tools d))"

lemma keeps_manifest:
  assumes "libraries_ok tools"
  shows "reads (imageManifestInLayout tools c ref dg pl)"
proof -
  have m: "reads (manifestFromDescriptor tools c d)" for d
    unfolding manifestFromDescriptor_def
  proof (intro reads_comb)
    show "reads (from_descriptor tools d)" using assms by (simp add: libraries_ok_def)
    fix r
    have "reads (case b of ManifestData m \<Rightarrow> ret m | OtherData \<Rightarrow> fail (codef ErrInvalidImageLayout ''image manifest has unexpected decoded type'' [])
        | ReaderData bytes \<Rightarrow> wrapped (\<lambda>e. codef ErrInvalidImageLayout ''decode image manifest'' [e]) (lift_sum (decode_manifest tools bytes)))" for b
      by (auto split: blob_data.split)
    then show "reads (case r of Inl e \<Rightarrow> check_ctx c (\<lambda>x. codef ErrCanceled ''read image manifest canceled'' [x])
           (fail (codef ErrInvalidImageLayout ''read image manifest'' [e]))
       | Inr (mediaType, data) \<Rightarrow>
           deferred (Effectless (Digest d))
            (if \<not> manifest_type mediaType then fail (codef ErrInvalidImageLayout ''image descriptor is not an image manifest'' [])
             else (case data of
                 ManifestData m \<Rightarrow> ret m
               | OtherData \<Rightarrow> fail (codef ErrInvalidImageLayout ''image manifest has unexpected decoded type'' [])
               | ReaderData bytes \<Rightarrow>
                   wrapped (\<lambda>e. codef ErrInvalidImageLayout ''decode image manifest'' [e]) (lift_sum (decode_manifest tools bytes)))))"
      by (auto split: sum.split prod.split intro!: reads_deferred)
  qed
  have r: "reads (resolve_reference tools ref)" using assms by (simp add: libraries_ok_def)
  show ?thesis
    unfolding imageManifestInLayout_def
    by (intro reads_comb r) (auto simp: Let_def m split: sum.split option.split)
qed

lemma adds_targets:
  assumes "\<And>r p. reads (SJ r p)"
  shows "keeps adds (createBindMountTargetPaths SJ rootfs ms)"
proof (induction ms)
  case (Cons m ms)
  have s: "keeps adds (sanitizeBindMountTargetPath SJ rootfs t)" for t
    unfolding sanitizeBindMountTargetPath_def Let_def by (intro keeps_rules adds.keeps_reads [OF assms])
  have t: "keeps adds (dir_target p)" "keeps adds (file_target p)" for p
    unfolding dir_target_def file_target_def by (intro keeps_rules)+
  show ?case unfolding createBindMountTargetPaths.simps by (intro keeps_rules s t Cons.IH)
qed (simp add: keeps_rules)

lemma adds_translate: "keeps adds (translateToOCIBindMounts env ms)"
proof (induction ms)
  case (Cons m ms)
  have "keeps adds (translate_mount env m)"
    unfolding translate_mount_def Let_def by (intro keeps_rules)
  then show ?case using Cons unfolding translateToOCIBindMounts.simps by (intro keeps_rules)
qed (simp add: keeps_rules)

text \<open>The runtime configuration of a bundle, as it was written.\<close>

definition has_config :: "provision_tools \<Rightarrow> userNamespace \<Rightarrow> process_spec \<Rightarrow> world \<Rightarrow> string \<Rightarrow> bool" where
  "has_config tools ns process w path \<longleftrightarrow>
     (\<exists>spec0 spec mounts out u. setupRootlessRuntimeSpec (Some spec0) (ns_uid ns) (ns_gid ns) process mounts = Inr spec \<and>
        encode_spec_indent tools spec = Inr out \<and> node_at w path = Some (FileNode (out @ [CHR 0x0A]) 384 u))"

lemma post_try_lift:
  "post (tryE (lift_sum r) k) Q w \<longleftrightarrow> (case r of Inl e \<Rightarrow> Q (Inl e) w | Inr a \<Rightarrow> post (k a) Q w)"
  "post (tryE (wrapped f (lift_sum r)) k) Q w \<longleftrightarrow> (case r of Inl e \<Rightarrow> Q (Inl (f e)) w | Inr a \<Rightarrow> post (k a) Q w)"
  by (simp_all add: wp split: sum.split)

lemma writeRootlessRuntimeSpec_post:
  assumes "\<forall>t. node_at w (Join [b, ''config.json'']) \<noteq> Some (LinkNode t)"
  shows "post (writeRootlessRuntimeSpec tools b ns process mounts) (\<lambda>r w'. preserved {Join [b, ''config.json'']} w w' \<and>
    (r = Inr () \<longrightarrow> has_config tools ns process w' (Join [b, ''config.json'']))) w" (is "post _ ?Q w")
proof -
  let ?p = "Join [b, ''config.json'']"
  have same: "?Q (Inl e) w'" if "node_at w' = node_at w" for e and w' :: world using that by (simp add: preserved_def)
  have other: "preserved {?p} w w'" if "\<And>q. q \<noteq> ?p \<Longrightarrow> node_at w' q = node_at w q" for w' :: world
    using that by (auto simp: preserved_def inside_def)
  have store: "post (tryE (wrapped f (WriteFile ?p (out @ [CHR 0x0A]) 384)) (\<lambda>_. wrapped g (Chmod ?p 384))) ?Q w1"
    if w1: "node_at w1 = node_at w" and s: "setupRootlessRuntimeSpec (Some spec0) (ns_uid ns) (ns_gid ns) process mounts = Inr spec"
      and out: "encode_spec_indent tools spec = Inr out" for f g out w1 spec0 spec
  proof (rule tryI, unfold post_wrapped [of f], rule post_WriteFile)
    show "\<forall>t. node_at w1 ?p \<noteq> Some (LinkNode t)" using assms w1 by simp
  next
    fix e and w' :: world assume "\<And>q. q \<noteq> ?p \<Longrightarrow> node_at w' q = node_at w1 q"
    then show "case Inl e of Inl e \<Rightarrow> (case Inl (f e) of Inl e \<Rightarrow> ?Q (Inl e) w' | Inr a \<Rightarrow> post (wrapped g (Chmod ?p 384)) ?Q w')
        | Inr a \<Rightarrow> (case Inr a of Inl e \<Rightarrow> ?Q (Inl e) w' | Inr a \<Rightarrow> post (wrapped g (Chmod ?p 384)) ?Q w')"
      using other w1 by simp
  next
    fix m' u and w' :: world assume w': "node_at w' = (node_at w1)(?p \<mapsto> FileNode (out @ [CHR 0x0A]) m' u)"
    have "post (wrapped g (Chmod ?p 384)) ?Q w'"
      unfolding post_wrapped
    proof (rule post_Chmod)
      fix n and w2 :: world assume "node_at w' ?p = Some n" "node_at w2 = (node_at w')(?p \<mapsto> set_mode 384 n)"
      then have "node_at w2 = (node_at w)(?p \<mapsto> FileNode (out @ [CHR 0x0A]) 384 u)" using w' w1 by auto
      then show "case Inr () of Inl e \<Rightarrow> ?Q (Inl (g e)) w2 | Inr a \<Rightarrow> ?Q (Inr a) w2"
        using other [of w2] s out by (auto simp: has_config_def)
    qed (use other w' w1 in simp)
    then show "case Inr () of Inl e \<Rightarrow> (case Inl (f e) of Inl e \<Rightarrow> ?Q (Inl e) w' | Inr a \<Rightarrow> post (wrapped g (Chmod ?p 384)) ?Q w')
        | Inr a \<Rightarrow> (case Inr a of Inl e \<Rightarrow> ?Q (Inl e) w' | Inr a \<Rightarrow> post (wrapped g (Chmod ?p 384)) ?Q w')"
      by simp
  qed
  show ?thesis
    unfolding writeRootlessRuntimeSpec_def Let_def
    apply (rule try_reads)
      apply (rule reads_comb(5), simp)
     apply (simp add: same)
    apply (rule att_reads [OF reads_calls(3)])
    apply (rule att_reads [OF reads_calls(5)])
    subgoal premises n for a w1 rd w2 closed w3
    proof -
      have "node_at w3 = node_at w" using n by simp
      then show ?thesis unfolding post_try_lift using store same by (auto split: sum.split)
    qed
    done
qed

lemma has_config_cong: "has_config tools ns process w path \<Longrightarrow> node_at w' path' = node_at w path \<Longrightarrow> has_config tools ns process w' path'"
  by (simp add: has_config_def)

lemma has_config_exists: "has_config tools ns process w path \<Longrightarrow> node_at w path \<noteq> None"
  by (auto simp: has_config_def)

text \<open>Sequencing a step that keeps a tree relation with what follows.\<close>

lemma try_keeps:
  assumes "keeps R m" "\<And>e w'. R w w' \<Longrightarrow> Q (Inl e) w'" "\<And>a w'. R w w' \<Longrightarrow> post (k a) Q w'"
  shows "post (tryE m k) Q w"
  by (rule tryI, rule post_mono [OF keeps_post [OF assms(1)]]) (simp add: assms split: sum.split)

lemma fill_bundle_post:
  assumes "libraries_ok tools" "\<not> multipleIDs (prov_ns p)" "Join [tmp, ''config.json''] = tmp @ ''/config.json''"
  shows "post (fill_bundle tools env p c req ref tmp final) (\<lambda>r w'. ((\<exists>e. r = Inl e) \<longrightarrow> preserved {tmp} w w') \<and>
    (\<forall>b. r = Inr b \<longrightarrow> b = \<lparr>BundleID = req_bundle_id req, BundlePath = final\<rparr> \<and>
       has_config tools (prov_ns p) (req_process req) w' (final @ ''/config.json''))) w" (is "post _ ?Q w")
proof -
  let ?cfg = "Join [tmp, ''config.json'']"
  have Qcong: "?Q r v \<Longrightarrow> node_at v' = node_at v \<Longrightarrow> ?Q r v'" for r v v' by (simp add: preserved_def has_config_def)
  have cfg: "preserved {?cfg} v v' \<Longrightarrow> preserved {tmp} v v'" for v v'
    using assms(3) by (auto simp: preserved_def inside_def HasPrefix_iff)
  have commit: "post (tryE (wrapped f (Rename tmp final)) (\<lambda>_. ret \<lparr>BundleID = req_bundle_id req, BundlePath = final\<rparr>)) ?Q w1"
    if "preserved {tmp} w w1" "has_config tools (prov_ns p) (req_process req) w1 ?cfg" for f w1
    unfolding post_tryE post_wrapped post_ret
  proof (rule post_Rename)
    have below: "inside tmp ?cfg" "final @ drop (length tmp) ?cfg = final @ ''/config.json''" using assms(3) by (simp_all add: inside_def HasPrefix_iff)
    fix w2 :: world assume n: "node_at w2 = node_at w1"
    then have "has_config tools (prov_ns p) (req_process req) (move tmp final w2) (final @ ''/config.json'')"
      using has_config_exists [OF that(2)] n by (intro has_config_cong [OF that(2)]) (metis node_at_move_below below)
    then show "case Inr () of Inl e \<Rightarrow> (case Inl (f e) of Inl e \<Rightarrow> ?Q (Inl e) (move tmp final w2) | Inr a \<Rightarrow> ?Q (Inr \<lparr>BundleID = req_bundle_id req, BundlePath = final\<rparr>) (move tmp final w2))
        | Inr a \<Rightarrow> (case Inr a of Inl e \<Rightarrow> ?Q (Inl e) (move tmp final w2) | Inr a \<Rightarrow> ?Q (Inr \<lparr>BundleID = req_bundle_id req, BundlePath = final\<rparr>) (move tmp final w2))"
      by simp
  qed (use that assms(3) in \<open>auto simp: has_config_def preserved_def\<close>)
  have writing: "post (tryE (writeRootlessRuntimeSpec tools tmp (prov_ns p) (req_process req) ms)
      (\<lambda>_. tryE (wrapped f (Rename tmp final)) (\<lambda>_. ret \<lparr>BundleID = req_bundle_id req, BundlePath = final\<rparr>))) ?Q w1"
    if "preserved {tmp} w w1" "\<forall>t. node_at w1 ?cfg \<noteq> Some (LinkNode t)" for f ms w1
    by (rule tryI, rule post_mono [OF writeRootlessRuntimeSpec_post [OF that(2)]])
      (auto intro!: commit intro: preserved.trans [OF that(1)] cfg split: sum.split)
  have step: "preserved {tmp} w w2 \<and> (\<forall>t. node_at w2 ?cfg \<noteq> Some (LinkNode t))"
    if "preserved {tmp} w w1" "\<forall>t. node_at w1 ?cfg \<noteq> Some (LinkNode t)" "adds w1 w2" for w1 w2
    using preserved.trans [OF that(1) adds_preserved [OF that(3)]] that(2,3) unfolding adds_def by metis
  have sj: "reads (pt_join tools r q)" for r q using assms(1) by (simp add: libraries_ok_def)
  let ?finish = "\<lambda>f ms. tryE (if multipleIDs (prov_ns p) then ret () else createBindMountTargetPaths (pt_join tools) (Join [tmp, ''rootfs'']) ms) (\<lambda>_.
        tryE (writeRootlessRuntimeSpec tools tmp (prov_ns p) (req_process req) ms) (\<lambda>_.
        tryE (wrapped f (Rename tmp final)) (\<lambda>_. ret \<lparr>BundleID = req_bundle_id req, BundlePath = final\<rparr>)))"
  let ?after = "\<lambda>g f. check_ctx c g (tryE (translateToOCIBindMounts env (req_mounts req)) (?finish f))"
  have finish: "post (?finish f ms) ?Q w1" if "preserved {tmp} w w1" "\<forall>t. node_at w1 ?cfg \<noteq> Some (LinkNode t)" for f ms w1
    unfolding if_not_P [OF assms(2)]
  proof (rule try_keeps [OF adds_targets [OF sj]])
    fix w2 assume "adds w1 w2"
    with step that have "preserved {tmp} w w2" "\<forall>t. node_at w2 ?cfg \<noteq> Some (LinkNode t)" by blast+
    then show "?Q (Inl e) w2" "post (tryE (writeRootlessRuntimeSpec tools tmp (prov_ns p) (req_process req) ms) (\<lambda>_.
          tryE (wrapped f (Rename tmp final)) (\<lambda>_. ret \<lparr>BundleID = req_bundle_id req, BundlePath = final\<rparr>))) ?Q w2" for e
      by (simp_all add: writing)
  qed
  have rest: "post (?after g f) ?Q w1" if w1: "preserved {tmp} w w1" "\<forall>t. node_at w1 ?cfg \<noteq> Some (LinkNode t)" for f g w1
  proof -
    have "post (tryE (translateToOCIBindMounts env (req_mounts req)) (?finish f)) ?Q w1"
    proof (rule try_keeps [OF adds_translate])
      fix ms w2 assume "adds w1 w2"
      from step [OF w1 this] show "post (?finish f ms) ?Q w2" by (intro finish) auto
    qed (use step [OF w1] in simp)
    then show ?thesis using w1 by (simp add: post_check_ctx split: option.split)
  qed
  have lib: "reads (open_layout tools l)" for l using assms(1) by (simp add: libraries_ok_def)
  have unpack: "post (unpack_image tools env p c l tmp m) (\<lambda>r w'. preserved {tmp} w1 w' \<and> (r = Inr () \<longrightarrow> (\<forall>t. node_at w' ?cfg \<noteq> Some (LinkNode t)))) w1" for l m w1
    unfolding unpack_image_def if_not_P [OF assms(2)] post_wrapped
    by (rule post_mono [of _ "\<lambda>r w'. preserved {tmp} w1 w' \<and> (r = Inr () \<longrightarrow> (\<forall>t. node_at w' ?cfg \<noteq> Some (LinkNode t)))"])
      (use assms(1) in \<open>auto simp: libraries_ok_def unpack_ok_def split: sum.split\<close>)
  let ?unpack = "\<lambda>g f m. tryE (unpack_image tools env p c (req_layout req) tmp m) (\<lambda>_. ?after g f)"
  have unpacked: "post (?unpack g f m) ?Q w1" if w1: "preserved {tmp} w w1" for g f m w1
    by (rule tryI, rule post_mono [OF unpack]) (auto intro: preserved.trans [OF w1] intro!: rest split: sum.split)
  have opened: "post (deferred (Effectless (req_layout req))
      (tryE (imageManifestInLayout tools c ref (req_digest req) (req_platform req)) (?unpack g f))) ?Q w1" if w1: "preserved {tmp} w w1" for g f w1
  proof (rule deferred_reads [OF reads_calls(5)])
    show "post (tryE (imageManifestInLayout tools c ref (req_digest req) (req_platform req)) (?unpack g f)) ?Q w1"
      by (rule try_keeps [OF preserved.keeps_reads [where D = "{tmp}", OF keeps_manifest [OF assms(1)]]])
        (simp add: preserved.trans [OF w1], rule unpacked, erule preserved.trans [OF w1])
  qed (rule Qcong)
  show ?thesis
    unfolding fill_bundle_def
  proof (rule try_keeps [OF preserved.keeps_checks [OF checks_layout [OF refl]]])
    fix w1 assume w1: "preserved {tmp} w w1"
    show "post (tryE (wrapped (\<lambda>e. codef ErrInvalidImageLayout ''open OCI image layout'' [e]) (open_layout tools (req_layout req))) (\<lambda>_.
        deferred (Effectless (req_layout req)) (tryE (imageManifestInLayout tools c ref (req_digest req) (req_platform req))
          (?unpack (\<lambda>e. codef ErrCanceled ''bundle provisioning canceled after unpack'' [e]) (prepare_failed ''commit runtime bundle''))))) ?Q w1"
      by (rule try_reads, rule reads_comb(5), rule lib) (use w1 opened in \<open>simp_all add: preserved_def\<close>)
  qed simp
qed

lemma staging_post:
  assumes "secure_join_ok SJ" "list_all safe_component ts" "ws_tmp ws = abs_path ts"
  shows "post (ws_MkdirTemp SJ (Some ws) ''.'' pre) (\<lambda>r w'. adds w w' \<and> (\<forall>p. r = Inr p \<longrightarrow> (\<exists>i. p = abs_path (ts @ [pre @ FormatUint i])))) w"
    (is "post _ ?Q w")
proof -
  have dot: "Clean ''.'' = ''.''" "TrimSpace ''.'' \<noteq> []" "comps ''.'' = []" "\<not> isAbs ''.''" by code_simp+
  have join: "post (SJ (abs_path ts) ''.'') (\<lambda>r w'. node_at w' = node_at v \<and> (\<forall>p. r = Inr p \<longrightarrow> p = abs_path ts)) v" for v
    using assms(1) [unfolded secure_join_ok_def, rule_format, of ts "[]" "''.''" v] assms(2) dot Join_relative [of ts "''.''"]
    by (simp add: no_links_def)
  have temp: "post (wrapped f (MkdirTemp (abs_path ts) pre)) ?Q w1" if "adds w w1" for f w1
    unfolding post_wrapped MkdirTemp_def
    by (rule post_make_temp)
      (auto simp: in_dir_abs_path [OF assms(2)] abs_path_snoc intro: adds.trans [OF that] adds.same_tree adds_put split: sum.split)
  have made: "post (tryE (createDirectory (abs_path ts) l True) (\<lambda>_. wrapped f (MkdirTemp (abs_path ts) pre))) ?Q w1" if "adds w w1" for l f w1
    by (rule try_keeps [OF adds_createDirectory]) (auto intro: temp adds.trans [OF that])
  have path: "post (tryE (tmpPath SJ (Some ws) ''.'') k) ?Q w" if k: "\<And>w1. adds w w1 \<Longrightarrow> post (k (abs_path ts)) ?Q w1" for k
    unfolding tmpPath_def option.case assms(3) scopedPath_def
  proof (rule tryI)
    have "post (wrapped f (SJ (abs_path ts) ''.'')) (\<lambda>r w'. case r of Inl e \<Rightarrow> ?Q (Inl e) w' | Inr a \<Rightarrow> post (k a) ?Q w') w" for f
      unfolding post_wrapped by (rule post_mono [OF join]) (auto intro: k adds.same_tree split: sum.split)
    then show "post (tryE (RejectSymlinkComponents (abs_path ts) ''.'') (\<lambda>_. wrapped (\<lambda>e. codef ErrInvalidRequest ''resolve workspace-relative path'' [e]) (SJ (abs_path ts) (Clean ''.''))))
        (\<lambda>r w'. case r of Inl e \<Rightarrow> ?Q (Inl e) w' | Inr a \<Rightarrow> post (k a) ?Q w') w"
      by (simp add: RejectSymlinkComponents_def dot Let_def post_tryE [of "ret ()"] post_ret HasPrefix_def)
  qed
  show ?thesis
    unfolding ws_MkdirTemp_def post_tryE [of "lift_err _"] post_lift_err
    using path [where k = "\<lambda>parent. tryE (createDirectory parent ''temporary directory parent'' True) (\<lambda>_.
        wrapped (\<lambda>e. codef ErrFilesystemFailed ''create temporary directory'' [e]) (MkdirTemp parent pre))"] made
    by (simp add: adds.same_tree split: option.split)
qed

lemma or_clean_up_post:
  assumes "cleanup_confined (pt_removal tools)"
    and "post m (\<lambda>r w'. ((\<exists>e. r = Inl e) \<longrightarrow> preserved {tmp} w w') \<and> (\<forall>b. r = Inr b \<longrightarrow> P b w')) w"
  shows "post (or_clean_up tools tmp m) (\<lambda>r w'. ((\<exists>e. r = Inl e) \<longrightarrow> preserved {tmp} w w') \<and> (\<forall>b. r = Inr b \<longrightarrow> P b w')) w" (is "post _ ?Q w")
  unfolding or_clean_up_def
proof (rule attI, rule post_mono [OF assms(2)])
  fix r :: "goerr + 'a" and w1 :: world assume h: "((\<exists>e. r = Inl e) \<longrightarrow> preserved {tmp} w w1) \<and> (\<forall>b. r = Inr b \<longrightarrow> P b w1)"
  have clean: "post (attempt (removeBundleDirectory (pt_removal tools) d tmp) (\<lambda>r2. fail (f r2))) ?Q w1" if "preserved {tmp} w w1" for d f
    by (rule attI, rule post_mono [OF keeps_post [OF unchanged_removeBundleDirectory [OF assms(1), of tmp "{tmp}"]]])
      (auto simp: post_fail intro: preserved.trans [OF that unchanged_preserved])
  show "post (case r of Inl e \<Rightarrow> (\<lambda>w. attempt (removeBundleDirectory (pt_removal tools) (Some (now w + minute tools)) tmp)
        (\<lambda>r2. fail (case r2 of Inl e2 \<Rightarrow> JoinErr [e, e2] | Inr _ \<Rightarrow> JoinErr [e])) w) | Inr b \<Rightarrow> ret b) ?Q w1"
  proof (cases r)
    case (Inl e)
    then show ?thesis using clean [of "Some (now w1 + minute tools)" "\<lambda>r2. case r2 of Inl e2 \<Rightarrow> JoinErr [e, e2] | Inr _ \<Rightarrow> JoinErr [e]"] h
      by (simp add: post_def)
  qed (use h in \<open>simp add: post_ret\<close>)
qed


text \<open>A world with a layout and tools that unpack by writing a configuration and an empty file system.\<close>

definition toy_tools :: provision_tools where
  "toy_tools =
     \<lparr>pt_removal = removal_tools, pt_image = toy_lib, pt_join = lexical_join, pt_depth = 3, pt_arch = ''amd64'', minute = 60,
      open_layout = (\<lambda>p. ret ()), resolve_reference = (\<lambda>r. ret [toy_descriptor ''application/vnd.oci.image.manifest.v1+json'' ''man'']),
      from_descriptor = (\<lambda>d. ret (MediaType d, ManifestData \<lparr>Config = toy_descriptor ''c'' ''conf'', Layers = []\<rparr>)),
      decode_manifest = (\<lambda>s. Inl (Opaque s)), digest_parse = Inr, digest_of = id, sha256_hex = id,
      unpack_manifest = (\<lambda>b ns m w. if Join [b, ''config.json''] = b @ ''/config.json''
        then (Inr (), put (b @ ''/config.json'') (FileNode ''{}'' 420 0) (put (b @ ''/rootfs'') (DirNode 448 0) w)) else (Inl (Opaque b), w)),
      decode_spec_stream = (\<lambda>s. Inr sample_spec), encode_spec_indent = (\<lambda>s. Inr ''spec''), encode_spec = (\<lambda>s. Inr ''spec''),
      encode_manifest = (\<lambda>m. Inr ''man''), encode_index = (\<lambda>ds. Inr ''index''), to_rootless = Inr, look_path = (\<lambda>h. None),
      http_get = (\<lambda>c u. fail (Opaque u))\<rparr>"

definition toy_maps :: "LinuxIDMapping list" where
  "toy_maps = [\<lparr>ContainerID = 0, HostID = 1000, Size = 1\<rparr>]"

definition toy_process :: process_spec where
  "toy_process = no_overrides\<lparr>want_user := \<lparr>want_uid = Some 0, want_gid = Some 0, want_gids = Some []\<rparr>\<rparr>"

definition toy_request :: provision_request where
  "toy_request =
     \<lparr>req_bundle_id = ''b'', req_layout = ''/i'', req_ref = ''r'', req_digest = [], req_platform = \<lparr>OS = [], Architecture = [], Variant = []\<rparr>,
      req_process = toy_process, req_mounts = []\<rparr>"

definition toy_prov :: provisioner where
  "toy_prov = \<lparr>prov_root = ''/w'', prov_ns = \<lparr>ns_uid = toy_maps, ns_gid = toy_maps\<rparr>,
     prov_ws = Some \<lparr>ws_root = ''/w'', ws_tmp = ''/t'', ws_features = ws_features sample_workspace\<rparr>\<rparr>"

definition toy_host :: world where
  "toy_host = toy_world\<lparr>files := (''/'', DirNode 493 1) # (''/w'', DirNode 448 0) # (''/t'', DirNode 448 0) # files toy_world\<rparr>"

lemma toy_libraries: "libraries_ok toy_tools"
proof -
  have "unpack_ok toy_tools"
    by (auto simp: unpack_ok_def toy_tools_def post_def preserved_def node_at_put inside_def HasPrefix_iff)
  moreover have "reads (lexical_join r p)" for r p by (simp add: lexical_join_def reads_def)
  ultimately show ?thesis
    using removal_tools_confined lexical_join_ok by (auto simp: libraries_ok_def toy_tools_def)
qed


subsection \<open>The helper is the pinned one\<close>

text \<open>A name that is not one of the temporary download names.\<close>

definition not_download :: "string \<Rightarrow> bool" where
  "not_download path \<longleftrightarrow> (\<forall>d k. path \<noteq> in_dir d ''.umoci-download-'' @ FormatUint k)"

lemma not_download_abs:
  assumes "list_all safe_component (rs @ [c])" "\<not> HasPrefix c ''.umoci-download-''"
  shows "not_download (abs_path (rs @ [c]))"
  unfolding not_download_def
proof (intro allI notI)
  fix d k assume e: "abs_path (rs @ [c]) = in_dir d ''.umoci-download-'' @ FormatUint k"
  let ?t = "''.umoci-download-'' @ FormatUint k"
  have "CHR ''/'' \<notin> set ?t" using digits_no_slash [of k] by simp
  then have t: "SplitChar (CHR ''/'') ?t = [?t]" by (rule SplitChar_no_sep)
  obtain d' where d': "in_dir d ''.umoci-download-'' @ FormatUint k = d' @ CHR ''/'' # ?t"
    by (cases "d = ''/''") (auto simp: in_dir_def)
  have "last (SplitChar (CHR ''/'') (d' @ CHR ''/'' # ?t)) = ?t" unfolding SplitChar_concat t by simp
  moreover have "last (SplitChar (CHR ''/'') (abs_path (rs @ [c]))) = c" using SplitChar_abs_path [OF assms(1)] by simp
  ultimately have "c = ?t" using e d' by simp
  then show False using assms(2) HasPrefix_append by blast
qed

lemma post_any: "(\<And>r w'. Q r w') \<Longrightarrow> post m Q w"
  by (simp add: post_def split: prod.split)

lemma try_any: "(\<And>e w'. Q (Inl e) w') \<Longrightarrow> (\<And>a w'. post (k a) Q w') \<Longrightarrow> post (tryE m k) Q w"
  by (rule tryI, rule post_any) (simp split: sum.split)

lemma CreateTemp_post:
  "post (ws_CreateTemp SJ ws rel pre) (\<lambda>r w'. \<forall>p. r = Inr p \<longrightarrow> (\<exists>d i. p = in_dir d pre @ FormatUint i) \<and> node_at w' p = Some (FileNode [] 384 0)) w"
  (is "post _ ?Q w")
proof -
  have temp: "post (wrapped f (CreateTemp d pre)) ?Q v" for f d v
    unfolding post_wrapped CreateTemp_def by (rule post_make_temp) auto
  have made: "post (tryE (createDirectory d l True) (\<lambda>_. wrapped f (CreateTemp d pre))) ?Q v" for f d l v
    by (rule try_keeps [OF adds_createDirectory]) (auto intro: temp)
  show ?thesis
    unfolding ws_CreateTemp_def by (intro try_any made) auto
qed

lemma open_content_file: "node_at w p = Some (FileNode c m u) \<Longrightarrow> open_content w p = c"
  using resolve_nonlink [of w p 39] by (simp add: open_content_def numeral_eq_Suc)

lemma download_post:
  assumes "not_download path"
  shows "post (download_helper tools ws c path cs) (\<lambda>r w'. \<forall>p. r = Inr p \<longrightarrow> p = path \<and> sha256_hex tools (open_content w' path) = cs) w"
    (is "post _ ?Q w")
proof -
  let ?P = "\<lambda>r w'. \<forall>p. r = Inr p \<longrightarrow> p = path \<and> (\<exists>d m u. node_at w' path = Some (FileNode d m u) \<and> sha256_hex tools d = cs)"
  have PQ: "?P r w' \<Longrightarrow> ?Q r w'" for r w' using open_content_file by fastforce
  let ?commit = "\<lambda>stage. tryE (wrapped install_failed (Effectless stage)) (\<lambda>_.
      tryE (wrapped install_failed (Effectless stage)) (\<lambda>_. tryE (wrapped install_failed (Rename stage path)) (\<lambda>_. ret path)))"
  have rename: "post (tryE (wrapped install_failed (Rename stage path)) (\<lambda>_. ret path)) ?P v"
    if "node_at v stage = Some (FileNode d 448 0)" "sha256_hex tools d = cs" for stage d v
    unfolding post_tryE post_wrapped post_ret
    by (rule post_Rename) (use that node_at_move_target in auto)
  have commit: "post (?commit stage) ?P v" if "node_at v stage = Some (FileNode d 448 0)" "sha256_hex tools d = cs" for stage d v
    by (rule try_reads [OF reads_comb(5) [OF reads_calls(5)]], simp, rule try_reads [OF reads_comb(5) [OF reads_calls(5)]], simp, rule rename)
      (use that in auto)
  have written: "post (copy_body stage rs) (\<lambda>r w'. \<forall>d. r = Inr d \<longrightarrow> node_at w' stage = Some (FileNode d 384 0)) v"
    if "node_at v stage = Some (FileNode [] 384 0)" for stage rs v
    unfolding copy_body_def Let_def by (rule try_FWrite [OF that]) (auto simp: wp split: option.split)
  have body: "post (tryE (wrapped install_failed (copy_body stage rs)) (\<lambda>data.
         if sha256_hex tools data \<noteq> cs then fail (codef ErrBundlePrepareFailed ''umoci helper checksum mismatch'' [])
         else tryE (wrapped install_failed (Chmod stage 448)) (\<lambda>_. ?commit stage))) ?P v"
    if n: "node_at v stage = Some (FileNode [] 384 0)" for stage rs v
  proof (rule tryI, unfold post_wrapped [of install_failed "copy_body stage rs"], rule post_mono [OF written [OF n]])
    fix r :: "goerr + string" and v1 :: world assume h: "\<forall>d. r = Inr d \<longrightarrow> node_at v1 stage = Some (FileNode d 384 0)"
    have chmod: "post (tryE (wrapped install_failed (Chmod stage 448)) (\<lambda>_. ?commit stage)) ?P v1"
      if "node_at v1 stage = Some (FileNode d 384 0)" "sha256_hex tools d = cs" for d
      unfolding post_tryE [of "wrapped install_failed (Chmod stage 448)"] post_wrapped [of install_failed "Chmod stage 448"]
      by (rule post_Chmod) (use that commit in auto)
    show "case r of Inl e \<Rightarrow> (case Inl (install_failed e) of Inl e \<Rightarrow> ?P (Inl e) v1 | Inr data \<Rightarrow> post (if sha256_hex tools data \<noteq> cs
            then fail (codef ErrBundlePrepareFailed ''umoci helper checksum mismatch'' []) else tryE (wrapped install_failed (Chmod stage 448)) (\<lambda>_. ?commit stage)) ?P v1)
        | Inr a \<Rightarrow> (case Inr a of Inl e \<Rightarrow> ?P (Inl e) v1 | Inr data \<Rightarrow> post (if sha256_hex tools data \<noteq> cs
            then fail (codef ErrBundlePrepareFailed ''umoci helper checksum mismatch'' []) else tryE (wrapped install_failed (Chmod stage 448)) (\<lambda>_. ?commit stage)) ?P v1)"
      using chmod h by (cases r) (simp_all only: sum.case post_if post_fail if_split, auto)
  qed
  have cleaned: "post (deferred (Remove stage) (deferred (Effectless stage) m)) ?P v" if "post m ?P v" "stage \<noteq> path" for stage m v
    by (rule deferred_Remove, rule deferred_reads [OF reads_calls(5) that(1)]) (use that(2) in auto)
  have "post (download_helper tools ws c path cs) ?P w"
    unfolding download_helper_def
  proof (intro try_any deferred_reads [OF reads_calls(5)])
    fix r and w1 :: world
    have "post (tryE (wrapped install_failed (ws_CreateTemp (pt_join tools) ws ''.bin'' ''.umoci-download-'')) (\<lambda>stage.
       deferred (Remove stage) (deferred (Effectless stage)
        (tryE (wrapped install_failed (copy_body stage r)) (\<lambda>data.
         if sha256_hex tools data \<noteq> cs then fail (codef ErrBundlePrepareFailed ''umoci helper checksum mismatch'' [])
         else tryE (wrapped install_failed (Chmod stage 448)) (\<lambda>_. ?commit stage)))))) ?P w1"
    proof (rule tryI, unfold post_wrapped [of install_failed "ws_CreateTemp _ _ _ _"], rule post_mono [OF CreateTemp_post], goal_cases)
      case (1 q w2)
      have "q = Inr p \<Longrightarrow> p \<noteq> path" for p using 1 assms by (auto simp: not_download_def)
      then show ?case using 1 by (cases q) (simp_all only: sum.case, simp, intro cleaned body, auto)
    qed
    then show "post (if resp_status r \<noteq> 200 then fail (codef ErrBundlePrepareFailed ''download umoci helper: HTTP status'' [])
       else tryE (wrapped install_failed (ws_CreateTemp (pt_join tools) ws ''.bin'' ''.umoci-download-'')) (\<lambda>stage.
       deferred (Remove stage) (deferred (Effectless stage)
        (tryE (wrapped install_failed (copy_body stage r)) (\<lambda>data.
         if sha256_hex tools data \<noteq> cs then fail (codef ErrBundlePrepareFailed ''umoci helper checksum mismatch'' [])
         else tryE (wrapped install_failed (Chmod stage 448)) (\<lambda>_. ?commit stage)))))) ?P w1"
      by (simp only: post_if post_fail split: if_split) simp
  qed auto
  then show ?thesis by (rule post_mono) (rule PQ)
qed

text \<open>
  The program that unpacks images is the pinned one: whatever the server sends and whatever
  was in the cache, \<open>installUnpackHelper\<close> only returns the path of a file whose SHA-256 is the
  checksum in the source for this architecture.
\<close>

theorem unpack_helper_verified:
  assumes "secure_join_ok (pt_join tools)" "tree_closed w" "list_all safe_component rs" "ws_root ws = abs_path rs"
    and "\<forall>t. node_at w (abs_path rs) \<noteq> Some (LinkNode t)" "installUnpackHelper tools (Some ws) c w = (Inr path, w')"
  shows "helper_checksum (pt_arch tools) = Some (sha256_hex tools (open_content w' path))"
proof -
  let ?P = "\<lambda>r w'. \<forall>p. r = Inr p \<longrightarrow> helper_checksum (pt_arch tools) = Some (sha256_hex tools (open_content w' p))"
  have bin: "comps ''.bin'' = [''.bin'']" by code_simp
  have "post (installUnpackHelper tools (Some ws) c) ?P w"
  proof (cases "helper_checksum (pt_arch tools)")
    case (Some cs)
    let ?name = "''umoci-'' @ helper_version @ ''-'' @ pt_arch tools"
    have arch: "pt_arch tools = ''amd64'' \<or> pt_arch tools = ''arm64''" using Some by (simp add: helper_checksum_def split: if_splits)
    have nd: "not_download (Join [abs_path (rs @ [''.bin'']), ?name])"
    proof -
      have sc: "list_all safe_component ((rs @ [''.bin'']) @ [?name])" using assms(3) arch by (auto simp: helper_version_def safe_component_def)
      then show ?thesis unfolding Join_step [OF sc] by (rule not_download_abs) (use arch in \<open>auto simp: HasPrefix_def\<close>)
    qed
    have dl: "post (download_helper tools (Some ws) c path cs) ?P v" if "not_download path" for path v
      by (rule post_mono [OF download_post [OF that]]) (auto simp: Some)
    have cached: "post (attempt (ReadFile path) (\<lambda>rd. attempt (Effectless path) (\<lambda>closed.
          if (case (rd, closed) of (Inr data, Inr _) \<Rightarrow> sha256_hex tools data = cs | _ \<Rightarrow> False) then ret path
          else download_helper tools (Some ws) c path cs))) ?P v" if nd: "not_download path" for path v
    proof (rule attI, rule post_mono [OF checksD [OF checks_ReadFile [OF refl]]], rule attI, rule post_reads [OF reads_calls(5)])
      fix rd closed and v1 v2 :: world
      assume h: "node_at v1 = node_at v \<and> (\<forall>a. rd = Inr a \<longrightarrow> a = open_content v path)" "node_at v2 = node_at v1"
      have "open_content v2 path = open_content v path" by (rule open_content_cong) (simp only: h)
      then have "\<not> (case (rd, closed) of (Inr data, Inr _) \<Rightarrow> sha256_hex tools data = cs | _ \<Rightarrow> False) \<or> cs = sha256_hex tools (open_content v2 path)"
        using h(1) by (cases rd; cases closed) simp_all
      then show "post (if (case (rd, closed) of (Inr data, Inr _) \<Rightarrow> sha256_hex tools data = cs | _ \<Rightarrow> False) then ret path
          else download_helper tools (Some ws) c path cs) ?P v2"
        using dl [OF nd, of v2] by (simp only: post_if post_ret Some simp_thms sum.inject split: if_split) blast
    qed
    show ?thesis
      unfolding installUnpackHelper_def Some option.case Let_def
    proof (rule tryI, unfold post_wrapped, rule post_mono [OF MkdirPrivate_post [OF assms(1-5)]], goal_cases)
      case (1 r v)
      have opened: "post (attempt (OpenRead path) (\<lambda>opened. case opened of
            Inl e \<Rightarrow> download_helper tools (Some ws) c path cs
          | Inr _ \<Rightarrow> attempt (ReadFile path) (\<lambda>rd. attempt (Effectless path) (\<lambda>closed.
              if (case (rd, closed) of (Inr data, Inr _) \<Rightarrow> sha256_hex tools data = cs | _ \<Rightarrow> False) then ret path
              else download_helper tools (Some ws) c path cs)))) ?P v" if "not_download path" for path
        by (rule attI, rule post_any) (use dl [OF that] cached [OF that] in \<open>simp split: sum.split\<close>)
      show ?case
      proof (cases r)
        case (Inr b)
        then have b: "b = abs_path (rs @ [''.bin''])" using 1 bin by simp
        show ?thesis unfolding Inr sum.case b by (rule opened [OF nd, unfolded Some])
      qed simp
    qed
  qed (simp add: installUnpackHelper_def post_fail)
  from postD [OF this assms(6)] show ?thesis by simp
qed

definition helper_tools :: provision_tools where
  "helper_tools = toy_tools\<lparr>http_get := \<lambda>c u. ret \<lparr>resp_status = 200,
     resp_body = ''b51c267ec394499e42c6fde47f240b7b7dba57ea49df0b5acd304378b82a3b71'', resp_err = None\<rparr>\<rparr>"

definition tool_workspace :: workspace where
  "tool_workspace = \<lparr>ws_root = ''/w'', ws_tmp = ''/w'', ws_features = ws_features sample_workspace\<rparr>"

theorem unpack_helper_verified_witness:
  "case installUnpackHelper helper_tools (Some tool_workspace) None link_world of
     (Inr path, w') \<Rightarrow> helper_checksum ''amd64'' = Some (sha256_hex helper_tools (open_content w' path)) | _ \<Rightarrow> False"
proof -
  have w: "abs_path [''w''] = ''/w''" "list_all safe_component [''w'']" by (simp_all add: abs_path_def render_def safe_component_def)
  have nl: "\<forall>t. node_at link_world ''/w'' \<noteq> Some (LinkNode t)" by (simp add: node_at_def link_world_def)
  have ws: "ws_root tool_workspace = ''/w''" by (simp add: tool_workspace_def)
  have sj: "secure_join_ok (pt_join helper_tools)" using lexical_join_ok by (simp add: helper_tools_def toy_tools_def)
  have arch: "pt_arch helper_tools = ''amd64''" by (simp add: helper_tools_def toy_tools_def)
  have "fst (installUnpackHelper helper_tools (Some tool_workspace) None link_world) = Inr ''/w/.bin/umoci-v0.6.0-amd64''" by code_simp
  then obtain w1 where s: "installUnpackHelper helper_tools (Some tool_workspace) None link_world = (Inr ''/w/.bin/umoci-v0.6.0-amd64'', w1)"
    by (metis prod.collapse)
  show ?thesis using unpack_helper_verified [OF sj link_world_closed w(2), unfolded w(1), OF ws nl s] s arch by simp
qed

end
