(* ===== verification/Runs.thy ===== *)
theory Runs
  imports Provisioner
begin

text \<open>
  Reading a run forwards: when a program has returned, every step before its last one
  succeeded, and each call that succeeded has had its effect. The rules take the equation of a
  run apart in the order of the program text, so a proof follows the code line by line.
\<close>

named_theorems run_elims \<open>what a finished run says about its steps\<close>

lemma post_conj: "post m P w \<Longrightarrow> post m Q w \<Longrightarrow> post m (\<lambda>r w'. P r w' \<and> Q r w') w"
  by (simp add: post_def split: prod.splits)

lemma TrimSpace_idem: "TrimSpace (TrimSpace s) = TrimSpace s"
proof (cases "TrimSpace s = []")
  case False
  let ?u = "dropWhile is_space s"
  have t: "TrimSpace s = rev (dropWhile is_space (rev ?u))" by (simp add: TrimSpace_def)
  have ne: "dropWhile is_space (rev ?u) \<noteq> []" using False t by simp
  have un: "?u \<noteq> []" using ne by (metis dropWhile.simps(1) rev.simps(1))
  have "rev ?u = takeWhile is_space (rev ?u) @ dropWhile is_space (rev ?u)" by simp
  then have x: "?u = TrimSpace s @ rev (takeWhile is_space (rev ?u))" unfolding t by (metis rev_append rev_rev_ident)
  have "\<not> is_space (hd ?u)" using un by (rule hd_dropWhile)
  moreover have "hd ?u = hd (TrimSpace s)" using x False by (metis hd_append2)
  moreover have "\<not> is_space (hd (dropWhile is_space (rev ?u)))" using ne by (rule hd_dropWhile)
  moreover have "last (TrimSpace s) = hd (dropWhile is_space (rev ?u))" unfolding t using ne by (simp add: last_rev)
  ultimately show ?thesis using TrimSpace_id [OF False] by simp
qed simp

lemma run_tryE [run_elims]:
  assumes "tryE m k w = (Inr b, w2)"
  obtains a w1 where "m w = (Inr a, w1)" "k a w1 = (Inr b, w2)"
  using assms by (auto simp: tryE_def split: prod.splits sum.splits)

lemma run_tryE_error:
  assumes "tryE m k w = (Inl e, w2)"
  obtains "m w = (Inl e, w2)" | a w1 where "m w = (Inr a, w1)" "k a w1 = (Inl e, w2)"
  using assms by (auto simp: tryE_def split: prod.splits sum.splits)

lemma run_attempt [run_elims]:
  assumes "attempt m k w = (r, w2)"
  obtains q w1 where "m w = (q, w1)" "k q w1 = (r, w2)"
  using assms by (auto simp: attempt_def split: prod.splits)

lemma run_wrapped [run_elims]: "wrapped f m w = (Inr a, w2) \<Longrightarrow> (m w = (Inr a, w2) \<Longrightarrow> P) \<Longrightarrow> P"
  by (auto simp: wrapped_def split: prod.splits sum.splits)

lemma run_wrapped_error:
  assumes "wrapped f m w = (Inl e, w2)"
  obtains x where "m w = (Inl x, w2)" "e = f x"
  using assms by (auto simp: wrapped_def split: prod.splits sum.splits)

lemma run_deferred [run_elims]:
  assumes "deferred c m w = (r, w2)"
  obtains w1 where "m w = (r, w1)" "w2 = snd (c w1)"
  using assms by (auto simp: deferred_def split: prod.splits)

lemma run_check_ctx [run_elims]:
  assumes "check_ctx c f m w = (Inr a, w2)"
  obtains "ctx_err c w = None" "m w = (Inr a, w2)"
  using assms by (auto simp: check_ctx_def split: option.splits)

lemma run_ret [run_elims]: "ret a w = (r, w2) \<Longrightarrow> (r = Inr a \<Longrightarrow> w2 = w \<Longrightarrow> P) \<Longrightarrow> P"
  by (auto simp: ret_def)

lemma run_fail [run_elims]: "fail e w = (r, w2) \<Longrightarrow> (r = Inl e \<Longrightarrow> w2 = w \<Longrightarrow> P) \<Longrightarrow> P"
  by (auto simp: fail_def)

lemma run_lift_err [run_elims]: "lift_err e w = (Inr u, w2) \<Longrightarrow> (e = None \<Longrightarrow> w2 = w \<Longrightarrow> P) \<Longrightarrow> P"
  by (auto simp: lift_err_def ret_def fail_def split: option.splits)

lemma run_lift_sum [run_elims]: "lift_sum r w = (q, w2) \<Longrightarrow> (r = q \<Longrightarrow> w2 = w \<Longrightarrow> P) \<Longrightarrow> P"
  by (auto simp: lift_sum_def ret_def fail_def split: sum.splits)

subsection \<open>Temporary files that a failure removes\<close>

text \<open>\<open>defer func() { if !committed { os.Remove(tmpPath) } }()\<close>\<close>

definition unless_committed :: "string \<Rightarrow> 'a io \<Rightarrow> 'a io" where
  "unless_committed tmp m =
     attempt m (\<lambda>r. case r of Inr a \<Rightarrow> ret a | Inl e \<Rightarrow> attempt (Remove tmp) (\<lambda>_. fail e))"

definition close_and_fail :: "string \<Rightarrow> goerr \<Rightarrow> 'a io" where
  "close_and_fail path e = attempt (Effectless path) (\<lambda>_. fail e)"

lemma run_unless_committed [run_elims]:
  assumes "unless_committed tmp m w = (Inr a, w2)"
  shows "m w = (Inr a, w2)"
  using assms by (auto simp: unless_committed_def attempt_def ret_def fail_def split: prod.splits sum.splits)

lemma run_close_and_fail: "close_and_fail p e w \<noteq> (Inr a, w2)"
  by (auto simp: close_and_fail_def attempt_def fail_def split: prod.splits)

lemma reads_links: "reads (reject_links root cs)"
  by (induction root cs rule: reject_links.induct) (auto simp: Let_def split: sum.split intro!: reads_comb)

subsection \<open>Calls that succeeded\<close>

lemma run_reads: "reads m \<Longrightarrow> m w = (r, w') \<Longrightarrow> node_at w' = node_at w"
  unfolding reads_def by (metis node_at_ext snd_conv)

lemma run_reads_deferred: "reads c \<Longrightarrow> node_at (snd (c w)) = node_at w"
  unfolding reads_def by (metis node_at_ext)

lemma run_ReadFile: "ReadFile p w = (Inr d, w') \<Longrightarrow> d = open_content w p \<and> node_at w' = node_at w"
  using postD [OF checksD [OF checks_ReadFile [OF refl]]] by auto

lemma run_Rename:
  assumes "Rename p q w = (Inr u, w')" "node_at w p = Some n"
  shows "node_at w' q = Some n"
proof -
  have "post (Rename p q) (\<lambda>r w'. r = Inr u \<longrightarrow> node_at w' q = Some n) w"
    by (rule post_Rename) (use assms(2) node_at_move_target in auto)
  from postD [OF this assms(1)] show ?thesis by simp
qed

lemma run_FWrite:
  assumes "FWrite p d w = (Inr u, w')" "node_at w p = Some (FileNode c m v)"
  shows "node_at w' = (node_at w)(p \<mapsto> FileNode (c @ d) m v)"
proof -
  have "post (FWrite p d) (\<lambda>r w'. r = Inr u \<longrightarrow> node_at w' = (node_at w)(p \<mapsto> FileNode (c @ d) m v)) w"
    by (rule post_FWrite [OF assms(2)]) auto
  from postD [OF this assms(1)] show ?thesis by simp
qed

lemma run_Chmod:
  assumes "Chmod p m w = (Inr u, w')"
  obtains n where "node_at w p = Some n" "node_at w' = (node_at w)(p \<mapsto> set_mode m n)"
proof -
  have "post (Chmod p m) (\<lambda>r w'. r = Inr u \<longrightarrow> (\<exists>n. node_at w p = Some n \<and> node_at w' = (node_at w)(p \<mapsto> set_mode m n))) w"
    by (rule post_Chmod) auto
  from postD [OF this assms(1)] show ?thesis using that by blast
qed

lemma run_CreateTemp:
  assumes "ws_CreateTemp SJ ws rel pre w = (Inr p, w')"
  shows "node_at w' p = Some (FileNode [] 384 0)"
  using postD [OF CreateTemp_post assms] by simp

text \<open>A change of mode leaves what a path leads to alone.\<close>

lemma resolve_set_mode:
  assumes "node_at w p = Some n" "node_at w' = (node_at w)(p \<mapsto> set_mode m n)"
  shows "resolve k w' q = resolve k w q"
proof (induction k arbitrary: q)
  case (Suc k)
  then show ?case using assms by (cases "q = p"; cases n) (auto split: option.splits node.splits)
qed simp

lemma open_content_set_mode:
  assumes "node_at w p = Some n" "node_at w' = (node_at w)(p \<mapsto> set_mode m n)"
  shows "open_content w' q = open_content w q"
proof -
  have "(case node_at w' r of Some (FileNode d _ _) \<Rightarrow> d | _ \<Rightarrow> []) = (case node_at w r of Some (FileNode d _ _) \<Rightarrow> d | _ \<Rightarrow> [])" for r
    using assms by (cases "r = p"; cases n) auto
  then show ?thesis unfolding open_content_def resolve_set_mode [OF assms] by (auto split: option.splits)
qed

end
