(* ===== verification/Host_Probe.thy ===== *)
theory Host_Probe
  imports User_NS
begin

text \<open>
  \<open>pkg/shared/hostprobe\<close>: the rules that tell whether a host can run rootless containers.

  A rule reads the host through functions it may replace; \<open>withDefaults\<close> fills in the others.
  These functions are values here: a rule asks each of them at most once for the same thing and
  none of them changes anything the program looks at. \<open>Quote\<close> is the verb \<open>%q\<close> on ASCII text.
\<close>

subsection \<open>Package strconv and the verbs of package fmt\<close>

definition hex_char :: "nat \<Rightarrow> char" where
  "hex_char d = (if d < 10 then char_of (48 + d) else char_of (87 + d))"

definition quote_char :: "char \<Rightarrow> string" where
  "quote_char c =
     (let n = ord c; bs = CHR 0x5C in
      if c = CHR 0x22 \<or> c = bs then [bs, c]
      else if n = 7 then [bs, CHR ''a''] else if n = 8 then [bs, CHR ''b''] else if n = 9 then [bs, CHR ''t'']
      else if n = 10 then [bs, CHR ''n''] else if n = 11 then [bs, CHR ''v''] else if n = 12 then [bs, CHR ''f'']
      else if n = 13 then [bs, CHR ''r'']
      else if n < 32 \<or> n = 127 then [bs, CHR ''x'', hex_char (n div 16), hex_char (n mod 16)]
      else [c])"

definition Quote :: "string \<Rightarrow> string" where
  "Quote s = CHR 0x22 # concat (map quote_char s) @ [CHR 0x22]"

definition FormatInt :: "int \<Rightarrow> string" where
  "FormatInt i = (if i < 0 then CHR ''-'' # FormatUint (nat (- i)) else FormatUint (nat i))"

text \<open>\<open>strconv.ParseInt(s, 10, 64)\<close>\<close>

definition num_error :: "string \<Rightarrow> string \<Rightarrow> goerr" where
  "num_error s what = Opaque (''strconv.ParseInt: parsing '' @ Quote s @ '': '' @ what)"

definition unsigned_part :: "string \<Rightarrow> string" where
  "unsigned_part s = (case s of c # t \<Rightarrow> if c = CHR ''-'' \<or> c = CHR ''+'' then t else s | [] \<Rightarrow> [])"

definition ParseInt :: "string \<Rightarrow> goerr + int" where
  "ParseInt s =
     (let neg = (s \<noteq> [] \<and> hd s = CHR ''-''); u = unsigned_part s in
      if u = [] \<or> \<not> list_all is_digit u then Inl (num_error s ''invalid syntax'')
      else let n = int (digits_value u) in
        if \<not> neg \<and> 9223372036854775808 \<le> n \<or> neg \<and> 9223372036854775808 < n then Inl (num_error s ''value out of range'')
        else Inr (if neg then - n else n))"

subsection \<open>Rules\<close>

record host_fns =
  goos :: string
  euid :: int
  currentUser :: "goerr + string"
  readFile :: "string \<Rightarrow> goerr + string"
  lookPath :: "string \<Rightarrow> goerr + string"
  commandOutput :: "ctx \<Rightarrow> string \<Rightarrow> string list \<Rightarrow> string \<times> goerr option"

text \<open>The functions a rule replaces; \<open>None\<close> is a nil function.\<close>

record rule =
  rule_name :: string
  rule_run :: "(ctx \<Rightarrow> host_fns \<Rightarrow> string list) option"
  rule_goos :: "string option"
  rule_euid :: "int option"
  rule_currentUser :: "(goerr + string) option"
  rule_readFile :: "(string \<Rightarrow> goerr + string) option"
  rule_lookPath :: "(string \<Rightarrow> goerr + string) option"
  rule_commandOutput :: "(ctx \<Rightarrow> string \<Rightarrow> string list \<Rightarrow> string \<times> goerr option) option"

definition or_default :: "'a option \<Rightarrow> 'a \<Rightarrow> 'a" where
  "or_default f d = (case f of None \<Rightarrow> d | Some g \<Rightarrow> g)"

definition withDefaults :: "host_fns \<Rightarrow> rule \<Rightarrow> host_fns" where
  "withDefaults host r =
     \<lparr>goos = or_default (rule_goos r) (goos host), euid = or_default (rule_euid r) (euid host),
      currentUser = or_default (rule_currentUser r) (currentUser host),
      readFile = or_default (rule_readFile r) (readFile host), lookPath = or_default (rule_lookPath r) (lookPath host),
      commandOutput = or_default (rule_commandOutput r) (commandOutput host)\<rparr>"

definition rule_Check :: "host_fns \<Rightarrow> ctx \<Rightarrow> rule \<Rightarrow> string list" where
  "rule_Check host c r = (case rule_run r of None \<Rightarrow> [] | Some run \<Rightarrow> run c (withDefaults host r))"

definition new_rule :: "string \<Rightarrow> (ctx \<Rightarrow> host_fns \<Rightarrow> string list) \<Rightarrow> rule" where
  "new_rule name run =
     \<lparr>rule_name = name, rule_run = Some run, rule_goos = None, rule_euid = None, rule_currentUser = None,
      rule_readFile = None, rule_lookPath = None, rule_commandOutput = None\<rparr>"

definition ruleMessage :: "string \<Rightarrow> string \<Rightarrow> string \<Rightarrow> string" where
  "ruleMessage code message remediation = code @ '': '' @ message @ '' Remediation: '' @ remediation"

subsection \<open>Linux and the user\<close>

definition RequireLinux :: rule where
  "RequireLinux = new_rule ''require_linux'' (\<lambda>_ f.
     if goos f = ''linux'' then []
     else [ruleMessage ''unsupported_host_os''
       (''Chamber host operation requires Linux; current GOOS is '' @ Quote (goos f))
       ''Run this probe and the Chamber operation inside Linux.''])"

definition RequireRootlessUser :: rule where
  "RequireRootlessUser = new_rule ''require_rootless_user'' (\<lambda>_ f.
     if euid f \<noteq> 0 then []
     else [ruleMessage ''rootless_requires_non_root'' ''Chamber rootless operation cannot run as root''
       ''Run Chamber as the unprivileged user that will own the Chamber roots.''])"

subsection \<open>Kernel settings\<close>

definition errIsPermission :: "goerr \<Rightarrow> bool" where
  "errIsPermission e = err_any (\<lambda>x. case x of SysErr n _ \<Rightarrow> n = EACCES \<or> n = EPERM | _ \<Rightarrow> False) e"

text \<open>A message, or the value: none when the setting does not exist or cannot be read.\<close>

definition readHostInt :: "host_fns \<Rightarrow> string \<Rightarrow> string + int option" where
  "readHostInt f path =
     (case readFile f path of
        Inl e \<Rightarrow>
          if errIsNotExist e \<or> errIsPermission e then Inr None
          else Inl (ruleMessage ''user_namespace_limit_unavailable'' (''cannot inspect '' @ path @ '': '' @ ErrorText e)
            ''Verify this host's user namespace policy directly if Chamber operations fail later.'')
      | Inr data \<Rightarrow>
          let value = TrimSpace data in
          case ParseInt value of
            Inl e \<Rightarrow> Inl (ruleMessage ''user_namespace_limit_unavailable''
              (''cannot parse '' @ path @ '' value '' @ Quote value @ '': '' @ ErrorText e)
              ''Fix the host sysctl value before running Chamber rootless operations.'')
          | Inr n \<Rightarrow> Inr (Some n))"

definition userns_clone_path :: string where
  "userns_clone_path = ''/proc/sys/kernel/unprivileged_userns_clone''"

definition max_userns_path :: string where
  "max_userns_path = ''/proc/sys/user/max_user_namespaces''"

definition RequireUserNamespacesEnabled :: rule where
  "RequireUserNamespacesEnabled = new_rule ''require_user_namespaces_enabled'' (\<lambda>_ f.
     (case readHostInt f userns_clone_path of
        Inl message \<Rightarrow> [message]
      | Inr (Some value) \<Rightarrow>
          if value = 0 then [ruleMessage ''user_namespaces_disabled''
            (userns_clone_path @ '' is 0, so unprivileged user namespaces are disabled'')
            ''Enable unprivileged user namespaces for this host or run inside a Linux environment where they are allowed.'']
          else []
      | Inr None \<Rightarrow> []) @
     (case readHostInt f max_userns_path of
        Inl message \<Rightarrow> [message]
      | Inr (Some value) \<Rightarrow>
          if value \<le> 0 then [ruleMessage ''user_namespaces_disabled''
            (max_userns_path @ '' is 0, so this user cannot create user namespaces'')
            ''Set user.max_user_namespaces to a positive value appropriate for rootless containers.'']
          else []
      | Inr None \<Rightarrow> []))"

fun apparmor_messages :: "host_fns \<Rightarrow> string list \<Rightarrow> string list" where
  "apparmor_messages f [] = []"
| "apparmor_messages f (path # paths) =
     (case readHostInt f path of
        Inl message \<Rightarrow> [message]
      | Inr None \<Rightarrow> []
      | Inr (Some value) \<Rightarrow>
          if value = 0 then []
          else [ruleMessage ''apparmor_restricts_userns''
            (path @ '' is '' @ FormatInt value @ '', so AppArmor may block unprivileged user namespace creation before runc init'')
            ''Use an AppArmor profile that permits Chamber's unprivileged user namespace setup, or have the host operator adjust this policy.''])
     @ apparmor_messages f paths"

definition apparmor_paths :: "string list" where
  "apparmor_paths =
     [''/proc/sys/kernel/apparmor_restrict_unprivileged_userns'', ''/proc/sys/kernel/apparmor_restrict_unprivileged_unconfined'']"

definition RequireAppArmorAllowsUserNamespaces :: rule where
  "RequireAppArmorAllowsUserNamespaces = new_rule ''require_apparmor_allows_user_namespaces'' (\<lambda>_ f. apparmor_messages f apparmor_paths)"

subsection \<open>Subordinate IDs and helper programs\<close>

definition add_range_hint :: string where
  "add_range_hint = ''Add a subordinate ID range for the Chamber user when builds or images need multi-ID ownership mapping.''"

definition checkSubordinateIDMapping :: "host_fns \<Rightarrow> string \<Rightarrow> string list" where
  "checkSubordinateIDMapping f path =
     (let unknown = [ruleMessage ''subordinate_id_mapping_missing'' (''cannot determine current username while checking '' @ path)
            ''Verify the Chamber user has subordinate ID ranges when running images that need more than a single-ID rootless mapping.''] in
      case currentUser f of
        Inl e \<Rightarrow> unknown
      | Inr username \<Rightarrow>
          if TrimSpace username = [] then unknown
          else case readFile f path of
              Inl e \<Rightarrow> [ruleMessage ''subordinate_id_mapping_missing''
                (path @ '' is not readable for subordinate ID mapping checks: '' @ ErrorText e) add_range_hint]
            | Inr data \<Rightarrow>
                if list_ex (\<lambda>line. HasPrefix (TrimSpace line) (username @ '':'')) (SplitChar (CHR 0x0A) data) then []
                else [ruleMessage ''subordinate_id_mapping_missing''
                  (path @ '' does not contain a subordinate ID mapping for '' @ Quote username) add_range_hint])"

definition requireHelper :: "host_fns \<Rightarrow> string \<Rightarrow> string list" where
  "requireHelper f name =
     (case lookPath f name of
        Inr p \<Rightarrow> []
      | Inl e \<Rightarrow> [ruleMessage ''helper_missing'' (name @ '' was not found in PATH'')
          (''Install '' @ name @ '' or configure Chamber to use an explicit equivalent helper path when that operation needs it.'')])"

definition RequireSubUIDMapping :: rule where
  "RequireSubUIDMapping = new_rule ''require_subuid_mapping'' (\<lambda>_ f. checkSubordinateIDMapping f ''/etc/subuid'')"

definition RequireSubGIDMapping :: rule where
  "RequireSubGIDMapping = new_rule ''require_subgid_mapping'' (\<lambda>_ f. checkSubordinateIDMapping f ''/etc/subgid'')"

definition RequireNewUIDMap :: rule where
  "RequireNewUIDMap = new_rule ''require_newuidmap'' (\<lambda>_ f. requireHelper f ''newuidmap'')"

definition RequireNewGIDMap :: rule where
  "RequireNewGIDMap = new_rule ''require_newgidmap'' (\<lambda>_ f. requireHelper f ''newgidmap'')"

definition ProbeUserNamespace :: rule where
  "ProbeUserNamespace = new_rule ''probe_user_namespace'' (\<lambda>c f.
     (case lookPath f ''unshare'' of
        Inl e \<Rightarrow> [ruleMessage ''active_probe_unavailable''
          ''unshare was not found in PATH, so Chamber cannot actively verify user namespace policy''
          ''Install util-linux unshare on the host used for active Chamber probes.'']
      | Inr p \<Rightarrow>
          (case commandOutput f c ''unshare'' [''-Ur'', ''true''] of
             (output, None) \<Rightarrow> []
           | (output, Some e) \<Rightarrow>
               let message = TrimSpace output in
               [ruleMessage ''active_user_namespace_failed''
                 (''active user namespace probe failed: '' @ (if message = [] then ErrorText e else message))
                 ''Fix user namespace or LSM/AppArmor policy before starting Chamber runtime or BuildKit work.''])))"

text \<open>The lists of rules in the factories, and the error they end in.\<close>

definition require_rules :: "host_fns \<Rightarrow> ctx \<Rightarrow> rule list \<Rightarrow> string \<Rightarrow> goerr option" where
  "require_rules host c rules what =
     (let messages = concat (map (rule_Check host c) rules) in
      if messages = [] then None
      else Some (codef ErrUnsupportedHost (what @ '' host probe failed: '' @ JoinStrings messages ''; '') []))"

subsection \<open>What a host must provide\<close>

lemma rule_Check_new: "rule_Check host c (new_rule name run) = run c host"
  by (cases host) (simp add: rule_Check_def new_rule_def withDefaults_def or_default_def)

text \<open>The value of a kernel setting that exists and is readable.\<close>

definition setting :: "host_fns \<Rightarrow> string \<Rightarrow> int option" where
  "setting f p = (case readFile f p of Inr data \<Rightarrow> (case ParseInt (TrimSpace data) of Inr n \<Rightarrow> Some n | Inl _ \<Rightarrow> None) | Inl _ \<Rightarrow> None)"

definition absent :: "host_fns \<Rightarrow> string \<Rightarrow> bool" where
  "absent f p = (case readFile f p of Inl e \<Rightarrow> errIsNotExist e \<or> errIsPermission e | Inr _ \<Rightarrow> False)"

lemma readHostInt_cases:
  "readHostInt f p =
     (if absent f p then Inr None else case setting f p of Some n \<Rightarrow> Inr (Some n) | None \<Rightarrow> Inl (projl (readHostInt f p)))"
  by (auto simp: readHostInt_def absent_def setting_def Let_def split: sum.splits)

lemma setting_absent: "absent f p \<Longrightarrow> setting f p = None"
  by (auto simp: absent_def setting_def split: sum.splits)

definition allows :: "host_fns \<Rightarrow> string \<Rightarrow> (int \<Rightarrow> bool) \<Rightarrow> bool" where
  "allows f p ok = (absent f p \<or> (\<exists>n. setting f p = Some n \<and> ok n))"

lemma apparmor_messages_Nil: "apparmor_messages f ps = [] \<longleftrightarrow> (\<forall>p \<in> set ps. allows f p (\<lambda>n. n = 0))"
proof (induction ps)
  case (Cons p ps)
  have "(case readHostInt f p of Inl message \<Rightarrow> [message] | Inr None \<Rightarrow> []
      | Inr (Some value) \<Rightarrow> if value = 0 then [] else [m value]) = [] \<longleftrightarrow> allows f p (\<lambda>n. n = 0)" for m
    using setting_absent [of f p] by (subst readHostInt_cases) (auto simp: allows_def split: option.splits)
  then show ?case using Cons by simp
qed simp

lemma userns_messages_Nil:
  "rule_Check f c RequireUserNamespacesEnabled = [] \<longleftrightarrow>
     allows f userns_clone_path (\<lambda>n. n \<noteq> 0) \<and> allows f max_userns_path (\<lambda>n. 0 < n)"
proof -
  have "(case readHostInt f p of Inl message \<Rightarrow> [message] | Inr (Some value) \<Rightarrow> if bad value then [m] else [] | Inr None \<Rightarrow> []) = []
      \<longleftrightarrow> allows f p (\<lambda>n. \<not> bad n)" for p bad m
    using setting_absent [of f p] by (subst readHostInt_cases) (auto simp: allows_def split: option.splits)
  then show ?thesis by (simp add: RequireUserNamespacesEnabled_def rule_Check_new not_le)
qed

lemma probe_Nil:
  "rule_Check f c ProbeUserNamespace = [] \<longleftrightarrow>
     (\<exists>p. lookPath f ''unshare'' = Inr p) \<and> snd (commandOutput f c ''unshare'' [''-Ur'', ''true'']) = None"
  by (auto simp: ProbeUserNamespace_def rule_Check_new Let_def split: sum.splits prod.splits option.splits)

lemma linux_Nil: "rule_Check f c RequireLinux = [] \<longleftrightarrow> goos f = ''linux''"
  by (simp add: RequireLinux_def rule_Check_new)

lemma rootless_Nil: "rule_Check f c RequireRootlessUser = [] \<longleftrightarrow> euid f \<noteq> 0"
  by (simp add: RequireRootlessUser_def rule_Check_new)

lemma apparmor_Nil:
  "rule_Check f c RequireAppArmorAllowsUserNamespaces = [] \<longleftrightarrow> (\<forall>p \<in> set apparmor_paths. allows f p (\<lambda>n. n = 0))"
  by (simp add: RequireAppArmorAllowsUserNamespaces_def rule_Check_new apparmor_messages_Nil)

lemmas rules_Nil = linux_Nil rootless_Nil userns_messages_Nil apparmor_Nil probe_Nil

lemma require_rules_None: "require_rules host c rules what = None \<longleftrightarrow> (\<forall>r \<in> set rules. rule_Check host c r = [])"
  by (auto simp: require_rules_def Let_def)

end
