(* ===== verification/Logging.thy ===== *)
theory Logging
  imports Host_Probe
begin

text \<open>
  \<open>pkg/shared/logging\<close>: the configuration of host-side logs and the process-wide logger.

  A logger of package \<open>log/slog\<close> is what it is made of: its encoding, writer and minimum
  level. A writer is known by its name; \<open>None\<close> is nil. The records written to a logger are not
  modelled, no code reads them.
\<close>

datatype log_level = LevelDebug | LevelInfo | LevelWarn | LevelError

datatype slogger = JSONLogger string log_level | TextLogger string log_level | OwnLogger string

record log_config =
  Level :: string
  Format :: string
  Logger_field :: "slogger option"

definition no_logging :: log_config where
  "no_logging = \<lparr>Level = [], Format = [], Logger_field = None\<rparr>"

definition log_DefaultConfig :: log_config where
  "log_DefaultConfig = \<lparr>Level = ''info'', Format = ''json'', Logger_field = None\<rparr>"

definition parseLevel :: "string \<Rightarrow> goerr + log_level" where
  "parseLevel raw =
     (let s = ToLower (TrimSpace raw) in
      if s = ''debug'' then Inr LevelDebug
      else if s = [] \<or> s = ''info'' then Inr LevelInfo
      else if s = ''warn'' \<or> s = ''warning'' then Inr LevelWarn
      else if s = ''error'' then Inr LevelError
      else Inl (codef ErrInvalidRequest (''unsupported log level '' @ Quote raw) []))"

definition normalizeFormat :: "string \<Rightarrow> string" where
  "normalizeFormat raw = ToLower (TrimSpace raw)"

definition unsupported_format :: "string \<Rightarrow> goerr" where
  "unsupported_format f = codef ErrInvalidRequest (''unsupported log format '' @ Quote f) []"

definition normalized :: "log_config \<Rightarrow> goerr + log_config" where
  "normalized config =
     (let config = (if Level config = [] then config\<lparr>Level := ''info''\<rparr> else config);
          config = (if Format config = [] then config\<lparr>Format := ''json''\<rparr> else config) in
      case parseLevel (Level config) of
        Inl e \<Rightarrow> Inl e
      | Inr _ \<Rightarrow>
          if normalizeFormat (Format config) = ''json'' \<or> normalizeFormat (Format config) = ''text''
          then Inr config else Inl (unsupported_format (Format config)))"

definition NewJSONLogger :: "string option \<Rightarrow> log_level \<Rightarrow> slogger" where
  "NewJSONLogger out level = JSONLogger (case out of None \<Rightarrow> ''stderr'' | Some n \<Rightarrow> n) level"

definition newDefaultLogger :: slogger where
  "newDefaultLogger = NewJSONLogger (Some ''stderr'') LevelInfo"

definition NewLogger :: "string option \<Rightarrow> log_config \<Rightarrow> goerr + slogger" where
  "NewLogger out config =
     (case Logger_field config of
        Some l \<Rightarrow> Inr l
      | None \<Rightarrow>
          (case normalized config of
             Inl e \<Rightarrow> Inl e
           | Inr config \<Rightarrow>
               let name = (case out of None \<Rightarrow> ''stderr'' | Some n \<Rightarrow> n);
                   level = (case parseLevel (Level config) of Inl e \<Rightarrow> LevelInfo | Inr l \<Rightarrow> l)
               in if normalizeFormat (Format config) = ''json'' then Inr (JSONLogger name level)
                  else if normalizeFormat (Format config) = ''text'' then Inr (TextLogger name level)
                  else Inl (unsupported_format (Format config))))"

text \<open>The package variable \<open>logger\<close> is passed and returned.\<close>

definition SetLogger :: "slogger option \<Rightarrow> slogger \<Rightarrow> slogger" where
  "SetLogger next current = (case next of None \<Rightarrow> newDefaultLogger | Some l \<Rightarrow> l)"

definition Configure :: "log_config \<Rightarrow> string option \<Rightarrow> slogger \<Rightarrow> goerr option \<times> slogger" where
  "Configure config out current =
     (if config = no_logging then (None, current)
      else case Logger_field config of
          Some l \<Rightarrow> (None, SetLogger (Some l) current)
        | None \<Rightarrow> (case NewLogger out config of Inl e \<Rightarrow> (Some e, current) | Inr l \<Rightarrow> (None, SetLogger (Some l) current)))"

definition LoggerFromConfig :: "slogger \<Rightarrow> log_config \<Rightarrow> string option \<Rightarrow> goerr + slogger" where
  "LoggerFromConfig current config out = (if config = no_logging then Inr current else NewLogger out config)"

subsection \<open>Accepted configurations\<close>

text \<open>What the two strings of a configuration mean.\<close>

definition level_meant :: "string \<Rightarrow> log_level option" where
  "level_meant s =
     map_of [([], LevelInfo), (''info'', LevelInfo), (''debug'', LevelDebug), (''warn'', LevelWarn), (''warning'', LevelWarn), (''error'', LevelError)]
       (ToLower (TrimSpace s))"

definition format_meant :: "string \<Rightarrow> (string \<Rightarrow> log_level \<Rightarrow> slogger) option" where
  "format_meant s =
     (if s = [] then Some JSONLogger
      else map_of [(''json'', JSONLogger), (''text'', TextLogger)] (ToLower (TrimSpace s)))"

definition logger_meant :: "string option \<Rightarrow> log_config \<Rightarrow> slogger option" where
  "logger_meant out config =
     (case Logger_field config of
        Some l \<Rightarrow> Some l
      | None \<Rightarrow>
          (case (format_meant (Format config), level_meant (Level config)) of
             (Some f, Some l) \<Rightarrow> Some (f (case out of None \<Rightarrow> ''stderr'' | Some n \<Rightarrow> n) l)
           | _ \<Rightarrow> None))"

lemma parseLevel_meant: "parseLevel s = (case level_meant s of Some l \<Rightarrow> Inr l | None \<Rightarrow> Inl (codef ErrInvalidRequest (''unsupported log level '' @ Quote s) []))"
  by (simp add: parseLevel_def level_meant_def Let_def)

lemma default_names: "ToLower (TrimSpace ''info'') = ''info''" "ToLower (TrimSpace ''json'') = ''json''" "ToLower [] = []"
  by code_simp+

lemma NewLogger_meant: "NewLogger out config = Inr l \<longleftrightarrow> logger_meant out config = Some l"
proof (cases "Logger_field config")
  case None
  have lvl: "level_meant (if Level config = [] then ''info'' else Level config) = level_meant (Level config)"
    by (simp add: level_meant_def default_names)
  show ?thesis
    by (cases "Level config = []"; cases "Format config = []"; cases "level_meant (Level config)")
      (use None lvl in \<open>auto simp: NewLogger_def normalized_def logger_meant_def Let_def parseLevel_meant normalizeFormat_def
        format_meant_def default_names\<close>)
qed (simp add: NewLogger_def logger_meant_def)

lemma NewLogger_error: "NewLogger out config = Inl e \<Longrightarrow> errIs e ErrInvalidRequest"
  by (auto simp: NewLogger_def normalized_def Let_def parseLevel_meant unsupported_format_def
      split: option.splits sum.splits if_splits)

text \<open>
  A logging configuration selects exactly the logger it describes: the zero value inherits
  the current logger, a given logger is used as it is, otherwise level and format decide, with
  \<open>info\<close> and \<open>json\<close> for the empty strings; every other configuration is an invalid request.
  \<open>Configure\<close> installs that logger and leaves the current one in place when it fails.
\<close>

theorem logging_configuration:
  "LoggerFromConfig current config out =
     (if config = no_logging then Inr current
      else case logger_meant out config of Some l \<Rightarrow> Inr l | None \<Rightarrow> Inl (projl (NewLogger out config))) \<and>
   (\<forall>e. LoggerFromConfig current config out = Inl e \<longrightarrow> errIs e ErrInvalidRequest) \<and>
   Configure config out current =
     (case LoggerFromConfig current config out of Inl e \<Rightarrow> (Some e, current) | Inr l \<Rightarrow> (None, l))"
proof (intro conjI allI impI)
  show "LoggerFromConfig current config out =
     (if config = no_logging then Inr current
      else case logger_meant out config of Some l \<Rightarrow> Inr l | None \<Rightarrow> Inl (projl (NewLogger out config)))"
    using NewLogger_meant [of out config "projr (NewLogger out config)"] NewLogger_meant [of out config "the (logger_meant out config)"]
    by (cases "NewLogger out config") (auto simp: LoggerFromConfig_def split: option.splits)
  show "errIs e ErrInvalidRequest" if "LoggerFromConfig current config out = Inl e" for e
    using that NewLogger_error by (auto simp: LoggerFromConfig_def split: if_splits)
  show "Configure config out current =
     (case LoggerFromConfig current config out of Inl e \<Rightarrow> (Some e, current) | Inr l \<Rightarrow> (None, l))"
    by (auto simp: Configure_def LoggerFromConfig_def SetLogger_def NewLogger_def split: option.splits sum.splits)
qed

theorem logging_configuration_witness:
  "LoggerFromConfig newDefaultLogger \<lparr>Level = '' WARN'', Format = [], Logger_field = None\<rparr> None = Inr (JSONLogger ''stderr'' LevelWarn)"
proof -
  have "logger_meant None \<lparr>Level = '' WARN'', Format = [], Logger_field = None\<rparr> = Some (JSONLogger ''stderr'' LevelWarn)"
    by code_simp
  then show ?thesis
    using logging_configuration [of newDefaultLogger "\<lparr>Level = '' WARN'', Format = [], Logger_field = None\<rparr>" None]
    by (simp add: no_logging_def)
qed

end
