(* ===== verification/Runc_Install.thy ===== *)
theory Runc_Install
  imports Runs Logging "HOL-Library.Word"
begin

unbundle bit_operations_syntax

text \<open>
  Constructing the runc runtime: \<open>pkg/runtime/config.go\<close> and, of
  \<open>pkg/runtime/internal/runc/runtime.go\<close>, the installation of the runtime binary.

  \<open>sha256\<close> is a parameter of the model and yields the raw digest. A file is opened, read and
  closed by the calls of the file system model; a digest is computed from the bytes read.
\<close>

subsection \<open>Configuration\<close>

record runtime_config =
  RuntimeRoot :: string
  RuntimeTmpRoot :: string
  RuntimeBinDir :: string
  RuntimeBinTmpRoot :: string
  RuntimePath :: string
  rtc_Name :: string
  rtc_Logging :: log_config

definition runtime_DefaultConfig :: "host_env \<Rightarrow> string \<Rightarrow> runtime_config" where
  "runtime_DefaultConfig env base =
     \<lparr>RuntimeRoot = Join [base, ''run'', ''runtime''], RuntimeTmpRoot = DefaultTmpRoot env ''runtime'',
      RuntimeBinDir = Join [base, ''bin''], RuntimeBinTmpRoot = DefaultTmpRoot env ''runtime-bin'',
      RuntimePath = [], rtc_Name = ''runc'', rtc_Logging = no_logging\<rparr>"

record runtimeBinary =
  bin_version :: string
  bin_url :: string
  bin_sha256 :: string

record runtime_tools =
  rt_provision :: provision_tools
  sha256 :: "string \<Rightarrow> string"
  package_logger :: slogger

record runc_runtime =
  r_provisioner :: "provisioner option"
  r_config :: runtime_config
  r_binaryPath :: string
  r_binary :: runtimeBinary
  r_workspace :: "workspace option"
  r_binaryWorkspace :: "workspace option"
  r_logger :: slogger

text \<open>\<open>fmt.Errorf("%w: message: %v", code, e)\<close>: the cause is in the text only.\<close>

definition codefv :: "code \<Rightarrow> string \<Rightarrow> goerr \<Rightarrow> goerr" where
  "codefv c msg e = Errorf [CodeErr c] (code_string c @ '': '' @ msg @ '': '' @ ErrorText e)"

definition runc_absPath :: "host_env \<Rightarrow> string \<Rightarrow> goerr + string" where
  "runc_absPath env path = (if path = [] then Inr [] else Abs env path)"

definition configuredBinaryPath :: "host_env \<Rightarrow> runtime_config \<Rightarrow> goerr + string" where
  "configuredBinaryPath env config =
     (let path = TrimSpace (RuntimePath config) in
      if path \<noteq> [] then
        (case runc_absPath env path of Inl e \<Rightarrow> Inl (codef ErrInvalidRequest ''resolve runtime path'' [e]) | Inr p \<Rightarrow> Inr p)
      else if RuntimeBinDir config = [] then Inl (codef ErrInvalidRequest ''runtime bin dir is required'' [])
      else case runc_absPath env (RuntimeBinDir config) of
          Inl e \<Rightarrow> Inl (codef ErrInvalidRequest ''resolve runtime bin dir'' [e])
        | Inr binDir \<Rightarrow> Inr (Join [binDir, ''runc'']))"

definition stateRoot :: "host_env \<Rightarrow> runc_runtime \<Rightarrow> goerr + string" where
  "stateRoot env r =
     (if RuntimeRoot (r_config r) = [] then Inl (codef ErrInvalidRequest ''runtime root is required'' [])
      else case runc_absPath env (RuntimeRoot (r_config r)) of
          Inl e \<Rightarrow> Inl (codef ErrInvalidRequest ''resolve runtime root'' [e])
        | Inr p \<Rightarrow> Inr p)"

definition defaultRuntimeBinary :: "string \<Rightarrow> goerr + runtimeBinary" where
  "defaultRuntimeBinary arch =
     (if arch = ''amd64'' then Inr
        \<lparr>bin_version = ''v1.5.0'', bin_url = ''https://github.com/opencontainers/runc/releases/download/v1.5.0/runc.amd64'',
         bin_sha256 = ''0363e69bebd3a027d1239364ab9b4f4873f6bc4e7a7878e94b4ea59f08551297''\<rparr>
      else if arch = ''arm64'' then Inr
        \<lparr>bin_version = ''v1.5.0'', bin_url = ''https://github.com/opencontainers/runc/releases/download/v1.5.0/runc.arm64'',
         bin_sha256 = ''1f6d8c553add066a6aaf838d3172d4c5ed3c6b065b6f7eed2f4a4aa4af261e59''\<rparr>
      else Inl (codef ErrUnsupportedHost (''runc runtime does not have a default binary for architecture '' @ Quote arch) []))"

text \<open>A nil workspace is \<open>None\<close>.\<close>

definition runc_requireWorkspaceFeatures :: "string \<Rightarrow> workspace option \<Rightarrow> FeatureSet \<Rightarrow> goerr option" where
  "runc_requireWorkspaceFeatures label ws required =
     (case ws of
        None \<Rightarrow> Some (codef ErrInvalidRequest (label @ '' is required'') [])
      | Some w \<Rightarrow>
          let observed = ws_features w; missing = (\<lambda>what. Some (codef ErrFilesystemFailed (label @ '' requires '' @ what) [])) in
          if PrivateDirs required \<and> \<not> PrivateDirs observed then missing ''private directories''
          else if FileFsync required \<and> \<not> FileFsync observed then missing ''file fsync''
          else if DirectoryFsync required \<and> \<not> DirectoryFsync observed then missing ''directory fsync''
          else if AtomicFileRename required \<and> \<not> AtomicFileRename observed then missing ''atomic file rename between temporary and durable roots''
          else if AtomicDirectoryRename required \<and> \<not> AtomicDirectoryRename observed
          then missing ''atomic directory rename between temporary and durable roots''
          else None)"

definition runtime_requirements :: FeatureSet where
  "runtime_requirements =
     \<lparr>PrivateDirs = True, FileFsync = True, DirectoryFsync = False, AtomicFileRename = True, AtomicDirectoryRename = False\<rparr>"

subsection \<open>Digests\<close>

text \<open>The comparison looks at every byte: \<open>diff |= a[i] ^ b[i]\<close>.\<close>

definition byte :: "char \<Rightarrow> 8 word" where
  "byte c = of_nat (ord c)"

fun diff_bytes :: "string \<Rightarrow> string \<Rightarrow> 8 word \<Rightarrow> 8 word" where
  "diff_bytes (x # a) (y # b) diff = diff_bytes a b (diff OR (byte x XOR byte y))"
| "diff_bytes _ _ diff = diff"

definition equalDigest :: "string \<Rightarrow> string \<Rightarrow> bool" where
  "equalDigest a b = (if length a \<noteq> length b then False else diff_bytes a b 0 = 0)"

definition parseSHA256 :: "string \<Rightarrow> goerr + string" where
  "parseSHA256 raw =
     (case HexDecode (TrimPrefix (TrimSpace raw) ''sha256:'') of
        None \<Rightarrow> Inl (codef ErrInvalidRequest ''parse runtime sha256'' [Opaque ''encoding/hex: invalid byte''])
      | Some digest \<Rightarrow>
          if length digest \<noteq> 32 then Inl (codef ErrInvalidRequest ''parse runtime sha256: wrong size'' []) else Inr digest)"

definition fileMatchesSHA256 :: "runtime_tools \<Rightarrow> string \<Rightarrow> string \<Rightarrow> bool io" where
  "fileMatchesSHA256 tools path expectedDigest =
     attempt (OpenRead path) (\<lambda>r.
       case r of
         Inl e \<Rightarrow> if errIsNotExist e then ret False else fail e
       | Inr _ \<Rightarrow> deferred (Effectless path) (tryE (ReadFile path) (\<lambda>data. ret (equalDigest (sha256 tools data) expectedDigest))))"

subsection \<open>Installation\<close>

definition validateLocalRuntimeBinary :: "string \<Rightarrow> unit io" where
  "validateLocalRuntimeBinary path =
     attempt (Stat path) (\<lambda>r.
       case r of
         Inl e \<Rightarrow>
           if errIsNotExist e then fail (codef ErrInvalidRequest ''runtime path does not exist'' [])
           else fail (codef ErrFilesystemFailed ''inspect runtime path'' [e])
       | Inr info \<Rightarrow> if is_dir (Some info) then fail (codef ErrInvalidRequest ''runtime path must be a file'' []) else ret ())"

definition runtime_install :: "string \<Rightarrow> goerr \<Rightarrow> goerr" where
  "runtime_install what e = codef ErrRuntimeInstallFailed what [e]"

definition runc_download :: "runtime_tools \<Rightarrow> runc_runtime \<Rightarrow> ctx \<Rightarrow> string \<Rightarrow> string \<Rightarrow> string \<Rightarrow> unit io" where
  "runc_download tools r c url expectedDigest binaryPath =
     attempt (http_get (rt_provision tools) c url) (\<lambda>res.
       case res of
         Inl e \<Rightarrow> check_ctx c (\<lambda>x. codef ErrCanceled ''runtime binary download canceled while requesting'' [x])
           (fail (runtime_install ''download runtime binary'' e))
       | Inr response \<Rightarrow>
           deferred (Effectless ''body'')
            (if resp_status response \<noteq> 200 then fail (codef ErrRuntimeInstallFailed ''download runtime binary: unexpected HTTP status'' [])
             else tryE (wrapped (codefv ErrFilesystemFailed ''create temporary runtime binary'')
                 (ws_CreateTemp (pt_join (rt_provision tools)) (r_binaryWorkspace r) ''.'' (''.'' @ Base binaryPath @ ''.tmp-''))) (\<lambda>tmp.
               unless_committed tmp
                (attempt (tryE (FWrite tmp (resp_body response)) (\<lambda>_. lift_err (resp_err response))) (\<lambda>copied.
                 case copied of
                   Inl e \<Rightarrow> attempt (Effectless tmp) (\<lambda>_.
                     check_ctx c (\<lambda>x. codef ErrCanceled ''runtime binary download canceled while reading response'' [x])
                       (fail (runtime_install ''download runtime binary'' e)))
                 | Inr _ \<Rightarrow>
                     if \<not> equalDigest (sha256 tools (resp_body response)) expectedDigest
                     then close_and_fail tmp (codef ErrRuntimeInstallFailed ''verify runtime binary checksum'' [])
                     else attempt (Effectless tmp) (\<lambda>synced. case synced of Inl e \<Rightarrow> close_and_fail tmp (runtime_install ''sync runtime binary'' e) | Inr _ \<Rightarrow>
                       attempt (Chmod tmp 493) (\<lambda>mode. case mode of Inl e \<Rightarrow> close_and_fail tmp (runtime_install ''set runtime binary mode'' e) | Inr _ \<Rightarrow>
                       tryE (wrapped (runtime_install ''close runtime binary'') (Effectless tmp)) (\<lambda>_.
                         wrapped (runtime_install ''commit runtime binary'') (Rename tmp binaryPath)))))))))"

definition installBinary :: "runtime_tools \<Rightarrow> runc_runtime option \<Rightarrow> ctx \<Rightarrow> unit io" where
  "installBinary tools rt c =
     (case rt of
        None \<Rightarrow> fail (codef ErrInvalidRequest ''runtime workspace is required'' [])
      | Some r \<Rightarrow>
     (case r_workspace r of
        None \<Rightarrow> fail (codef ErrInvalidRequest ''runtime workspace is required'' [])
      | Some _ \<Rightarrow>
      if TrimSpace (RuntimePath (r_config r)) \<noteq> [] then
        tryE (validateLocalRuntimeBinary (r_binaryPath r)) (\<lambda>_.
          wrapped (runtime_install ''make local runtime binary executable'') (Chmod (r_binaryPath r) 493))
      else
        let binary = r_binary r in
        if bin_version binary = [] \<or> bin_url binary = [] \<or> bin_sha256 binary = []
        then fail (codef ErrInvalidRequest ''runc runtime requires version, url, and sha256'' [])
        else tryE (lift_sum (parseSHA256 (bin_sha256 binary))) (\<lambda>expectedDigest.
          let binaryPath = r_binaryPath r; binDir = Dir binaryPath in
          (case r_binaryWorkspace r of
             None \<Rightarrow> fail (codef ErrInvalidRequest ''runtime binary workspace is required'' [])
           | Some bw \<Rightarrow>
               if Clean binDir \<noteq> Clean (ws_root bw)
               then fail (codef ErrInvalidRequest ''runtime binary directory does not match binary workspace root'' [])
               else tryE (wrapped (runtime_install ''verify existing runtime binary'') (fileMatchesSHA256 tools binaryPath expectedDigest)) (\<lambda>ok.
                 if ok then wrapped (runtime_install ''make existing runtime binary executable'') (Chmod binaryPath 493)
                 else runc_download tools r c (bin_url binary) expectedDigest binaryPath)))))"

subsection \<open>Construction\<close>

definition newWithOptions ::
    "runtime_tools \<Rightarrow> host_env \<Rightarrow> ctx option \<Rightarrow> runtime_config \<Rightarrow> workspace option \<Rightarrow> workspace option \<Rightarrow>
     (runc_runtime \<Rightarrow> runc_runtime) list \<Rightarrow> runc_runtime io" where
  "newWithOptions tools env oc config ws binaryWs options =
     (case oc of
        None \<Rightarrow> fail (codef ErrInvalidRequest ''context is required'' [])
      | Some c \<Rightarrow>
          check_ctx c (\<lambda>e. codef ErrCanceled ''runtime construction canceled before start'' [e])
           (tryE (lift_err (runc_requireWorkspaceFeatures ''runtime workspace'' ws runtime_requirements)) (\<lambda>_.
            tryE (if TrimSpace (RuntimePath config) = []
                then lift_err (runc_requireWorkspaceFeatures ''runtime binary workspace'' binaryWs runtime_requirements) else ret ()) (\<lambda>_.
            tryE (lift_sum (LoggerFromConfig (package_logger tools) (rtc_Logging config) None)) (\<lambda>logger.
            tryE (if TrimSpace (RuntimePath config) = [] then lift_sum (defaultRuntimeBinary (pt_arch (rt_provision tools)))
                else ret \<lparr>bin_version = ''v1.5.0'', bin_url = [], bin_sha256 = []\<rparr>) (\<lambda>binary.
            let r = fold (\<lambda>option. option) options
                  \<lparr>r_provisioner = None, r_config = config, r_binaryPath = [], r_binary = binary, r_workspace = ws,
                   r_binaryWorkspace = binaryWs, r_logger = logger\<rparr> in
            tryE (lift_sum (configuredBinaryPath env config)) (\<lambda>binaryPath.
            let r = r\<lparr>r_binaryPath := binaryPath\<rparr> in
            tryE (installBinary tools (Some r) c) (\<lambda>_. ret r))))))))"

definition runc_New ::
    "runtime_tools \<Rightarrow> host_env \<Rightarrow> ctx option \<Rightarrow> runtime_config \<Rightarrow> workspace option \<Rightarrow> workspace option \<Rightarrow>
     provisioner option \<Rightarrow> runc_runtime io" where
  "runc_New tools env oc config ws binaryWs p =
     newWithOptions tools env oc config ws binaryWs [\<lambda>r. r\<lparr>r_provisioner := p\<rparr>]"

record runtime_descriptor =
  desc_Name :: string
  desc_Version :: string
  desc_BinaryPath :: string

definition runc_Descriptor :: "runc_runtime option \<Rightarrow> runtime_descriptor" where
  "runc_Descriptor rt =
     (case rt of
        None \<Rightarrow> \<lparr>desc_Name = ''runc'', desc_Version = ''v1.5.0'', desc_BinaryPath = []\<rparr>
      | Some r \<Rightarrow>
          \<lparr>desc_Name = ''runc'', desc_Version = (if bin_version (r_binary r) \<noteq> [] then bin_version (r_binary r) else ''v1.5.0''),
           desc_BinaryPath = r_binaryPath r\<rparr>)"

subsection \<open>Comparing digests\<close>

lemma byte_eq: "byte x = byte y \<longleftrightarrow> x = y"
proof
  assume "byte x = byte y"
  then have "unat (byte x) = unat (byte y)" by simp
  then have "ord x = ord y" by (simp add: byte_def unat_of_nat)
  then show "x = y" by (simp add: ord_def)
qed simp

lemma byte_xor: "byte x XOR byte y = 0 \<longleftrightarrow> x = y"
  using byte_eq [of x y] xor_self_eq [of "byte x"] by (metis bit.xor_left_self xor.right_neutral)

lemma or_zero_iff: "a OR b = 0 \<longleftrightarrow> a = 0 \<and> b = (0 :: 8 word)"
  by (auto simp: bit_eq_iff bit_or_iff)

lemma diff_bytes_zero: "length a = length b \<Longrightarrow> diff_bytes a b d = 0 \<longleftrightarrow> d = 0 \<and> a = b"
  by (induction a b arbitrary: d rule: list_induct2) (auto simp: or_zero_iff byte_xor)

lemma equalDigest_iff: "equalDigest a b \<longleftrightarrow> a = b"
  by (auto simp: equalDigest_def diff_bytes_zero)

text \<open>
  C37. The comparison that looks at every byte, whatever it has seen, decides equality.
\<close>

theorem digest_comparison: "equalDigest a b = (a = b)"
  by (rule equalDigest_iff)

subsection \<open>The installed binary\<close>

lemma fileMatches_run:
  assumes "fileMatchesSHA256 tools p expected w = (Inr True, w2)"
  shows "sha256 tools (open_content w2 p) = expected"
proof -
  obtain q w1 where o: "OpenRead p w = (q, w1)"
    and r: "(case q of Inl e \<Rightarrow> if errIsNotExist e then ret False else fail e
       | Inr _ \<Rightarrow> deferred (Effectless p) (tryE (ReadFile p) (\<lambda>data. ret (equalDigest (sha256 tools data) expected)))) w1 = (Inr True, w2)"
    using assms unfolding fileMatchesSHA256_def by (auto elim: run_attempt)
  then obtain u where "q = Inr u" by (cases q) (auto simp: ret_def fail_def split: if_splits)
  then obtain w3 where d: "tryE (ReadFile p) (\<lambda>data. ret (equalDigest (sha256 tools data) expected)) w1 = (Inr True, w3)" "w2 = snd (Effectless p w3)"
    using r by (auto elim!: run_deferred)
  then obtain data where "ReadFile p w1 = (Inr data, w3)" "equalDigest (sha256 tools data) expected"
    by (auto elim!: run_tryE run_ret)
  moreover have "node_at w2 = node_at w3" using d(2) run_reads_deferred [OF reads_calls(5)] by simp
  ultimately show ?thesis using run_ReadFile [of p w1 data w3] open_content_cong [of w2 w3] open_content_cong [of w3 w1]
    by (simp add: equalDigest_iff)
qed

lemma download_run:
  assumes "runc_download tools r c url expected path w = (Inr u, w2)"
  shows "sha256 tools (open_content w2 path) = expected \<and> (\<exists>d o'. node_at w2 path = Some (FileNode d 493 o'))"
proof -
  obtain q w1 where h: "http_get (rt_provision tools) c url w = (q, w1)" by (cases "http_get (rt_provision tools) c url w")
  obtain rs where q: "q = Inr rs"
    using assms h by (cases q) (auto simp: runc_download_def attempt_def check_ctx_def fail_def split: option.splits)
  let ?store = "\<lambda>tmp. attempt (tryE (FWrite tmp (resp_body rs)) (\<lambda>_. lift_err (resp_err rs))) (\<lambda>copied.
       case copied of
         Inl e \<Rightarrow> attempt (Effectless tmp) (\<lambda>_.
           check_ctx c (\<lambda>x. codef ErrCanceled ''runtime binary download canceled while reading response'' [x])
             (fail (runtime_install ''download runtime binary'' e)))
       | Inr _ \<Rightarrow>
           if \<not> equalDigest (sha256 tools (resp_body rs)) expected
           then close_and_fail tmp (codef ErrRuntimeInstallFailed ''verify runtime binary checksum'' [])
           else attempt (Effectless tmp) (\<lambda>synced. case synced of Inl e \<Rightarrow> close_and_fail tmp (runtime_install ''sync runtime binary'' e) | Inr _ \<Rightarrow>
             attempt (Chmod tmp 493) (\<lambda>mode. case mode of Inl e \<Rightarrow> close_and_fail tmp (runtime_install ''set runtime binary mode'' e) | Inr _ \<Rightarrow>
             tryE (wrapped (runtime_install ''close runtime binary'') (Effectless tmp)) (\<lambda>_.
               wrapped (runtime_install ''commit runtime binary'') (Rename tmp path)))))"
  obtain tmp v1 v2 where tmp: "ws_CreateTemp (pt_join (rt_provision tools)) (r_binaryWorkspace r) ''.'' (''.'' @ Base path @ ''.tmp-'') w1 = (Inr tmp, v1)"
      "?store tmp v1 = (Inr u, v2)" "w2 = snd (Effectless ''body'' v2)"
    using assms unfolding runc_download_def attempt_def [of "http_get (rt_provision tools) c url"] h q prod.case sum.case
    by (auto elim!: run_deferred run_tryE run_wrapped run_fail split: if_splits simp del: append.simps dest!: run_unless_committed)
  obtain copied v3 where c: "tryE (FWrite tmp (resp_body rs)) (\<lambda>_. lift_err (resp_err rs)) v1 = (copied, v3)"
    by (cases "tryE (FWrite tmp (resp_body rs)) (\<lambda>_. lift_err (resp_err rs)) v1")
  obtain y where y: "copied = Inr y"
    using tmp(2) c by (cases copied) (auto simp: attempt_def check_ctx_def fail_def split: option.splits prod.splits)
  have n3: "node_at v3 tmp = Some (FileNode (resp_body rs) 384 0)"
    using c y run_CreateTemp [OF tmp(1)] by (auto elim!: run_tryE run_lift_err dest!: run_FWrite)
  have eq: "sha256 tools (resp_body rs) = expected"
    using tmp(2) c y by (auto simp: attempt_def equalDigest_iff run_close_and_fail split: if_splits)
  let ?close = "\<lambda>v. tryE (wrapped (runtime_install ''close runtime binary'') (Effectless tmp)) (\<lambda>_.
      wrapped (runtime_install ''commit runtime binary'') (Rename tmp path)) v"
  let ?mode = "\<lambda>v. attempt (Chmod tmp 493) (\<lambda>mode. case mode of Inl e \<Rightarrow> close_and_fail tmp (runtime_install ''set runtime binary mode'' e) | Inr _ \<Rightarrow> ?close) v"
  have rest: "attempt (Effectless tmp) (\<lambda>synced. case synced of Inl e \<Rightarrow> close_and_fail tmp (runtime_install ''sync runtime binary'' e) | Inr _ \<Rightarrow> ?mode) v3 = (Inr u, v2)"
    using tmp(2) unfolding attempt_def [of "tryE (FWrite tmp (resp_body rs)) (\<lambda>_. lift_err (resp_err rs))"] c y prod.case sum.case
    by (simp add: equalDigest_iff eq)
  obtain q4 v4 where s4: "Effectless tmp v3 = (q4, v4)" "(case q4 of Inl e \<Rightarrow> close_and_fail tmp (runtime_install ''sync runtime binary'' e) | Inr _ \<Rightarrow> ?mode) v4 = (Inr u, v2)"
    using rest by (rule run_attempt)
  have "?mode v4 = (Inr u, v2)" using s4(2) by (cases q4) (simp_all add: run_close_and_fail)
  then obtain q5 v5 where s5: "Chmod tmp 493 v4 = (q5, v5)" "(case q5 of Inl e \<Rightarrow> close_and_fail tmp (runtime_install ''set runtime binary mode'' e) | Inr _ \<Rightarrow> ?close) v5 = (Inr u, v2)"
    by (rule run_attempt)
  obtain u5 where q5: "q5 = Inr u5" "?close v5 = (Inr u, v2)" using s5(2) by (cases q5) (simp_all add: run_close_and_fail)
  obtain x v6 where s: "Effectless tmp v5 = (Inr x, v6)" "Rename tmp path v6 = (Inr u, v2)"
    by (rule run_tryE [OF q5(2)]) (elim run_wrapped, rule that)
  have "node_at v4 tmp = Some (FileNode (resp_body rs) 384 0)" using run_reads [OF reads_calls(5) s4(1)] n3 by simp
  then have "node_at v5 tmp = Some (FileNode (resp_body rs) 493 0)" by - (rule run_Chmod [OF s5(1) [unfolded q5(1)]], simp)
  then have "node_at v2 path = Some (FileNode (resp_body rs) 493 0)" using run_reads [OF reads_calls(5) s(1)] run_Rename [OF s(2)] by simp
  moreover have "node_at w2 = node_at v2" using tmp(3) run_reads_deferred [OF reads_calls(5)] by simp
  ultimately show ?thesis using eq open_content_file by simp
qed

text \<open>
  C33. The runtime that is constructed without a configured path runs the pinned binary: whatever
  the server sends and whatever is in the cache, \<open>New\<close> only returns a runtime whose binary has
  the SHA-256 digest in the source for this architecture and is executable.
\<close>

theorem runtime_binary_verified:
  assumes "runc_New tools env oc config ws binaryWs p w = (Inr r, w')" "TrimSpace (RuntimePath config) = []"
  shows "defaultRuntimeBinary (pt_arch (rt_provision tools)) = Inr (r_binary r) \<and>
    parseSHA256 (bin_sha256 (r_binary r)) = Inr (sha256 tools (open_content w' (r_binaryPath r))) \<and>
    (\<forall>d m u. node_at w' (r_binaryPath r) \<noteq> Some (FileNode d m u) \<or> m = 493)"
proof -
  obtain c where c: "oc = Some c" using assms by (cases oc) (auto simp: runc_New_def newWithOptions_def fail_def)
  obtain binary where b: "defaultRuntimeBinary (pt_arch (rt_provision tools)) = Inr binary" "r_binary r = binary"
    and i: "installBinary tools (Some r) c w = (Inr (), w')" and cfg: "r_config r = config"
    using assms unfolding runc_New_def newWithOptions_def c option.case assms(2) Let_def
    by (auto elim!: run_elims)
  obtain e where e: "parseSHA256 (bin_sha256 binary) = Inr e"
    and m: "(\<exists>w1. fileMatchesSHA256 tools (r_binaryPath r) e w = (Inr True, w1) \<and> Chmod (r_binaryPath r) 493 w1 = (Inr (), w')) \<or>
      (\<exists>w1. runc_download tools r c (bin_url binary) e (r_binaryPath r) w1 = (Inr (), w'))"
    using i unfolding installBinary_def option.case cfg assms(2) Let_def b(2)
    by (auto elim!: run_tryE run_wrapped run_fail run_lift_sum split: if_splits option.splits) blast
  from m show ?thesis
  proof (elim disjE exE conjE)
    fix w1 assume f: "fileMatchesSHA256 tools (r_binaryPath r) e w = (Inr True, w1)" "Chmod (r_binaryPath r) 493 w1 = (Inr (), w')"
    obtain n where n: "node_at w1 (r_binaryPath r) = Some n" "node_at w' = (node_at w1)(r_binaryPath r \<mapsto> set_mode 493 n)"
      by (rule run_Chmod [OF f(2)])
    show ?thesis using fileMatches_run [OF f(1)] open_content_set_mode [OF n, of "r_binaryPath r"] b e n(2) by (cases n) auto
  next
    fix w1 assume "runc_download tools r c (bin_url binary) e (r_binaryPath r) w1 = (Inr (), w')"
    from download_run [OF this] show ?thesis using b e by auto
  qed
qed

text \<open>A server that sends the pinned bytes; the toy digest of a file is its content.\<close>

definition install_tools :: runtime_tools where
  "install_tools =
     \<lparr>rt_provision = toy_tools\<lparr>http_get := (\<lambda>c u. ret \<lparr>resp_status = 200,
        resp_body = the (HexDecode ''0363e69bebd3a027d1239364ab9b4f4873f6bc4e7a7878e94b4ea59f08551297''), resp_err = None\<rparr>)\<rparr>,
      sha256 = (\<lambda>s. s), package_logger = newDefaultLogger\<rparr>"

definition install_workspace :: workspace where
  "install_workspace = \<lparr>ws_root = ''/w'', ws_tmp = ''/w'', ws_features = runtime_requirements\<rparr>"

definition install_config :: runtime_config where
  "install_config =
     \<lparr>RuntimeRoot = ''/w'', RuntimeTmpRoot = [], RuntimeBinDir = ''/w'', RuntimeBinTmpRoot = [], RuntimePath = [],
      rtc_Name = ''runc'', rtc_Logging = no_logging\<rparr>"

theorem runtime_binary_verified_witness:
  "case runc_New install_tools removal_env (Some None) install_config (Some install_workspace) (Some install_workspace) None link_world of
     (Inr r, w') \<Rightarrow> r_binaryPath r = ''/w/runc'' \<and>
       parseSHA256 (bin_sha256 (r_binary r)) = Inr (sha256 install_tools (open_content w' (r_binaryPath r)))
   | _ \<Rightarrow> False"
proof -
  have "case runc_New install_tools removal_env (Some None) install_config (Some install_workspace) (Some install_workspace) None link_world of
     (Inr r, w') \<Rightarrow> r_binaryPath r = ''/w/runc'' | _ \<Rightarrow> False"
    by code_simp
  then obtain r w' where r: "runc_New install_tools removal_env (Some None) install_config (Some install_workspace) (Some install_workspace) None link_world = (Inr r, w')"
      "r_binaryPath r = ''/w/runc''"
    by (auto split: prod.splits sum.splits)
  show ?thesis using runtime_binary_verified [OF r(1)] r by (simp add: install_config_def)
qed

end
