(* ===== verification/Runc_Container.thy ===== *)
theory Runc_Container
  imports Runc_Install
begin

text \<open>
  Running containers: \<open>pkg/runtime/internal/runc/runtime.go\<close> and \<open>image.go\<close>, from \<open>Run\<close> and
  \<open>RunImage\<close> to the operations of a container.

  A started process is what can be observed of it: when its \<open>Wait\<close> returns, with what, and what
  closing its log files returns; a forced deletion may change all of this, so it is given twice.
  Time is the clock of the world and a context is the time at which it is done. \<open>select\<close> takes
  the channel that is ready first and is free to choose when both are. The runc binary, the JSON
  decoders and UUIDs are parameters.
\<close>

subsection \<open>Data\<close>

text \<open>What \<open>exec.Cmd.Wait\<close> returns: nothing, an \<open>ExitError\<close> with its exit code, another error.\<close>

datatype wait_outcome = WaitOk | WaitExit int goerr | WaitFailed goerr

record running =
  run_done :: "nat option"
  run_outcome :: wait_outcome
  kill_done :: "nat \<Rightarrow> nat option"
  kill_outcome :: wait_outcome
  close_errors :: "goerr option list"

record runc_state =
  st_id :: string
  st_status :: string

record container_tools =
  ct_runtime :: runtime_tools
  combined_output :: "ctx \<Rightarrow> string \<Rightarrow> string list \<Rightarrow> world \<Rightarrow> (string \<times> goerr option) \<times> world"
  plain_output :: "ctx \<Rightarrow> string \<Rightarrow> string list \<Rightarrow> world \<Rightarrow> (string \<times> goerr option) \<times> world"
  start_command :: "string \<Rightarrow> string list \<Rightarrow> string \<Rightarrow> string option \<Rightarrow> string list \<Rightarrow> string list \<Rightarrow> running io"
  decode_terminal :: "string \<Rightarrow> goerr + bool option"
  decode_state :: "string \<Rightarrow> goerr + runc_state"
  NewString :: "string io"
  second :: nat

record run_request =
  rr_ContainerID :: string
  rr_BundlePath :: string
  rr_Stdin :: "string option"
  rr_Stdout :: "string option list"
  rr_Stderr :: "string option list"

record run_image_request =
  ri_ContainerID :: string
  ri_Process :: process_spec
  ri_Mounts :: "bundle_mount list"
  ri_Stdin :: "string option"
  ri_Stdout :: "string option list"
  ri_Stderr :: "string option list"

text \<open>\<open>NoStatus\<close> is the empty string of a zero result.\<close>

datatype result_status = NoStatus | Exited | StartFailed | CanceledResult | UnknownResult

record container_result =
  res_ContainerID :: string
  res_Status :: result_status
  res_ExitCode :: "int option"
  res_ErrorCode :: "code option"
  res_Error :: string
  res_StartedAt :: "nat option"
  res_ExitedAt :: "nat option"

definition zero_result :: container_result where
  "zero_result = \<lparr>res_ContainerID = [], res_Status = NoStatus, res_ExitCode = None, res_ErrorCode = None, res_Error = [],
     res_StartedAt = None, res_ExitedAt = None\<rparr>"

record containerConfig =
  cc_id :: string
  cc_binaryPath :: string
  cc_stateRoot :: string
  cc_stdoutPath :: string
  cc_stderrPath :: string

record runcContainer = containerConfig +
  c_provisioner :: "provisioner option"
  c_bundle :: provisioned_bundle
  c_running :: "running option"

datatype log_stream = StdoutLogStream | StderrLogStream | OtherStream string

fun stream_name :: "log_stream \<Rightarrow> string" where
  "stream_name StdoutLogStream = ''stdout''"
| "stream_name StderrLogStream = ''stderr''"
| "stream_name (OtherStream s) = s"

definition unsupported_stream :: "log_stream \<Rightarrow> goerr" where
  "unsupported_stream s = codef ErrInvalidRequest (''unsupported log stream '' @ Quote (stream_name s)) []"

subsection \<open>Logs\<close>

definition logDir :: "host_env \<Rightarrow> runc_runtime \<Rightarrow> string \<Rightarrow> goerr + string" where
  "logDir env r containerID =
     (case containerid_Validate containerID of
        Some e \<Rightarrow> Inl e
      | None \<Rightarrow> (case stateRoot env r of Inl e \<Rightarrow> Inl e | Inr root \<Rightarrow> Inr (Join [root, ''logs'', containerID])))"

definition logPath :: "host_env \<Rightarrow> runc_runtime \<Rightarrow> string \<Rightarrow> log_stream \<Rightarrow> goerr + string" where
  "logPath env r containerID stream =
     (case logDir env r containerID of
        Inl e \<Rightarrow> Inl e
      | Inr dir \<Rightarrow>
          (case stream of
             OtherStream s \<Rightarrow> Inl (unsupported_stream stream)
           | _ \<Rightarrow> Inr (Join [dir, stream_name stream @ ''.log''])))"

text \<open>A nil workspace has an empty root.\<close>

definition root_of :: "workspace option \<Rightarrow> string" where
  "root_of ws = (case ws of None \<Rightarrow> [] | Some x \<Rightarrow> ws_root x)"

definition invalid_request :: "string \<Rightarrow> goerr \<Rightarrow> goerr" where
  "invalid_request what e = codef ErrInvalidRequest what [e]"

definition openLogs :: "container_tools \<Rightarrow> host_env \<Rightarrow> runc_runtime \<Rightarrow> string \<Rightarrow> (string \<times> string) io" where
  "openLogs tools env r containerID =
     (let SJ = pt_join (rt_provision (ct_runtime tools)); ws = r_workspace r in
      tryE (lift_sum (logDir env r containerID)) (\<lambda>dir.
      tryE (wrapped (invalid_request ''resolve runc log directory'') (lift_sum (Rel (root_of ws) dir))) (\<lambda>logRel.
      tryE (wrapped (codefv ErrFilesystemFailed ''create runc log directory'') (MkdirPrivate SJ ws logRel)) (\<lambda>_.
      tryE (lift_sum (logPath env r containerID StdoutLogStream)) (\<lambda>stdoutPath.
      tryE (lift_sum (logPath env r containerID StderrLogStream)) (\<lambda>stderrPath.
      tryE (wrapped (invalid_request ''resolve stdout log path'') (lift_sum (Rel (root_of ws) stdoutPath))) (\<lambda>stdoutRel.
      tryE (wrapped (invalid_request ''resolve stderr log path'') (lift_sum (Rel (root_of ws) stderrPath))) (\<lambda>stderrRel.
      tryE (wrapped (\<lambda>e. codef ErrFilesystemFailed ''open stdout log'' [e]) (CreatePrivate SJ ws stdoutRel)) (\<lambda>stdout.
      attempt (CreatePrivate SJ ws stderrRel) (\<lambda>opened.
        case opened of
          Inr stderr \<Rightarrow> ret (stdout, stderr)
        | Inl e \<Rightarrow>
            attempt (Effectless stdout) (\<lambda>_. attempt (Remove stdoutPath) (\<lambda>_.
              fail (codef ErrFilesystemFailed ''open stderr log'' [e])))))))))))))"

text \<open>\<open>io.MultiWriter\<close>: the log file first, then the writers that are not nil.\<close>

definition outputWriter :: "string \<Rightarrow> string option list \<Rightarrow> string list" where
  "outputWriter logFile writers = logFile # somes writers"

subsection \<open>Run\<close>

definition validateSupportedBundleSpec :: "container_tools \<Rightarrow> string \<Rightarrow> unit io" where
  "validateSupportedBundleSpec tools bundlePath =
     (let configPath = Join [bundlePath, ''config.json''] in
      attempt (OpenRead configPath) (\<lambda>opened.
        case opened of
          Inl e \<Rightarrow>
            if errIsNotExist e then fail (codef ErrInvalidProcessSpec (''runtime bundle spec is missing: '' @ Quote configPath) [])
            else fail (codef ErrFilesystemFailed ''open runtime bundle spec'' [e])
        | Inr _ \<Rightarrow>
            deferred (Effectless configPath)
             (attempt (ReadFile configPath) (\<lambda>rd.
                case (case rd of Inl e \<Rightarrow> Inl e | Inr data \<Rightarrow> decode_terminal tools data) of
                  Inl e \<Rightarrow> fail (codef ErrInvalidProcessSpec ''decode runtime bundle spec'' [e])
                | Inr (Some True) \<Rightarrow> fail (codef ErrInvalidProcessSpec
                    ''runc runtime does not support terminal processes yet; set ProcessSpec.Terminal to false'' [])
                | Inr _ \<Rightarrow> ret ()))))"

definition newRuncContainer :: "containerConfig \<Rightarrow> running \<Rightarrow> runcContainer" where
  "newRuncContainer config process =
     containerConfig.extend config \<lparr>c_provisioner = None, c_bundle = \<lparr>BundleID = [], BundlePath = []\<rparr>, c_running = Some process\<rparr>"

definition runc_Run :: "container_tools \<Rightarrow> host_env \<Rightarrow> runc_runtime \<Rightarrow> ctx option \<Rightarrow> run_request \<Rightarrow> runcContainer io" where
  "runc_Run tools env r oc request =
     (case oc of
        None \<Rightarrow> fail (codef ErrInvalidRequest ''context is required'' [])
      | Some c \<Rightarrow>
          check_ctx c (\<lambda>e. codef ErrCanceled ''runtime launch canceled before start'' [e])
           (if rr_BundlePath request = [] then fail (codef ErrInvalidRequest ''runtime bundle path is required'' [])
            else let containerID = rr_ContainerID request in
              tryE (lift_err (containerid_Validate containerID)) (\<lambda>_.
              let binaryPath = r_binaryPath r in
              if binaryPath = [] then fail (codef ErrInvalidRequest ''runtime binary is required'' [])
              else
                tryE (validateSupportedBundleSpec tools (rr_BundlePath request)) (\<lambda>_.
                tryE (lift_sum (stateRoot env r)) (\<lambda>root.
                tryE (openLogs tools env r containerID) (\<lambda>(stdout, stderr).
                let close_logs = (\<lambda>e. attempt (Effectless stdout) (\<lambda>_. attempt (Effectless stderr) (\<lambda>_. fail e))) in
                case logPath env r containerID StdoutLogStream of
                  Inl e \<Rightarrow> close_logs e
                | Inr stdoutPath \<Rightarrow>
                (case logPath env r containerID StderrLogStream of
                   Inl e \<Rightarrow> close_logs e
                 | Inr stderrPath \<Rightarrow>
                 attempt (start_command tools binaryPath [''--root'', root, ''run'', containerID] (rr_BundlePath request)
                     (rr_Stdin request) (outputWriter stdout (rr_Stdout request)) (outputWriter stderr (rr_Stderr request))) (\<lambda>started.
                   case started of
                     Inl e \<Rightarrow>
                       attempt (Effectless stdout) (\<lambda>_. attempt (Effectless stderr) (\<lambda>_.
                       attempt (Remove stdoutPath) (\<lambda>_. attempt (Remove stderrPath) (\<lambda>_.
                         fail (codef ErrRuntimeStartFailed (''start runc container '' @ Quote containerID) [e])))))
                   | Inr process \<Rightarrow>
                       ret (newRuncContainer
                         \<lparr>cc_id = containerID, cc_binaryPath = binaryPath, cc_stateRoot = root,
                          cc_stdoutPath = stdoutPath, cc_stderrPath = stderrPath\<rparr> process)))))))))"

definition existingContainerHandle :: "host_env \<Rightarrow> runc_runtime option \<Rightarrow> string \<Rightarrow> goerr + runcContainer" where
  "existingContainerHandle env rt containerID =
     (case rt of
        None \<Rightarrow> Inl (codef ErrInvalidRequest ''runtime is required'' [])
      | Some r \<Rightarrow>
     (case containerid_Validate containerID of
        Some e \<Rightarrow> Inl e
      | None \<Rightarrow>
          if r_binaryPath r = [] then Inl (codef ErrInvalidRequest ''runtime binary is required'' [])
          else case stateRoot env r of
              Inl e \<Rightarrow> Inl e
            | Inr root \<Rightarrow>
            (case logPath env r containerID StdoutLogStream of
               Inl e \<Rightarrow> Inl e
             | Inr stdoutPath \<Rightarrow>
             (case logPath env r containerID StderrLogStream of
                Inl e \<Rightarrow> Inl e
              | Inr stderrPath \<Rightarrow>
                  Inr \<lparr>cc_id = containerID, cc_binaryPath = r_binaryPath r, cc_stateRoot = root, cc_stdoutPath = stdoutPath,
                    cc_stderrPath = stderrPath, c_provisioner = None, c_bundle = \<lparr>BundleID = [], BundlePath = []\<rparr>, c_running = None\<rparr>))))"

definition runc_Open :: "host_env \<Rightarrow> runc_runtime option \<Rightarrow> ctx option \<Rightarrow> string \<Rightarrow> runcContainer io" where
  "runc_Open env rt oc containerID =
     (case oc of
        None \<Rightarrow> fail (codef ErrInvalidRequest ''context is required'' [])
      | Some c \<Rightarrow>
          check_ctx c (\<lambda>e. codef ErrCanceled ''runtime open canceled before start'' [e])
            (lift_sum (existingContainerHandle env rt containerID)))"

subsection \<open>Control\<close>

text \<open>Every operation of a container starts with these checks; \<open>op\<close> names it in the message.\<close>

definition on_container :: "string \<Rightarrow> ctx option \<Rightarrow> runcContainer option \<Rightarrow> (ctx \<Rightarrow> runcContainer \<Rightarrow> 'a io) \<Rightarrow> 'a io" where
  "on_container op oc container body =
     (case oc of
        None \<Rightarrow> fail (codef ErrInvalidRequest ''context is required'' [])
      | Some c \<Rightarrow>
          check_ctx c (\<lambda>e. codef ErrCanceled (''runtime '' @ op @ '' canceled before start'') [e])
           (case container of
              None \<Rightarrow> fail (codef ErrInvalidRequest ''runtime container is required'' [])
            | Some k \<Rightarrow> body c k))"

text \<open>A command always comes back, with its output and possibly an error.\<close>

definition total :: "(world \<Rightarrow> 'a \<times> world) \<Rightarrow> 'a io" where
  "total f w = (case f w of (a, w') \<Rightarrow> (Inr a, w'))"

text \<open>\<open>fmt.Errorf("%w: message: %w: %s", code, err, strings.TrimSpace(output))\<close>\<close>

definition control_error :: "string \<Rightarrow> goerr \<Rightarrow> string \<Rightarrow> goerr" where
  "control_error msg e output =
     Errorf [CodeErr ErrRuntimeControlFailed, e]
       (code_string ErrRuntimeControlFailed @ '': '' @ msg @ '': '' @ ErrorText e @ '': '' @ TrimSpace output)"

definition readRuncState :: "container_tools \<Rightarrow> ctx \<Rightarrow> runcContainer \<Rightarrow> runc_state io" where
  "readRuncState tools c k =
     tryE (total (plain_output tools c (cc_binaryPath k) [''--root'', cc_stateRoot k, ''state'', cc_id k])) (\<lambda>(output, err).
       case err of
         Some e \<Rightarrow> check_ctx c (\<lambda>x. codef ErrCanceled ''runtime state canceled while running control command'' [x]) (fail e)
       | None \<Rightarrow> lift_sum (decode_state tools output))"

record container_state =
  cs_ContainerID :: string
  cs_Status :: string

definition runc_State :: "container_tools \<Rightarrow> ctx option \<Rightarrow> runcContainer option \<Rightarrow> container_state io" where
  "runc_State tools oc container =
     on_container ''state'' oc container (\<lambda>c k.
       attempt (readRuncState tools c k) (\<lambda>r.
         case r of
           Inl e \<Rightarrow> if errIs e ErrCanceled then fail e else fail (codef ErrRuntimeControlFailed ''read runc state'' [e])
         | Inr st \<Rightarrow> ret \<lparr>cs_ContainerID = cc_id k, cs_Status = st_status st\<rparr>))"

datatype os_signal = SyscallSignal int | OtherSignal string

definition signalArgument :: "os_signal option \<Rightarrow> goerr + string" where
  "signalArgument signal =
     (case signal of
        None \<Rightarrow> Inl (codef ErrInvalidRequest ''runtime signal is required'' [])
      | Some (OtherSignal s) \<Rightarrow> Inl (codef ErrInvalidRequest ''unsupported runtime signal'' [])
      | Some (SyscallSignal n) \<Rightarrow> if n \<le> 0 then Inl (codef ErrInvalidRequest ''unsupported runtime signal'' []) else Inr (FormatInt n))"

definition runc_Signal :: "container_tools \<Rightarrow> ctx option \<Rightarrow> runcContainer option \<Rightarrow> os_signal option \<Rightarrow> unit io" where
  "runc_Signal tools oc container signal =
     on_container ''signal'' oc container (\<lambda>c k.
       tryE (lift_sum (signalArgument signal)) (\<lambda>arg.
       tryE (total (combined_output tools c (cc_binaryPath k) [''--root'', cc_stateRoot k, ''kill'', cc_id k, arg])) (\<lambda>(output, err).
         case err of
           None \<Rightarrow> ret ()
         | Some e \<Rightarrow> check_ctx c (\<lambda>x. codef ErrCanceled ''runtime signal canceled while running control command'' [x])
             (fail (control_error (''signal runc container '' @ Quote (cc_id k)) e output)))))"

definition looksAlreadyDeleted :: "goerr \<Rightarrow> bool" where
  "looksAlreadyDeleted e \<longleftrightarrow>
     errIsNotExist e \<or> Contains (ErrorText e) ''does not exist'' \<or> Contains (ErrorText e) ''container does not exist''"

definition delete_args :: "runcContainer \<Rightarrow> bool \<Rightarrow> string list" where
  "delete_args k force = [''--root'', cc_stateRoot k, ''delete''] @ (if force then [''--force''] else []) @ [cc_id k]"

definition runc_Delete :: "container_tools \<Rightarrow> host_env \<Rightarrow> ctx option \<Rightarrow> runcContainer option \<Rightarrow> bool \<Rightarrow> unit io" where
  "runc_Delete tools env oc container force =
     on_container ''delete'' oc container (\<lambda>c k.
       let remove_bundle =
         (if c_provisioner k \<noteq> None
          then prov_Remove (pt_removal (rt_provision (ct_runtime tools))) env (c_provisioner k) (Some c) (c_bundle k) else ret ()) in
       tryE (total (combined_output tools c (cc_binaryPath k) (delete_args k force))) (\<lambda>(output, err).
         case err of
           None \<Rightarrow> remove_bundle
         | Some e \<Rightarrow> check_ctx c (\<lambda>x. codef ErrCanceled ''runtime delete canceled while running control command'' [x])
             (let deleteErr = control_error (''delete runc container '' @ Quote (cc_id k)) e output in
              if c_provisioner k = None \<or> \<not> looksAlreadyDeleted deleteErr then fail deleteErr else remove_bundle)))"

definition container_logPath :: "runcContainer option \<Rightarrow> log_stream \<Rightarrow> goerr + string" where
  "container_logPath container stream =
     (case container of
        None \<Rightarrow> Inl (codef ErrInvalidRequest ''runtime container is required'' [])
      | Some k \<Rightarrow>
          (case stream of
             StdoutLogStream \<Rightarrow> Inr (cc_stdoutPath k)
           | StderrLogStream \<Rightarrow> Inr (cc_stderrPath k)
           | OtherStream s \<Rightarrow> Inl (unsupported_stream stream)))"

definition runc_ReadLog :: "runcContainer option \<Rightarrow> log_stream \<Rightarrow> string io" where
  "runc_ReadLog container stream =
     tryE (lift_sum (container_logPath container stream)) (\<lambda>path.
       wrapped (\<lambda>e. codef (if errIsNotExist e then ErrLogNotFound else ErrRuntimeControlFailed) (''read runtime log '' @ Quote path) [e])
         (ReadFile path))"

definition runc_DeleteLog :: "runcContainer option \<Rightarrow> log_stream \<Rightarrow> unit io" where
  "runc_DeleteLog container stream =
     tryE (lift_sum (container_logPath container stream)) (\<lambda>path.
       attempt (Remove path) (\<lambda>r.
         if (case r of Inl e \<Rightarrow> \<not> errIsNotExist e | Inr _ \<Rightarrow> False)
         then fail (codef ErrRuntimeControlFailed (''delete runtime log '' @ Quote path) (case r of Inl e \<Rightarrow> [e] | Inr _ \<Rightarrow> []))
         else attempt (Remove (Dir path)) (\<lambda>r2.
           case r2 of
             Inl e \<Rightarrow>
               if \<not> errIsNotExist e \<and> \<not> errno_in {ENOTEMPTY} e
               then fail (codef ErrRuntimeControlFailed (''remove empty runtime log directory '' @ Quote (Dir path)) [e]) else ret ()
           | Inr _ \<Rightarrow> ret ())))"

subsection \<open>Wait\<close>

record waitResult =
  exitCode :: int
  exitedAt :: nat
  wait_err :: "goerr option"

definition convertWaitResult :: "wait_outcome \<Rightarrow> waitResult" where
  "convertWaitResult outcome =
     (case outcome of
        WaitOk \<Rightarrow> \<lparr>exitCode = 0, exitedAt = 0, wait_err = None\<rparr>
      | WaitExit n e \<Rightarrow>
          if n \<ge> 0 then \<lparr>exitCode = n, exitedAt = 0, wait_err = None\<rparr>
          else \<lparr>exitCode = n, exitedAt = 0,
            wait_err = Some (codef ErrRuntimeWaitFailed ''runtime process exited without an exit code'' [e])\<rparr>
      | WaitFailed e \<Rightarrow> \<lparr>exitCode = 0, exitedAt = 0, wait_err = Some (codef ErrRuntimeWaitFailed ''wait for runtime process'' [e])\<rparr>)"

fun close_stdio :: "goerr option list \<Rightarrow> waitResult \<Rightarrow> waitResult" where
  "close_stdio [] result = result"
| "close_stdio (closeErr # rest) result =
     close_stdio rest
       (case closeErr of
          Some e \<Rightarrow> if wait_err result = None then result\<lparr>wait_err := Some (codef ErrRuntimeWaitFailed ''close runtime stdio'' [e])\<rparr> else result
        | None \<Rightarrow> result)"

text \<open>The goroutine that waits for the process, up to \<open>close(container.done)\<close> at time \<open>t\<close>.\<close>

definition await_process :: "wait_outcome \<Rightarrow> goerr option list \<Rightarrow> nat \<Rightarrow> waitResult" where
  "await_process outcome closes t = close_stdio closes ((convertWaitResult outcome)\<lparr>exitedAt := t\<rparr>)"

definition containerResult :: "runcContainer \<Rightarrow> waitResult \<Rightarrow> container_result \<times> goerr option" where
  "containerResult k r =
     (let result = zero_result\<lparr>res_ContainerID := cc_id k, res_Status := Exited, res_ExitCode := Some (exitCode r), res_ExitedAt := Some (exitedAt r)\<rparr> in
      case wait_err r of
        None \<Rightarrow> (result, None)
      | Some e \<Rightarrow> (result\<lparr>res_Status := UnknownResult, res_ErrorCode := Some (CodeFromError e ErrRuntimeWaitFailed), res_Error := ErrorText e\<rparr>, Some e))"

definition errorResult :: "runcContainer \<Rightarrow> result_status \<Rightarrow> int \<Rightarrow> goerr \<Rightarrow> nat \<Rightarrow> container_result" where
  "errorResult k status code e t =
     zero_result\<lparr>res_ContainerID := cc_id k, res_Status := status, res_ExitCode := Some code,
       res_ErrorCode := Some (CodeFromError e ErrRuntimeWaitFailed), res_Error := ErrorText e, res_ExitedAt := Some t\<rparr>"

text \<open>
  Two channels that become ready at \<open>a\<close> and \<open>b\<close>, seen from time \<open>t\<close>: which one is taken and
  when, or nothing when neither is ever ready.
\<close>

definition select2 :: "bool \<Rightarrow> nat option \<Rightarrow> nat option \<Rightarrow> nat \<Rightarrow> (bool \<times> nat) option" where
  "select2 pick a b t =
     (case (a, b) of
        (None, None) \<Rightarrow> None
      | (Some x, None) \<Rightarrow> Some (True, max t x)
      | (None, Some y) \<Rightarrow> Some (False, max t y)
      | (Some x, Some y) \<Rightarrow>
          if max t x < max t y then Some (True, max t x)
          else if max t y < max t x then Some (False, max t y) else Some (pick, max t x))"

definition wait_until :: "nat \<Rightarrow> world \<Rightarrow> world" where
  "wait_until t w = w\<lparr>now := max (now w) t\<rparr>"

text \<open>A call that returns a value and an error, or never returns.\<close>

type_synonym 'a blocking = "world \<Rightarrow> (('a \<times> goerr option) \<times> world) option"

definition forcedDeleteWait :: "container_tools \<Rightarrow> nat" where
  "forcedDeleteWait tools = 10 * second tools"

definition wait_canceled :: "container_tools \<Rightarrow> host_env \<Rightarrow> bool \<Rightarrow> nat \<Rightarrow> runcContainer \<Rightarrow> container_result blocking" where
  "wait_canceled tools env pick t k w =
     (let timeoutErr = codef ErrCanceled ''runtime wait canceled'' [CtxErr Canceled] in
      case runc_Delete tools env (Some None) (Some k) True w of
        (deleted, w1) \<Rightarrow>
          if (case deleted of Inl e \<Rightarrow> \<not> looksAlreadyDeleted e | Inr _ \<Rightarrow> False)
          then let err = JoinErr [timeoutErr, wrapf ''force-delete runtime container'' (projl deleted)]
               in Some ((errorResult k CanceledResult 1 err (now w1), Some err), w1)
          else let killed = (case c_running k of None \<Rightarrow> None | Some p \<Rightarrow> kill_done p t) in
            (case select2 pick killed (Some (now w1 + forcedDeleteWait tools)) (now w1) of
               None \<Rightarrow> None
             | Some (True, t2) \<Rightarrow>
                 (case c_running k of
                    None \<Rightarrow> None
                  | Some p \<Rightarrow>
                      (case containerResult k (await_process (kill_outcome p) (close_errors p) t2) of
                         (result, waitErr) \<Rightarrow>
                           let err = JoinErr (somes [Some timeoutErr, waitErr])
                           in Some ((result\<lparr>res_Status := CanceledResult, res_ErrorCode := Some (CodeFromError err ErrCanceled),
                                res_Error := ErrorText err\<rparr>, Some err), wait_until t2 w1)))
             | Some (False, t2) \<Rightarrow>
                 let err = Errorf [timeoutErr] (ErrorText timeoutErr @ '': timed out waiting for forced-delete runtime container to exit'')
                 in Some ((errorResult k CanceledResult 1 err t2, Some err), wait_until t2 w1)))"

definition runc_Wait :: "container_tools \<Rightarrow> host_env \<Rightarrow> bool \<times> bool \<Rightarrow> ctx option \<Rightarrow> runcContainer option \<Rightarrow> container_result blocking" where
  "runc_Wait tools env picks oc container w =
     (case oc of
        None \<Rightarrow> Some ((zero_result, Some (codef ErrInvalidRequest ''context is required'' [])), w)
      | Some c \<Rightarrow>
     (case container of
        None \<Rightarrow> Some ((zero_result, Some (codef ErrInvalidRequest ''runtime container is required'' [])), w)
      | Some k \<Rightarrow>
          (case select2 (fst picks) (case c_running k of None \<Rightarrow> None | Some p \<Rightarrow> run_done p) c (now w) of
             None \<Rightarrow> None
           | Some (True, t) \<Rightarrow>
               (case c_running k of
                  None \<Rightarrow> None
                | Some p \<Rightarrow> Some (containerResult k (await_process (run_outcome p) (close_errors p) t), wait_until t w))
           | Some (False, t) \<Rightarrow> wait_canceled tools env (snd picks) t k (wait_until t w))))"

subsection \<open>RunImage\<close>

definition set_container_id :: "container_tools \<Rightarrow> run_image_request \<Rightarrow> run_image_request io" where
  "set_container_id tools request =
     (if ri_ContainerID request = []
      then tryE (NewString tools) (\<lambda>u. ret (request\<lparr>ri_ContainerID := ''chamber-'' @ u\<rparr>)) else ret request)"

definition default_terminal :: "process_spec \<Rightarrow> process_spec" where
  "default_terminal p = (if want_terminal p = None then p\<lparr>want_terminal := Some False\<rparr> else p)"

definition image_request :: "image \<Rightarrow> run_image_request \<Rightarrow> string \<Rightarrow> provision_request" where
  "image_request img request u =
     \<lparr>req_bundle_id = ''image-'' @ u, req_layout = LayoutPath img, req_ref = Reference img, req_digest = ImageDigest img,
      req_platform = ImagePlatform img, req_process = default_terminal (ri_Process request), req_mounts = ri_Mounts request\<rparr>"

definition runc_RunImage ::
    "container_tools \<Rightarrow> host_env \<Rightarrow> runc_runtime option \<Rightarrow> ctx option \<Rightarrow> image \<Rightarrow> run_image_request \<Rightarrow> runcContainer io" where
  "runc_RunImage tools env rt oc img request =
     (let pt = rt_provision (ct_runtime tools) in
      case oc of
        None \<Rightarrow> fail (codef ErrInvalidRequest ''context is required'' [])
      | Some c \<Rightarrow>
          check_ctx c (\<lambda>e. codef ErrCanceled ''image launch canceled before start'' [e])
           (case rt of
              None \<Rightarrow> fail (codef ErrInvalidRequest ''runtime provisioner is required'' [])
            | Some r \<Rightarrow>
                if r_provisioner r = None then fail (codef ErrInvalidRequest ''runtime provisioner is required'' [])
                else
                  tryE (set_container_id tools request) (\<lambda>request.
                  tryE (lift_err (containerid_Validate (ri_ContainerID request))) (\<lambda>_.
                  tryE (NewString tools) (\<lambda>u.
                  tryE (Provision pt env (r_provisioner r) (Some c) (image_request img request u)) (\<lambda>bundle.
                  attempt (runc_Run tools env r (Some c)
                      \<lparr>rr_ContainerID = ri_ContainerID request, rr_BundlePath = BundlePath bundle, rr_Stdin = ri_Stdin request,
                       rr_Stdout = ri_Stdout request, rr_Stderr = ri_Stderr request\<rparr>) (\<lambda>started.
                    case started of
                      Inl e \<Rightarrow>
                        attempt (prov_Remove (pt_removal pt) env (r_provisioner r) (Some None) bundle) (\<lambda>removed.
                          fail (JoinErr (e # (case removed of Inl e2 \<Rightarrow> [e2] | Inr _ \<Rightarrow> []))))
                    | Inr k \<Rightarrow> ret (k\<lparr>c_provisioner := r_provisioner r, c_bundle := bundle\<rparr>))))))))"

end
