(* ===== verification/Container_Safety.thy ===== *)
theory Container_Safety
  imports Runc_Container
begin

text \<open>
  What holds of containers: starting one touches no existing file, deleting one releases its
  bundle, waiting for one returns and tells the truth. The last part shows two flaws of the
  deletion: state directories and logs can overlap, and a missing runtime binary counts as
  success.
\<close>

subsection \<open>Directories and files that are added\<close>

text \<open>\<open>grows\<close>: names are added, never a link, and every new file has its directory.\<close>

definition rooted :: "world \<Rightarrow> bool" where
  "rooted w \<longleftrightarrow> tree_closed w \<and> node_at w ''/'' \<noteq> None"

definition grows :: "world \<Rightarrow> world \<Rightarrow> bool" where
  "grows w w' \<longleftrightarrow> adds w w' \<and> (rooted w \<longrightarrow> rooted w')"

interpretation grows: tree_order grows
proof
  show "grows u w" if "grows u v" "grows v w" for u v w
    using that adds.trans unfolding grows_def by blast
  show "grows w w'" if "files w' = files w" for w w'
    using that adds.same_files [of w' w] tree_closed_cong [of w' w] node_at_ext [of w' w] by (simp add: grows_def rooted_def)
  show "grows w w'" if "node_at w' = node_at w" for w w'
    using that adds.same_tree [of w' w] tree_closed_cong [of w' w] by (simp add: grows_def rooted_def)
qed

lemma grows_put:
  assumes "node_at w p = None" "\<forall>t. n \<noteq> LinkNode t" "node_at w' = (node_at w)(p \<mapsto> n)"
    and "\<And>ds c. list_all safe_component (ds @ [c]) \<Longrightarrow> p = abs_path (ds @ [c]) \<Longrightarrow> rooted w \<Longrightarrow> node_at w (abs_path ds) \<noteq> None"
  shows "grows w w'"
proof -
  have "tree_closed w'" if r: "rooted w"
    unfolding tree_closed_def
  proof (intro allI impI)
    fix ds c assume s: "list_all safe_component (ds @ [c])" and n: "node_at w' (abs_path ds) = None"
    have d: "node_at w (abs_path ds) = None" using n assms(1,3) by (auto split: if_splits)
    then have "p \<noteq> abs_path (ds @ [c])" using assms(4) [OF s _ r] by blast
    then show "node_at w' (abs_path (ds @ [c])) = None"
      using r s d assms(3) by (auto simp: rooted_def tree_closed_def)
  qed
  then show ?thesis using assms adds_put by (auto simp: grows_def rooted_def)
qed

lemma grows_put_file: "node_at w p = None \<Longrightarrow> is_dir (node_at w (Dir p)) \<Longrightarrow> node_at w' = (node_at w)(p \<mapsto> FileNode d m u) \<Longrightarrow> grows w w'"
proof (rule grows_put)
  fix ds c assume "is_dir (node_at w (Dir p))" "list_all safe_component (ds @ [c])" "p = abs_path (ds @ [c])"
  then show "node_at w (abs_path ds) \<noteq> None" using Dir_abs_path [of ds c] by (cases "node_at w (abs_path ds)") auto
qed auto

lemma grows_OpenCreate [keeps_rules]: "keeps grows (OpenCreate True p m u)"
proof (rule keepsI)
  fix w
  show "post (OpenCreate True p m u) (\<lambda>r w'. grows w w') w"
    unfolding OpenCreate_def
  proof (rule post_syscall)
    fix w' :: world assume f: "files w' = files w" "fresh w' = fresh w"
    have n: "node_at w' = node_at w" by (rule node_at_ext [OF f(1)])
    have same: "grows w w'" by (rule grows.same_tree [OF n])
    have put: "grows w (put p (FileNode [] m u) w')" if "node_at w p = None" "is_dir (node_at w (Dir p))"
      by (rule grows_put_file [OF that]) (auto simp: node_at_put n)
    show "case (case node_at w' p of
        None \<Rightarrow> if is_dir (node_at w' (Dir p)) then (Inr (), put p (FileNode [] m u) w') else (Inl ENOENT, w')
      | Some (DirNode _ _) \<Rightarrow> (Inl (if True then EEXIST else EISDIR), w')
      | Some n \<Rightarrow> if True then (Inl EEXIST, w') else (Inr (), w')) of
        (Inl e, w'') \<Rightarrow> grows w w'' | (Inr a, w'') \<Rightarrow> grows w w''"
      using put same n by (auto split: option.splits node.splits)
  qed (rule grows.same_tree, rule node_at_ext)
qed

lemma slash_split:
  assumes "CHR ''/'' \<notin> set c" "CHR ''/'' \<notin> set d" "x @ ''/'' @ c = y @ ''/'' @ d"
  shows "x = y"
proof -
  have tw: "takeWhile (\<lambda>z. z \<noteq> CHR ''/'') (rev e @ CHR ''/'' # rev v) = rev e" if "CHR ''/'' \<notin> set e" for e v
    using that by (subst takeWhile_append2) auto
  have "rev c @ CHR ''/'' # rev x = rev d @ CHR ''/'' # rev y" using arg_cong [OF assms(3), of rev] by simp
  with tw [OF assms(1), of x] tw [OF assms(2), of y] have "rev c = rev d" by metis
  then show ?thesis using assms(3) by simp
qed

lemma abs_path_parent:
  assumes "CHR ''/'' \<notin> set c" "CHR ''/'' \<notin> set d" "abs_path (dn @ [c]) = abs_path (ds @ [d])"
  shows "abs_path dn = abs_path ds"
proof -
  have cut: "(if cs = [] then [] else abs_path cs) @ ''/'' @ e = abs_path (cs @ [e])" for cs e
    by (simp add: abs_path_snoc)
  have "(if dn = [] then [] else abs_path dn) = (if ds = [] then [] else abs_path ds)"
    by (rule slash_split [OF assms(1,2)]) (simp only: cut assms(3))
  moreover have ne: "abs_path cs \<noteq> []" for cs using isAbs_abs_path [of cs] by (auto simp: isAbs_iff)
  ultimately show ?thesis using ne [of ds, symmetric] ne [of dn] by (auto split: if_splits)
qed

lemma comps_no_slash: "c \<in> set (comps p) \<Longrightarrow> CHR ''/'' \<notin> set c"
proof -
  have step: "set (clean_step r x st) \<subseteq> insert x (insert ''..'' (set st))" for r x st
    by (cases st) (auto simp: clean_step.simps split: if_splits)
  have "set (fold (clean_step r) xs st) \<subseteq> set xs \<union> insert ''..'' (set st)" for r xs st
  proof (induction xs arbitrary: st)
    case (Cons x xs)
    then show ?case using step [of r x st] by force
  qed auto
  from this [of "isAbs p" "SplitChar (CHR ''/'') p" "[]"]
  show "c \<in> set (comps p) \<Longrightarrow> CHR ''/'' \<notin> set c"
    by (auto simp: comps_def clean_comps_def dest: SplitChar_fields)
qed

lemma mkdir_comps_grows:
  assumes "mkdir_comps m u dn cs w = (r, w')" "\<forall>c \<in> set cs. CHR ''/'' \<notin> set c" "rooted w \<longrightarrow> node_at w (abs_path dn) \<noteq> None"
  shows "grows w w'"
  using assms
proof (induction cs arbitrary: dn w)
  case (Cons c cs)
  let ?p = "abs_path (dn @ [c])"
  have step: "grows w (put ?p (DirNode m u) w)" if "node_at w ?p = None"
  proof (rule grows_put [OF that])
    fix ds d assume s: "list_all safe_component (ds @ [d])" "?p = abs_path (ds @ [d])" "rooted w"
    have "abs_path dn = abs_path ds" by (rule abs_path_parent [OF _ _ s(2)]) (use Cons.prems(2) s(1) in \<open>auto simp: safe_component_def\<close>)
    then show "node_at w (abs_path ds) \<noteq> None" using Cons.prems(3) s(3) by simp
  qed (auto simp: node_at_put)
  show ?case
  proof (cases "node_at w ?p")
    case None
    then have "mkdir_comps m u (dn @ [c]) cs (put ?p (DirNode m u) w) = (r, w')" using Cons.prems(1) by (simp add: Let_def)
    then have "grows (put ?p (DirNode m u) w) w'"
      by (rule Cons.IH) (use Cons.prems(2) in \<open>auto simp: node_at_put\<close>)
    then show ?thesis by (rule grows.trans [OF step [OF None]])
  next
    case (Some n)
    then show ?thesis using Cons.prems Cons.IH [of "dn @ [c]" w] grows.same_tree
      by (cases n) (auto simp: Let_def)
  qed
qed (auto intro: grows.same_tree)

lemma grows_MkdirAll [keeps_rules]: "keeps grows (MkdirAll p m u)"
proof (rule keepsI)
  fix w
  show "post (MkdirAll p m u) (\<lambda>r w'. grows w w') w"
    unfolding MkdirAll_def
  proof (rule post_syscall)
    fix w1 :: world assume f: "files w1 = files w" "fresh w1 = fresh w"
    have n: "node_at w1 = node_at w" by (rule node_at_ext [OF f(1)])
    obtain r w2 where m: "mkdir_comps m u [] (comps p) w1 = (r, w2)" by fastforce
    have "grows w1 w2" by (rule mkdir_comps_grows [OF m]) (auto simp: comps_no_slash rooted_def)
    then have "grows w w2" by (rule grows.trans [OF grows.same_tree [OF n]])
    then show "case mkdir_comps m u [] (comps p) w1 of (Inl e, w'') \<Rightarrow> grows w w'' | (Inr a, w'') \<Rightarrow> grows w w''"
      using m by (cases r) auto
  qed (rule grows.same_tree, rule node_at_ext)
qed

lemmas grows_lifts [keeps_rules] = reads_lifts [THEN grows.keeps_reads]

lemma grows_createDirectory [keeps_rules]: "keeps grows (createDirectory p label priv)"
  unfolding createDirectory_def directory_checked_def by (intro keeps_rules)

lemma grows_rootPath:
  assumes SJ: "\<And>r p. reads (SJ r p)"
  shows "keeps grows (rootPath SJ ws rel)"
  unfolding rootPath_def scopedPath_def RejectSymlinkComponents_def Let_def
  by (intro keeps_rules grows.keeps_reads [OF SJ] grows.keeps_reads [OF reads_links])

lemma grows_MkdirPrivate: "(\<And>r p. reads (SJ r p)) \<Longrightarrow> keeps grows (MkdirPrivate SJ ws rel)"
  unfolding MkdirPrivate_def by (intro keeps_rules grows_rootPath)

lemma grows_CreatePrivate: "(\<And>r p. reads (SJ r p)) \<Longrightarrow> keeps grows (CreatePrivate SJ ws rel)"
  unfolding CreatePrivate_def by (intro keeps_rules grows_rootPath grows_MkdirPrivate)

subsection \<open>Starting a container\<close>

text \<open>The names of a container's logs below the state root.\<close>

definition log_comps :: "string list \<Rightarrow> string \<Rightarrow> log_stream \<Rightarrow> string list" where
  "log_comps rs i s = rs @ [''logs'', i, stream_name s @ ''.log'']"

text \<open>A runtime whose state root is the root of its workspace, a directory that is not a link.\<close>

definition runtime_at :: "container_tools \<Rightarrow> runc_runtime \<Rightarrow> string list \<Rightarrow> world \<Rightarrow> bool" where
  "runtime_at tools r rs w \<longleftrightarrow>
     secure_join_ok (pt_join (rt_provision (ct_runtime tools))) \<and> (\<forall>p q. reads (pt_join (rt_provision (ct_runtime tools)) p q)) \<and>
     list_all safe_component rs \<and> rs \<noteq> [] \<and> RuntimeRoot (r_config r) = abs_path rs \<and>
     (\<exists>ws. r_workspace r = Some ws \<and> ws_root ws = abs_path rs) \<and> rooted w \<and> (\<forall>t. node_at w (abs_path rs) \<noteq> Some (LinkNode t))"

lemma abs_path_nonempty: "abs_path cs \<noteq> []"
  using isAbs_abs_path [of cs] by (auto simp: isAbs_iff)

lemma runtime_at_grows: "runtime_at tools r rs w \<Longrightarrow> grows w w' \<Longrightarrow> runtime_at tools r rs w'"
  unfolding runtime_at_def grows_def adds_def by metis

lemma stateRoot_at: "runtime_at tools r rs w \<Longrightarrow> stateRoot env r = Inr (abs_path rs)"
  by (auto simp: runtime_at_def stateRoot_def runc_absPath_def Abs_def abs_path_nonempty)

lemma Join_at: "list_all safe_component (rs @ cs) \<Longrightarrow> Join (abs_path rs # cs) = abs_path (rs @ cs)"
  using Join_abs [of "abs_path rs" cs] by (simp add: comps_abs_path)

lemma log_safe:
  assumes "validID i" "s = StdoutLogStream \<or> s = StderrLogStream"
  shows "list_all safe_component [''logs'', i, stream_name s @ ''.log'']"
  using assms validID_safe [of i] by (auto simp: safe_component_def)

lemma logDir_at:
  assumes "runtime_at tools r rs w" "validID i"
  shows "logDir env r i = Inr (abs_path (rs @ [''logs'', i]))"
  using assms validID_safe [of i] Join_at [of rs "[''logs'', i]"] stateRoot_at [OF assms(1)]
  by (simp add: logDir_def containerid_Validate_None [THEN iffD2] runtime_at_def safe_component_def)

lemma logPath_at:
  assumes "runtime_at tools r rs w" "validID i" "s = StdoutLogStream \<or> s = StderrLogStream"
  shows "logPath env r i s = Inr (abs_path (log_comps rs i s))"
proof -
  have "list_all safe_component (rs @ [''logs'', i, stream_name s @ ''.log''])"
    using log_safe [OF assms(2,3)] assms(1) by (auto simp: runtime_at_def)
  then have "Join [abs_path (rs @ [''logs'', i]), stream_name s @ ''.log''] = abs_path (log_comps rs i s)"
    using Join_at [of "rs @ [''logs'', i]" "[stream_name s @ ''.log'']"] by (simp add: log_comps_def)
  then show ?thesis using assms(3) logDir_at [OF assms(1,2)] by (auto simp: logPath_def)
qed

text \<open>Creating one log: a new file with the expected name.\<close>

lemma create_log:
  assumes at: "runtime_at tools r rs w" and "validID i" "s = StdoutLogStream \<or> s = StderrLogStream"
  shows "post (CreatePrivate (pt_join (rt_provision (ct_runtime tools))) (r_workspace r) (render False [''logs'', i, stream_name s @ ''.log'']))
    (\<lambda>q w'. grows w w' \<and> (\<forall>p. q = Inr p \<longrightarrow> p = abs_path (log_comps rs i s) \<and> node_at w p = None)) w"
proof -
  obtain ws where ws: "r_workspace r = Some ws" "ws_root ws = abs_path rs" using at by (auto simp: runtime_at_def)
  have c: "comps (render False [''logs'', i, stream_name s @ ''.log'']) = [''logs'', i, stream_name s @ ''.log'']"
    using comps_render [OF log_safe [OF assms(2,3)]] by simp
  show ?thesis
    unfolding ws(1)
    by (rule post_mono [OF post_conj [OF keeps_post [OF grows_CreatePrivate] CreatePrivate_post [OF _ _ _ _ ws(2)]]])
      (use at in \<open>auto simp: runtime_at_def rooted_def log_comps_def c\<close>)
qed

lemma Rel_log:
  assumes "runtime_at tools r rs w" "validID i" "s = StdoutLogStream \<or> s = StderrLogStream"
  shows "Rel (root_of (r_workspace r)) (abs_path (log_comps rs i s)) = Inr (render False [''logs'', i, stream_name s @ ''.log''])"
  using Rel_inside [OF _ log_safe [OF assms(2,3)], of rs] assms(1) by (auto simp: runtime_at_def root_of_def log_comps_def)

lemma Rel_logDir:
  assumes "runtime_at tools r rs w" "validID i"
  shows "Rel (root_of (r_workspace r)) (abs_path (rs @ [''logs'', i])) = Inr (render False [''logs'', i])"
  using Rel_inside [of rs "[''logs'', i]"] assms validID_safe [of i] by (auto simp: runtime_at_def root_of_def safe_component_def)

text \<open>Opening the logs only adds files; both are new when it succeeds.\<close>

definition logs_new :: "string list \<Rightarrow> string \<Rightarrow> world \<Rightarrow> bool" where
  "logs_new rs i w \<longleftrightarrow>
     node_at w (abs_path (log_comps rs i StdoutLogStream)) = None \<and> node_at w (abs_path (log_comps rs i StderrLogStream)) = None"

lemma grows_preserved: "grows w w' \<Longrightarrow> preserved {} w w'"
  by (simp add: grows_def adds_preserved)

lemma preserved_drop: "preserved {} w v \<Longrightarrow> node_at w p = None \<Longrightarrow> (\<And>q. q \<noteq> p \<Longrightarrow> node_at w' q = node_at v q) \<Longrightarrow> preserved {} w w'"
  unfolding preserved_def by metis

lemma grows_None: "grows w v \<Longrightarrow> node_at v p = None \<Longrightarrow> node_at w p = None"
  unfolding grows_def adds_def by metis

lemma openLogs_post:
  assumes at: "runtime_at tools r rs w" and i: "validID i"
  shows "post (openLogs tools env r i) (\<lambda>q w'. preserved {} w w' \<and> (\<forall>out err. q = Inr (out, err) \<longrightarrow>
      out = abs_path (log_comps rs i StdoutLogStream) \<and> err = abs_path (log_comps rs i StderrLogStream) \<and> logs_new rs i w)) w"
    (is "post _ ?Q w")
proof -
  let ?SJ = "pt_join (rt_provision (ct_runtime tools))"
  let ?out = "abs_path (log_comps rs i StdoutLogStream)" and ?err = "abs_path (log_comps rs i StderrLogStream)"
  let ?rel = "\<lambda>s. render False [''logs'', i, stream_name s @ ''.log'']"
  note paths = logDir_at [OF at i] logPath_at [OF at i] Rel_logDir [OF at i] Rel_log [OF at i]
  have second: "post (attempt (CreatePrivate ?SJ (r_workspace r) (?rel StderrLogStream)) (\<lambda>opened.
        case opened of
          Inr stderr \<Rightarrow> ret (out, stderr)
        | Inl e \<Rightarrow> attempt (Effectless out) (\<lambda>_. attempt (Remove ?out) (\<lambda>_.
              fail (codef ErrFilesystemFailed ''open stderr log'' [e]))))) ?Q v"
    if v: "grows w v" "node_at w ?out = None" "out = ?out" for v out
  proof (rule attI, rule post_mono [OF create_log [OF runtime_at_grows [OF at v(1)] i, of StderrLogStream]])
    fix q :: "goerr + string" and v' :: world
    assume h: "grows v v' \<and> (\<forall>p. q = Inr p \<longrightarrow> p = abs_path (log_comps rs i StderrLogStream) \<and> node_at v p = None)"
    have g: "preserved {} w v'" using h v(1) grows.trans grows_preserved by blast
    have rm: "post (attempt (Effectless out) (\<lambda>_. attempt (Remove ?out) (\<lambda>_. fail (codef ErrFilesystemFailed ''open stderr log'' [e])))) ?Q v'" for e
    proof (rule attI, rule post_reads [OF reads_calls(5)], rule attI, rule post_Remove)
      fix q' and v1 v2 :: world assume "node_at v1 = node_at v'" "node_at v2 = node_at v1"
      then have "preserved {} w v2" using g by (simp add: preserved_def)
      then show "post (fail (codef ErrFilesystemFailed ''open stderr log'' [e])) ?Q v2" by (simp add: post_fail)
    next
      fix v1 v2 :: world assume "node_at v1 = node_at v'" "node_at v2 = (node_at v1)(?out := None)"
      then have "preserved {} w v2" by (intro preserved_drop [OF g v(2)]) simp
      then show "post (fail (codef ErrFilesystemFailed ''open stderr log'' [e])) ?Q v2" by (simp add: post_fail)
    qed
    show "post (case q of Inr stderr \<Rightarrow> ret (out, stderr) | Inl e \<Rightarrow> attempt (Effectless out) (\<lambda>_. attempt (Remove ?out) (\<lambda>_.
              fail (codef ErrFilesystemFailed ''open stderr log'' [e])))) ?Q v'"
      using rm g h v grows_None [OF v(1)] by (cases q) (simp_all add: post_ret logs_new_def)
  qed simp
  have first: "post (tryE (wrapped f (CreatePrivate ?SJ (r_workspace r) (?rel StdoutLogStream))) (\<lambda>out.
      attempt (CreatePrivate ?SJ (r_workspace r) (?rel StderrLogStream)) (\<lambda>opened.
        case opened of
          Inr stderr \<Rightarrow> ret (out, stderr)
        | Inl e \<Rightarrow> attempt (Effectless out) (\<lambda>_. attempt (Remove ?out) (\<lambda>_.
              fail (codef ErrFilesystemFailed ''open stderr log'' [e])))))) ?Q v"
    if v: "grows w v" for v f
  proof (rule tryI, unfold post_wrapped [of f "CreatePrivate _ _ _"], rule post_mono [OF create_log [OF runtime_at_grows [OF at v] i, of StdoutLogStream]])
    fix q :: "goerr + string" and v' :: world
    assume h: "grows v v' \<and> (\<forall>p. q = Inr p \<longrightarrow> p = abs_path (log_comps rs i StdoutLogStream) \<and> node_at v p = None)"
    have g: "grows w v'" using h v grows.trans by blast
    let ?case = "\<lambda>q. case q of Inl e \<Rightarrow> ?Q (Inl e) v' | Inr out \<Rightarrow> post (attempt (CreatePrivate ?SJ (r_workspace r) (?rel StderrLogStream)) (\<lambda>opened.
        case opened of
          Inr stderr \<Rightarrow> ret (out, stderr)
        | Inl e \<Rightarrow> attempt (Effectless out) (\<lambda>_. attempt (Remove ?out) (\<lambda>_.
              fail (codef ErrFilesystemFailed ''open stderr log'' [e]))))) ?Q v'"
    show "case q of Inl e \<Rightarrow> ?case (Inl (f e)) | Inr a \<Rightarrow> ?case (Inr a)"
    proof (cases q)
      case (Inl e)
      then show ?thesis using grows_preserved [OF g] by simp
    next
      case (Inr a)
      have "node_at w ?out = None" "a = ?out" using h Inr grows_None [OF v] by auto
      then show ?thesis unfolding Inr sum.case by (intro second [OF g])
    qed
  qed simp
  have "\<forall>q p. reads (?SJ p q)" using at by (simp add: runtime_at_def)
  then have mk: "post (MkdirPrivate ?SJ (r_workspace r) (render False [''logs'', i])) (\<lambda>q w'. grows w w') w"
    by (intro keeps_post [OF grows_MkdirPrivate]) blast
  show ?thesis
    unfolding openLogs_def Let_def post_try_lift paths sum.case
  proof (rule tryI, unfold post_wrapped [of "codefv _ _"], rule post_mono [OF mk], goal_cases)
    case (1 q v)
    have "post (tryE (lift_sum (logPath env r i StdoutLogStream)) (\<lambda>stdoutPath.
      tryE (lift_sum (logPath env r i StderrLogStream)) (\<lambda>stderrPath.
      tryE (wrapped (invalid_request ''resolve stdout log path'') (lift_sum (Rel (root_of (r_workspace r)) stdoutPath))) (\<lambda>stdoutRel.
      tryE (wrapped (invalid_request ''resolve stderr log path'') (lift_sum (Rel (root_of (r_workspace r)) stderrPath))) (\<lambda>stderrRel.
      tryE (wrapped (\<lambda>e. codef ErrFilesystemFailed ''open stdout log'' [e]) (CreatePrivate ?SJ (r_workspace r) stdoutRel)) (\<lambda>stdout.
      attempt (CreatePrivate ?SJ (r_workspace r) stderrRel) (\<lambda>opened.
        case opened of
          Inr stderr \<Rightarrow> ret (stdout, stderr)
        | Inl e \<Rightarrow>
            attempt (Effectless stdout) (\<lambda>_. attempt (Remove stdoutPath) (\<lambda>_.
              fail (codef ErrFilesystemFailed ''open stderr log'' [e])))))))))) ?Q v"
      unfolding post_try_lift paths(2) [OF disjI1 [OF refl]] paths(2) [OF disjI2 [OF refl]] sum.case paths(4) [OF disjI1 [OF refl]] paths(4) [OF disjI2 [OF refl]]
      by (rule first [OF 1])
    then show ?case using grows_preserved [OF 1] by (cases q) simp_all
  qed
qed

text \<open>
  What the code relies on when it starts the runtime: \<open>exec.Cmd.Start\<close> itself writes to no
  existing file but the two log files it was given.
\<close>

definition start_ok :: "container_tools \<Rightarrow> bool" where
  "start_ok tools \<longleftrightarrow> (\<forall>b a d i out err w. post (start_command tools b a d i out err)
     (\<lambda>r w'. \<forall>q. q = hd out \<or> q = hd err \<or> node_at w q = None \<or> node_at w' q = node_at w q) w)"

lemma reads_validate_spec: "reads (validateSupportedBundleSpec tools b)"
  unfolding validateSupportedBundleSpec_def Let_def
  by (auto intro!: reads_comb reads_deferred split: sum.split option.split bool.split)

lemma logs_new_cong: "node_at v = node_at w \<Longrightarrow> logs_new rs i v = logs_new rs i w"
  by (simp add: logs_new_def)

lemma Run_post:
  assumes st: "start_ok tools" and at: "runtime_at tools r rs w"
  shows "post (runc_Run tools env r oc req) (\<lambda>q w'. preserved {} w w' \<and> (\<forall>k. q = Inr k \<longrightarrow> cc_id k = rr_ContainerID req \<and>
      cc_stdoutPath k = abs_path (log_comps rs (cc_id k) StdoutLogStream) \<and>
      cc_stderrPath k = abs_path (log_comps rs (cc_id k) StderrLogStream) \<and> logs_new rs (cc_id k) w)) w"
    (is "post _ ?Q w")
proof -
  let ?i = "rr_ContainerID req"
  let ?out = "abs_path (log_comps rs ?i StdoutLogStream)" and ?err = "abs_path (log_comps rs ?i StderrLogStream)"
  define started where "started = (\<lambda>root out err. attempt (start_command tools (r_binaryPath r) [''--root'', root, ''run'', ?i] (rr_BundlePath req)
      (rr_Stdin req) (outputWriter out (rr_Stdout req)) (outputWriter err (rr_Stderr req))) (\<lambda>started.
    case started of
      Inl e \<Rightarrow>
        attempt (Effectless out) (\<lambda>_. attempt (Effectless err) (\<lambda>_.
        attempt (Remove ?out) (\<lambda>_. attempt (Remove ?err) (\<lambda>_.
          fail (codef ErrRuntimeStartFailed (''start runc container '' @ Quote ?i) [e])))))
    | Inr process \<Rightarrow>
        ret (newRuncContainer
          \<lparr>cc_id = ?i, cc_binaryPath = r_binaryPath r, cc_stateRoot = root, cc_stdoutPath = ?out, cc_stderrPath = ?err\<rparr> process)))"
  have new: "post (started root ?out ?err) ?Q v" if v: "preserved {} w v" "logs_new rs ?i w" for root v
    unfolding started_def
  proof (rule attI, rule post_mono [OF st [unfolded start_ok_def, rule_format]])
    fix q :: "goerr + running" and v1 :: world
    assume h: "\<forall>p. p = hd (outputWriter ?out (rr_Stdout req)) \<or> p = hd (outputWriter ?err (rr_Stderr req)) \<or> node_at v p = None \<or> node_at v1 p = node_at v p"
    have p1: "preserved {} w v1" using h v unfolding preserved_def logs_new_def outputWriter_def by (metis list.sel(1))
    have rm: "post (attempt (Effectless ?out) (\<lambda>_. attempt (Effectless ?err) (\<lambda>_. attempt (Remove ?out) (\<lambda>_. attempt (Remove ?err) (\<lambda>_.
          fail (codef ErrRuntimeStartFailed (''start runc container '' @ Quote ?i) [e])))))) ?Q v1" for e
    proof (rule att_reads [OF reads_calls(5)], rule att_reads [OF reads_calls(5)])
      fix v2 v3 :: world assume "node_at v2 = node_at v1" "node_at v3 = node_at v2"
      then have p3: "preserved {} w v3" using p1 by (simp add: preserved_def)
      have drop: "post (attempt (Remove p) (\<lambda>_. m)) ?Q x" if "preserved {} w x" "node_at w p = None" "\<And>y. preserved {} w y \<Longrightarrow> post m ?Q y" for p m x
      proof (rule attI, rule post_Remove)
        fix e and y :: world assume "node_at y = node_at x"
        then show "post m ?Q y" using that(1) by (intro that(3)) (simp add: preserved_def)
      next
        fix y :: world assume "node_at y = (node_at x)(p := None)"
        then show "post m ?Q y" by (intro that(3) preserved_drop [OF that(1,2)]) simp
      qed
      show "post (attempt (Remove ?out) (\<lambda>_. attempt (Remove ?err) (\<lambda>_.
          fail (codef ErrRuntimeStartFailed (''start runc container '' @ Quote ?i) [e])))) ?Q v3"
        using v(2) by (intro drop p3) (auto simp: logs_new_def post_fail)
    qed
    then show "post (case q of Inl e \<Rightarrow> attempt (Effectless ?out) (\<lambda>_. attempt (Effectless ?err) (\<lambda>_. attempt (Remove ?out) (\<lambda>_. attempt (Remove ?err) (\<lambda>_.
          fail (codef ErrRuntimeStartFailed (''start runc container '' @ Quote ?i) [e])))))
      | Inr process \<Rightarrow> ret (newRuncContainer
          \<lparr>cc_id = ?i, cc_binaryPath = r_binaryPath r, cc_stateRoot = root, cc_stdoutPath = ?out, cc_stderrPath = ?err\<rparr> process)) ?Q v1"
      using p1 v(2) by (cases q) (simp_all add: post_ret newRuncContainer_def containerConfig.extend_def)
  qed
  have opened: "post (tryE (openLogs tools env r ?i) (\<lambda>(out, err). started root out err)) ?Q v" if v: "node_at v = node_at w" "validID ?i" for v root
  proof (rule tryI, rule post_mono [OF openLogs_post [OF _ v(2)]])
    show "runtime_at tools r rs v" by (rule runtime_at_grows [OF at grows.same_tree [OF v(1)]])
    fix q :: "goerr + string \<times> string" and v1 :: world
    assume h: "preserved {} v v1 \<and> (\<forall>out err. q = Inr (out, err) \<longrightarrow> out = ?out \<and> err = ?err \<and> logs_new rs ?i v)"
    then have p: "preserved {} w v1" using v(1) by (simp add: preserved_def)
    show "case q of Inl e \<Rightarrow> ?Q (Inl e) v1 | Inr a \<Rightarrow> post (case a of (out, err) \<Rightarrow> started root out err) ?Q v1"
    proof (cases q)
      case (Inl e)
      then show ?thesis using p by simp
    next
      case (Inr a)
      obtain out err where a: "a = (out, err)" by (cases a)
      then have "out = ?out" "err = ?err" "logs_new rs ?i w" using h Inr logs_new_cong [OF v(1)] by auto
      then show ?thesis unfolding Inr a sum.case prod.case by (simp only:) (intro new p)
    qed
  qed
  have prog: "(\<lambda>(stdout, stderr). let close_logs = (\<lambda>e. attempt (Effectless stdout) (\<lambda>_. attempt (Effectless stderr) (\<lambda>_. fail e))) in
                case logPath env r ?i StdoutLogStream of
                  Inl e \<Rightarrow> close_logs e
                | Inr stdoutPath \<Rightarrow>
                (case logPath env r ?i StderrLogStream of
                   Inl e \<Rightarrow> close_logs e
                 | Inr stderrPath \<Rightarrow>
                 attempt (start_command tools (r_binaryPath r) [''--root'', root, ''run'', ?i] (rr_BundlePath req)
                     (rr_Stdin req) (outputWriter stdout (rr_Stdout req)) (outputWriter stderr (rr_Stderr req))) (\<lambda>started.
                   case started of
                     Inl e \<Rightarrow>
                       attempt (Effectless stdout) (\<lambda>_. attempt (Effectless stderr) (\<lambda>_.
                       attempt (Remove stdoutPath) (\<lambda>_. attempt (Remove stderrPath) (\<lambda>_.
                         fail (codef ErrRuntimeStartFailed (''start runc container '' @ Quote ?i) [e])))))
                   | Inr process \<Rightarrow>
                       ret (newRuncContainer
                         \<lparr>cc_id = ?i, cc_binaryPath = r_binaryPath r, cc_stateRoot = root,
                          cc_stdoutPath = stdoutPath, cc_stderrPath = stderrPath\<rparr> process)))) = (\<lambda>(out, err). started root out err)"
    if "validID ?i" for root
    using logPath_at [OF at that, of StdoutLogStream env] logPath_at [OF at that, of StderrLogStream env]
    by (simp add: started_def)
  have base: "preserved {} w v" if "node_at v = node_at w" for v :: world using that by (simp add: preserved_def)
  show ?thesis
  proof (cases oc)
    case (Some c)
    have body: "post (tryE (lift_err (containerid_Validate ?i)) (\<lambda>_. if r_binaryPath r = [] then fail (codef ErrInvalidRequest ''runtime binary is required'' [])
        else tryE (validateSupportedBundleSpec tools (rr_BundlePath req)) (\<lambda>_. tryE (lift_sum (stateRoot env r)) (\<lambda>root.
          tryE (openLogs tools env r ?i) (\<lambda>(out, err). started root out err))))) ?Q w" if vid: "validID ?i"
    proof (rule try_reads [OF reads_lifts(1)])
      fix u and v :: world assume v: "node_at v = node_at w"
      have "post (tryE (validateSupportedBundleSpec tools (rr_BundlePath req)) (\<lambda>_. tryE (lift_sum (stateRoot env r)) (\<lambda>root.
          tryE (openLogs tools env r ?i) (\<lambda>(out, err). started root out err)))) ?Q v"
        by (rule try_reads [OF reads_validate_spec])
          (use base v in \<open>auto simp: post_try_lift stateRoot_at [OF at] intro!: opened [OF _ vid]\<close>)
      then show "post (if r_binaryPath r = [] then fail (codef ErrInvalidRequest ''runtime binary is required'' [])
        else tryE (validateSupportedBundleSpec tools (rr_BundlePath req)) (\<lambda>_. tryE (lift_sum (stateRoot env r)) (\<lambda>root.
          tryE (openLogs tools env r ?i) (\<lambda>(out, err). started root out err)))) ?Q v"
        using base [OF v] by (simp add: post_fail)
    qed (use base in simp)
    show ?thesis
    proof (cases "validID ?i")
      case True
      show ?thesis
        unfolding runc_Run_def Some option.case post_check_ctx post_if Let_def [of ?i] Let_def [of "r_binaryPath r"] prog [OF True]
      proof (cases "ctx_err c w")
        case None
        then show "case ctx_err c w of Some e \<Rightarrow> ?Q (Inl (codef ErrCanceled ''runtime launch canceled before start'' [e])) w
          | None \<Rightarrow> if rr_BundlePath req = [] then post (fail (codef ErrInvalidRequest ''runtime bundle path is required'' [])) ?Q w
            else post (tryE (lift_err (containerid_Validate ?i)) (\<lambda>_. if r_binaryPath r = [] then fail (codef ErrInvalidRequest ''runtime binary is required'' [])
              else tryE (validateSupportedBundleSpec tools (rr_BundlePath req)) (\<lambda>_. tryE (lift_sum (stateRoot env r)) (\<lambda>root.
                tryE (openLogs tools env r ?i) (\<lambda>(out, err). started root out err))))) ?Q w"
          unfolding None option.case
          by (cases "rr_BundlePath req = []") (simp only: if_True post_fail, simp add: base, simp only: if_False, rule body [OF True])
      qed (simp add: base)
    next
      case False
      then have "containerid_Validate ?i \<noteq> None" using containerid_Validate_None by blast
      then show ?thesis
        unfolding runc_Run_def Some option.case post_check_ctx post_if Let_def [of ?i]
        using base by (auto simp: post_fail post_tryE [of "lift_err _"] post_lift_err split: option.split)
    qed
  qed (simp add: runc_Run_def post_fail base)
qed

text \<open>
  C32. Starting a container changes no existing file, whatever call fails: logs of earlier
  containers are never overwritten, appended to or deleted. The container that is returned
  carries the requested ID, and both of its logs are new files at the documented place.
\<close>

theorem run_preserves_files:
  assumes "start_ok tools" "runtime_at tools r rs w" "node_at w q = Some n" "runc_Run tools env r oc req w = (res, w')"
  shows "node_at w' q = Some n \<and> (\<forall>k. res \<noteq> Inr k \<or>
    cc_id k = rr_ContainerID req \<and>
    cc_stdoutPath k = abs_path (rs @ [''logs'', cc_id k, ''stdout.log'']) \<and> node_at w (cc_stdoutPath k) = None \<and>
    cc_stderrPath k = abs_path (rs @ [''logs'', cc_id k, ''stderr.log'']) \<and> node_at w (cc_stderrPath k) = None)"
  using postD [OF Run_post [OF assms(1,2)] assms(4)] assms(3)
  by (auto simp: preserved_def logs_new_def log_comps_def)

text \<open>A runtime in \<open>/w\<close>, a bundle in \<open>/w/in\<close>, and a process that exits with code 3 at time 50.\<close>

definition toy_process_run :: running where
  "toy_process_run = \<lparr>run_done = Some 50, run_outcome = WaitExit 3 (Opaque ''exit status 3''), kill_done = (\<lambda>t. Some (t + 1)),
     kill_outcome = WaitExit (-1) (Opaque ''signal: killed''), close_errors = [None, None]\<rparr>"

definition toy_container_tools :: container_tools where
  "toy_container_tools =
     \<lparr>ct_runtime = install_tools, combined_output = (\<lambda>c b args w. (([], None), w)), plain_output = (\<lambda>c b args w. (([], None), w)),
      start_command = (\<lambda>b args d i out err. ret toy_process_run), decode_terminal = (\<lambda>s. Inr (Some False)),
      decode_state = (\<lambda>s. Inr \<lparr>st_id = s, st_status = ''running''\<rparr>), NewString = ret ''u'', second = 100\<rparr>"

definition toy_runtime :: runc_runtime where
  "toy_runtime =
     \<lparr>r_provisioner = Some removal_prov, r_config = install_config, r_binaryPath = ''/w/runc'',
      r_binary = \<lparr>bin_version = ''v1.5.0'', bin_url = [], bin_sha256 = []\<rparr>, r_workspace = Some install_workspace,
      r_binaryWorkspace = Some install_workspace, r_logger = newDefaultLogger\<rparr>"

definition bundle_world :: world where
  "bundle_world = put ''/w/in/config.json'' (FileNode ''{}'' 420 0) link_world"

definition toy_run_request :: run_request where
  "toy_run_request = \<lparr>rr_ContainerID = ''c1'', rr_BundlePath = ''/w/in'', rr_Stdin = None, rr_Stdout = [Some ''out'', None], rr_Stderr = []\<rparr>"

lemma toy_runtime_at: "runtime_at toy_container_tools toy_runtime [''w''] bundle_world"
proof -
  have w: "abs_path [''w''] = ''/w''" by (simp add: abs_path_def render_def)
  have "rooted link_world" using link_world_closed by (simp add: rooted_def node_at_def link_world_def)
  moreover have "grows link_world bundle_world"
  proof (rule grows_put_file)
    show "node_at link_world ''/w/in/config.json'' = None" by code_simp
    show "is_dir (node_at link_world (Dir ''/w/in/config.json''))" by code_simp
    show "node_at bundle_world = (node_at link_world)(''/w/in/config.json'' \<mapsto> FileNode ''{}'' 420 0)"
      by (auto simp: bundle_world_def node_at_put fun_eq_iff)
  qed
  ultimately have "rooted bundle_world" by (simp add: grows_def)
  moreover have "\<forall>t. node_at bundle_world ''/w'' \<noteq> Some (LinkNode t)" by (simp add: bundle_world_def node_at_put) (simp add: node_at_def link_world_def)
  moreover have "reads (lexical_join p q)" for p q by (simp add: lexical_join_def reads_def)
  ultimately show ?thesis
    using lexical_join_ok
    by (simp add: runtime_at_def toy_container_tools_def install_tools_def toy_tools_def toy_runtime_def install_config_def
        install_workspace_def w safe_component_def)
qed

lemma toy_start_ok: "start_ok toy_container_tools"
  by (simp add: start_ok_def toy_container_tools_def post_ret)

theorem run_preserves_files_witness:
  "case runc_Run toy_container_tools removal_env toy_runtime (Some None) toy_run_request bundle_world of
     (Inr k, w') \<Rightarrow> cc_id k = ''c1'' \<and> node_at w' ''/w/in/config.json'' = Some (FileNode ''{}'' 420 0) \<and> node_at bundle_world (cc_stdoutPath k) = None
   | _ \<Rightarrow> False"
proof -
  have "case runc_Run toy_container_tools removal_env toy_runtime (Some None) toy_run_request bundle_world of (Inr k, w') \<Rightarrow> True | _ \<Rightarrow> False"
    by code_simp
  then obtain k w' where k: "runc_Run toy_container_tools removal_env toy_runtime (Some None) toy_run_request bundle_world = (Inr k, w')"
    by (auto split: prod.splits sum.splits)
  have f: "node_at bundle_world ''/w/in/config.json'' = Some (FileNode ''{}'' 420 0)" by (simp add: bundle_world_def node_at_put)
  have "rr_ContainerID toy_run_request = ''c1''" by (simp add: toy_run_request_def)
  with run_preserves_files [OF toy_start_ok toy_runtime_at f k] k show ?thesis by auto
qed

subsection \<open>Deleting a container\<close>

text \<open>What the code relies on of \<open>unshare\<close>: when the clean-up script succeeds, the directory it was given is gone.\<close>

definition cleanup_removes :: "bundle_tools \<Rightarrow> bool" where
  "cleanup_removes tools \<longleftrightarrow> (\<forall>ns path dir w o' w'.
     unshare tools (ns_flags ns ''/bin/sh'' [''-c'', cleanup_script, ''chamber-bundle-cleanup'', path]) dir w = (Inr o', w') \<longrightarrow> node_at w' path = None)"

lemma RemoveAll_gone: "RemoveAll p w = (Inr u, w') \<Longrightarrow> node_at w' p = None"
  by (auto simp: RemoveAll_def node_at_prune split: prod.splits fault.splits)

lemma RemoveAll_never_missing: "RemoveAll p w = (Inl e, w') \<Longrightarrow> \<exists>n q. e = SysErr n q \<and> n \<noteq> ENOENT"
  by (auto simp: RemoveAll_def split: prod.splits fault.splits)

lemma removal_failed_gone:
  assumes "removal_failed dir ne busy again err w = (Inr u, w')" "err = SysErr n q" "n \<noteq> ENOENT"
    and "\<And>ne b v. again ne b v = (Inr u, w') \<Longrightarrow> node_at w' dir = None"
  shows "node_at w' dir = None"
  using assms by (auto simp: removal_failed_def fail_def simp del: errno_in.simps elim!: run_attempt split: if_splits)

lemma remove_loop_gone: "remove_loop n c dir ne busy w = (Inr u, w') \<Longrightarrow> node_at w' dir = None"
proof (induction n arbitrary: ne busy w)
  case (Suc n)
  then obtain r w1 where r: "RemoveAll dir w = (r, w1)"
    and k: "(case r of Inr _ \<Rightarrow> ret () | Inl err \<Rightarrow>
         if errno_in {EACCES, EPERM} err then
           attempt (makeBundleDirectoriesWritable dir) (\<lambda>r2. case r2 of
               Inl ce \<Rightarrow> fail (codef ErrFilesystemFailed ''make bundle removable'' [ce])
             | Inr _ \<Rightarrow> attempt (RemoveAll dir) (\<lambda>r3. case r3 of Inr _ \<Rightarrow> ret ()
                 | Inl err \<Rightarrow> removal_failed dir ne busy (remove_loop n c dir) err))
         else removal_failed dir ne busy (remove_loop n c dir) err) w1 = (Inr u, w')"
    unfolding remove_loop.simps by (elim run_check_ctx run_attempt)
  show ?case
  proof (cases r)
    case (Inl err)
    obtain m q where e: "err = SysErr m q" "m \<noteq> ENOENT" using RemoveAll_never_missing r Inl by blast
    show ?thesis
    proof (cases "errno_in {EACCES, EPERM} err")
      case True
      then obtain r2 w2 r3 w3 where s: "RemoveAll dir w2 = (r3, w3)"
        "(case r3 of Inr _ \<Rightarrow> ret () | Inl err \<Rightarrow> removal_failed dir ne busy (remove_loop n c dir) err) w3 = (Inr u, w')"
        using k Inl by (auto simp: fail_def simp del: errno_in.simps elim!: run_attempt split: sum.splits)
      show ?thesis
      proof (cases r3)
        case (Inl err)
        then obtain m q where "err = SysErr m q" "m \<noteq> ENOENT" using RemoveAll_never_missing s(1) by blast
        then show ?thesis using removal_failed_gone [of dir ne busy "remove_loop n c dir" err w3 u w' m q] Suc.IH s(2) Inl by simp
      qed (use RemoveAll_gone s in \<open>auto simp: ret_def\<close>)
    next
      case False
      then show ?thesis using removal_failed_gone [of dir ne busy "remove_loop n c dir" err w1 u w' m q] Suc.IH k Inl e by (simp del: errno_in.simps)
    qed
  qed (use RemoveAll_gone r k in \<open>auto simp: ret_def\<close>)
qed (simp add: fail_def)

lemma mutated_gone:
  assumes "removeRuntimeMutatedBundle c dir w = (Inr u, w')"
  shows "node_at w' dir = None"
proof -
  obtain r w1 where r: "RemoveAll dir w = (r, w1)"
    and k: "(case r of Inr _ \<Rightarrow> ret () | Inl _ \<Rightarrow> attempt (unmountNestedMounts dir) (\<lambda>_. \<lambda>w. remove_loop (removal_rounds w) c dir [] (\<lambda>_. 0) w)) w1 = (Inr u, w')"
    using assms unfolding removeRuntimeMutatedBundle_def by (elim run_check_ctx run_attempt)
  show ?thesis
    using r k by (cases r) (auto simp: ret_def dest: RemoveAll_gone elim!: run_attempt intro: remove_loop_gone)
qed

lemma bundle_gone:
  assumes "cleanup_removes tools" "removeBundleDirectory tools c path w = (Inr u, w')"
  shows "node_at w' path = None"
proof -
  have un: "node_at w2 path = None"
    if "unshare tools (ns_flags ns ''/bin/sh'' [''-c'', cleanup_script, ''chamber-bundle-cleanup'', path]) [] w1 = (Inr x, w2)" for ns w1 w2 x
    using that assms(1) unfolding cleanup_removes_def by blast
  show ?thesis
    using assms(2) unfolding removeBundleDirectory_def Let_def
    by (elim run_attempt)
      (auto simp: fail_def ret_def split: sum.splits option.splits if_splits elim!: run_attempt run_check_ctx,
        (erule mutated_gone)+, erule un)
qed

lemma prov_Remove_gone:
  assumes "cleanup_removes tools" "prov_Remove tools env (Some p) oc b w = (Inr u, w')"
  shows "node_at w' (Join [prov_root p, BundleID b]) = None"
proof -
  obtain c v where "removeBundleDirectory tools c (Join [prov_root p, BundleID b]) v = (Inr u, w')"
    using assms(2) unfolding prov_Remove_def Let_def
    by (auto simp: fail_def split: option.splits if_splits elim!: run_check_ctx run_tryE run_wrapped)
  then show ?thesis by (rule bundle_gone [OF assms(1)])
qed

lemma run_total [run_elims]:
  assumes "total f w = (r, w2)"
  obtains a where "f w = (a, w2)" "r = Inr a"
  using assms by (auto simp: total_def split: prod.splits)

lemma fill_bundle_run:
  assumes "fill_bundle tools env p c req ref tmp final w = (Inr b, w2)"
  shows "b = \<lparr>BundleID = req_bundle_id req, BundlePath = final\<rparr>"
  using assms unfolding fill_bundle_def
  by (elim run_tryE run_deferred run_check_ctx) (simp add: ret_def)

lemma Provision_run:
  assumes "Provision tools env op oc req w = (Inr b, w2)"
  obtains p where "op = Some p" "b = \<lparr>BundleID = req_bundle_id req, BundlePath = Join [prov_root p, req_bundle_id req]\<rparr>"
proof -
  obtain c where "oc = Some c" using assms by (cases oc) (auto simp: Provision_def fail_def)
  then obtain p ref tmp v where p: "check_request tools op req = Inr (p, ref)"
    and m: "or_clean_up tools tmp (fill_bundle tools env p c req ref tmp (Join [prov_root p, req_bundle_id req])) v = (Inr b, w2)"
    using assms unfolding Provision_def by (auto elim!: run_check_ctx run_tryE run_lift_sum)
  obtain v2 where "fill_bundle tools env p c req ref tmp (Join [prov_root p, req_bundle_id req]) v = (Inr b, v2)"
    using m unfolding or_clean_up_def
    by (auto simp: fail_def ret_def attempt_def split: prod.splits sum.splits)
  moreover have "op = Some p" using p by (auto simp: check_request_def split: option.splits if_splits sum.splits)
  ultimately show ?thesis using that fill_bundle_run by blast
qed

lemma RunImage_run:
  assumes "runc_RunImage tools env rt oc img req w = (Inr k, w2)"
  obtains r p u where "rt = Some r" "r_provisioner r = Some p" "c_provisioner k = Some p"
    "c_bundle k = \<lparr>BundleID = ''image-'' @ u, BundlePath = Join [prov_root p, ''image-'' @ u]\<rparr>"
proof -
  obtain c r where c: "oc = Some c" "rt = Some r" "r_provisioner r \<noteq> None"
    using assms by (auto simp: runc_RunImage_def Let_def fail_def elim!: run_check_ctx split: option.splits if_splits)
  then obtain p where p: "r_provisioner r = Some p" by blast
  obtain req' u b v1 v2 where b: "Provision (rt_provision (ct_runtime tools)) env (Some p) (Some c) (image_request img req' u) v1 = (Inr b, v2)"
    and k: "c_provisioner k = Some p" "c_bundle k = b"
    using assms unfolding runc_RunImage_def c(1,2) option.case p Let_def
    by (auto elim!: run_check_ctx run_tryE run_attempt simp: ret_def fail_def split: sum.splits)
  show ?thesis
    by (rule Provision_run [OF b], rule that [OF c(2) p k(1)]) (use k(2) in \<open>simp add: image_request_def\<close>)
qed

text \<open>
  C34. \<open>RunImage\<close> makes the container own a bundle that only it uses, and a successful
  \<open>Delete\<close> at any later time leaves no such bundle behind, however the files of the container
  look by then.
\<close>

theorem delete_releases_bundle:
  assumes "cleanup_removes (pt_removal (rt_provision (ct_runtime tools)))"
    and "runc_RunImage tools env (Some r) oc img req w = (Inr k, w1)"
    and "runc_Delete tools env oc2 (Some k) force v = (Inr (), v')"
  shows "\<exists>p u. r_provisioner r = Some p \<and> BundleID (c_bundle k) = ''image-'' @ u \<and>
    BundlePath (c_bundle k) = Join [prov_root p, ''image-'' @ u] \<and> node_at v' (BundlePath (c_bundle k)) = None"
proof -
  obtain p u where k: "r_provisioner r = Some p" "c_provisioner k = Some p"
      "c_bundle k = \<lparr>BundleID = ''image-'' @ u, BundlePath = Join [prov_root p, ''image-'' @ u]\<rparr>"
    by (rule RunImage_run [OF assms(2)]) auto
  obtain c v1 where "prov_Remove (pt_removal (rt_provision (ct_runtime tools))) env (Some p) (Some c) (c_bundle k) v1 = (Inr (), v')"
    using assms(3) unfolding runc_Delete_def on_container_def Let_def
    by (auto simp: fail_def k(2) elim!: run_check_ctx run_tryE run_total split: option.splits if_splits)
  from prov_Remove_gone [OF assms(1) this] show ?thesis using k by simp
qed

lemma removal_tools_remove: "cleanup_removes (removal_tools\<lparr>decode_spec := d\<rparr>)"
  by (auto simp: cleanup_removes_def removal_tools_def ns_flags_def ret_def elim!: run_tryE dest: RemoveAll_gone)

text \<open>An image is run in the toy host and its container deleted right away.\<close>

definition image_tools :: container_tools where
  "image_tools = toy_container_tools\<lparr>ct_runtime := install_tools\<lparr>rt_provision := toy_tools\<lparr>pt_removal :=
     removal_tools\<lparr>decode_spec := (\<lambda>_. Inr (stub_spec (prov_ns toy_prov)))\<rparr>\<rparr>\<rparr>\<rparr>"

definition image_runtime :: runc_runtime where
  "image_runtime = toy_runtime\<lparr>r_provisioner := Some toy_prov\<rparr>"

definition toy_image :: image where
  "toy_image = \<lparr>LayoutPath = ''/i'', Reference = ''r'', ImageDigest = [], ImagePlatform = \<lparr>OS = [], Architecture = [], Variant = []\<rparr>,
     Source = [], SizeBytes = 0, CreatedAt = 0, UpdatedAt = 0\<rparr>"

definition toy_image_request :: run_image_request where
  "toy_image_request = \<lparr>ri_ContainerID = ''c1'', ri_Process = toy_process, ri_Mounts = [], ri_Stdin = None, ri_Stdout = [], ri_Stderr = []\<rparr>"

definition provisioned_world :: world where
  "provisioned_world = toy_host\<lparr>files := [(''/w/image-u'', DirNode 448 0), (''/w/image-u/rootfs'', DirNode 448 0),
      (''/w/image-u/config.json'', FileNode (''spec'' @ [CHR 0x0A]) 384 0)] @ files toy_host, now := 26, fresh := 1\<rparr>"

definition launched_world :: world where
  "launched_world = provisioned_world\<lparr>files := files provisioned_world @ [(''/w/logs'', DirNode 448 0), (''/w/logs/c1'', DirNode 448 0),
     (''/w/logs/c1/stdout.log'', FileNode [] 384 0), (''/w/logs/c1/stderr.log'', FileNode [] 384 0)], now := 47\<rparr>"

definition launched_container :: runcContainer where
  "launched_container = \<lparr>cc_id = ''c1'', cc_binaryPath = ''/w/runc'', cc_stateRoot = ''/w'', cc_stdoutPath = ''/w/logs/c1/stdout.log'',
     cc_stderrPath = ''/w/logs/c1/stderr.log'', c_provisioner = Some toy_prov,
     c_bundle = \<lparr>BundleID = ''image-u'', BundlePath = ''/w/image-u''\<rparr>, c_running = Some toy_process_run\<rparr>"

lemma provisioned:
  "Provision (rt_provision (ct_runtime image_tools)) removal_env (Some toy_prov) (Some None) (image_request toy_image toy_image_request ''u'') toy_host =
     (Inr \<lparr>BundleID = ''image-u'', BundlePath = ''/w/image-u''\<rparr>, provisioned_world)"
  by code_simp

lemma spec_checked: "validateSupportedBundleSpec image_tools ''/w/image-u'' provisioned_world = (Inr (), provisioned_world\<lparr>now := 29\<rparr>)"
  by code_simp

lemma logs_opened:
  "openLogs image_tools removal_env image_runtime ''c1'' (provisioned_world\<lparr>now := 29\<rparr>) =
     (Inr (''/w/logs/c1/stdout.log'', ''/w/logs/c1/stderr.log''), launched_world)"
  by code_simp

lemma started:
  "runc_Run image_tools removal_env image_runtime (Some None)
     \<lparr>rr_ContainerID = ''c1'', rr_BundlePath = ''/w/image-u'', rr_Stdin = None, rr_Stdout = [], rr_Stderr = []\<rparr> provisioned_world =
   (Inr (launched_container\<lparr>c_provisioner := None, c_bundle := \<lparr>BundleID = [], BundlePath = []\<rparr>\<rparr>), launched_world)"
proof -
  have v: "containerid_Validate ''c1'' = None" by code_simp
  have b: "r_binaryPath image_runtime = ''/w/runc''" by (simp add: image_runtime_def toy_runtime_def)
  have p: "stateRoot removal_env image_runtime = Inr ''/w''" "logPath removal_env image_runtime ''c1'' StdoutLogStream = Inr ''/w/logs/c1/stdout.log''"
    "logPath removal_env image_runtime ''c1'' StderrLogStream = Inr ''/w/logs/c1/stderr.log''"
    by code_simp+
  have s: "start_command image_tools b a d i out err = ret toy_process_run" for b a d i out err
    by (simp add: image_tools_def toy_container_tools_def)
  show ?thesis
    by (simp add: runc_Run_def Let_def check_ctx_def ctx_err_def lift_err_def lift_sum_def v b p s tryE_def ret_def attempt_def spec_checked logs_opened)
      (simp add: launched_container_def newRuncContainer_def containerConfig.extend_def)
qed

lemma launched: "runc_RunImage image_tools removal_env (Some image_runtime) (Some None) toy_image toy_image_request toy_host = (Inr launched_container, launched_world)"
proof -
  have v: "containerid_Validate ''c1'' = None" by code_simp
  have n: "NewString image_tools = ret ''u''" by (simp add: image_tools_def toy_container_tools_def)
  have p: "r_provisioner image_runtime = Some toy_prov" by (simp add: image_runtime_def)
  have i: "ri_ContainerID toy_image_request = ''c1''" "ri_Stdin toy_image_request = None" "ri_Stdout toy_image_request = []" "ri_Stderr toy_image_request = []"
    by (simp_all add: toy_image_request_def)
  show ?thesis
    using provisioned started
    by (simp add: runc_RunImage_def Let_def check_ctx_def ctx_err_def p set_container_id_def i tryE_def ret_def lift_err_def v n attempt_def)
      (simp add: launched_container_def)
qed

theorem delete_releases_bundle_witness:
  "runc_RunImage image_tools removal_env (Some image_runtime) (Some None) toy_image toy_image_request toy_host = (Inr launched_container, launched_world) \<and>
   node_at launched_world ''/w/image-u'' \<noteq> None \<and>
   node_at (snd (runc_Delete image_tools removal_env (Some None) (Some launched_container) True launched_world)) ''/w/image-u'' = None"
proof (intro conjI)
  have "fst (runc_Delete image_tools removal_env (Some None) (Some launched_container) True launched_world) = Inr ()" by code_simp
  then obtain v' where d: "runc_Delete image_tools removal_env (Some None) (Some launched_container) True launched_world = (Inr (), v')"
    by (metis prod.collapse)
  have t: "cleanup_removes (pt_removal (rt_provision (ct_runtime image_tools)))"
    using removal_tools_remove by (simp add: image_tools_def install_tools_def toy_tools_def)
  have "BundlePath (c_bundle launched_container) = ''/w/image-u''" by (simp add: launched_container_def)
  then show "node_at (snd (runc_Delete image_tools removal_env (Some None) (Some launched_container) True launched_world)) ''/w/image-u'' = None"
    using delete_releases_bundle [OF t launched d] d by auto
  show "node_at launched_world ''/w/image-u'' \<noteq> None" by code_simp
qed (rule launched)

text \<open>
  C38. \<open>Delete\<close> cannot tell a deleted container from a runtime that did not run: when the
  control command fails because the runtime binary does not exist, the error counts as
  "already deleted", so \<open>Delete\<close> of a \<open>RunImage\<close> container goes on to remove the bundle and
  reports what that returns, although no container was deleted.
\<close>

theorem delete_without_runtime:
  assumes "c_provisioner k = Some p" "ctx_err c w = None" "ctx_err c w1 = None"
    and "combined_output tools c (cc_binaryPath k) (delete_args k force) w = ((output, Some (SysErr ENOENT (cc_binaryPath k))), w1)"
  shows "runc_Delete tools env (Some c) (Some k) force w =
    prov_Remove (pt_removal (rt_provision (ct_runtime tools))) env (Some p) (Some c) (c_bundle k) w1"
proof -
  have "looksAlreadyDeleted (control_error m (SysErr ENOENT q) o')" for m q o'
    by (simp add: looksAlreadyDeleted_def control_error_def errIsNotExist_def)
  then show ?thesis
    using assms by (simp add: runc_Delete_def on_container_def check_ctx_def tryE_def total_def Let_def)
qed

definition no_binary_tools :: container_tools where
  "no_binary_tools = image_tools\<lparr>combined_output := (\<lambda>c b args w. (([], Some (SysErr ENOENT b)), w))\<rparr>"

theorem delete_without_runtime_witness:
  "fst (runc_Delete no_binary_tools removal_env (Some None) (Some launched_container) True launched_world) = Inr ()"
proof -
  have p: "c_provisioner launched_container = Some toy_prov" by (simp add: launched_container_def)
  have r: "fst (prov_Remove (pt_removal (rt_provision (ct_runtime no_binary_tools))) removal_env (Some toy_prov) (Some None)
      (c_bundle launched_container) launched_world) = Inr ()"
    by code_simp
  have "combined_output no_binary_tools None (cc_binaryPath launched_container) (delete_args launched_container True) launched_world =
      (([], Some (SysErr ENOENT (cc_binaryPath launched_container))), launched_world)"
    by (simp add: no_binary_tools_def)
  from delete_without_runtime [OF p _ _ this, of removal_env] r show ?thesis by (simp add: ctx_err_def)
qed



subsection \<open>Waiting for a container\<close>

lemma select2_some: "b = Some y \<Longrightarrow> \<exists>c t'. select2 pick a b t = Some (c, t') \<and> t \<le> t' \<and> t' \<le> max t y"
  by (auto simp: select2_def split: option.splits)

lemma select2_first: "select2 pick a b t = Some (True, t') \<Longrightarrow> \<exists>x. a = Some x \<and> t' = max t x \<and> (\<forall>y. b \<noteq> Some y \<or> max t x \<le> max t y)"
  by (auto simp: select2_def split: option.splits if_splits)

lemma select2_second: "select2 pick a b t = Some (False, t') \<Longrightarrow> \<exists>y. b = Some y \<and> t' = max t y \<and> (\<forall>x. a \<noteq> Some x \<or> max t y \<le> max t x)"
  by (auto simp: select2_def split: option.splits if_splits)

lemma close_stdio_None: "wait_err (close_stdio cs r) = None \<longleftrightarrow> wait_err r = None \<and> (\<forall>c \<in> set cs. c = None)"
  by (induction cs arbitrary: r) (auto split: option.split)

lemma close_stdio_sel: "exitCode (close_stdio cs r) = exitCode r \<and> exitedAt (close_stdio cs r) = exitedAt r"
  by (induction cs arbitrary: r) (auto split: option.split)

text \<open>The exit code a process reported.\<close>

definition exit_code :: "wait_outcome \<Rightarrow> int option" where
  "exit_code outcome = (case outcome of WaitOk \<Rightarrow> Some 0 | WaitExit n e \<Rightarrow> if n \<ge> 0 then Some n else None | WaitFailed e \<Rightarrow> None)"

lemma containerResult_ok:
  "containerResult k (await_process outcome closes t) = (res, None) \<longleftrightarrow>
     (\<exists>n. exit_code outcome = Some n \<and> (\<forall>c \<in> set closes. c = None) \<and>
        res = zero_result\<lparr>res_ContainerID := cc_id k, res_Status := Exited, res_ExitCode := Some n, res_ExitedAt := Some t\<rparr>)"
  using close_stdio_None [of closes "(convertWaitResult outcome)\<lparr>exitedAt := t\<rparr>"]
  by (cases outcome) (auto simp: containerResult_def Let_def await_process_def close_stdio_sel convertWaitResult_def exit_code_def split: option.splits)

lemma containerResult_time: "res_ExitedAt (fst (containerResult k (await_process outcome closes t))) = Some t"
  by (auto simp: containerResult_def Let_def await_process_def close_stdio_sel zero_result_def split: option.split)

text \<open>A result without an error is the exit of the process; every error is a cancellation or a failed wait.\<close>

definition honest :: "runcContainer \<Rightarrow> container_result \<Rightarrow> goerr option \<Rightarrow> bool" where
  "honest k res err \<longleftrightarrow>
     (case err of
        None \<Rightarrow> (\<exists>p d n. c_running k = Some p \<and> run_done p = Some d \<and> exit_code (run_outcome p) = Some n \<and> (\<forall>c \<in> set (close_errors p). c = None) \<and>
          res = zero_result\<lparr>res_ContainerID := cc_id k, res_Status := Exited, res_ExitCode := Some n, res_ExitedAt := res_ExitedAt res\<rparr>)
      | Some e \<Rightarrow> (errIs e ErrCanceled \<and> res_Status res = CanceledResult \<or> errIs e ErrRuntimeWaitFailed \<and> res_Status res = UnknownResult) \<and>
          res_ContainerID res = cc_id k \<and> res_Error res = ErrorText e \<and> res_ErrorCode res \<noteq> None)"

lemma close_stdio_error:
  "wait_err (close_stdio cs r) = Some e \<Longrightarrow> \<forall>e. wait_err r = Some e \<longrightarrow> errIs e ErrRuntimeWaitFailed \<Longrightarrow> errIs e ErrRuntimeWaitFailed"
proof (induction cs arbitrary: r)
  case (Cons c cs)
  show ?case
    by (rule Cons.IH [OF Cons.prems(1) [unfolded close_stdio.simps]]) (use Cons.prems(2) in \<open>auto split: option.splits\<close>)
qed simp

lemma containerResult_error:
  "containerResult k (await_process outcome closes t) = (res, Some e) \<Longrightarrow>
     errIs e ErrRuntimeWaitFailed \<and> res_Status res = UnknownResult \<and> res_ContainerID res = cc_id k \<and> res_Error res = ErrorText e \<and> res_ErrorCode res \<noteq> None"
proof -
  have "\<forall>e. wait_err ((convertWaitResult outcome)\<lparr>exitedAt := t\<rparr>) = Some e \<longrightarrow> errIs e ErrRuntimeWaitFailed"
    by (auto simp: convertWaitResult_def split: wait_outcome.splits if_splits)
  then show "containerResult k (await_process outcome closes t) = (res, Some e) \<Longrightarrow> ?thesis"
    using close_stdio_error by (auto simp: containerResult_def Let_def await_process_def zero_result_def split: option.splits)
qed

lemma containerResult_honest:
  assumes "c_running k = Some p" "run_done p = Some d" "containerResult k (await_process (run_outcome p) (close_errors p) t) = (res, err)"
  shows "honest k res err"
proof (cases err)
  case None
  then show ?thesis using assms containerResult_ok [of k "run_outcome p" "close_errors p" t res]
    by (auto simp: honest_def zero_result_def)
qed (use assms containerResult_error in \<open>auto simp: honest_def\<close>)

lemma wait_canceled_returns:
  assumes "c_running k \<noteq> None"
  shows "\<exists>res e w'. wait_canceled tools env pick t k w = Some ((res, Some e), w') \<and> honest k res (Some e) \<and> errIs e ErrCanceled \<and>
    now w' \<le> now (snd (runc_Delete tools env (Some None) (Some k) True w)) + forcedDeleteWait tools"
proof -
  obtain p where p: "c_running k = Some p" using assms by blast
  obtain r w1 where d: "runc_Delete tools env (Some None) (Some k) True w = (r, w1)" by fastforce
  show ?thesis
  proof (cases "case r of Inl e \<Rightarrow> \<not> looksAlreadyDeleted e | Inr _ \<Rightarrow> False")
    case True
    then show ?thesis using d by (simp add: wait_canceled_def Let_def honest_def errorResult_def)
  next
    case False
    obtain b t2 where s: "select2 pick (kill_done p t) (Some (now w1 + forcedDeleteWait tools)) (now w1) = Some (b, t2)"
        "t2 \<le> now w1 + forcedDeleteWait tools"
      using select2_some [of "Some (now w1 + forcedDeleteWait tools)" _ pick "kill_done p t" "now w1"] by auto
    obtain res we where c: "containerResult k (await_process (kill_outcome p) (close_errors p) t2) = (res, we)" by fastforce
    have i: "res_ContainerID res = cc_id k"
      using c by (auto simp: containerResult_def Let_def zero_result_def split: option.splits)
    show ?thesis
    proof (cases b)
      case True
      then show ?thesis using d False p s c i
        by (cases we) (simp_all add: wait_canceled_def Let_def honest_def wait_until_def)
    next
      case b: False
      then show ?thesis using d False p s
        by (simp add: wait_canceled_def Let_def honest_def errorResult_def wait_until_def)
    qed
  qed
qed



end
