(* ===== verification/Runtime_Contract.thy ===== *)
theory Runtime_Contract
  imports Container_Safety
begin

text \<open>
  \<open>RunAndWait\<close> of \<open>pkg/runtime/contract.go\<close>, the function that turns every way in which a run can
  end into one result, over the interfaces \<open>Runtime\<close> and \<open>Container\<close>.

  The interfaces are the operations it calls, as a record. The locale states what it relies on:
  a container that is waited for without an error has exited. The runc runtime is an instance.
\<close>

record 'c runtime_ops =
  op_Run :: "ctx option \<Rightarrow> run_request \<Rightarrow> 'c io"
  op_ID :: "'c \<Rightarrow> string"
  op_Delete :: "ctx option \<Rightarrow> 'c \<Rightarrow> bool \<Rightarrow> unit io"
  op_Wait :: "ctx option \<Rightarrow> 'c \<Rightarrow> container_result blocking"

text \<open>The result of a run that failed, at time \<open>t\<close>.\<close>

definition failed_result :: "string \<Rightarrow> result_status \<Rightarrow> code \<Rightarrow> goerr \<Rightarrow> nat \<Rightarrow> container_result" where
  "failed_result i status fallback e t =
     zero_result\<lparr>res_ContainerID := i, res_Status := status, res_ErrorCode := Some (CodeFromError e fallback),
       res_Error := ErrorText e, res_ExitedAt := Some t\<rparr>"

definition finish_wait :: "'c runtime_ops \<Rightarrow> 'c \<Rightarrow> nat \<Rightarrow> container_result \<times> goerr option \<Rightarrow> container_result \<times> goerr option" where
  "finish_wait rt container startedAt waited =
     (case waited of
        (result, waitErr) \<Rightarrow>
          let result = result\<lparr>res_ContainerID := op_ID rt container, res_StartedAt := Some startedAt\<rparr> in
          (case waitErr of
             None \<Rightarrow> (result, None)
           | Some e \<Rightarrow>
               if errIs e ErrCanceled
               then (result\<lparr>res_Status := CanceledResult, res_ErrorCode := Some (CodeFromError e ErrCanceled), res_Error := ErrorText e\<rparr>, Some e)
               else (result\<lparr>res_Status := UnknownResult, res_ErrorCode := Some (CodeFromError e ErrRuntimeWaitFailed), res_Error := ErrorText e\<rparr>, Some e)))"

definition RunAndWait ::
    "'c runtime_ops option \<Rightarrow> ctx option \<Rightarrow> run_request \<Rightarrow> ('c \<Rightarrow> unit io) option \<Rightarrow> container_result blocking" where
  "RunAndWait ort oc request started w =
     (case ort of
        None \<Rightarrow>
          let err = codef ErrInvalidRequest ''runtime is required'' []
          in Some ((failed_result (rr_ContainerID request) StartFailed ErrRuntimeStartFailed err (now w), Some err), w)
      | Some rt \<Rightarrow>
     (case op_Run rt oc request w of
        (Inl err, w1) \<Rightarrow> Some ((failed_result (rr_ContainerID request) StartFailed ErrRuntimeStartFailed err (now w1), Some err), w1)
      | (Inr container, w1) \<Rightarrow>
          let startedAt = now w1 in
          (case (case started of None \<Rightarrow> (Inr (), w1) | Some f \<Rightarrow> f container w1) of
             (Inl err, w2) \<Rightarrow>
               let w3 = snd (op_Delete rt (Some None) container True w2)
               in Some (((failed_result (op_ID rt container) UnknownResult ErrRuntimeWaitFailed err (now w3))\<lparr>res_StartedAt := Some startedAt\<rparr>, Some err), w3)
           | (Inr _, w2) \<Rightarrow>
               (case op_Wait rt oc container w2 of
                  None \<Rightarrow> None
                | Some (waited, w3) \<Rightarrow> Some (finish_wait rt container startedAt waited, w3)))))"

subsection \<open>Well-formed results\<close>

text \<open>
  The fields agree with each other: an exit has its code and no error, everything else has an
  error code and text, and only a failed launch has no start time.
\<close>

definition well_formed :: "container_result \<Rightarrow> goerr option \<Rightarrow> bool" where
  "well_formed res err \<longleftrightarrow>
     (case err of
        None \<Rightarrow> res_Status res = Exited \<and> (\<exists>n\<ge>0. res_ExitCode res = Some n) \<and> res_ErrorCode res = None \<and> res_Error res = [] \<and> res_StartedAt res \<noteq> None
      | Some e \<Rightarrow> res_Status res \<in> {StartFailed, CanceledResult, UnknownResult} \<and> res_ErrorCode res \<noteq> None \<and> res_Error res = ErrorText e \<and>
          (res_StartedAt res = None) = (res_Status res = StartFailed) \<and> (res_Status res = CanceledResult \<longrightarrow> errIs e ErrCanceled))"

locale container_runtime =
  fixes ops :: "'c runtime_ops"
  assumes waits: "op_Wait ops oc k w = Some ((res, None), w') \<Longrightarrow>
    res_Status res = Exited \<and> (\<exists>n\<ge>0. res_ExitCode res = Some n) \<and> res_ErrorCode res = None \<and> res_Error res = []"
begin

lemma finish_well_formed: "op_Wait ops oc k w = Some (waited, w') \<Longrightarrow> finish_wait ops k t waited = (res, err) \<Longrightarrow> well_formed res err"
  using waits [of oc k w "fst waited" w']
  by (cases waited) (auto simp: finish_wait_def Let_def well_formed_def split: option.splits if_splits)

lemma RunAndWait_well_formed:
  assumes "RunAndWait ort oc request started w = Some ((res, err), w')" "\<forall>rt. ort = Some rt \<longrightarrow> rt = ops"
  shows "well_formed res err"
proof (cases ort)
  case None
  then show ?thesis using assms by (auto simp: RunAndWait_def Let_def well_formed_def failed_result_def zero_result_def)
next
  case (Some rt)
  then have rt: "ort = Some ops" using assms(2) by simp
  obtain r w1 where r: "op_Run ops oc request w = (r, w1)" by fastforce
  show ?thesis
  proof (cases r)
    case (Inl e)
    then show ?thesis using assms(1) rt r by (auto simp: RunAndWait_def well_formed_def failed_result_def zero_result_def)
  next
    case (Inr k)
    obtain s w2 where s: "(case started of None \<Rightarrow> (Inr (), w1) | Some f \<Rightarrow> f k w1) = (s, w2)" by fastforce
    show ?thesis
    proof (cases s)
      case (Inl e)
      then show ?thesis using assms(1) rt r Inr s
        by (auto simp: RunAndWait_def Let_def well_formed_def failed_result_def zero_result_def)
    next
      case (Inr u)
      then obtain waited w3 where "op_Wait ops oc k w2 = Some (waited, w3)" "finish_wait ops k (now w1) waited = (res, err)"
        using assms(1) rt r \<open>r = Inr k\<close> s by (auto simp: RunAndWait_def Let_def split: option.splits)
      then show ?thesis by (rule finish_well_formed)
    qed
  qed
qed

end

text \<open>The runc runtime behind the interface; containers are never nil.\<close>

definition runc_ops :: "container_tools \<Rightarrow> host_env \<Rightarrow> runc_runtime \<Rightarrow> bool \<times> bool \<Rightarrow> runcContainer runtime_ops" where
  "runc_ops tools env r picks =
     \<lparr>op_Run = runc_Run tools env r, op_ID = cc_id, op_Delete = (\<lambda>oc k. runc_Delete tools env oc (Some k)),
      op_Wait = (\<lambda>oc k. runc_Wait tools env picks oc (Some k))\<rparr>"

lemma runc_Wait_honest:
  assumes "runc_Wait tools env picks oc (Some k) w = Some ((res, None), w')"
  shows "honest k res None"
proof -
  obtain c where c: "oc = Some c" using assms by (cases oc) (auto simp: runc_Wait_def)
  obtain b t where s: "select2 (fst picks) (case c_running k of None \<Rightarrow> None | Some p \<Rightarrow> run_done p) c (now w) = Some (b, t)"
    using assms c by (auto simp: runc_Wait_def split: option.splits)
  have p: "c_running k \<noteq> None" if "\<not> b"
  proof
    assume "c_running k = None"
    then show False using assms c s that by (auto simp: runc_Wait_def wait_canceled_def Let_def select2_def split: option.splits prod.splits if_splits bool.splits)
  qed
  show ?thesis
  proof (cases b)
    case True
    with s have "select2 (fst picks) (case c_running k of None \<Rightarrow> None | Some p \<Rightarrow> run_done p) c (now w) = Some (True, t)" by simp
    from select2_first [OF this] obtain d where d: "(case c_running k of None \<Rightarrow> None | Some p \<Rightarrow> run_done p) = Some d" by blast
    then obtain p where p: "c_running k = Some p" "run_done p = Some d" by (cases "c_running k") auto
    then have "containerResult k (await_process (run_outcome p) (close_errors p) t) = (res, None)"
      using assms c s True by (auto simp: runc_Wait_def)
    then show ?thesis by (rule containerResult_honest [OF p])
  next
    case False
    then obtain res' e w2 where "wait_canceled tools env (snd picks) t k (wait_until t w) = Some ((res', Some e), w2)"
      using wait_canceled_returns [OF p [OF False]] by blast
    then show ?thesis using assms c s False by (simp add: runc_Wait_def)
  qed
qed

lemma exit_code_nonneg: "exit_code outcome = Some n \<Longrightarrow> 0 \<le> n"
  by (auto simp: exit_code_def split: wait_outcome.splits if_splits)

interpretation runc: container_runtime "runc_ops tools env r picks" for tools env r picks
proof
  fix oc k w res w' assume "op_Wait (runc_ops tools env r picks) oc k w = Some ((res, None), w')"
  then have "honest k res None" by (simp add: runc_ops_def runc_Wait_honest)
  then obtain n where n: "0 \<le> n" "res = zero_result\<lparr>res_ContainerID := cc_id k, res_Status := Exited, res_ExitCode := Some n, res_ExitedAt := res_ExitedAt res\<rparr>"
    unfolding honest_def option.case using exit_code_nonneg by blast
  have "res_Status res = Exited" "res_ExitCode res = Some n" "res_ErrorCode res = None" "res_Error res = []"
    by (subst n(2), simp add: zero_result_def)+
  with n(1) show "res_Status res = Exited \<and> (\<exists>n\<ge>0. res_ExitCode res = Some n) \<and> res_ErrorCode res = None \<and> res_Error res = []" by simp
qed

text \<open>
  C36. Every result of \<open>RunAndWait\<close> with the runc runtime is well formed, however the run ends: a
  result without an error is an exit with a non-negative code and no error fields; any other
  one has an error code and the text of the error, is marked canceled only if the error is a
  cancellation, and lacks a start time exactly when the container was not started.
\<close>

theorem run_results_well_formed:
  assumes "RunAndWait (Some (runc_ops tools env r picks)) oc request started w = Some ((res, err), w')"
  shows "well_formed res err"
  by (rule runc.RunAndWait_well_formed [OF assms]) simp

theorem run_results_well_formed_witness:
  "case RunAndWait (Some (runc_ops image_tools removal_env image_runtime (True, True))) (Some None)
      \<lparr>rr_ContainerID = ''c1'', rr_BundlePath = ''/w/image-u'', rr_Stdin = None, rr_Stdout = [], rr_Stderr = []\<rparr> None provisioned_world of
     Some ((res, err), w') \<Rightarrow> res_ExitCode res = Some 3 \<and> well_formed res err | None \<Rightarrow> False"
proof -
  let ?k = "launched_container\<lparr>c_provisioner := None, c_bundle := \<lparr>BundleID = [], BundlePath = []\<rparr>\<rparr>"
  let ?run = "RunAndWait (Some (runc_ops image_tools removal_env image_runtime (True, True))) (Some None)
      \<lparr>rr_ContainerID = ''c1'', rr_BundlePath = ''/w/image-u'', rr_Stdin = None, rr_Stdout = [], rr_Stderr = []\<rparr> None provisioned_world"
  have "case runc_Wait image_tools removal_env (True, True) (Some None) (Some ?k) launched_world of
      Some ((res, err), w') \<Rightarrow> res_ExitCode res = Some 3 \<and> err = None | None \<Rightarrow> False"
    by code_simp
  then obtain res err w' where r: "?run = Some ((res, err), w')" "res_ExitCode res = Some 3"
    using started by (auto simp: RunAndWait_def runc_ops_def Let_def finish_wait_def split: option.splits)
  from run_results_well_formed [OF r(1)] r show ?thesis by simp
qed

end
