(* ===== verification/Commits.thy ===== *)
theory Commits
  imports Runs
begin

text \<open>
  Files that are replaced as a whole: a temporary file is written, synced, closed and renamed,
  as the image store and its metadata do. \<open>kept S\<close> says that the paths of \<open>S\<close> are untouched; the
  temporary files are outside \<open>S\<close> when no component of a path in \<open>S\<close> looks like one.
\<close>

subsection \<open>One step at a time\<close>

lemma try_lift_err: "(\<And>e. r = Some e \<Longrightarrow> Q (Inl e) w) \<Longrightarrow> (r = None \<Longrightarrow> post (k ()) Q w) \<Longrightarrow> post (tryE (lift_err r) k) Q w"
  by (cases r) (simp_all add: lift_err_def wp)

lemma try_lift_sum: "(\<And>e. r = Inl e \<Longrightarrow> Q (Inl e) w) \<Longrightarrow> (\<And>a. r = Inr a \<Longrightarrow> post (k a) Q w) \<Longrightarrow> post (tryE (lift_sum r) k) Q w"
  by (cases r) (simp_all add: lift_sum_def wp)

lemma try_wrapped_sum: "(\<And>e. Q (Inl e) w) \<Longrightarrow> (\<And>a. r = Inr a \<Longrightarrow> post (k a) Q w) \<Longrightarrow> post (tryE (wrapped f (lift_sum r)) k) Q w"
  by (cases r) (simp_all add: lift_sum_def wp)

lemma post_cond: "(b \<Longrightarrow> post m Q w) \<Longrightarrow> (\<not> b \<Longrightarrow> post n Q w) \<Longrightarrow> post (if b then m else n) Q w"
  by simp

lemma post_ReadFile:
  assumes "\<forall>t. node_at w p \<noteq> Some (LinkNode t)"
    and "\<And>e w'. node_at w' = node_at w \<Longrightarrow> e = ENOENT \<longrightarrow> node_at w p = None \<Longrightarrow> Q (Inl (SysErr e p)) w'"
    and "\<And>d m u w'. node_at w' = node_at w \<Longrightarrow> node_at w p = Some (FileNode d m u) \<Longrightarrow> Q (Inr d) w'"
  shows "post (ReadFile p) Q w"
  unfolding ReadFile_def
proof (rule post_syscall)
  fix e and w1 :: world assume "e \<noteq> ENOENT" "files w1 = files w"
  then show "Q (Inl (SysErr e p)) w1" using assms(2) [of w1 e] node_at_ext [of w1 w] by simp
next
  fix w1 :: world assume "files w1 = files w"
  then have n: "node_at w1 = node_at w" by (rule node_at_ext)
  have r: "resolve 40 w1 p = Some p" using resolve_nonlink [of w1 p 39] assms(1) n by (simp add: numeral_eq_Suc)
  show "case (case resolve 40 w1 p of None \<Rightarrow> Inl EIO
        | Some q \<Rightarrow> (case node_at w1 q of None \<Rightarrow> Inl ENOENT | Some (FileNode d m u) \<Rightarrow> Inr d | _ \<Rightarrow> Inl EISDIR), w1) of
      (Inl e, w'') \<Rightarrow> Q (Inl (SysErr e p)) w'' | (Inr a, w'') \<Rightarrow> Q (Inr a) w''"
    unfolding r using assms(2,3) [OF n] n by (auto split: option.split node.split)
qed

lemma try_run:
  assumes "\<And>e w'. m w = (Inl e, w') \<Longrightarrow> Q (Inl e) w'" "\<And>a w'. m w = (Inr a, w') \<Longrightarrow> post (k a) Q w'"
  shows "post (tryE m k) Q w"
  using assms by (cases "m w"; cases "fst (m w)") (auto simp: post_def tryE_def)

lemma try_wrapped_run:
  assumes "\<And>e w'. m w = (Inl e, w') \<Longrightarrow> Q (Inl (f e)) w'" "\<And>a w'. m w = (Inr a, w') \<Longrightarrow> post (k a) Q w'"
  shows "post (tryE (wrapped f m) k) Q w"
  using assms by (cases "m w"; cases "fst (m w)") (auto simp: post_def tryE_def wrapped_def)

lemma keeps_run: "keeps R m \<Longrightarrow> m w = (r, w') \<Longrightarrow> R w w'"
  unfolding keeps_def by (metis snd_conv)

subsection \<open>Paths that are kept\<close>

text \<open>An existing node stays as it is; only a directory may appear.\<close>

definition kept :: "string set \<Rightarrow> world \<Rightarrow> world \<Rightarrow> bool" where
  "kept S w w' \<longleftrightarrow> (\<forall>p \<in> S. node_at w' p = node_at w p \<or> node_at w p = None \<and> is_dir (node_at w' p))"

interpretation kept: tree_order "kept S" for S
proof
  show "kept S u w" if "kept S u v" "kept S v w" for u v w
    using that unfolding kept_def by (metis is_dir.simps(2))
  show "kept S w w'" if "files w' = files w" for w w'
    using node_at_ext [OF that] by (simp add: kept_def)
  show "kept S w w'" if "node_at w' = node_at w" for w w'
    using that by (simp add: kept_def)
qed

lemma kept_subset: "kept S w w' \<Longrightarrow> T \<subseteq> S \<Longrightarrow> kept T w w'"
  by (auto simp: kept_def)

lemma keeps_kept_subset: "keeps (kept S) m \<Longrightarrow> T \<subseteq> S \<Longrightarrow> keeps (kept T) m"
  unfolding keeps_def by (blast intro: kept_subset)

lemma kept_UNIV_MkdirAll: "keeps (kept S) (MkdirAll p 448 0)"
  by (rule keepsI, rule post_mono [OF post_MkdirAll]) (auto simp: kept_def dirs_added_def)

lemmas kept_lifts [keeps_rules] = reads_lifts [THEN kept.keeps_reads]

lemma kept_createDirectory: "keeps (kept S) (createDirectory p label priv)"
  unfolding createDirectory_def directory_checked_def
  by (intro keeps_rules kept_UNIV_MkdirAll)

lemma kept_outside: "node_at w' = (node_at w)(p := x) \<Longrightarrow> p \<notin> S \<Longrightarrow> kept S w w'"
  by (auto simp: kept_def)

lemma kept_FWrite: "p \<notin> S \<Longrightarrow> keeps (kept S) (FWrite p d)"
proof (rule keepsI)
  fix w assume p: "p \<notin> S"
  have a: "kept S w (append_data p x w1)" if "node_at w1 = node_at w" for x w1
    using that p by (auto simp: kept_def node_at_append split: option.splits node.splits)
  show "post (FWrite p d) (\<lambda>r w'. kept S w w') w"
    unfolding FWrite_def by (rule post_syscall_with) (auto intro: a node_at_ext)
qed

lemma kept_Remove: "p \<notin> S \<Longrightarrow> keeps (kept S) (Remove p)"
  by (rule keepsI, rule post_Remove) (auto intro: kept.same_tree kept_outside)

lemma kept_Rename:
  assumes "\<forall>r \<in> S. \<not> inside p r \<and> \<not> inside q r"
  shows "keeps (kept S) (Rename p q)"
  by (rule keepsI, rule post_Rename) (use assms node_at_move_other in \<open>auto simp: kept_def intro: kept.same_tree\<close>)

subsection \<open>Names of temporary files\<close>

lemma Base_abs_path:
  assumes "safe_component c"
  shows "Base (abs_path (cs @ [c])) = c"
proof -
  have "abs_path (cs @ [c]) = (if cs = [] then [] else abs_path cs) @ CHR ''/'' # c" by (simp add: abs_path_snoc)
  then obtain x where x: "abs_path (cs @ [c]) = x @ CHR ''/'' # c" by blast
  have c: "CHR ''/'' \<notin> set c" "c \<noteq> []" using assms by (auto simp: safe_component_def)
  have "dropWhile (\<lambda>z. z = CHR ''/'') (rev c @ CHR ''/'' # rev x) = rev c @ CHR ''/'' # rev x"
  proof (cases "rev c")
    case (Cons a as)
    then have "a \<in> set c" by (metis list.set_intros(1) set_rev)
    then show ?thesis using Cons c(1) by auto
  qed (use c(2) in simp)
  moreover have "takeWhile (\<lambda>z. z \<noteq> CHR ''/'') (rev c @ CHR ''/'' # rev x) = rev c"
    using c(1) by (subst takeWhile_append2) auto
  moreover obtain a as where "rev c @ CHR ''/'' # rev x = a # as" by (cases "rev c @ CHR ''/'' # rev x") auto
  ultimately show ?thesis unfolding Base_def x by (simp del: takeWhile.simps dropWhile.simps)
qed

text \<open>No component of a path in \<open>S\<close> starts like the temporary files with the prefix \<open>pre\<close>.\<close>

definition clear :: "string \<Rightarrow> string set \<Rightarrow> bool" where
  "clear pre S \<longleftrightarrow> CHR ''/'' \<notin> set pre \<and> pre \<noteq> [] \<and> (\<forall>q \<in> S. \<exists>cs. list_all safe_component cs \<and> q = abs_path cs \<and> (\<forall>c \<in> set cs. \<not> HasPrefix c pre))"

definition temp_of :: "string \<Rightarrow> string \<Rightarrow> bool" where
  "temp_of pre p \<longleftrightarrow> (\<exists>d i. p = in_dir d pre @ FormatUint i)"

lemma clear_not_inside:
  assumes "clear pre S" "temp_of pre p" "q \<in> S"
  shows "\<not> inside p q"
proof
  assume "inside p q"
  then obtain t where t: "q = p @ t" "t = [] \<or> (\<exists>u. t = CHR ''/'' # u)" by (auto simp: inside_def HasPrefix_iff)
  obtain cs where cs: "list_all safe_component cs" "q = abs_path cs" "\<forall>c \<in> set cs. \<not> HasPrefix c pre" and pre: "CHR ''/'' \<notin> set pre" "pre \<noteq> []"
    using assms(1,3) by (auto simp: clear_def)
  obtain d i where p: "p = in_dir d pre @ FormatUint i" using assms(2) by (auto simp: temp_of_def)
  let ?n = "pre @ FormatUint i"
  have n: "CHR ''/'' \<notin> set ?n" using pre(1) digits_no_slash [of i] by simp
  obtain x where x: "p = x @ CHR ''/'' # ?n" using p by (cases "d = ''/''") (auto simp: in_dir_def)
  have "?n \<in> set (SplitChar (CHR ''/'') q)"
  proof (cases "t = []")
    case True
    then show ?thesis using t(1) x SplitChar_no_sep [OF n] by (simp add: SplitChar_concat)
  next
    case False
    then obtain u where "t = CHR ''/'' # u" using t(2) by auto
    then have "q = x @ CHR ''/'' # ?n @ CHR ''/'' # u" using t(1) x by simp
    then show ?thesis using SplitChar_append [OF n, of u] by (simp add: SplitChar_concat del: append.assoc append_assoc)
  qed
  moreover have "?n \<noteq> []" using pre(2) by simp
  moreover have "set (SplitChar (CHR ''/'') q) \<subseteq> insert [] (set cs)"
    using SplitChar_abs_path [OF cs(1)] cs(2) by (cases "cs = []") auto
  ultimately have "?n \<in> set cs" by blast
  then show False using cs(3) HasPrefix_append [of pre "FormatUint i"] by blast
qed

lemma clear_not_in: "clear pre S \<Longrightarrow> temp_of pre p \<Longrightarrow> p \<notin> S"
  using clear_not_inside inside_refl by blast

lemma clear_subset: "clear pre S \<Longrightarrow> T \<subseteq> S \<Longrightarrow> clear pre T"
  by (auto simp: clear_def)

text \<open>Creating a temporary file keeps everything but the new, empty file.\<close>

lemma kept_make_temp:
  assumes "clear pre S"
  shows "keeps (kept S) (make_temp n d pre)"
proof (rule keepsI, rule post_make_temp)
  fix w i w' assume "node_at w' = (node_at w)(in_dir d pre @ FormatUint i \<mapsto> n)"
  then show "kept S w w'" by (rule kept_outside) (rule clear_not_in [OF assms], auto simp: temp_of_def)
qed (rule kept.same_tree)

lemma reads_scopedPath:
  assumes "\<And>r p. reads (SJ r p)"
  shows "reads (scopedPath SJ root rel)"
proof -
  have "reads (RejectSymlinkComponents root rel)"
    by (simp add: RejectSymlinkComponents_def Let_def reads_comb reads_links)
  then show ?thesis unfolding scopedPath_def using assms by (intro reads_comb)
qed

lemma kept_ws_CreateTemp:
  assumes "\<And>r p. reads (SJ r p)" "clear pre S"
  shows "keeps (kept S) (ws_CreateTemp SJ ws rel pre)"
  unfolding ws_CreateTemp_def tmpPath_def CreateTemp_def
  by (intro keeps_rules kept_createDirectory kept_make_temp assms(2) kept.keeps_reads [OF reads_scopedPath [OF assms(1)]])

lemma kept_ws_MkdirTemp:
  assumes "\<And>r p. reads (SJ r p)" "clear pre S"
  shows "keeps (kept S) (ws_MkdirTemp SJ ws rel pre)"
  unfolding ws_MkdirTemp_def tmpPath_def MkdirTemp_def
  by (intro keeps_rules kept_createDirectory kept_make_temp assms(2) kept.keeps_reads [OF reads_scopedPath [OF assms(1)]])

lemma temp_created:
  assumes "ws_CreateTemp SJ ws rel pre w = (Inr p, w')"
  shows "temp_of pre p \<and> node_at w' p = Some (FileNode [] 384 0)"
  using postD [OF CreateTemp_post assms] by (auto simp: temp_of_def)

subsection \<open>Writing and publishing\<close>

text \<open>The sequence of \<open>writeIndexAtomic\<close> and \<open>Put\<close> once the temporary file exists; \<open>sync\<close> syncs the directory.\<close>

definition commit_file ::
    "(goerr \<Rightarrow> goerr) \<Rightarrow> (goerr \<Rightarrow> goerr) \<Rightarrow> (goerr \<Rightarrow> goerr) \<Rightarrow> (goerr \<Rightarrow> goerr) \<Rightarrow> string \<Rightarrow> string \<Rightarrow> string \<Rightarrow> unit io \<Rightarrow> unit io" where
  "commit_file onWrite onSync onClose onRename tmp data path sync =
     unless_committed tmp
      (attempt (FWrite tmp data) (\<lambda>r. case r of Inl e \<Rightarrow> close_and_fail tmp (onWrite e) | Inr _ \<Rightarrow>
       attempt (Effectless tmp) (\<lambda>r. case r of Inl e \<Rightarrow> close_and_fail tmp (onSync e) | Inr _ \<Rightarrow>
       tryE (wrapped onClose (Effectless tmp)) (\<lambda>_.
       tryE (wrapped onRename (Rename tmp path)) (\<lambda>_. sync)))))"

lemma kept_close_and_fail [keeps_rules]: "keeps (kept S) (close_and_fail p e)"
  unfolding close_and_fail_def by (intro keeps_rules)

lemma kept_unless_committed: "keeps (kept S) m \<Longrightarrow> p \<notin> S \<Longrightarrow> keeps (kept S) (unless_committed p m)"
  unfolding unless_committed_def by (intro keeps_rules kept_Remove)

lemma kept_commit_file:
  assumes "tmp \<notin> S" "\<forall>r \<in> S. \<not> inside tmp r \<and> \<not> inside path r" "reads sync"
  shows "keeps (kept S) (commit_file f1 f2 f3 f4 tmp data path sync)"
  unfolding commit_file_def
  by (intro keeps_rules kept_unless_committed assms(1) kept_FWrite kept_Rename assms(2) kept.keeps_reads [OF assms(3)])

text \<open>The outcome: nothing was published, or the complete file was.\<close>

lemma commit_file_post:
  assumes "node_at w tmp = Some (FileNode [] m u)" "tmp \<noteq> path" "reads sync" "\<not> inside tmp path"
  shows "post (commit_file f1 f2 f3 f4 tmp data path sync)
    (\<lambda>r w'. (node_at w' path = node_at w path \<or> node_at w' path = Some (FileNode data m u)) \<and> (r = Inr () \<longrightarrow> node_at w' path = Some (FileNode data m u))) w"
    (is "post _ ?Q w")
proof -
  let ?old = "\<lambda>w'. node_at w' path = node_at w path" and ?new = "\<lambda>w'. node_at w' path = Some (FileNode data m u)"
  have closed: "post (close_and_fail tmp e) ?Q w1" if "?old w1" for e w1
    unfolding close_and_fail_def by (rule att_reads) (use that in \<open>auto simp: wp\<close>)
  have sync: "post sync ?Q w1" if "?new w1" for w1 by (rule post_reads [OF assms(3)]) (use that in simp)
  have ren: "post (tryE (wrapped f4 (Rename tmp path)) (\<lambda>_. sync)) ?Q w1"
    if "?old w1" "node_at w1 tmp = Some (FileNode data m u)" for w1
    unfolding post_tryE post_wrapped
  proof (rule post_Rename, goal_cases)
    case (2 w2)
    then have "node_at w2 tmp = Some (FileNode data m u)" using that(2) by simp
    note sync [OF node_at_move_target [OF this]]
    then show ?case by simp
  qed (use that assms(2) in \<open>auto\<close>)
  let ?close = "tryE (wrapped f3 (Effectless tmp)) (\<lambda>_. tryE (wrapped f4 (Rename tmp path)) (\<lambda>_. sync))"
  have close: "post ?close ?Q w1" if "?old w1" "node_at w1 tmp = Some (FileNode data m u)" for w1
    by (rule try_reads) (use that in \<open>auto intro!: ren reads_comb\<close>)
  have synced: "post (attempt (Effectless tmp) (\<lambda>r. case r of Inl e \<Rightarrow> close_and_fail tmp (f2 e) | Inr _ \<Rightarrow> ?close)) ?Q w1"
    if "?old w1" "node_at w1 tmp = Some (FileNode data m u)" for w1
  proof (rule att_reads)
    fix r and w2 :: world assume "node_at w2 = node_at w1"
    then show "post (case r of Inl e \<Rightarrow> close_and_fail tmp (f2 e) | Inr _ \<Rightarrow> ?close) ?Q w2"
      using that closed close by (cases r) simp_all
  qed simp
  have body: "post (attempt (FWrite tmp data) (\<lambda>r. case r of Inl e \<Rightarrow> close_and_fail tmp (f1 e) | Inr _ \<Rightarrow>
       attempt (Effectless tmp) (\<lambda>r. case r of Inl e \<Rightarrow> close_and_fail tmp (f2 e) | Inr _ \<Rightarrow> ?close))) ?Q w"
    by (rule attI, rule post_FWrite [OF assms(1)]) (use assms(2) in \<open>simp_all only: sum.case fun_upd_other closed synced fun_upd_same append_Nil not_sym\<close>)
  show ?thesis
    unfolding commit_file_def unless_committed_def
  proof (rule attI, rule post_mono [OF body])
    fix r w1 assume q: "?Q r w1"
    show "post (case r of Inr a \<Rightarrow> ret a | Inl e \<Rightarrow> attempt (Remove tmp) (\<lambda>_. fail e)) ?Q w1"
    proof (cases r)
      case (Inl e)
      show ?thesis
        unfolding Inl sum.case
        by (rule attI, rule post_Remove) (use q assms(2) in \<open>auto simp: wp\<close>)
    qed (use q in \<open>simp add: wp\<close>)
  qed
qed

end
