(* ===== verification/Metadata.thy ===== *)
theory Metadata
  imports Commits "HOL-Library.Char_ord" "HOL-Library.List_Lexorder" "HOL-Library.Product_Lexorder"
begin

text \<open>
  \<open>pkg/image/internal/metadata\<close>: one JSON file per image, named by a hash of its reference and
  platform.

  SHA-256, JSON and the formatting of times are parameters. A time is a number, \<open>0\<close> is Go's
  zero time.
\<close>

subsection \<open>Data\<close>

record metadataFile =
  mf_Reference :: string
  mf_Digest :: string
  mf_Platform :: platform
  mf_Source :: string
  mf_SizeBytes :: int
  mf_CreatedAt :: string
  mf_UpdatedAt :: string

record metadata_tools =
  mt_lib :: image_lib
  mt_join :: secure_join
  mt_arch :: string
  mt_sha256 :: "string \<Rightarrow> string"
  encode_record :: "metadataFile \<Rightarrow> string"
  decode_record :: "string \<Rightarrow> goerr + metadataFile"
  format_time :: "int \<Rightarrow> string"
  time_parse :: "string \<Rightarrow> goerr + int"

record JSONMetadata =
  md_root :: string
  imagesRoot :: string
  md_workspace :: "workspace option"

definition platformKey :: "metadata_tools \<Rightarrow> platform \<Rightarrow> string" where
  "platformKey tools p =
     (let normalized = NormalizePlatform (mt_arch tools) p in OS normalized @ ''/'' @ Architecture normalized @ ''/'' @ Variant normalized)"

definition Key :: "metadata_tools \<Rightarrow> string \<Rightarrow> platform \<Rightarrow> string" where
  "Key tools reference p = HexEncode (mt_sha256 tools (reference @ [CHR 0x0A] @ platformKey tools p))"

definition recordPath :: "metadata_tools \<Rightarrow> JSONMetadata \<Rightarrow> string \<Rightarrow> platform \<Rightarrow> string" where
  "recordPath tools m reference p = Join [imagesRoot m, Key tools reference p @ ''.json'']"

definition md_syncDir :: "string \<Rightarrow> unit io" where
  "md_syncDir path =
     tryE (wrapped (\<lambda>e. codef ErrFilesystemFailed ''open directory for sync'' [e]) (OpenRead path)) (\<lambda>_.
       deferred (Effectless path) (wrapped (\<lambda>e. codef ErrFilesystemFailed ''sync directory'' [e]) (Effectless path)))"

definition filesystem :: "string \<Rightarrow> goerr \<Rightarrow> goerr" where
  "filesystem what e = codef ErrFilesystemFailed what [e]"

definition NewJSON :: "metadata_tools \<Rightarrow> string \<Rightarrow> workspace option \<Rightarrow> JSONMetadata io" where
  "NewJSON tools root ows =
     (case ows of
        None \<Rightarrow> fail (codef ErrInvalidRequest ''image metadata workspace is required'' [])
      | Some ws \<Rightarrow>
          if TrimSpace root = [] then fail (codef ErrInvalidRequest ''image metadata root is required'' [])
          else let images = Join [root, ''images''] in
            tryE (wrapped (\<lambda>e. codef ErrInvalidRequest ''resolve image metadata root'' [e]) (lift_sum (Rel (ws_root ws) root))) (\<lambda>rootRel.
            tryE (wrapped (\<lambda>e. codef ErrInvalidRequest ''resolve image metadata images root'' [e]) (lift_sum (Rel (ws_root ws) images))) (\<lambda>imagesRel.
            tryE (wrapped (filesystem ''create image metadata root'') (MkdirPrivate (mt_join tools) ows rootRel)) (\<lambda>_.
            tryE (wrapped (filesystem ''create image metadata images root'') (MkdirPrivate (mt_join tools) ows imagesRel)) (\<lambda>_.
              ret \<lparr>md_root = root, imagesRoot = images, md_workspace = ows\<rparr>)))))"

text \<open>\<open>requireReady\<close>, then the rest with the context and the workspace it checked.\<close>

definition md_requireReady :: "ctx option \<Rightarrow> JSONMetadata option \<Rightarrow> (JSONMetadata \<Rightarrow> workspace \<Rightarrow> 'a io) \<Rightarrow> 'a io" where
  "md_requireReady oc om k =
     (case oc of
        None \<Rightarrow> fail (codef ErrInvalidRequest ''context is required'' [])
      | Some c \<Rightarrow>
          check_ctx c id
           (let missing = fail (codef ErrInvalidRequest ''image metadata store is not initialized'' []) in
            case om of
              None \<Rightarrow> missing
            | Some m \<Rightarrow>
                if TrimSpace (imagesRoot m) = [] then missing
                else (case md_workspace m of None \<Rightarrow> missing | Some ws \<Rightarrow> k m ws)))"

definition SourcePulled :: string where
  "SourcePulled = ''pulled''"

definition SourceBuilt :: string where
  "SourceBuilt = ''built''"

definition validateImage :: "metadata_tools \<Rightarrow> image \<Rightarrow> goerr option" where
  "validateImage tools img =
     (case CanonicalImageReference (mt_lib tools) (Reference img) of
        Inl e \<Rightarrow> Some e
      | Inr _ \<Rightarrow>
          if TrimSpace (ImageDigest img) = [] then Some (codef ErrMetadataFailed ''image metadata digest is required'' [])
          else if Source img \<noteq> SourcePulled \<and> Source img \<noteq> SourceBuilt then Some (codef ErrMetadataFailed ''image metadata source is invalid'' [])
          else if SizeBytes img < 0 then Some (codef ErrMetadataFailed ''image metadata size cannot be negative'' [])
          else if CreatedAt img = 0 \<or> UpdatedAt img = 0 then Some (codef ErrMetadataFailed ''image metadata timestamps are required'' [])
          else None)"

definition parseTime :: "metadata_tools \<Rightarrow> string \<Rightarrow> string \<Rightarrow> goerr + int" where
  "parseTime tools value field =
     (case time_parse tools value of
        Inl e \<Rightarrow> Inl (codef ErrMetadataFailed (''decode image metadata '' @ field) [e])
      | Inr t \<Rightarrow> Inr t)"

definition decodeImage :: "metadata_tools \<Rightarrow> string \<Rightarrow> goerr + image" where
  "decodeImage tools data =
     (case decode_record tools data of
        Inl e \<Rightarrow> Inl (codef ErrMetadataFailed ''decode image metadata record'' [e])
      | Inr payload \<Rightarrow>
     (case parseTime tools (mf_CreatedAt payload) ''created_at'' of
        Inl e \<Rightarrow> Inl e
      | Inr createdAt \<Rightarrow>
     (case parseTime tools (mf_UpdatedAt payload) ''updated_at'' of
        Inl e \<Rightarrow> Inl e
      | Inr updatedAt \<Rightarrow>
          let img = \<lparr>LayoutPath = [], Reference = mf_Reference payload, ImageDigest = mf_Digest payload,
                ImagePlatform = NormalizePlatform (mt_arch tools) (mf_Platform payload), Source = mf_Source payload,
                SizeBytes = mf_SizeBytes payload, CreatedAt = createdAt, UpdatedAt = updatedAt\<rparr> in
          (case validateImage tools img of Some e \<Rightarrow> Inl e | None \<Rightarrow> Inr img))))"

definition md_payload :: "metadata_tools \<Rightarrow> image \<Rightarrow> metadataFile" where
  "md_payload tools img =
     \<lparr>mf_Reference = Reference img, mf_Digest = ImageDigest img, mf_Platform = NormalizePlatform (mt_arch tools) (ImagePlatform img),
      mf_Source = Source img, mf_SizeBytes = SizeBytes img, mf_CreatedAt = format_time tools (CreatedAt img),
      mf_UpdatedAt = format_time tools (UpdatedAt img)\<rparr>"

definition md_Put :: "metadata_tools \<Rightarrow> JSONMetadata option \<Rightarrow> ctx option \<Rightarrow> image \<Rightarrow> unit io" where
  "md_Put tools om oc img =
     md_requireReady oc om (\<lambda>m ws.
       tryE (lift_err (validateImage tools img)) (\<lambda>_.
       let path = recordPath tools m (Reference img) (ImagePlatform img) in
       tryE (wrapped (filesystem ''resolve image metadata temp directory'') (lift_sum (Rel (ws_root ws) (imagesRoot m)))) (\<lambda>imagesRel.
       tryE (wrapped (filesystem ''create temporary image metadata file'')
           (ws_CreateTemp (mt_join tools) (Some ws) imagesRel (''.'' @ Base path @ ''.tmp-''))) (\<lambda>tmp.
         commit_file (\<lambda>e. codef ErrMetadataFailed ''encode image metadata'' [e]) (filesystem ''sync image metadata file'')
           (filesystem ''close image metadata file'') (filesystem ''commit image metadata file'')
           tmp (encode_record tools (md_payload tools img)) path (md_syncDir (imagesRoot m))))))"

definition md_Get :: "metadata_tools \<Rightarrow> JSONMetadata option \<Rightarrow> ctx option \<Rightarrow> string \<Rightarrow> platform \<Rightarrow> image io" where
  "md_Get tools om oc reference p =
     md_requireReady oc om (\<lambda>m ws.
       if TrimSpace reference = [] then fail (codef ErrInvalidImageReference ''image reference is required'' [])
       else attempt (ReadFile (recordPath tools m reference p)) (\<lambda>r.
         case r of
           Inl e \<Rightarrow>
             if errIsNotExist e then fail (codef ErrImageNotFound ''image metadata record not found'' [])
             else fail (codef ErrFilesystemFailed ''read image metadata record'' [e])
         | Inr data \<Rightarrow> lift_sum (decodeImage tools data)))"

definition md_Delete :: "metadata_tools \<Rightarrow> JSONMetadata option \<Rightarrow> ctx option \<Rightarrow> string \<Rightarrow> platform \<Rightarrow> unit io" where
  "md_Delete tools om oc reference p =
     md_requireReady oc om (\<lambda>m ws.
       if TrimSpace reference = [] then fail (codef ErrInvalidImageReference ''image reference is required'' [])
       else attempt (Remove (recordPath tools m reference p)) (\<lambda>r.
         case r of
           Inl e \<Rightarrow> if \<not> errIsNotExist e then fail (codef ErrFilesystemFailed ''delete image metadata record'' [e]) else ret ()
         | Inr _ \<Rightarrow> md_syncDir (imagesRoot m)))"

text \<open>The records that \<open>List\<close> reads, in directory order.\<close>

definition Ext :: "string \<Rightarrow> string" where
  "Ext name = (let r = takeWhile (\<lambda>c. c \<noteq> CHR ''.'' \<and> c \<noteq> CHR ''/'') (rev name) in
     if length r < length name \<and> rev name ! length r = CHR ''.'' then CHR ''.'' # rev r else [])"

fun read_records :: "metadata_tools \<Rightarrow> JSONMetadata \<Rightarrow> string \<Rightarrow> string list \<Rightarrow> image list io" where
  "read_records tools m wanted [] = ret []"
| "read_records tools m wanted (name # entries) =
     (\<lambda>w. if is_dir (node_at w (Join [imagesRoot m, name])) \<or> Ext name \<noteq> ''.json'' then read_records tools m wanted entries w
       else tryE (wrapped (filesystem ''read image metadata record'') (ReadFile (Join [imagesRoot m, name]))) (\<lambda>data.
         tryE (lift_sum (decodeImage tools data)) (\<lambda>img.
         tryE (read_records tools m wanted entries) (\<lambda>images.
           ret (if wanted = [] \<or> Reference img = wanted then img # images else images)))) w)"

text \<open>\<open>sort.Slice\<close> by reference, then platform; records with equal keys come in any order there.\<close>

definition md_List :: "metadata_tools \<Rightarrow> JSONMetadata option \<Rightarrow> ctx option \<Rightarrow> string \<Rightarrow> image list io" where
  "md_List tools om oc reference =
     md_requireReady oc om (\<lambda>m ws.
       let wanted = TrimSpace reference in
       tryE (if wanted \<noteq> [] then lift_sum (CanonicalImageReference (mt_lib tools) wanted) else ret []) (\<lambda>wanted.
       tryE (wrapped (filesystem ''list image metadata records'') (ReadDir (imagesRoot m))) (\<lambda>entries.
       tryE (read_records tools m wanted entries) (\<lambda>images.
         ret (sort_key (\<lambda>img. (Reference img, platformKey tools (ImagePlatform img))) images)))))"

end
