(* ===== verification/Metadata_Map.thy ===== *)
theory Metadata_Map
  imports Metadata
begin

text \<open>
  The interface \<open>Metadata\<close> of \<open>pkg/image/internal/metadata\<close> and what it promises: a finite map
  from references and platforms to images. The JSON files implement it, whatever calls fail.
\<close>

subsection \<open>The interface and its map\<close>

record metadata_ops =
  meta_Put :: "ctx option \<Rightarrow> image \<Rightarrow> unit io"
  meta_Get :: "ctx option \<Rightarrow> string \<Rightarrow> platform \<Rightarrow> image io"
  meta_List :: "ctx option \<Rightarrow> string \<Rightarrow> image list io"
  meta_Delete :: "ctx option \<Rightarrow> string \<Rightarrow> platform \<Rightarrow> unit io"

text \<open>A record that cannot be decoded is an entry of the map, too: its value is the error.\<close>

type_synonym image_map = "string \<Rightarrow> (goerr + image) option"

datatype md_op = PutOp image | GetOp string platform | DeleteOp string platform

text \<open>What an operation may leave: all of its effect when it succeeds, all or nothing when it fails.\<close>

fun spec_op :: "(string \<Rightarrow> platform \<Rightarrow> string) \<Rightarrow> (image \<Rightarrow> image) \<Rightarrow> md_op \<Rightarrow> bool \<Rightarrow> image_map \<Rightarrow> image_map set" where
  "spec_op key norm (PutOp img) ok m =
     (let m' = m(key (Reference img) (ImagePlatform img) \<mapsto> Inr (norm img)) in if ok then {m'} else {m, m'})"
| "spec_op key norm (GetOp r p) ok m = {m}"
| "spec_op key norm (DeleteOp r p) ok m = (let m' = m(key r p := None) in if ok then {m'} else {m, m'})"

fun run_op :: "metadata_ops \<Rightarrow> ctx option \<Rightarrow> md_op \<Rightarrow> world \<Rightarrow> bool \<times> world" where
  "run_op ops oc (PutOp img) w = (case meta_Put ops oc img w of (r, w') \<Rightarrow> (succeeded r, w'))"
| "run_op ops oc (GetOp r p) w = (case meta_Get ops oc r p w of (q, w') \<Rightarrow> (succeeded q, w'))"
| "run_op ops oc (DeleteOp r p) w = (case meta_Delete ops oc r p w of (q, w') \<Rightarrow> (succeeded q, w'))"

fun run_history :: "metadata_ops \<Rightarrow> ctx option \<Rightarrow> md_op list \<Rightarrow> world \<Rightarrow> bool list \<times> world" where
  "run_history ops oc [] w = ([], w)"
| "run_history ops oc (x # xs) w =
     (case run_op ops oc x w of (ok, w1) \<Rightarrow> (case run_history ops oc xs w1 of (oks, w2) \<Rightarrow> (ok # oks, w2)))"

fun spec_history :: "(string \<Rightarrow> platform \<Rightarrow> string) \<Rightarrow> (image \<Rightarrow> image) \<Rightarrow> md_op list \<Rightarrow> bool list \<Rightarrow> image_map \<Rightarrow> image_map set" where
  "spec_history key norm (x # xs) (ok # oks) m = (\<Union>m' \<in> spec_op key norm x ok m. spec_history key norm xs oks m')"
| "spec_history key norm _ _ m = {m}"

locale image_metadata =
  fixes ops :: metadata_ops
    and key :: "string \<Rightarrow> platform \<Rightarrow> string"
    and norm :: "image \<Rightarrow> image"
    and recs :: "world \<Rightarrow> image_map"
    and good :: "world \<Rightarrow> bool"
    and own others :: "string set"
  assumes put: "good w \<Longrightarrow> meta_Put ops oc img w = (r, w') \<Longrightarrow>
      good w' \<and> recs w' \<in> spec_op key norm (PutOp img) (r = Inr ()) (recs w)"
    and get: "good w \<Longrightarrow> meta_Get ops oc ref p w = (q, w') \<Longrightarrow>
      good w' \<and> recs w' = recs w \<and> (\<forall>i. q = Inr i \<longrightarrow> recs w (key ref p) = Some (Inr i)) \<and>
      (\<forall>e. q = Inl e \<longrightarrow> errIs e ErrImageNotFound \<longrightarrow> recs w (key ref p) = None \<or> (\<exists>e'. recs w (key ref p) = Some (Inl e')))"
    and delete: "good w \<Longrightarrow> meta_Delete ops oc ref p w = (u, w') \<Longrightarrow>
      good w' \<and> recs w' \<in> spec_op key norm (DeleteOp ref p) (u = Inr ()) (recs w)"
    and frame: "good w \<Longrightarrow> meta_Put ops oc img w = (r, w') \<Longrightarrow> kept others w w'"
      "good w \<Longrightarrow> meta_Get ops oc ref p w = (q, w') \<Longrightarrow> kept others w w'"
      "good w \<Longrightarrow> meta_Delete ops oc ref p w = (u, w') \<Longrightarrow> kept others w w'"
    and independent: "good w \<Longrightarrow> kept own w w' \<Longrightarrow> good w' \<and> recs w' = recs w"
begin

lemma succeeded_unit: "succeeded r \<longleftrightarrow> r = Inr ()"
  by (cases r) (auto simp: succeeded_def)

lemma run_op_refines: "good w \<Longrightarrow> run_op ops oc x w = (ok, w') \<Longrightarrow> good w' \<and> recs w' \<in> spec_op key norm x ok (recs w)"
proof (cases x)
  case (PutOp img)
  then show "good w \<Longrightarrow> run_op ops oc x w = (ok, w') \<Longrightarrow> ?thesis"
    using put [of w oc img _ w'] by (auto simp: succeeded_unit split: prod.splits simp del: spec_op.simps)
next
  case (GetOp ref p)
  then show "good w \<Longrightarrow> run_op ops oc x w = (ok, w') \<Longrightarrow> ?thesis"
    using get [of w oc ref p _ w'] by (simp split: prod.splits)
next
  case (DeleteOp ref p)
  then show "good w \<Longrightarrow> run_op ops oc x w = (ok, w') \<Longrightarrow> ?thesis"
    using delete [of w oc ref p _ w'] by (auto simp: succeeded_unit split: prod.splits simp del: spec_op.simps)
qed

lemma history_refines:
  "good w \<Longrightarrow> run_history ops oc xs w = (oks, w') \<Longrightarrow> good w' \<and> recs w' \<in> spec_history key norm xs oks (recs w)"
proof (induction xs arbitrary: w oks)
  case (Cons x xs)
  obtain ok w1 where x: "run_op ops oc x w = (ok, w1)" by fastforce
  obtain oks' w2 where xs: "run_history ops oc xs w1 = (oks', w2)" by fastforce
  have e: "oks = ok # oks'" "w' = w2" using Cons.prems(2) x xs by auto
  have r: "good w1" "recs w1 \<in> spec_op key norm x ok (recs w)" using run_op_refines [OF Cons.prems(1) x] by auto
  have "good w' \<and> recs w' \<in> spec_history key norm xs oks' (recs w1)" by (rule Cons.IH [OF r(1)]) (simp add: xs e)
  then show ?case using e r by auto
qed simp

text \<open>After a successful \<open>Put\<close>, \<open>Get\<close> can only return the image that was put.\<close>

lemma get_after_put:
  assumes "good w" "meta_Put ops oc img w = (Inr (), w1)" "kept own w1 w2" "meta_Get ops oc2 (Reference img) (ImagePlatform img) w2 = (Inr i, w3)"
  shows "i = norm img"
proof -
  have p: "good w1" "recs w1 (key (Reference img) (ImagePlatform img)) = Some (Inr (norm img))"
    using put [OF assms(1,2)] by (auto simp: Let_def)
  have "good w2" "recs w2 = recs w1" using independent [OF p(1) assms(3)] by auto
  then show ?thesis using get [OF _ assms(4)] p(2) by auto
qed

end

subsection \<open>The files\<close>

text \<open>The map is indexed by the hash of reference and platform.\<close>

definition md_key :: "metadata_tools \<Rightarrow> string \<Rightarrow> platform \<Rightarrow> string" where
  "md_key tools reference p = mt_sha256 tools (reference @ [CHR 0x0A] @ platformKey tools p)"

definition record_file :: "JSONMetadata \<Rightarrow> string \<Rightarrow> string" where
  "record_file m h = Join [imagesRoot m, HexEncode h @ ''.json'']"

definition md_records :: "metadata_tools \<Rightarrow> JSONMetadata \<Rightarrow> world \<Rightarrow> image_map" where
  "md_records tools m w h = (case node_at w (record_file m h) of Some (FileNode d _ _) \<Rightarrow> Some (decodeImage tools d) | _ \<Rightarrow> None)"

text \<open>The directory the records are in has a name unlike those of temporary files.\<close>

definition record_paths :: "string list \<Rightarrow> string set" where
  "record_paths is = (\<lambda>s. abs_path (is @ [HexEncode s @ ''.json''])) ` UNIV"

definition plain_dirs :: "string list \<Rightarrow> bool" where
  "plain_dirs cs \<longleftrightarrow> list_all safe_component cs \<and> list_all (\<lambda>c. \<not> Contains c ''.tmp-'') cs"

definition metadata_ok :: "metadata_tools \<Rightarrow> JSONMetadata \<Rightarrow> string list \<Rightarrow> bool" where
  "metadata_ok tools m is \<longleftrightarrow> imagesRoot m = abs_path is \<and> plain_dirs is \<and> (\<forall>r p. reads (mt_join tools r p)) \<and>
     (\<forall>x. decode_record tools (encode_record tools x) = Inr x) \<and> (\<forall>t. time_parse tools (format_time tools t) = Inr t)"

definition no_record_links :: "string list \<Rightarrow> world \<Rightarrow> bool" where
  "no_record_links is w \<longleftrightarrow> (\<forall>q \<in> record_paths is. \<forall>t. node_at w q \<noteq> Some (LinkNode t))"

definition md_ops :: "metadata_tools \<Rightarrow> JSONMetadata option \<Rightarrow> metadata_ops" where
  "md_ops tools om = \<lparr>meta_Put = md_Put tools om, meta_Get = md_Get tools om, meta_List = md_List tools om, meta_Delete = md_Delete tools om\<rparr>"

text \<open>The image as it comes back: without a layout path, its platform normalized.\<close>

definition stored_image :: "metadata_tools \<Rightarrow> image \<Rightarrow> image" where
  "stored_image tools img = img\<lparr>LayoutPath := [], ImagePlatform := NormalizePlatform (mt_arch tools) (ImagePlatform img)\<rparr>"

lemma Contains_append: "Contains (a @ p @ b) p"
proof (induction a)
  case Nil
  then show ?case using HasPrefix_append [of p b] by (cases "p @ b") auto
qed (simp add: Let_def)

lemma Contains_prefix: "HasPrefix s (a @ p @ b) \<Longrightarrow> Contains s p"
  using Contains_append [of a p] by (auto simp: HasPrefix_iff)

lemma safe_json: "safe_component (HexEncode s @ ''.json'')"
proof -
  have "CHR ''/'' \<notin> set (HexEncode s)" using HexEncode_lower [of s] hex_lower_alnum is_alnum_simps(1) by (metis list_all_iff)
  then show ?thesis by (cases "HexEncode s") (auto simp: safe_component_def)
qed

lemma no_dot_json: "\<not> Contains (HexEncode s @ ''.json'') ''.tmp-''"
proof -
  have "\<not> Contains (xs @ ''.json'') ''.tmp-''" if "CHR ''.'' \<notin> set xs" for xs
    using that by (induction xs) (auto simp: HasPrefix_def)
  moreover have "CHR ''.'' \<notin> set (HexEncode s)" using HexEncode_lower [of s] hex_lower_alnum is_alnum_simps(2) by (metis list_all_iff)
  ultimately show ?thesis by blast
qed

lemma NormalizePlatform_idem: "TrimSpace a = a \<Longrightarrow> NormalizePlatform a (NormalizePlatform a p) = NormalizePlatform a p"
proof -
  have "TrimSpace ''linux'' = ''linux''" by code_simp
  then show "TrimSpace a = a \<Longrightarrow> ?thesis" by (auto simp: NormalizePlatform_def Let_def TrimSpace_idem)
qed

lemma platformKey_norm: "TrimSpace (mt_arch tools) = mt_arch tools \<Longrightarrow> platformKey tools (NormalizePlatform (mt_arch tools) p) = platformKey tools p"
  by (simp add: platformKey_def NormalizePlatform_idem)

lemma decode_stored:
  assumes "metadata_ok tools m is" "TrimSpace (mt_arch tools) = mt_arch tools" "validateImage tools img = None"
  shows "decodeImage tools (encode_record tools (md_payload tools img)) = Inr (stored_image tools img)"
proof -
  let ?i = "stored_image tools img"
  have "validateImage tools ?i = validateImage tools img" by (simp add: validateImage_def stored_image_def)
  then have "validateImage tools ?i = None" using assms(3) by simp
  then show ?thesis using assms(1,2)
    by (cases img) (simp add: decodeImage_def md_payload_def metadata_ok_def parseTime_def Let_def NormalizePlatform_idem stored_image_def)
qed

lemma record_path_eq:
  assumes "metadata_ok tools m is"
  shows "record_file m h = abs_path (is @ [HexEncode h @ ''.json''])" "recordPath tools m ref p = record_file m (md_key tools ref p)"
    "record_file m h \<in> record_paths is"
proof -
  have i: "imagesRoot m = abs_path is" "list_all safe_component is" using assms by (auto simp: metadata_ok_def plain_dirs_def)
  then show j: "record_file m h = abs_path (is @ [HexEncode h @ ''.json''])" for h
    using Join_abs [of "abs_path is" "[HexEncode h @ ''.json'']"] safe_json [of h] by (simp add: comps_abs_path record_file_def)
  show "recordPath tools m ref p = record_file m (md_key tools ref p)" by (simp add: recordPath_def Key_def md_key_def record_file_def)
  show "record_file m h \<in> record_paths is" by (auto simp: record_paths_def j)
qed

lemma record_file_inject:
  assumes "metadata_ok tools m is"
  shows "record_file m h = record_file m h' \<longleftrightarrow> h = h'"
proof
  assume "record_file m h = record_file m h'"
  moreover have "list_all safe_component (is @ [HexEncode s @ ''.json''])" for s
    using assms safe_json by (simp add: metadata_ok_def plain_dirs_def)
  ultimately have "HexEncode h = HexEncode h'" unfolding record_path_eq(1) [OF assms] by (simp add: abs_path_inject)
  then show "h = h'" by (metis HexDecode_HexEncode option.inject)
qed simp

lemma clear_records:
  assumes "plain_dirs is" "CHR ''/'' \<notin> set k"
  shows "clear (''.'' @ k @ ''.tmp-'') (record_paths is)"
proof -
  have "\<not> HasPrefix c (''.'' @ k @ ''.tmp-'')" if "c \<in> set (is @ [HexEncode s @ ''.json''])" for c s
  proof
    assume "HasPrefix c (''.'' @ k @ ''.tmp-'')"
    then have "Contains c ''.tmp-''" using Contains_prefix [of c "''.'' @ k" "''.tmp-''" "[]"] by simp
    then show False using that assms(1) no_dot_json by (auto simp: plain_dirs_def list_all_iff)
  qed
  moreover have "list_all safe_component (is @ [HexEncode s @ ''.json''])" for s
    using assms(1) safe_json by (simp add: plain_dirs_def)
  ultimately have "\<exists>cs. list_all safe_component cs \<and> q = abs_path cs \<and> (\<forall>c \<in> set cs. \<not> HasPrefix c (''.'' @ k @ ''.tmp-''))"
    if "q \<in> record_paths is" for q
    using that unfolding record_paths_def by blast
  then show ?thesis using assms(2) unfolding clear_def by simp
qed

subsection \<open>The files implement the map\<close>

lemma md_records_kept:
  assumes ok: "metadata_ok tools m is" and nl: "no_record_links is w" and k: "kept (record_paths is) w w'"
  shows "no_record_links is w' \<and> md_records tools m w' = md_records tools m w"
proof
  show "no_record_links is w'" using nl k unfolding no_record_links_def kept_def by (metis is_dir.simps(4))
  show "md_records tools m w' = md_records tools m w"
  proof
    fix h
    have "node_at w' (record_file m h) = node_at w (record_file m h) \<or> node_at w (record_file m h) = None \<and> is_dir (node_at w' (record_file m h))"
      using k record_path_eq(3) [OF ok, of h] by (auto simp: kept_def)
    then show "md_records tools m w' h = md_records tools m w h"
      unfolding md_records_def by (elim disjE conjE) (simp, cases "node_at w' (record_file m h)" rule: is_dir.cases, simp_all)
  qed
qed

text \<open>One record changed.\<close>

lemma md_records_changed:
  assumes ok: "metadata_ok tools m is" and nl: "no_record_links is w" and k: "kept (record_paths is - {record_file m h}) w w'"
    and new: "node_at w' (record_file m h) = node_at w (record_file m h) \<or> node_at w' (record_file m h) = x" "\<forall>t. x \<noteq> Some (LinkNode t)"
  shows "no_record_links is w'"
    and "md_records tools m w' = (md_records tools m w)(h := case node_at w' (record_file m h) of Some (FileNode d _ _) \<Rightarrow> Some (decodeImage tools d) | _ \<Rightarrow> None)"
proof -
  show "no_record_links is w'"
    unfolding no_record_links_def
  proof (intro ballI allI)
    fix q t assume q: "q \<in> record_paths is"
    then have o: "node_at w q \<noteq> Some (LinkNode t)" using nl by (simp add: no_record_links_def)
    show "node_at w' q \<noteq> Some (LinkNode t)"
    proof (cases "q = record_file m h")
      case False
      then have "node_at w' q = node_at w q \<or> node_at w q = None \<and> is_dir (node_at w' q)" using q k by (simp add: kept_def)
      then show ?thesis using o by auto
    qed (use new o in auto)
  qed
  show "md_records tools m w' = (md_records tools m w)(h := case node_at w' (record_file m h) of Some (FileNode d _ _) \<Rightarrow> Some (decodeImage tools d) | _ \<Rightarrow> None)"
  proof
    fix g
    show "md_records tools m w' g = ((md_records tools m w)(h := case node_at w' (record_file m h) of Some (FileNode d _ _) \<Rightarrow> Some (decodeImage tools d) | _ \<Rightarrow> None)) g"
    proof (cases "g = h")
      case False
      then have "record_file m g \<in> record_paths is - {record_file m h}" using record_path_eq(3) [OF ok] record_file_inject [OF ok] by simp
      then have "node_at w' (record_file m g) = node_at w (record_file m g) \<or> node_at w (record_file m g) = None \<and> is_dir (node_at w' (record_file m g))"
        using k by (auto simp: kept_def)
      then have "md_records tools m w' g = md_records tools m w g"
        unfolding md_records_def by (elim disjE conjE) (simp, cases "node_at w' (record_file m g)" rule: is_dir.cases, simp_all)
      then show ?thesis using False by simp
    qed (simp add: md_records_def)
  qed
qed

lemma post_ready:
  assumes "\<And>e. \<not> errIs e ErrImageNotFound \<Longrightarrow> Q (Inl e) w" "\<And>ws. post (k m ws) Q w"
  shows "post (md_requireReady oc (Some m) k) Q w"
  unfolding md_requireReady_def Let_def
  using assms by (auto simp: post_check_ctx post_fail ctx_err_def split: option.split)

lemma records_apart:
  assumes "metadata_ok tools m is" "q \<in> record_paths is - {record_file m h}"
  shows "\<not> inside (record_file m h) q"
proof -
  obtain s where s: "q = abs_path (is @ [HexEncode s @ ''.json''])" using assms(2) by (auto simp: record_paths_def)
  have "list_all safe_component (is @ [HexEncode h @ ''.json''])" using assms(1) safe_json by (simp add: metadata_ok_def plain_dirs_def)
  moreover have "HexEncode h @ ''.json'' \<noteq> HexEncode s @ ''.json''" using assms(2) s record_path_eq(1) [OF assms(1)] by auto
  ultimately show ?thesis
    unfolding s record_path_eq(1) [OF assms(1)] by (rule siblings [OF _ safe_json])
qed

lemma put_refines:
  assumes ok: "metadata_ok tools m is" "TrimSpace (mt_arch tools) = mt_arch tools" and nl: "no_record_links is w"
  shows "post (md_Put tools (Some m) oc img)
    (\<lambda>r w'. no_record_links is w' \<and> md_records tools m w' \<in> spec_op (md_key tools) (stored_image tools) (PutOp img) (r = Inr ()) (md_records tools m w)) w"
    (is "post _ ?Q w")
proof -
  define h where "h = md_key tools (Reference img) (ImagePlatform img)"
  let ?path = "record_file m h" and ?S = "record_paths is"
  let ?new = "(md_records tools m w)(h \<mapsto> Inr (stored_image tools img))"
  have Q: "?Q r w' \<longleftrightarrow> no_record_links is w' \<and> (md_records tools m w' = ?new \<or> r \<noteq> Inr () \<and> md_records tools m w' = md_records tools m w)" for r w'
    by (auto simp: Let_def h_def)
  have failed: "?Q (Inl e) w'" if "kept ?S w w'" for e w'
    unfolding Q using md_records_kept [OF ok(1) nl that] by simp
  have pre: "clear (''.'' @ Base ?path @ ''.tmp-'') ?S"
  proof (rule clear_records)
    show "plain_dirs is" using ok(1) by (simp add: metadata_ok_def)
    show "CHR ''/'' \<notin> set (Base ?path)"
      unfolding record_path_eq(1) [OF ok(1)] Base_abs_path [OF safe_json] by (rule safe_no_slash [OF safe_json])
  qed
  have commit: "post (commit_file f1 f2 f3 f4 tmp (encode_record tools (md_payload tools img)) ?path (md_syncDir d)) ?Q w1"
    if v: "validateImage tools img = None" and w1: "kept ?S w w1" and tmp: "temp_of (''.'' @ Base ?path @ ''.tmp-'') tmp" "node_at w1 tmp = Some (FileNode [] 384 0)"
    for f1 f2 f3 f4 tmp d w1
  proof -
    let ?data = "encode_record tools (md_payload tools img)"
    have in_S: "?path \<in> ?S" by (rule record_path_eq(3) [OF ok(1)])
    have apart: "\<not> inside tmp q" if "q \<in> ?S" for q by (rule clear_not_inside [OF pre tmp(1) that])
    have sync: "reads (md_syncDir d)" unfolding md_syncDir_def by (intro reads_comb reads_deferred) simp_all
    have fr: "keeps (kept (?S - {?path})) (commit_file f1 f2 f3 f4 tmp ?data ?path (md_syncDir d))"
    proof (rule kept_commit_file [OF _ _ sync], goal_cases)
      case 1
      then show ?case using apart inside_refl by blast
    next
      case 2
      then show ?case using apart records_apart [OF ok(1)] by blast
    qed
    have out: "post (commit_file f1 f2 f3 f4 tmp ?data ?path (md_syncDir d))
        (\<lambda>r w'. (node_at w' ?path = node_at w1 ?path \<or> node_at w' ?path = Some (FileNode ?data 384 0)) \<and> (r = Inr () \<longrightarrow> node_at w' ?path = Some (FileNode ?data 384 0))) w1"
      by (rule commit_file_post [OF tmp(2) _ sync apart [OF in_S]]) (use apart [OF in_S] in auto)
    note recs1 = md_records_kept [OF ok(1) nl w1]
    show ?thesis
    proof (rule post_mono [OF post_conj [OF keeps_post [OF fr] out]], elim conjE)
      fix r :: "goerr + unit" and w2 :: world
      assume k: "kept (?S - {?path}) w1 w2" and o: "node_at w2 ?path = node_at w1 ?path \<or> node_at w2 ?path = Some (FileNode ?data 384 0)"
        and s: "r = Inr () \<longrightarrow> node_at w2 ?path = Some (FileNode ?data 384 0)"
      note c = md_records_changed [OF ok(1) conjunct1 [OF recs1] k o]
      have new: "md_records tools m w2 = ?new" if "node_at w2 ?path = Some (FileNode ?data 384 0)"
        using c(2) recs1 that decode_stored [OF ok v] by simp
      have old: "md_records tools m w2 = md_records tools m w" if "node_at w2 ?path = node_at w1 ?path"
        using c(2) recs1 that by (simp add: md_records_def [of tools m w1 h, symmetric])
      show "?Q r w2" unfolding Q using c(1) new old o s by auto
    qed
  qed
  have pth: "recordPath tools m (Reference img) (ImagePlatform img) = ?path" using record_path_eq(2) [OF ok(1)] by (simp add: h_def)
  have SJ: "\<And>r p. reads (mt_join tools r p)" using ok(1) by (simp add: metadata_ok_def)
  have same: "?Q (Inl e) w" for e by (rule failed [OF kept.same_tree [OF refl]])
  show ?thesis
    unfolding md_Put_def Let_def
  proof (rule post_ready, rule same, unfold pth, rule try_lift_err, rule same, rule try_wrapped_sum, rule same, rule try_wrapped_run)
    fix ws rel e w1 assume "ws_CreateTemp (mt_join tools) (Some ws) rel (''.'' @ Base ?path @ ''.tmp-'') w = (Inl e, w1)"
    then show "?Q (Inl (filesystem ''create temporary image metadata file'' e)) w1"
      by (rule failed [OF keeps_run [OF kept_ws_CreateTemp [OF SJ pre]]])
  next
    fix ws rel tmp w1 assume v: "validateImage tools img = None"
      and r: "ws_CreateTemp (mt_join tools) (Some ws) rel (''.'' @ Base ?path @ ''.tmp-'') w = (Inr tmp, w1)"
    have "kept ?S w w1" by (rule keeps_run [OF kept_ws_CreateTemp [OF SJ pre] r])
    then show "post (commit_file (\<lambda>e. codef ErrMetadataFailed ''encode image metadata'' [e]) (filesystem ''sync image metadata file'')
           (filesystem ''close image metadata file'') (filesystem ''commit image metadata file'')
           tmp (encode_record tools (md_payload tools img)) ?path (md_syncDir (imagesRoot m))) ?Q w1"
      using temp_created [OF r] by (intro commit [OF v]) blast+
  qed
qed

lemma get_refines:
  assumes ok: "metadata_ok tools m is" and nl: "no_record_links is w"
  shows "post (md_Get tools (Some m) oc ref p)
    (\<lambda>r w'. no_record_links is w' \<and> md_records tools m w' = md_records tools m w \<and>
      (\<forall>i. r = Inr i \<longrightarrow> md_records tools m w (md_key tools ref p) = Some (Inr i)) \<and>
      (\<forall>e. r = Inl e \<longrightarrow> errIs e ErrImageNotFound \<longrightarrow>
         md_records tools m w (md_key tools ref p) = None \<or> (\<exists>e'. md_records tools m w (md_key tools ref p) = Some (Inl e')))) w"
    (is "post _ ?Q w")
proof -
  let ?path = "record_file m (md_key tools ref p)"
  have same: "no_record_links is w' \<and> md_records tools m w' = md_records tools m w" if "node_at w' = node_at w" for w'
    using md_records_kept [OF ok nl kept.same_tree [OF that]] .
  have nolink: "\<forall>t. node_at w ?path \<noteq> Some (LinkNode t)" using nl record_path_eq(3) [OF ok] by (simp add: no_record_links_def)
  have decode: "md_records tools m w (md_key tools ref p) = Some (decodeImage tools d)" if "node_at w ?path = Some (FileNode d k u)" for d k u
    using that by (simp add: md_records_def)
  show ?thesis
    unfolding md_Get_def
  proof (rule post_ready, use same [OF refl] in simp, unfold record_path_eq(2) [OF ok], rule post_cond)
    fix w1 assume "TrimSpace ref = []"
    then show "post (fail (codef ErrInvalidImageReference ''image reference is required'' [])) ?Q w"
      using same [OF refl] by (simp add: post_fail)
  next
    show "post (attempt (ReadFile ?path) (\<lambda>r. case r of
           Inl e \<Rightarrow> if errIsNotExist e then fail (codef ErrImageNotFound ''image metadata record not found'' [])
             else fail (codef ErrFilesystemFailed ''read image metadata record'' [e])
         | Inr data \<Rightarrow> lift_sum (decodeImage tools data))) ?Q w"
    proof (rule attI, rule post_ReadFile [OF nolink])
      fix e and w1 :: world
      assume "node_at w1 = node_at w" "e = ENOENT \<longrightarrow> node_at w ?path = None"
      then show "post (case Inl (SysErr e ?path) of
           Inl e \<Rightarrow> if errIsNotExist e then fail (codef ErrImageNotFound ''image metadata record not found'' [])
             else fail (codef ErrFilesystemFailed ''read image metadata record'' [e])
         | Inr data \<Rightarrow> lift_sum (decodeImage tools data)) ?Q w1"
        using same [of w1] by (auto simp: post_fail md_records_def)
    next
      fix d k u and w1 :: world
      assume "node_at w1 = node_at w" "node_at w ?path = Some (FileNode d k u)"
      then show "post (case Inr d of
           Inl e \<Rightarrow> if errIsNotExist e then fail (codef ErrImageNotFound ''image metadata record not found'' [])
             else fail (codef ErrFilesystemFailed ''read image metadata record'' [e])
         | Inr data \<Rightarrow> lift_sum (decodeImage tools data)) ?Q w1"
        using same [of w1] decode by (auto simp: post_lift_sum)
    qed
  qed
qed

lemma delete_refines:
  assumes ok: "metadata_ok tools m is" and nl: "no_record_links is w"
  shows "post (md_Delete tools (Some m) oc ref p)
    (\<lambda>r w'. no_record_links is w' \<and> md_records tools m w' \<in> spec_op (md_key tools) (stored_image tools) (DeleteOp ref p) (r = Inr ()) (md_records tools m w)) w"
    (is "post _ ?Q w")
proof -
  define h where "h = md_key tools ref p"
  let ?path = "record_file m h" and ?S = "record_paths is"
  have pth: "recordPath tools m ref p = ?path" using record_path_eq(2) [OF ok] by (simp add: h_def)
  have same: "?Q (Inl e) w'" if "node_at w' = node_at w" for e w'
    using md_records_kept [OF ok nl kept.same_tree [OF that]] by (simp add: Let_def)
  have gone: "no_record_links is w' \<and> md_records tools m w' = (md_records tools m w)(h := None)" if "node_at w' = (node_at w)(?path := None)" for w'
  proof -
    have k: "kept (?S - {?path}) w w'" by (rule kept_outside [OF that]) simp
    have n: "node_at w' ?path = node_at w ?path \<or> node_at w' ?path = None" using that by simp
    show ?thesis using md_records_changed [OF ok nl k n] that by simp
  qed
  have missing: "(md_records tools m w)(h := None) = md_records tools m w" if "node_at w ?path = None"
    using that by (auto simp: md_records_def fun_eq_iff)
  have removed: "post (md_syncDir d) ?Q w1" if "node_at w1 = (node_at w)(?path := None)" for w1 d
  proof (rule post_reads)
    show "reads (md_syncDir d)" unfolding md_syncDir_def by (intro reads_comb reads_deferred) simp_all
    fix r and w2 :: world assume "node_at w2 = node_at w1"
    then show "?Q r w2" using gone [of w2] that by (simp add: h_def Let_def)
  qed
  show ?thesis
    unfolding md_Delete_def
  proof (rule post_ready, rule same, rule refl, unfold pth, rule post_cond, unfold post_fail, rule same, rule refl, rule attI, rule post_Remove)
    fix e and w1 :: world assume w1: "node_at w1 = node_at w" "errIsNotExist e \<longrightarrow> node_at w ?path = None"
    show "post (case Inl e of Inl e \<Rightarrow> if \<not> errIsNotExist e then fail (codef ErrFilesystemFailed ''delete image metadata record'' [e]) else ret ()
        | Inr _ \<Rightarrow> md_syncDir (imagesRoot m)) ?Q w1"
      using same [OF w1(1)] missing w1(2) md_records_kept [OF ok nl kept.same_tree [OF w1(1)]]
      by (auto simp: wp Let_def h_def)
  next
    fix w1 assume "node_at w1 = (node_at w)(?path := None)"
    then show "post (case Inr () of Inl e \<Rightarrow> if \<not> errIsNotExist e then fail (codef ErrFilesystemFailed ''delete image metadata record'' [e]) else ret ()
        | Inr _ \<Rightarrow> md_syncDir (imagesRoot m)) ?Q w1"
      unfolding sum.case by (rule removed)
  qed
qed

text \<open>
  What the rest of the program has to respect, and the paths of the rest the records respect:
  those that are not below a record and do not look like the temporary file of one.
\<close>

definition md_good :: "metadata_tools \<Rightarrow> JSONMetadata \<Rightarrow> string list \<Rightarrow> string set \<Rightarrow> world \<Rightarrow> bool" where
  "md_good tools m is others w \<longleftrightarrow> metadata_ok tools m is \<and> TrimSpace (mt_arch tools) = mt_arch tools \<and> no_record_links is w \<and>
     (\<forall>h. clear (''.'' @ HexEncode h @ ''.json.tmp-'') others \<and> (\<forall>q \<in> others. \<not> inside (record_file m h) q))"

lemma kept_md_requireReady: "(\<And>m ws. om = Some m \<Longrightarrow> keeps (kept S) (k m ws)) \<Longrightarrow> keeps (kept S) (md_requireReady oc om k)"
  unfolding md_requireReady_def Let_def by (intro keeps_rules) auto

lemma kept_md_syncDir [keeps_rules]: "keeps (kept S) (md_syncDir p)"
  unfolding md_syncDir_def by (intro keeps_rules)

lemma kept_Put:
  assumes "md_good tools m is others w"
  shows "keeps (kept others) (md_Put tools (Some m) oc img)"
proof (rule keepsI)
  fix v
  let ?h = "md_key tools (Reference img) (ImagePlatform img)"
  let ?path = "record_file m ?h" and ?pre = "''.'' @ HexEncode ?h @ ''.json.tmp-''"
  have ok: "metadata_ok tools m is" using assms by (simp add: md_good_def)
  have pre: "clear ?pre others" "\<forall>q \<in> others. \<not> inside ?path q" and SJ: "\<And>r p. reads (mt_join tools r p)"
    using assms by (auto simp: md_good_def metadata_ok_def)
  have pth: "recordPath tools m (Reference img) (ImagePlatform img) = ?path" using record_path_eq(2) [OF ok] by simp
  have base: "''.'' @ Base ?path @ ''.tmp-'' = ?pre" unfolding record_path_eq(1) [OF ok] Base_abs_path [OF safe_json] by simp
  have sync: "reads (md_syncDir d)" for d unfolding md_syncDir_def by (intro reads_comb reads_deferred) simp_all
  have failed: "kept others v v" by (rule kept.same_tree [OF refl])
  show "post (md_Put tools (Some m) oc img) (\<lambda>r w'. kept others v w') v"
    unfolding md_Put_def Let_def
  proof (rule post_ready, rule failed, unfold pth base, rule try_lift_err, rule failed, rule try_wrapped_sum, rule failed, rule try_wrapped_run)
    fix ws rel e w1 assume "ws_CreateTemp (mt_join tools) (Some ws) rel ?pre v = (Inl e, w1)"
    then show "kept others v w1" by (rule keeps_run [OF kept_ws_CreateTemp [OF SJ pre(1)]])
  next
    fix ws rel tmp w1 assume r: "ws_CreateTemp (mt_join tools) (Some ws) rel ?pre v = (Inr tmp, w1)"
    have k: "kept others v w1" by (rule keeps_run [OF kept_ws_CreateTemp [OF SJ pre(1)] r])
    have t: "\<not> inside tmp q" if "q \<in> others" for q using clear_not_inside [OF pre(1) _ that] temp_created [OF r] by blast
    have "keeps (kept others) (commit_file f1 f2 f3 f4 tmp data ?path (md_syncDir (imagesRoot m)))" for f1 f2 f3 f4 data
    proof (rule kept_commit_file [OF _ _ sync], goal_cases)
      case 1
      then show ?case using t inside_refl by blast
    qed (use t pre(2) in blast)
    from keeps_post [OF this]
    show "post (commit_file (\<lambda>e. codef ErrMetadataFailed ''encode image metadata'' [e]) (filesystem ''sync image metadata file'')
           (filesystem ''close image metadata file'') (filesystem ''commit image metadata file'')
           tmp (encode_record tools (md_payload tools img)) ?path (md_syncDir (imagesRoot m))) (\<lambda>r w'. kept others v w') w1"
      by (rule post_mono) (rule kept.trans [OF k])
  qed
qed

lemma kept_Get: "keeps (kept S) (md_Get tools om oc ref p)"
  unfolding md_Get_def by (intro kept_md_requireReady keeps_rules)

lemma kept_Delete:
  assumes "md_good tools m is others w"
  shows "keeps (kept others) (md_Delete tools (Some m) oc ref p)"
proof -
  have "recordPath tools m ref p \<notin> others" 
    using assms record_path_eq(2) [of tools m "is" ref p] inside_refl unfolding md_good_def by metis
  then show ?thesis unfolding md_Delete_def by (intro kept_md_requireReady keeps_rules) (auto intro: kept_Remove)
qed

interpretation json_metadata: image_metadata "md_ops tools (Some m)" "md_key tools" "stored_image tools" "md_records tools m"
  "md_good tools m is others" "record_paths is" others for tools m "is" others
proof
  fix w oc img ref p and r u :: "goerr + unit" and q w' assume good: "md_good tools m is others w"
  then have ok: "metadata_ok tools m is" "TrimSpace (mt_arch tools) = mt_arch tools" "no_record_links is w" by (auto simp: md_good_def)
  have g: "md_good tools m is others w'" if "no_record_links is w'" for w' using good that by (simp add: md_good_def)
  show "md_good tools m is others w' \<and> md_records tools m w' \<in> spec_op (md_key tools) (stored_image tools) (PutOp img) (r = Inr ()) (md_records tools m w)"
    if "meta_Put (md_ops tools (Some m)) oc img w = (r, w')"
    using postD [OF put_refines [OF ok]] that g by (fastforce simp: md_ops_def)
  show "md_good tools m is others w' \<and> md_records tools m w' = md_records tools m w \<and>
      (\<forall>i. q = Inr i \<longrightarrow> md_records tools m w (md_key tools ref p) = Some (Inr i)) \<and>
      (\<forall>e. q = Inl e \<longrightarrow> errIs e ErrImageNotFound \<longrightarrow> md_records tools m w (md_key tools ref p) = None \<or> (\<exists>e'. md_records tools m w (md_key tools ref p) = Some (Inl e')))"
    if "meta_Get (md_ops tools (Some m)) oc ref p w = (q, w')"
    using postD [OF get_refines [OF ok(1,3)]] that g by (fastforce simp: md_ops_def)
  show "md_good tools m is others w' \<and> md_records tools m w' \<in> spec_op (md_key tools) (stored_image tools) (DeleteOp ref p) (u = Inr ()) (md_records tools m w)"
    if "meta_Delete (md_ops tools (Some m)) oc ref p w = (u, w')"
    using postD [OF delete_refines [OF ok(1,3)]] that g by (fastforce simp: md_ops_def)
  show "kept others w w'" if "meta_Put (md_ops tools (Some m)) oc img w = (r, w')"
    using keeps_run [OF kept_Put [OF good]] that by (simp add: md_ops_def)
  show "kept others w w'" if "meta_Get (md_ops tools (Some m)) oc ref p w = (q, w')"
    using keeps_run [OF kept_Get] that by (simp add: md_ops_def)
  show "kept others w w'" if "meta_Delete (md_ops tools (Some m)) oc ref p w = (u, w')"
    using keeps_run [OF kept_Delete [OF good]] that by (simp add: md_ops_def)
  show "md_good tools m is others w' \<and> md_records tools m w' = md_records tools m w" if "kept (record_paths is) w w'"
    using md_records_kept [OF ok(1,3) that] g by simp
qed

text \<open>
  C6. The metadata store is a map, whatever calls fail: after any sequence of operations on the
  JSON files, the records are what the finite map holds after the same operations, where one
  that succeeded had all of its effect and one that failed all of it or none. A \<open>Get\<close> that
  returns an image returns the one in the map.
\<close>

theorem metadata_refines_map:
  assumes "metadata_ok tools m is" "TrimSpace (mt_arch tools) = mt_arch tools" "no_record_links is w"
    and "run_history (md_ops tools (Some m)) oc xs w = (oks, w')"
  shows "md_records tools m w' \<in> spec_history (md_key tools) (stored_image tools) xs oks (md_records tools m w) \<and>
    (\<forall>c ref p i w''. md_Get tools (Some m) c ref p w' = (Inr i, w'') \<longrightarrow> md_records tools m w' (md_key tools ref p) = Some (Inr i))"
proof -
  have g: "md_good tools m is {} w" using assms(1-3) safe_no_slash [OF safe_json] by (simp add: md_good_def clear_def)
  from json_metadata.history_refines [OF g assms(4)]
  have r: "md_good tools m is {} w'" "md_records tools m w' \<in> spec_history (md_key tools) (stored_image tools) xs oks (md_records tools m w)" by auto
  have "md_records tools m w' (md_key tools ref p) = Some (Inr i)" if "md_Get tools (Some m) c ref p w' = (Inr i, w'')" for c ref p i w''
    using json_metadata.get [OF r(1), of c ref p "Inr i" w''] that by (simp add: md_ops_def)
  with r(2) show ?thesis by blast
qed

text \<open>An encoding of records as fields in hexadecimal, and the images of two tags.\<close>

definition toy_number :: "int \<Rightarrow> string" where
  "toy_number i = (if i < 0 then CHR ''-'' # FormatUint (nat (- i)) else FormatUint (nat i))"

definition toy_value :: "string \<Rightarrow> int" where
  "toy_value s = (if s \<noteq> [] \<and> hd s = CHR ''-'' then - int (digits_value (tl s)) else int (digits_value s))"

definition toy_encode :: "metadataFile \<Rightarrow> string" where
  "toy_encode x = JoinStrings (map HexEncode [mf_Reference x, mf_Digest x, OS (mf_Platform x), Architecture (mf_Platform x), Variant (mf_Platform x),
     mf_Source x, toy_number (mf_SizeBytes x), mf_CreatedAt x, mf_UpdatedAt x]) '',''"

definition toy_decode :: "string \<Rightarrow> goerr + metadataFile" where
  "toy_decode s = (case map (\<lambda>f. case HexDecode f of Some t \<Rightarrow> t | None \<Rightarrow> []) (SplitChar CHR '','' s) of
     [r, d, os, a, v, src, n, c, u] \<Rightarrow> Inr \<lparr>mf_Reference = r, mf_Digest = d, mf_Platform = \<lparr>OS = os, Architecture = a, Variant = v\<rparr>,
       mf_Source = src, mf_SizeBytes = toy_value n, mf_CreatedAt = c, mf_UpdatedAt = u\<rparr>
   | _ \<Rightarrow> Inl (Opaque ''fields''))"

lemma toy_value_number: "toy_value (toy_number i) = i"
proof -
  have "hd (FormatUint n) \<noteq> CHR ''-''" for n
    using FormatUint_digits [of n] by (cases "FormatUint n") (auto simp: is_digit_def ord_def)
  then show ?thesis by (auto simp: toy_value_def toy_number_def)
qed

lemma toy_decode_encode: "toy_decode (toy_encode x) = Inr x"
proof -
  have c: "CHR '','' \<notin> set (HexEncode s)" for s
  proof
    assume "CHR '','' \<in> set (HexEncode s)"
    then have "hex_lower CHR '',''" using HexEncode_lower [of s] by (auto simp: list_all_iff)
    then show False by (simp add: hex_lower_def is_digit_def ord_def)
  qed
  let ?fs = "[mf_Reference x, mf_Digest x, OS (mf_Platform x), Architecture (mf_Platform x), Variant (mf_Platform x),
     mf_Source x, toy_number (mf_SizeBytes x), mf_CreatedAt x, mf_UpdatedAt x]"
  have "SplitChar CHR '','' (toy_encode x) = map HexEncode ?fs"
    unfolding toy_encode_def by (rule SplitChar_JoinStrings) (use c in auto)
  then have "map (\<lambda>f. case HexDecode f of Some t \<Rightarrow> t | None \<Rightarrow> []) (SplitChar CHR '','' (toy_encode x)) = ?fs"
    by (simp add: HexDecode_HexEncode)
  then show ?thesis unfolding toy_decode_def by (cases x) (simp add: toy_value_number)
qed

definition toy_metadata_tools :: metadata_tools where
  "toy_metadata_tools = \<lparr>mt_lib = toy_lib, mt_join = lexical_join, mt_arch = ''amd64'', mt_sha256 = (\<lambda>s. s), encode_record = toy_encode,
     decode_record = toy_decode, format_time = toy_number, time_parse = (\<lambda>s. Inr (toy_value s))\<rparr>"

definition toy_metadata :: JSONMetadata where
  "toy_metadata = \<lparr>md_root = ''/s'', imagesRoot = ''/s/i'', md_workspace = Some \<lparr>ws_root = ''/s'', ws_tmp = ''/t'',
     ws_features = \<lparr>PrivateDirs = True, FileFsync = True, DirectoryFsync = True, AtomicFileRename = True, AtomicDirectoryRename = True\<rparr>\<rparr>\<rparr>"

definition metadata_world :: world where
  "metadata_world = \<lparr>files = [(''/'', DirNode 493 1), (''/s'', DirNode 448 0), (''/s/i'', DirNode 448 0), (''/t'', DirNode 448 0), (''/t/i'', DirNode 448 0)],
     faults = [], now = 0, fresh = 0\<rparr>"

definition tagged :: "string \<Rightarrow> int \<Rightarrow> image" where
  "tagged digest t = \<lparr>LayoutPath = ''/l'', Reference = ''a'', ImageDigest = digest, ImagePlatform = \<lparr>OS = [], Architecture = [], Variant = []\<rparr>,
     Source = SourcePulled, SizeBytes = 3, CreatedAt = t, UpdatedAt = t\<rparr>"

lemma toy_metadata_ok: "metadata_ok toy_metadata_tools toy_metadata [''s'', ''i'']" "no_record_links is metadata_world"
proof -
  have "reads (lexical_join r p)" for r p by (simp add: reads_def lexical_join_def)
  moreover have "abs_path [''s'', ''i''] = ''/s/i''" "plain_dirs [''s'', ''i'']" by code_simp+
  ultimately show "metadata_ok toy_metadata_tools toy_metadata [''s'', ''i'']"
    by (simp add: metadata_ok_def toy_metadata_tools_def toy_metadata_def toy_decode_encode toy_value_number)
  show "no_record_links is metadata_world" by (auto simp: no_record_links_def node_at_def metadata_world_def)
qed

theorem metadata_refines_map_witness:
  "case run_history (md_ops toy_metadata_tools (Some toy_metadata)) (Some None) [PutOp (tagged ''d1'' 1), PutOp (tagged ''d2'' 2)] metadata_world of
     (oks, w') \<Rightarrow> oks = [True, True] \<and> md_records toy_metadata_tools toy_metadata w' \<in>
       spec_history (md_key toy_metadata_tools) (stored_image toy_metadata_tools) [PutOp (tagged ''d1'' 1), PutOp (tagged ''d2'' 2)] [True, True]
         (md_records toy_metadata_tools toy_metadata metadata_world)"
proof -
  let ?h = "run_history (md_ops toy_metadata_tools (Some toy_metadata)) (Some None) [PutOp (tagged ''d1'' 1), PutOp (tagged ''d2'' 2)] metadata_world"
  obtain oks w' where h: "?h = (oks, w')" by fastforce
  have "fst ?h = [True, True]" by code_simp
  moreover have "TrimSpace (mt_arch toy_metadata_tools) = mt_arch toy_metadata_tools" by code_simp
  note conjunct1 [OF metadata_refines_map [OF toy_metadata_ok(1) this toy_metadata_ok(2) h]]
  ultimately show ?thesis using h by simp
qed

end
