(* ===== verification/Build_Request.thy ===== *)
theory Build_Request
  imports Runs Host_Probe
begin

text \<open>
  \<open>pkg/image/internal/buildkit/request.go\<close> and \<open>preflight.go\<close>: the inputs of one build and the
  checks of the host. \<open>filepath.EvalSymlinks\<close> and \<open>os.Stat\<close> follow the links of every component
  here, since the paths come from the caller.
\<close>

subsection \<open>Paths with links\<close>

text \<open>
  The components that are resolved, and those still to be walked; at most \<open>n\<close> links are
  followed. A link to a relative path continues in its directory.
\<close>

fun eval_links :: "nat \<Rightarrow> world \<Rightarrow> string list \<Rightarrow> string list \<Rightarrow> errno + string list" where
  "eval_links n w res [] = Inr res"
| "eval_links n w res (c # cs) =
     (if c = [] \<or> c = ''.'' then eval_links n w res cs
      else if c = ''..'' then eval_links n w (butlast res) cs
      else case node_at w (abs_path (res @ [c])) of
          None \<Rightarrow> Inl ENOENT
        | Some (LinkNode t) \<Rightarrow>
            (case n of 0 \<Rightarrow> Inl EIO | Suc k \<Rightarrow> eval_links k w (if isAbs t then [] else res) (SplitChar (CHR ''/'') t @ cs))
        | Some (DirNode m u) \<Rightarrow> eval_links n w (res @ [c]) cs
        | Some (FileNode d m u) \<Rightarrow> if cs = [] then Inr (res @ [c]) else Inl ENOTDIR)"

text \<open>The directory \<open>/\<close> always exists.\<close>

definition real_node :: "world \<Rightarrow> string list \<Rightarrow> node option" where
  "real_node w cs = (if cs = [] then Some (DirNode 493 0) else node_at w (abs_path cs))"

definition StatReal :: "string \<Rightarrow> node io" where
  "StatReal p = syscall p (\<lambda>w.
     (case eval_links 40 w [] (SplitChar (CHR ''/'') p) of
        Inl e \<Rightarrow> Inl e
      | Inr cs \<Rightarrow> (case real_node w cs of None \<Rightarrow> Inl ENOENT | Some n \<Rightarrow> Inr n), w))"

definition EvalSymlinks :: "string \<Rightarrow> string io" where
  "EvalSymlinks p = syscall p (\<lambda>w.
     (case eval_links 255 w [] (SplitChar (CHR ''/'') p) of Inl e \<Rightarrow> Inl e | Inr cs \<Rightarrow> Inr (abs_path cs), w))"

subsection \<open>Requests\<close>

record build_request =
  br_Reference :: string
  br_ContextPath :: string
  br_DockerfilePath :: string
  br_Platform :: platform
  br_Target :: string
  br_BuildArgs :: "(string \<times> string) list"

record resolvedRequest =
  rq_reference :: string
  rq_contextPath :: string
  rq_dockerfilePath :: string
  rq_dockerfileRelPath :: string
  rq_platform :: platform
  rq_target :: string
  rq_buildArgs :: "(string \<times> string) list"

definition pathContains :: "string \<Rightarrow> string \<Rightarrow> bool" where
  "pathContains parent child =
     (case Rel parent child of
        Inl e \<Rightarrow> False
      | Inr relative \<Rightarrow> relative = ''.'' \<or> relative \<noteq> ''..'' \<and> \<not> HasPrefix relative ''../'')"

text \<open>An existing path: the checks of the context and of the Dockerfile differ in their texts.\<close>

definition existing_path :: "string \<Rightarrow> string \<Rightarrow> string \<Rightarrow> (node \<Rightarrow> 'a io) \<Rightarrow> 'a io" where
  "existing_path missing inspect p k =
     attempt (StatReal p) (\<lambda>r. case r of
       Inl e \<Rightarrow>
         if errIsNotExist e then fail (codef ErrInvalidRequest missing [])
         else fail (codef ErrFilesystemFailed inspect [e])
     | Inr info \<Rightarrow> k info)"

text \<open>The map of the request is iterated in any order; the list stands for that order.\<close>

fun trim_args :: "(string \<times> string) list \<Rightarrow> (string \<times> string) list \<Rightarrow> goerr + (string \<times> string) list" where
  "trim_args [] args = Inr args"
| "trim_args ((key, value) # rest) args =
     (if TrimSpace key = [] then Inl (codef ErrInvalidRequest ''build argument name is required'' [])
      else trim_args rest (AList.update (TrimSpace key) value args))"

definition resolve_context :: "string \<Rightarrow> string io" where
  "resolve_context raw =
     (let contextPath = TrimSpace raw in
      if contextPath = [] then fail (codef ErrInvalidRequest ''build context path is required'' [])
      else if \<not> isAbs contextPath then fail (codef ErrInvalidRequest ''build context path must be absolute'' [])
      else existing_path ''build context path does not exist'' ''inspect build context path'' contextPath (\<lambda>info.
        if \<not> is_dir (Some info) then fail (codef ErrInvalidRequest ''build context path must be a directory'' [])
        else wrapped (\<lambda>e. codef ErrFilesystemFailed ''resolve build context path'' [e]) (EvalSymlinks contextPath)))"

definition resolve_dockerfile :: "string \<Rightarrow> string \<Rightarrow> (string \<times> string) io" where
  "resolve_dockerfile contextPath raw =
     (let dockerfilePath = (if TrimSpace raw = [] then Join [contextPath, ''Dockerfile''] else TrimSpace raw) in
      if \<not> isAbs dockerfilePath then fail (codef ErrInvalidRequest ''Dockerfile path must be absolute'' [])
      else if \<not> pathContains contextPath dockerfilePath
      then fail (codef ErrInvalidRequest ''Dockerfile path must be inside the build context'' [])
      else existing_path ''Dockerfile path does not exist'' ''inspect Dockerfile path'' dockerfilePath (\<lambda>info.
        if is_dir (Some info) then fail (codef ErrInvalidRequest ''Dockerfile path must be a file'' [])
        else tryE (wrapped (\<lambda>e. codef ErrFilesystemFailed ''resolve Dockerfile path'' [e]) (EvalSymlinks dockerfilePath)) (\<lambda>dockerfilePath.
          if \<not> pathContains contextPath dockerfilePath
          then fail (codef ErrInvalidRequest ''Dockerfile path must resolve inside the build context'' [])
          else tryE (wrapped (\<lambda>e. codef ErrFilesystemFailed ''resolve Dockerfile relative path'' [e]) (lift_sum (Rel contextPath dockerfilePath)))
            (\<lambda>rel. ret (dockerfilePath, rel)))))"

definition resolveRequest :: "image_lib \<Rightarrow> string \<Rightarrow> build_request \<Rightarrow> resolvedRequest io" where
  "resolveRequest lib host_arch request =
     tryE (lift_sum (CanonicalImageReference lib (br_Reference request))) (\<lambda>reference.
     tryE (resolve_context (br_ContextPath request)) (\<lambda>contextPath.
     tryE (resolve_dockerfile contextPath (br_DockerfilePath request)) (\<lambda>(dockerfilePath, rel).
     tryE (lift_sum (trim_args (br_BuildArgs request) [])) (\<lambda>buildArgs.
       ret \<lparr>rq_reference = reference, rq_contextPath = contextPath, rq_dockerfilePath = dockerfilePath, rq_dockerfileRelPath = rel,
         rq_platform = NormalizePlatform host_arch (br_Platform request), rq_target = TrimSpace (br_Target request), rq_buildArgs = buildArgs\<rparr>))))"

definition ValidateRequest :: "image_lib \<Rightarrow> string \<Rightarrow> build_request \<Rightarrow> unit io" where
  "ValidateRequest lib host_arch request = tryE (resolveRequest lib host_arch request) (\<lambda>_. ret ())"

subsection \<open>The host\<close>

definition preflightInstallHost :: "string \<Rightarrow> string \<Rightarrow> goerr option" where
  "preflightInstallHost host_os host_arch =
     (if host_os \<noteq> ''linux'' then Some (codef ErrUnsupportedHost (''BuildKit rootless builds require Linux, got '' @ host_os) [])
      else if host_arch = ''amd64'' \<or> host_arch = ''arm64'' then None
      else Some (codef ErrUnsupportedHost (''BuildKit rootless builds do not have managed binaries for architecture '' @ Quote host_arch) []))"

text \<open>A system without the limit has user namespaces; the kernel reports the limit as a decimal number.\<close>

definition preflightRootlessBuildHost :: "string \<Rightarrow> string \<Rightarrow> nat \<Rightarrow> unit io" where
  "preflightRootlessBuildHost host_os host_arch uid =
     tryE (lift_err (preflightInstallHost host_os host_arch)) (\<lambda>_.
       if uid = 0 then fail (codef ErrUnsupportedHost ''BuildKit rootless builds must run as a non-root user'' [])
       else attempt (ReadFile ''/proc/sys/user/max_user_namespaces'') (\<lambda>r. case r of
         Inl e \<Rightarrow>
           if errIsNotExist e \<or> errIsPermission e then ret ()
           else fail (codef ErrFilesystemFailed ''inspect unprivileged user namespace limit'' [e])
       | Inr content \<Rightarrow>
           (case ParseInt (TrimSpace content) of
              Inl e \<Rightarrow> fail (codef ErrUnsupportedHost
                (''parse /proc/sys/user/max_user_namespaces value '' @ Quote (TrimSpace content)) [e])
            | Inr namespaces \<Rightarrow>
                if namespaces = 0
                then fail (codef ErrUnsupportedHost ''/proc/sys/user/max_user_namespaces needs to be set to non-zero'' [])
                else ret ())))"

definition classifyUnsupportedHostMessage :: "string \<Rightarrow> bool" where
  "classifyUnsupportedHostMessage message \<longleftrightarrow>
     list_ex (Contains (ToLower message))
       [''/proc/sys/user/max_user_namespaces needs to be set to non-zero'',
        ''apparmor_restrict_unprivileged_userns is set to 1'',
        ''operation not permitted'',
        ''rootless mode requires to be executed as the mapped root in a user namespace'']"

subsection \<open>Where a resolved path leads\<close>

text \<open>A walk ends in a path whose directories are directories, not links to them.\<close>

definition walked :: "world \<Rightarrow> string list \<Rightarrow> bool" where
  "walked w cs \<longleftrightarrow> list_all safe_component cs \<and> (\<forall>k \<in> {1..<length cs}. is_dir (node_at w (abs_path (take k cs)))) \<and>
     (cs \<noteq> [] \<longrightarrow> (\<exists>n. node_at w (abs_path cs) = Some n \<and> \<not> is_link n))"

definition walked_dir :: "world \<Rightarrow> string list \<Rightarrow> bool" where
  "walked_dir w cs \<longleftrightarrow> list_all safe_component cs \<and> (\<forall>k \<in> {1..length cs}. is_dir (node_at w (abs_path (take k cs))))"

lemma walked_dir_walked: "walked_dir w cs \<Longrightarrow> walked w cs"
proof -
  assume d: "walked_dir w cs"
  have "\<exists>n. node_at w (abs_path cs) = Some n \<and> \<not> is_link n" if "cs \<noteq> []"
  proof -
    have "length cs \<in> {1..length cs}" using that by (simp add: Suc_le_eq)
    then have "is_dir (node_at w (abs_path (take (length cs) cs)))" using d unfolding walked_dir_def by blast
    then show ?thesis by (auto elim: is_dir.elims)
  qed
  then show ?thesis using d by (simp add: walked_dir_def walked_def)
qed

lemma walked_dir_butlast: "walked_dir w cs \<Longrightarrow> walked_dir w (butlast cs)"
  by (auto simp: walked_dir_def list_all_iff take_butlast in_set_butlastD)

lemma walked_dir_snoc:
  assumes "walked_dir w cs" "safe_component c"
  shows "node_at w (abs_path (cs @ [c])) = Some (DirNode m u) \<Longrightarrow> walked_dir w (cs @ [c])"
    and "node_at w (abs_path (cs @ [c])) = Some (FileNode d m u) \<Longrightarrow> walked w (cs @ [c])"
  using assms by (auto simp: walked_dir_def walked_def le_Suc_eq)

lemma eval_links_walked:
  assumes "eval_links n w res cs = Inr rs" "walked_dir w res" "\<forall>c \<in> set cs. CHR ''/'' \<notin> set c"
  shows "walked w rs"
  using assms
proof (induction n w res cs rule: eval_links.induct)
  case (1 n w res)
  then show ?case by (auto intro: walked_dir_walked)
next
  case (2 n w res c cs)
  show ?case
  proof (cases "c = [] \<or> c = ''.'' \<or> c = ''..''")
    case True
    then show ?thesis using 2 walked_dir_butlast by (auto split: if_splits)
  next
    case False
    then have c: "safe_component c" using 2 by (simp add: safe_component_def)
    obtain x where x: "node_at w (abs_path (res @ [c])) = Some x" using 2 False by (auto split: option.splits)
    show ?thesis
    proof (cases x)
      case (FileNode d m u)
      then show ?thesis using 2 False x walked_dir_snoc(2) [OF _ c] by (auto split: if_splits)
    next
      case (DirNode m u)
      then show ?thesis using 2 False x walked_dir_snoc(1) [OF _ c] by auto
    next
      case (LinkNode t)
      then obtain k where "n = Suc k" using 2 False x by (cases n) auto
      moreover have "walked_dir w (if isAbs t then [] else res)" using 2 by (simp add: walked_dir_def)
      moreover have "\<forall>c \<in> set (SplitChar (CHR ''/'') t @ cs). CHR ''/'' \<notin> set c"
        using 2 SplitChar_fields [of _ "CHR ''/''" t] by auto
      ultimately show ?thesis using 2 False x LinkNode by simp
    qed
  qed
qed

lemma eval_links_more: "eval_links n w res cs = Inr rs \<Longrightarrow> n \<le> m \<Longrightarrow> eval_links m w res cs = Inr rs"
proof (induction n w res cs arbitrary: m rule: eval_links.induct)
  case (2 n w res c cs)
  show ?case
  proof (cases "c = [] \<or> c = ''.'' \<or> c = ''..''")
    case True
    then show ?thesis using 2(1) [OF _ _ 2(6)] 2(2) [OF _ _ _ 2(6)] 2(5) by (elim disjE) simp_all
  next
    case False
    then obtain x where x: "node_at w (abs_path (res @ [c])) = Some x" using 2(5) by (auto split: option.splits)
    show ?thesis
    proof (cases x)
      case (DirNode u v)
      then show ?thesis using 2(3) [OF _ _ x DirNode] 2(5,6) False x by simp
    next
      case (LinkNode t)
      obtain k where k: "n = Suc k" using 2(5) False x LinkNode by (cases n) auto
      obtain l where l: "m = Suc l" using 2(6) k by (cases m) auto
      show ?thesis using 2(4) [OF _ _ x LinkNode k, of l] 2(5,6) False x LinkNode k l by simp
    qed (use 2(5) False x in simp)
  qed
qed simp

lemma eval_links_cong: "node_at w' = node_at w \<Longrightarrow> eval_links n w' res cs = eval_links n w res cs"
proof (induction n w res cs rule: eval_links.induct)
  case (2 n w res c cs)
  show ?case
  proof (cases "c = [] \<or> c = ''.'' \<or> c = ''..''")
    case True
    then show ?thesis using 2(1,2) 2(5) by auto
  next
    case False
    show ?thesis
    proof (cases "node_at w (abs_path (res @ [c]))")
      case (Some x)
      show ?thesis
      proof (cases x)
        case (DirNode u v)
        then show ?thesis using 2(3) [OF _ _ Some DirNode] 2(5) False Some by simp
      next
        case (LinkNode t)
        show ?thesis
        proof (cases n)
          case (Suc k)
          then show ?thesis using 2(4) [OF _ _ Some LinkNode Suc] 2(5) False Some LinkNode by simp
        qed (use 2(5) False Some LinkNode in simp)
      qed (use 2(5) False Some in simp)
    qed (use 2(5) False in simp)
  qed
qed simp

lemma run_EvalSymlinks:
  assumes "EvalSymlinks p w = (Inr q, w')"
  obtains cs where "eval_links 255 w [] (SplitChar (CHR ''/'') p) = Inr cs" "q = abs_path cs" "node_at w' = node_at w"
proof -
  let ?l = "\<lambda>w. eval_links 255 w [] (SplitChar (CHR ''/'') p)"
  have "post (EvalSymlinks p) (\<lambda>r w'. \<forall>q. r = Inr q \<longrightarrow> (\<exists>cs. ?l w = Inr cs \<and> q = abs_path cs \<and> node_at w' = node_at w)) w"
    unfolding EvalSymlinks_def
  proof (rule post_syscall)
    fix w1 :: world assume "files w1 = files w"
    then have n: "node_at w1 = node_at w" by (rule node_at_ext)
    then have "?l w1 = ?l w" by (rule eval_links_cong)
    then show "case (case ?l w1 of Inl e \<Rightarrow> Inl e | Inr cs \<Rightarrow> Inr (abs_path cs), w1) of
        (Inl e, w'') \<Rightarrow> \<forall>q. Inl (SysErr e p) = Inr q \<longrightarrow> (\<exists>cs. ?l w = Inr cs \<and> q = abs_path cs \<and> node_at w'' = node_at w)
      | (Inr a, w'') \<Rightarrow> \<forall>q. Inr a = Inr q \<longrightarrow> (\<exists>cs. ?l w = Inr cs \<and> q = abs_path cs \<and> node_at w'' = node_at w)"
      using n by (cases "?l w") simp_all
  qed simp
  from postD [OF this assms] show ?thesis using that by blast
qed

lemma reads_StatReal: "reads (StatReal p)"
  unfolding StatReal_def by (rule reads_syscall) simp

lemma run_StatReal:
  assumes "StatReal p w = (Inr n, w')"
  obtains cs where "eval_links 255 w [] (SplitChar (CHR ''/'') p) = Inr cs" "real_node w cs = Some n"
proof -
  let ?l = "\<lambda>w. eval_links 40 w [] (SplitChar (CHR ''/'') p)"
  have "post (StatReal p) (\<lambda>r w'. \<forall>n. r = Inr n \<longrightarrow> (\<exists>cs. ?l w = Inr cs \<and> real_node w cs = Some n)) w"
    unfolding StatReal_def
  proof (rule post_syscall)
    fix w1 :: world assume "files w1 = files w"
    then have n: "node_at w1 = node_at w" by (rule node_at_ext)
    then have l: "?l w1 = ?l w" by (rule eval_links_cong)
    have "real_node w1 cs = real_node w cs" for cs using n by (simp add: real_node_def)
    then show "case (case ?l w1 of Inl e \<Rightarrow> Inl e | Inr cs \<Rightarrow> (case real_node w1 cs of None \<Rightarrow> Inl ENOENT | Some n \<Rightarrow> Inr n), w1) of
        (Inl e, w'') \<Rightarrow> \<forall>n. Inl (SysErr e p) = Inr n \<longrightarrow> (\<exists>cs. ?l w = Inr cs \<and> real_node w cs = Some n)
      | (Inr a, w'') \<Rightarrow> \<forall>n. Inr a = Inr n \<longrightarrow> (\<exists>cs. ?l w = Inr cs \<and> real_node w cs = Some n)"
      unfolding l by (cases "?l w") (simp_all split: option.split)
  qed simp
  from postD [OF this assms] obtain cs where "?l w = Inr cs" "real_node w cs = Some n" by blast
  then show ?thesis using that eval_links_more [of 40 w "[]" _ cs 255] by simp
qed

lemma run_existing_path:
  assumes "existing_path m i p k w = (Inr a, w2)"
  obtains n cs w1 where "node_at w1 = node_at w" "eval_links 255 w [] (SplitChar (CHR ''/'') p) = Inr cs" "real_node w cs = Some n" "k n w1 = (Inr a, w2)"
  using assms unfolding existing_path_def
proof (elim run_attempt)
  fix r w1 assume r: "StatReal p w = (r, w1)"
    and k: "(case r of Inl e \<Rightarrow> if errIsNotExist e then fail (codef ErrInvalidRequest m []) else fail (codef ErrFilesystemFailed i [e])
      | Inr info \<Rightarrow> k info) w1 = (Inr a, w2)"
  have n: "node_at w1 = node_at w" by (rule run_reads [OF reads_StatReal r])
  show thesis
  proof (cases r)
    case (Inl e)
    then show ?thesis using k by (simp add: fail_def split: if_splits)
  next
    case (Inr info)
    then show ?thesis using r k that n by (auto elim: run_StatReal)
  qed
qed

text \<open>A relative path without \<open>..\<close> in front means to be inside.\<close>

lemma strip_common_split: "strip_common bs ts = (bs', ts') \<Longrightarrow> \<exists>p. bs = p @ bs' \<and> ts = p @ ts'"
proof (induction bs ts rule: strip_common.induct)
  case (1 b bs t ts)
  then show ?case by (metis append_Cons append_Nil prod.inject strip_common.simps(1))
qed auto

lemma render_up: "render False (''..'' # cs) = ''..'' \<or> HasPrefix (render False (''..'' # cs)) ''../''"
  by (cases cs) (auto simp: render_def HasPrefix_def)

lemma pathContains_inside:
  assumes "pathContains (abs_path cs) (abs_path es)" "list_all safe_component cs" "list_all safe_component es"
  obtains ds where "es = cs @ ds" "Rel (abs_path cs) (abs_path es) = Inr (render False ds)"
proof -
  obtain bs ts where s: "strip_common cs es = (bs, ts)" by fastforce
  have r: "Rel (abs_path cs) (abs_path es) = Inr (render False (map (\<lambda>_. ''..'') bs @ ts))"
    using assms(2,3) s by (simp add: Rel_def comps_abs_path)
  have "bs = []"
  proof (rule ccontr)
    assume "bs \<noteq> []"
    then obtain xs where "map (\<lambda>_. ''..'') bs @ ts = ''..'' # xs" by (cases bs) auto
    then have "render False (map (\<lambda>_. ''..'') bs @ ts) \<noteq> ''.''" "render False (map (\<lambda>_. ''..'') bs @ ts) = ''..'' \<or> HasPrefix (render False (map (\<lambda>_. ''..'') bs @ ts)) ''../''"
      using render_up [of xs] by (auto simp: render_def HasPrefix_def)
    then show False using assms(1) r by (auto simp: pathContains_def)
  qed
  then show ?thesis using strip_common_split [OF s] r that by auto
qed

subsection \<open>What a resolved request promises\<close>

lemma real_dir_walked:
  assumes "walked w cs" "real_node w cs = Some n" "is_dir (Some n)"
  shows "walked_dir w cs"
proof -
  have "is_dir (node_at w (abs_path (take k cs)))" if "k \<in> {1..length cs}" for k
  proof (cases "k = length cs")
    case True
    then have "cs \<noteq> []" using that by auto
    then show ?thesis using True assms(2,3) by (simp add: real_node_def)
  next
    case False
    then have "k \<in> {1..<length cs}" using that by auto
    then show ?thesis using assms(1) unfolding walked_def by blast
  qed
  then show ?thesis using assms(1) by (simp add: walked_dir_def walked_def)
qed

lemma real_file:
  assumes "walked w cs" "real_node w cs = Some n" "\<not> is_dir (Some n)"
  shows "cs \<noteq> [] \<and> (\<exists>d m u. node_at w (abs_path cs) = Some (FileNode d m u))"
proof -
  have "cs \<noteq> []" using assms(2,3) by (auto simp: real_node_def)
  moreover have "node_at w (abs_path cs) = Some n" using assms(2) calculation by (simp add: real_node_def)
  moreover have "\<not> is_link n" using assms(1) calculation by (simp add: walked_def)
  ultimately show ?thesis using assms(3) by (cases n) auto
qed

lemma walk_from_root: "eval_links n w [] (SplitChar (CHR ''/'') p) = Inr cs \<Longrightarrow> walked w cs"
  using eval_links_walked [of n w "[]" "SplitChar (CHR ''/'') p" cs] SplitChar_fields [of _ "CHR ''/''" p] by (simp add: walked_dir_def)

lemma run_resolve_context:
  assumes "resolve_context raw w = (Inr q, w')"
  obtains cs where "q = abs_path cs" "walked_dir w cs" "node_at w' = node_at w"
proof -
  let ?k = "\<lambda>info. if \<not> is_dir (Some info) then fail (codef ErrInvalidRequest ''build context path must be a directory'' [])
    else wrapped (\<lambda>e. codef ErrFilesystemFailed ''resolve build context path'' [e]) (EvalSymlinks (TrimSpace raw))"
  have "existing_path ''build context path does not exist'' ''inspect build context path'' (TrimSpace raw) ?k w = (Inr q, w')"
    using assms by (simp add: resolve_context_def Let_def fail_def split: if_splits)
  then obtain n cs w1 where n: "node_at w1 = node_at w" "eval_links 255 w [] (SplitChar (CHR ''/'') (TrimSpace raw)) = Inr cs"
      "real_node w cs = Some n" "?k n w1 = (Inr q, w')" by (rule run_existing_path)
  have d: "is_dir (Some n)" "wrapped (\<lambda>e. codef ErrFilesystemFailed ''resolve build context path'' [e]) (EvalSymlinks (TrimSpace raw)) w1 = (Inr q, w')"
    using n(4) by (auto simp: fail_def split: if_splits)
  from d(2) have "EvalSymlinks (TrimSpace raw) w1 = (Inr q, w')" by (rule run_wrapped)
  then obtain cs' where e: "eval_links 255 w1 [] (SplitChar (CHR ''/'') (TrimSpace raw)) = Inr cs'" "q = abs_path cs'" "node_at w' = node_at w1"
    by (rule run_EvalSymlinks)
  have "cs' = cs" using e(1) n(2) eval_links_cong [OF n(1)] by simp
  then show ?thesis using that [of cs] e n real_dir_walked [OF walk_from_root [OF n(2)] n(3) d(1)] by simp
qed

lemma run_resolve_dockerfile:
  assumes "resolve_dockerfile (abs_path cs) raw w = (Inr (q, rel), w')" "walked_dir w cs"
  obtains ds d m u where "q = abs_path (cs @ ds)" "rel = render False ds" "ds \<noteq> []" "walked w (cs @ ds)"
    "node_at w q = Some (FileNode d m u)" "node_at w' = node_at w"
proof -
  define p where "p = (if TrimSpace raw = [] then Join [abs_path cs, ''Dockerfile''] else TrimSpace raw)"
  let ?rest = "\<lambda>q. if \<not> pathContains (abs_path cs) q then fail (codef ErrInvalidRequest ''Dockerfile path must resolve inside the build context'' [])
      else tryE (wrapped (\<lambda>e. codef ErrFilesystemFailed ''resolve Dockerfile relative path'' [e]) (lift_sum (Rel (abs_path cs) q))) (\<lambda>rel. ret (q, rel))"
  let ?k = "\<lambda>info. if is_dir (Some info) then fail (codef ErrInvalidRequest ''Dockerfile path must be a file'' [])
    else tryE (wrapped (\<lambda>e. codef ErrFilesystemFailed ''resolve Dockerfile path'' [e]) (EvalSymlinks p)) ?rest"
  have "existing_path ''Dockerfile path does not exist'' ''inspect Dockerfile path'' p ?k w = (Inr (q, rel), w')"
    using assms(1) unfolding resolve_dockerfile_def Let_def p_def [symmetric] by (simp add: fail_def split: if_splits)
  then obtain n es w1 where n: "node_at w1 = node_at w" "eval_links 255 w [] (SplitChar (CHR ''/'') p) = Inr es"
      "real_node w es = Some n" "?k n w1 = (Inr (q, rel), w')" by (rule run_existing_path)
  have d: "\<not> is_dir (Some n)" "tryE (wrapped (\<lambda>e. codef ErrFilesystemFailed ''resolve Dockerfile path'' [e]) (EvalSymlinks p)) ?rest w1 = (Inr (q, rel), w')"
    using n(4) by (auto simp: fail_def split: if_splits)
  from d(2) obtain q' w2 where q': "EvalSymlinks p w1 = (Inr q', w2)" "?rest q' w2 = (Inr (q, rel), w')"
    by (elim run_tryE run_wrapped)
  from q'(1) obtain es' where e: "eval_links 255 w1 [] (SplitChar (CHR ''/'') p) = Inr es'" "q' = abs_path es'" "node_at w2 = node_at w1"
    by (rule run_EvalSymlinks)
  have es: "es' = es" using e(1) n(2) eval_links_cong [OF n(1)] by simp
  have c: "pathContains (abs_path cs) q'" "q' = q" "Rel (abs_path cs) q = Inr rel" "w' = w2"
    using q'(2) by (auto simp: fail_def tryE_def wrapped_def lift_sum_def ret_def split: if_splits sum.splits)
  have w: "walked w es" by (rule walk_from_root [OF n(2)])
  have safe: "list_all safe_component cs" "list_all safe_component es" using assms(2) w by (auto simp: walked_dir_def walked_def)
  obtain ds where ds: "es = cs @ ds" "Rel (abs_path cs) (abs_path es) = Inr (render False ds)"
    using pathContains_inside [OF _ safe] c(1) e(2) es by blast
  obtain x m u where f: "node_at w (abs_path es) = Some (FileNode x m u)" "es \<noteq> []" using real_file [OF w n(3) d(1)] by blast
  have "ds \<noteq> []"
  proof
    assume "ds = []"
    then have "is_dir (node_at w (abs_path (take (length cs) cs)))" using assms(2) f(2) ds(1) unfolding walked_dir_def by (metis append_Nil2 atLeastAtMost_iff le_refl length_greater_0_conv less_eq_Suc_le One_nat_def)
    then show False using f(1) ds(1) \<open>ds = []\<close> by simp
  qed
  then show ?thesis using that [of ds x m u] ds c e es f w n(1) by simp
qed

lemma trim_args_named:
  "trim_args xs args = Inr ys \<Longrightarrow> \<forall>k \<in> fst ` set args. k \<noteq> [] \<and> TrimSpace k = k \<Longrightarrow> \<forall>k \<in> fst ` set ys. k \<noteq> [] \<and> TrimSpace k = k"
proof (induction xs args rule: trim_args.induct)
  case (2 k v rest args)
  have n: "TrimSpace k \<noteq> []" "trim_args rest (AList.update (TrimSpace k) v args) = Inr ys" using 2(2) by (auto split: if_splits)
  have "fst ` set (AList.update (TrimSpace k) v args) = insert (TrimSpace k) (fst ` set args)" by (simp add: dom_update)
  then have "\<forall>k \<in> fst ` set (AList.update (TrimSpace k) v args). k \<noteq> [] \<and> TrimSpace k = k"
    using 2(3) n(1) TrimSpace_idem [of k] by (metis insert_iff)
  then show ?case by (rule 2(1) [OF n])
qed simp

text \<open>C40. A request that is accepted names a build context that is a directory and a Dockerfile that
  is a regular file strictly inside it, both without a link on their way, so that the name handed to
  the builder cannot leave the context; its build arguments have trimmed names that are not empty,
  and nothing on disk has changed.\<close>
theorem dockerfile_in_context:
  assumes "resolveRequest lib host_arch request w = (Inr b, w')"
  shows "\<exists>cs ds d m u. rq_contextPath b = abs_path cs \<and> walked_dir w cs \<and>
    rq_dockerfilePath b = abs_path (cs @ ds) \<and> walked w (cs @ ds) \<and> ds \<noteq> [] \<and> rq_dockerfileRelPath b = JoinStrings ds ''/'' \<and>
    node_at w (rq_dockerfilePath b) = Some (FileNode d m u) \<and>
    (\<forall>k \<in> fst ` set (rq_buildArgs b). k \<noteq> [] \<and> TrimSpace k = k) \<and> node_at w' = node_at w"
  using assms unfolding resolveRequest_def
proof (elim run_tryE run_lift_sum)
  fix reference w1 contextPath w2 x w3 args w4
  assume w1: "w1 = w" and directory: "resolve_context (br_ContextPath request) w1 = (Inr contextPath, w2)"
    and dockerfile: "resolve_dockerfile contextPath (br_DockerfilePath request) w2 = (Inr x, w3)"
    and rest: "(case x of (dockerfilePath, rel) \<Rightarrow> tryE (lift_sum (trim_args (br_BuildArgs request) [])) (\<lambda>buildArgs.
       ret \<lparr>rq_reference = reference, rq_contextPath = contextPath, rq_dockerfilePath = dockerfilePath, rq_dockerfileRelPath = rel,
         rq_platform = NormalizePlatform host_arch (br_Platform request), rq_target = TrimSpace (br_Target request), rq_buildArgs = buildArgs\<rparr>)) w3 = (Inr b, w')"
  obtain q rel where x: "x = (q, rel)" by (cases x)
  obtain cs where cs: "contextPath = abs_path cs" "walked_dir w cs" "node_at w2 = node_at w"
    using run_resolve_context [OF directory] w1 by metis
  have "walked_dir w2 cs" using cs(2,3) by (simp add: walked_dir_def)
  then obtain ds d m u where ds: "q = abs_path (cs @ ds)" "rel = render False ds" "ds \<noteq> []" "walked w2 (cs @ ds)"
      "node_at w2 q = Some (FileNode d m u)" "node_at w3 = node_at w2"
    using run_resolve_dockerfile [OF dockerfile [unfolded x cs(1)]] by metis
  from rest [unfolded x prod.case] have args: "trim_args (br_BuildArgs request) [] = Inr (rq_buildArgs b)" "w' = w3"
      "rq_contextPath b = contextPath" "rq_dockerfilePath b = q" "rq_dockerfileRelPath b = rel"
    by (auto elim!: run_tryE run_lift_sum run_ret)
  have "walked w (cs @ ds)" using ds(4) cs(3) by (simp add: walked_def)
  then show ?thesis using cs ds args trim_args_named [OF args(1)] by (intro exI [of _ cs] exI [of _ ds] exI [of _ d] exI [of _ m] exI [of _ u]) (simp add: render_def)
qed

text \<open>A context reached through a link, with a Dockerfile that is a link inside it.\<close>

definition build_world :: world where
  "build_world = \<lparr>files = [(''/src'', LinkNode ''/data''), (''/data'', DirNode 448 0), (''/data/docker'', DirNode 448 0),
     (''/data/docker/main'', FileNode ''FROM x'' 384 0), (''/data/Dockerfile'', LinkNode ''docker/../docker/main'')], faults = [], now = 0, fresh = 0\<rparr>"

definition build_example :: build_request where
  "build_example = \<lparr>br_Reference = ''alpine'', br_ContextPath = '' /src/'', br_DockerfilePath = [],
     br_Platform = \<lparr>OS = [], Architecture = [], Variant = []\<rparr>, br_Target = [], br_BuildArgs = [('' A'', ''1'')]\<rparr>"

lemma build_example_run:
  "resolveRequest toy_lib ''amd64'' build_example build_world =
    (Inr \<lparr>rq_reference = ''alpine'', rq_contextPath = ''/data'', rq_dockerfilePath = ''/data/docker/main'', rq_dockerfileRelPath = ''docker/main'',
       rq_platform = NormalizePlatform ''amd64'' (br_Platform build_example), rq_target = [], rq_buildArgs = [(''A'', ''1'')]\<rparr>, build_world\<lparr>now := 4\<rparr>)"
proof -
  have "resolve_context '' /src/'' build_world = (Inr ''/data'', build_world\<lparr>now := 2\<rparr>)" by code_simp
  moreover have "resolve_dockerfile ''/data'' [] (build_world\<lparr>now := 2\<rparr>) = (Inr (''/data/docker/main'', ''docker/main''), build_world\<lparr>now := 4\<rparr>)"
    by code_simp
  moreover have "trim_args [('' A'', ''1'')] [] = Inr [(''A'', ''1'')]" by code_simp
  moreover have "CanonicalImageReference toy_lib ''alpine'' = Inr ''alpine''" by code_simp
  ultimately show ?thesis
    unfolding resolveRequest_def tryE_def lift_sum_def by (simp add: build_example_def ret_def del: trim_args.simps)
qed

theorem dockerfile_in_context_witness:
  "\<exists>b w'. resolveRequest toy_lib ''amd64'' build_example build_world = (Inr b, w') \<and> rq_dockerfileRelPath b = ''docker/main'' \<and>
    (\<exists>cs ds d m u. rq_contextPath b = abs_path cs \<and> rq_dockerfilePath b = abs_path (cs @ ds) \<and> ds \<noteq> [] \<and>
       node_at build_world (rq_dockerfilePath b) = Some (FileNode d m u))"
proof -
  obtain b w' where run: "resolveRequest toy_lib ''amd64'' build_example build_world = (Inr b, w')" "rq_dockerfileRelPath b = ''docker/main''"
    using build_example_run by (metis resolvedRequest.select_convs(4))
  from dockerfile_in_context [OF run(1)] obtain cs ds d m u where "rq_contextPath b = abs_path cs" "rq_dockerfilePath b = abs_path (cs @ ds)"
      "ds \<noteq> []" "node_at build_world (rq_dockerfilePath b) = Some (FileNode d m u)" by blast
  then show ?thesis using run by blast
qed

end
