(* ===== verification/BuildKit_Archive.thy ===== *)
theory BuildKit_Archive
  imports Build_Request Metadata CI_Config
begin

text \<open>
  \<open>pkg/image/internal/buildkit/archive.go\<close>: unpacking the OCI archive of a build and writing files
  atomically below the image workspace.

  Reading the tar format is a parameter: an archive is the entries that \<open>Next\<close> returns and the
  error it ends with, \<open>None\<close> for \<open>io.EOF\<close>. A truncated entry has the error that reading its content
  ends with.
\<close>

subsection \<open>Data\<close>

text \<open>\<open>TypeLegacy\<close> is the type flag 0 of old archives.\<close>

datatype tar_type = TypeReg | TypeLegacy | TypeDir | TypeOther string

record tar_entry =
  th_Name :: string
  th_Typeflag :: tar_type
  th_Linkname :: string
  th_content :: string
  th_broken :: "goerr option"

type_synonym tar_archive = "tar_entry list \<times> goerr option"

record toolPaths =
  tp_buildctl :: string
  tp_buildkitd :: string
  tp_rootlesskit :: string
  tp_runc :: string

record builder =
  b_config :: BuildKitConfig
  b_root :: string
  b_paths :: toolPaths
  b_snapshotter :: string
  b_workspace :: "workspace option"

text \<open>A nil workspace has empty roots.\<close>

definition b_ws_root :: "builder \<Rightarrow> string" where
  "b_ws_root b = (case b_workspace b of None \<Rightarrow> [] | Some ws \<Rightarrow> ws_root ws)"

definition b_ws_tmp :: "builder \<Rightarrow> string" where
  "b_ws_tmp b = (case b_workspace b of None \<Rightarrow> [] | Some ws \<Rightarrow> ws_tmp ws)"

subsection \<open>Paths\<close>

definition relBelow :: "string \<Rightarrow> string \<Rightarrow> string option" where
  "relBelow root path =
     (case Rel root path of
        Inl e \<Rightarrow> None
      | Inr rel \<Rightarrow> if rel = ''..'' \<or> HasPrefix rel ''../'' then None else Some rel)"

definition unsafe_path :: "string \<Rightarrow> goerr" where
  "unsafe_path name = codef ErrBuildFailed (''unsafe OCI archive path '' @ Quote name) []"

definition safeTarPath :: "string \<Rightarrow> string \<Rightarrow> goerr + string" where
  "safeTarPath root name =
     (let clean = Clean name in
      if clean = ''.'' \<or> isAbs clean \<or> HasPrefix clean ''../'' \<or> clean = ''..'' then Inl (unsafe_path name)
      else let target = Join [root, clean] in
        case Rel root target of
          Inl e \<Rightarrow> Inl (unsafe_path name)
        | Inr relative \<Rightarrow> if relative = ''..'' \<or> HasPrefix relative ''../'' then Inl (unsafe_path name) else Inr target)"

definition outside_workspace :: "string \<Rightarrow> goerr" where
  "outside_workspace path = codef ErrInvalidRequest (''path '' @ Quote path @ '' is outside image workspace'') []"

definition mkdirPrivatePath :: "secure_join \<Rightarrow> builder \<Rightarrow> string \<Rightarrow> unit io" where
  "mkdirPrivatePath SJ b path =
     (case relBelow (b_ws_root b) path of
        Some rel \<Rightarrow> tryE (MkdirPrivate SJ (b_workspace b) rel) (\<lambda>_. ret ())
      | None \<Rightarrow>
          (case relBelow (b_ws_tmp b) path of
             Some _ \<Rightarrow> MkdirAll path 448 0
           | None \<Rightarrow> fail (outside_workspace path)))"

definition createTempForPath :: "secure_join \<Rightarrow> builder \<Rightarrow> string \<Rightarrow> string \<Rightarrow> string io" where
  "createTempForPath SJ b parent pattern =
     (case relBelow (b_ws_root b) parent of
        Some rel \<Rightarrow> ws_CreateTemp SJ (b_workspace b) rel pattern
      | None \<Rightarrow>
          (case relBelow (b_ws_tmp b) parent of
             Some rel \<Rightarrow> ws_CreateTemp SJ (b_workspace b) rel pattern
           | None \<Rightarrow> fail (outside_workspace parent)))"

subsection \<open>Files\<close>

text \<open>\<open>io.Copy\<close> from a reader that yields \<open>data\<close> and then ends or fails.\<close>

definition copy_from :: "string \<Rightarrow> goerr option \<Rightarrow> string \<Rightarrow> unit io" where
  "copy_from data broken tmp = tryE (FWrite tmp data) (\<lambda>_. lift_err broken)"

definition write_temporary :: "(string \<Rightarrow> unit io) \<Rightarrow> nat \<Rightarrow> string \<Rightarrow> string \<Rightarrow> unit io" where
  "write_temporary copy mode tmp path =
     attempt (copy tmp) (\<lambda>r. case r of Inl e \<Rightarrow> close_and_fail tmp (filesystem ''write temporary file'' e) | Inr _ \<Rightarrow>
     attempt (Effectless tmp) (\<lambda>r. case r of Inl e \<Rightarrow> close_and_fail tmp (filesystem ''sync temporary file'' e) | Inr _ \<Rightarrow>
     attempt (Chmod tmp mode) (\<lambda>r. case r of Inl e \<Rightarrow> close_and_fail tmp (filesystem ''set temporary file mode'' e) | Inr _ \<Rightarrow>
     tryE (wrapped (filesystem ''close temporary file'') (Effectless tmp)) (\<lambda>_.
       wrapped (filesystem ''commit temporary file'') (Rename tmp path)))))"

definition writeFileAtomic :: "secure_join \<Rightarrow> builder \<Rightarrow> string \<Rightarrow> (string \<Rightarrow> unit io) \<Rightarrow> nat \<Rightarrow> unit io" where
  "writeFileAtomic SJ b path copy mode =
     tryE (wrapped (filesystem ''create file parent'') (mkdirPrivatePath SJ b (Dir path))) (\<lambda>_.
     tryE (wrapped (filesystem ''create temporary file'') (createTempForPath SJ b (Dir path) (''.'' @ Base path @ ''.tmp-''))) (\<lambda>tmp.
       unless_committed tmp (write_temporary copy mode tmp path)))"

definition writeExecutableAtomic :: "secure_join \<Rightarrow> builder \<Rightarrow> string \<Rightarrow> (string \<Rightarrow> unit io) \<Rightarrow> unit io" where
  "writeExecutableAtomic SJ b path copy = writeFileAtomic SJ b path copy 493"

subsection \<open>Archives\<close>

definition extract_entry :: "secure_join \<Rightarrow> builder \<Rightarrow> string \<Rightarrow> tar_entry \<Rightarrow> unit io" where
  "extract_entry SJ b destination h =
     tryE (lift_sum (safeTarPath destination (th_Name h))) (\<lambda>target.
       case th_Typeflag h of
         TypeDir \<Rightarrow> wrapped (filesystem ''create OCI archive directory'') (mkdirPrivatePath SJ b target)
       | TypeOther f \<Rightarrow> fail (codef ErrBuildFailed (''unsupported OCI archive entry '' @ Quote (th_Name h)) [])
       | _ \<Rightarrow>
           tryE (wrapped (filesystem ''create OCI archive file parent'') (mkdirPrivatePath SJ b (Dir target))) (\<lambda>_.
             writeFileAtomic SJ b target (copy_from (th_content h) (th_broken h)) 384))"

text \<open>Every call of \<open>Next\<close> reads from the archive, which may fail.\<close>

fun extract_entries :: "secure_join \<Rightarrow> builder \<Rightarrow> string \<Rightarrow> string \<Rightarrow> tar_entry list \<Rightarrow> goerr option \<Rightarrow> unit io" where
  "extract_entries SJ b tarPath destination [] end_err =
     wrapped (\<lambda>e. codef ErrBuildFailed ''read BuildKit OCI archive'' [e]) (tryE (Effectless tarPath) (\<lambda>_. lift_err end_err))"
| "extract_entries SJ b tarPath destination (h # hs) end_err =
     tryE (wrapped (\<lambda>e. codef ErrBuildFailed ''read BuildKit OCI archive'' [e]) (Effectless tarPath)) (\<lambda>_.
     tryE (extract_entry SJ b destination h) (\<lambda>_. extract_entries SJ b tarPath destination hs end_err))"

definition extractOCITar :: "(string \<Rightarrow> tar_archive) \<Rightarrow> secure_join \<Rightarrow> builder \<Rightarrow> string \<Rightarrow> string \<Rightarrow> unit io" where
  "extractOCITar read_tar SJ b tarPath destination =
     tryE (wrapped (filesystem ''open BuildKit OCI archive'') (OpenRead tarPath)) (\<lambda>_.
       deferred (Effectless tarPath)
        (\<lambda>w. case read_tar (open_content w tarPath) of (hs, end_err) \<Rightarrow> extract_entries SJ b tarPath destination hs end_err w))"

subsection \<open>Temporary files with a suffix\<close>

text \<open>\<open>os.CreateTemp\<close> with a pattern that goes on after the number.\<close>

fun temp_between :: "nat \<Rightarrow> world \<Rightarrow> string \<Rightarrow> string \<Rightarrow> nat \<Rightarrow> (string \<times> nat) option" where
  "temp_between 0 w p s k = None"
| "temp_between (Suc n) w p s k =
     (if node_at w (p @ FormatUint k @ s) = None then Some (p @ FormatUint k @ s, Suc k) else temp_between n w p s (Suc k))"

definition CreateTempBetween :: "string \<Rightarrow> string \<Rightarrow> string \<Rightarrow> string io" where
  "CreateTempBetween dir prefix suffix = syscall dir (\<lambda>w.
     (if \<not> is_dir (node_at w dir) then (Inl ENOENT, w)
      else case temp_between 10000 w (in_dir dir prefix) suffix (fresh w) of
          None \<Rightarrow> (Inl EEXIST, w)
        | Some (p, k) \<Rightarrow> (Inr p, put p (FileNode [] 384 0) (w\<lparr>fresh := k\<rparr>))))"

text \<open>\<open>Workspace.CreateTemp\<close> with such a pattern.\<close>

definition ws_CreateTempBetween :: "secure_join \<Rightarrow> workspace option \<Rightarrow> string \<Rightarrow> string \<Rightarrow> string \<Rightarrow> string io" where
  "ws_CreateTempBetween SJ w relDir prefix suffix =
     tryE (lift_err (requireReady w)) (\<lambda>_.
     tryE (tmpPath SJ w relDir) (\<lambda>parent.
     tryE (createDirectory parent ''temporary file parent'' True) (\<lambda>_.
       wrapped (\<lambda>e. codef ErrFilesystemFailed ''create temporary file'' [e]) (CreateTempBetween parent prefix suffix))))"

end
