(* ===== verification/BuildKit_Install.thy ===== *)
theory BuildKit_Install
  imports BuildKit_Archive Runc_Install
begin

text \<open>
  \<open>pkg/image/internal/buildkit/install.go\<close>: the tools of a build, which are local executables or
  downloaded ones below the image root.

  The HTTP client, gzip and tar, SHA-256 and the execution of a tool are parameters. The maps of
  expected archive entries and of configured paths are lists in the order of iteration.
\<close>

subsection \<open>Tools and parameters\<close>

text \<open>A command: \<open>None\<close> inherits the environment, an empty directory is the current one.\<close>

record tool_command =
  tc_path :: string
  tc_args :: "string list"
  tc_env :: "string list option"
  tc_dir :: string

record managedArchive =
  ma_version :: string
  ma_url :: string
  ma_sha256 :: string

text \<open>
  A started daemon: what the loop that waits for it sees in each round, its output at that time,
  and whether it has exited, or exits in time after SIGTERM, when it is stopped.
\<close>

datatype ready_event = DaemonExits "goerr option" | ContextDone | DeadlineFires | Tick

record daemon =
  d_events :: "ready_event list"
  d_output :: string
  d_exited :: bool
  d_obeys :: bool

record buildkit_tools =
  bt_lib :: image_lib
  bt_join :: secure_join
  bt_os :: string
  bt_arch :: string
  bt_uid :: nat
  bt_depth :: nat
  bt_sha256 :: "string \<Rightarrow> string"
  bt_new_request :: "string \<Rightarrow> goerr option"
  bt_http_get :: "ctx \<Rightarrow> string \<Rightarrow> response io"
  bt_gunzip_tar :: "string \<Rightarrow> goerr + tar_archive"
  bt_read_tar :: "string \<Rightarrow> tar_archive"
  bt_environ :: "string list"
  run_tool :: "ctx \<Rightarrow> tool_command \<Rightarrow> world \<Rightarrow> (string \<times> goerr option) \<times> world"
  start_tool :: "ctx \<Rightarrow> tool_command \<Rightarrow> daemon io"
  signal_daemon :: "daemon \<Rightarrow> string \<Rightarrow> unit io"
  bt_minute :: nat

definition install_error :: "string \<Rightarrow> goerr \<Rightarrow> goerr" where
  "install_error what e = codef ErrBuildInstallFailed what [e]"

text \<open>\<open>runtime\<close> is the call that always comes back with an output and possibly an error.\<close>

definition run_to_end :: "buildkit_tools \<Rightarrow> ctx \<Rightarrow> tool_command \<Rightarrow> (string \<times> goerr option) io" where
  "run_to_end tools c command w = (case run_tool tools c command w of (r, w') \<Rightarrow> (Inr r, w'))"

subsection \<open>Configuration\<close>

definition defaultSnapshotter :: string where
  "defaultSnapshotter = ''native''"

definition validateArchiveOverride :: "string \<Rightarrow> string \<Rightarrow> string \<Rightarrow> string \<Rightarrow> goerr option" where
  "validateArchiveOverride name ver url digest =
     (let ver = TrimSpace ver; url = TrimSpace url; digest = TrimSpace digest in
      if (ver \<noteq> [] \<or> url \<noteq> [] \<or> digest \<noteq> []) \<and> (ver = [] \<or> url = [] \<or> digest = [])
      then Some (codef ErrInvalidRequest (''managed '' @ name @ '' download requires version, url, and sha256'') []) else None)"

definition configuredArchive :: "string \<Rightarrow> string \<Rightarrow> string \<Rightarrow> string \<Rightarrow> goerr + managedArchive \<Rightarrow> goerr + managedArchive" where
  "configuredArchive name ver url digest defaults =
     (let ver = TrimSpace ver; url = TrimSpace url; digest = TrimSpace digest in
      case validateArchiveOverride name ver url digest of
        Some e \<Rightarrow> Inl e
      | None \<Rightarrow> if ver \<noteq> [] then Inr \<lparr>ma_version = ver, ma_url = url, ma_sha256 = digest\<rparr> else defaults)"

definition no_default :: "string \<Rightarrow> string \<Rightarrow> goerr" where
  "no_default what arch = codef ErrUnsupportedHost (what @ '' for architecture '' @ Quote arch) []"

definition buildKitArchive :: "string \<Rightarrow> BuildKitConfig \<Rightarrow> goerr + managedArchive" where
  "buildKitArchive arch config =
     configuredArchive ''BuildKit'' (BuildKitVersion config) (BuildKitURL config) (BuildKitSHA256 config)
       (if arch = ''amd64'' then Inr \<lparr>ma_version = ''v0.31.2'',
          ma_url = ''https://github.com/moby/buildkit/releases/download/v0.31.2/buildkit-v0.31.2.linux-amd64.tar.gz'',
          ma_sha256 = ''fbabdb72433a35f5bb646e4cd424bf8567e5d055710cf55840f7af2020640791''\<rparr>
        else if arch = ''arm64'' then Inr \<lparr>ma_version = ''v0.31.2'',
          ma_url = ''https://github.com/moby/buildkit/releases/download/v0.31.2/buildkit-v0.31.2.linux-arm64.tar.gz'',
          ma_sha256 = ''41fba1eed480376934fa4c8177ddd7021036b5168a0eb8e7ab5eccdf75d47a05''\<rparr>
        else Inl (no_default ''BuildKit does not have a default archive'' arch))"

definition rootlessKitArchive :: "string \<Rightarrow> BuildKitConfig \<Rightarrow> goerr + managedArchive" where
  "rootlessKitArchive arch config =
     configuredArchive ''RootlessKit'' (RootlessKitVersion config) (RootlessKitURL config) (RootlessKitSHA256 config)
       (if arch = ''amd64'' then Inr \<lparr>ma_version = ''v3.0.2'',
          ma_url = ''https://github.com/rootless-containers/rootlesskit/releases/download/v3.0.2/rootlesskit-x86_64.tar.gz'',
          ma_sha256 = ''f4f2764cdd99db4f3fa715acac9d760c49a5e7c2838f180bdbe3188cec248dfb''\<rparr>
        else if arch = ''arm64'' then Inr \<lparr>ma_version = ''v3.0.2'',
          ma_url = ''https://github.com/rootless-containers/rootlesskit/releases/download/v3.0.2/rootlesskit-aarch64.tar.gz'',
          ma_sha256 = ''823ce5dc80fe24da6c1b1e3c37a70fa6e8ba3067636d9a763228031ffeb43dc8''\<rparr>
        else Inl (no_default ''RootlessKit does not have a default archive'' arch))"

definition runcBinary :: "string \<Rightarrow> goerr + runtimeBinary" where
  "runcBinary arch =
     (if arch = ''amd64'' then Inr \<lparr>bin_version = ''v1.5.0'',
        bin_url = ''https://github.com/opencontainers/runc/releases/download/v1.5.0/runc.amd64'',
        bin_sha256 = ''0363e69bebd3a027d1239364ab9b4f4873f6bc4e7a7878e94b4ea59f08551297''\<rparr>
      else if arch = ''arm64'' then Inr \<lparr>bin_version = ''v1.5.0'',
        bin_url = ''https://github.com/opencontainers/runc/releases/download/v1.5.0/runc.arm64'',
        bin_sha256 = ''1f6d8c553add066a6aaf838d3172d4c5ed3c6b065b6f7eed2f4a4aa4af261e59''\<rparr>
      else Inl (no_default ''runc does not have a default binary'' arch))"

fun relative_tool :: "(string \<times> string) list \<Rightarrow> goerr option" where
  "relative_tool [] = None"
| "relative_tool ((name, path) # ps) =
     (if TrimSpace path \<noteq> [] \<and> \<not> isAbs (TrimSpace path)
      then Some (codef ErrInvalidRequest (name @ '' path must be absolute'') []) else relative_tool ps)"

definition left_error :: "goerr + 'a \<Rightarrow> goerr option" where
  "left_error r = (case r of Inl e \<Rightarrow> Some e | Inr _ \<Rightarrow> None)"

definition validateConfig :: "string \<Rightarrow> BuildKitConfig \<Rightarrow> goerr option" where
  "validateConfig arch config =
     (let snapshotter = TrimSpace (Snapshotter config) in
      if snapshotter \<noteq> [] \<and> snapshotter \<noteq> defaultSnapshotter
      then Some (codef ErrInvalidRequest (''unsupported BuildKit snapshotter '' @ Quote (Snapshotter config)) [])
      else if (TrimSpace (BuildctlPath config) = []) \<noteq> (TrimSpace (BuildkitdPath config) = [])
      then Some (codef ErrInvalidRequest ''BuildKit local tools require both buildctl_path and buildkitd_path'' [])
      else case relative_tool [(''buildctl'', BuildctlPath config), (''buildkitd'', BuildkitdPath config),
          (''rootlesskit'', RootlessKitPath config), (''runc'', RuncPath config)] of
        Some e \<Rightarrow> Some e
      | None \<Rightarrow>
     (case validateArchiveOverride ''BuildKit'' (BuildKitVersion config) (BuildKitURL config) (BuildKitSHA256 config) of
        Some e \<Rightarrow> Some e
      | None \<Rightarrow>
     (case validateArchiveOverride ''RootlessKit'' (RootlessKitVersion config) (RootlessKitURL config) (RootlessKitSHA256 config) of
        Some e \<Rightarrow> Some e
      | None \<Rightarrow>
     (case (if TrimSpace (BuildctlPath config) = [] then left_error (buildKitArchive arch config) else None) of
        Some e \<Rightarrow> Some e
      | None \<Rightarrow> if TrimSpace (RootlessKitPath config) = [] then left_error (rootlessKitArchive arch config) else None))))"

subsection \<open>Digests\<close>

definition bk_parseSHA256 :: "string \<Rightarrow> string \<Rightarrow> goerr + string" where
  "bk_parseSHA256 raw label =
     (case HexDecode (TrimPrefix (TrimSpace raw) ''sha256:'') of
        None \<Rightarrow> Inl (codef ErrInvalidRequest (''parse '' @ label @ '' sha256'') [Opaque ''encoding/hex: invalid byte''])
      | Some digest \<Rightarrow>
          if length digest \<noteq> 32 then Inl (codef ErrInvalidRequest (''parse '' @ label @ '' sha256: wrong size'') []) else Inr digest)"

definition bk_fileMatchesSHA256 :: "buildkit_tools \<Rightarrow> string \<Rightarrow> string \<Rightarrow> bool io" where
  "bk_fileMatchesSHA256 tools path expectedDigest =
     attempt (OpenRead path) (\<lambda>r.
       case r of
         Inl e \<Rightarrow> if errIsNotExist e then ret False else fail e
       | Inr _ \<Rightarrow> deferred (Effectless path) (tryE (ReadFile path) (\<lambda>data. ret (equalDigest (bt_sha256 tools data) expectedDigest))))"

subsection \<open>Probes\<close>

definition probeTool :: "buildkit_tools \<Rightarrow> ctx \<Rightarrow> string \<Rightarrow> unit io" where
  "probeTool tools c path =
     (if TrimSpace path = [] then fail (Opaque ''tool path is required'')
      else tryE (run_to_end tools c \<lparr>tc_path = path, tc_args = [''--version''], tc_env = None, tc_dir = []\<rparr>) (\<lambda>(output, err).
        case err of
          None \<Rightarrow> ret ()
        | Some e \<Rightarrow> check_ctx c (\<lambda>x. codef ErrCanceled ''probe canceled'' [x])
            (fail (Errorf [e] (''version probe failed: '' @ ErrorText e @ '': '' @ TrimSpace output)))))"

definition localTool :: "buildkit_tools \<Rightarrow> ctx \<Rightarrow> string \<Rightarrow> string \<Rightarrow> string io" where
  "localTool tools c name raw =
     (let path = TrimSpace raw in
      if path = [] then fail (codef ErrInvalidRequest (name @ '' path is required'') [])
      else if \<not> isAbs path then fail (codef ErrInvalidRequest (name @ '' path must be absolute'') [])
      else attempt (Stat path) (\<lambda>r. case r of
          Inl e \<Rightarrow>
            if errIsNotExist e then fail (codef ErrInvalidRequest (name @ '' path does not exist'') [])
            else fail (codef ErrFilesystemFailed (''inspect '' @ name @ '' path'') [e])
        | Inr info \<Rightarrow>
            if is_dir (Some info) then fail (codef ErrInvalidRequest (name @ '' path must be a file'') [])
            else tryE (wrapped (install_error (''probe '' @ name)) (probeTool tools c path)) (\<lambda>_. ret path)))"

subsection \<open>Downloads\<close>

definition canceled_or :: "ctx \<Rightarrow> string \<Rightarrow> goerr \<Rightarrow> 'a io" where
  "canceled_or c what e = check_ctx c (\<lambda>x. codef ErrCanceled what [x]) (fail e)"

text \<open>The request of both downloads; the body of the response is closed at the end.\<close>

definition download_response :: "buildkit_tools \<Rightarrow> ctx \<Rightarrow> string \<Rightarrow> string \<Rightarrow> (response \<Rightarrow> 'a io) \<Rightarrow> 'a io" where
  "download_response tools c url label body =
     (case bt_new_request tools url of
        Some e \<Rightarrow> fail (install_error (''create '' @ label @ '' download request'') e)
      | None \<Rightarrow>
          attempt (bt_http_get tools c url) (\<lambda>res. case res of
            Inl e \<Rightarrow> canceled_or c (label @ '' download canceled while requesting'') (install_error (''download '' @ label) e)
          | Inr response \<Rightarrow>
              deferred (Effectless ''body'')
               (if resp_status response \<noteq> 200 then fail (codef ErrBuildInstallFailed (''download '' @ label @ '': unexpected HTTP status'') [])
                else body response)))"

definition checksum_error :: "string \<Rightarrow> goerr" where
  "checksum_error label = codef ErrBuildInstallFailed (''verify '' @ label @ '' checksum'') []"

text \<open>The content of a temporary file: the body, its digest checked, synced; \<open>cleanup\<close> follows the close on failure.\<close>

definition download_to :: "buildkit_tools \<Rightarrow> ctx \<Rightarrow> string \<Rightarrow> unit io \<Rightarrow> string \<Rightarrow> string \<Rightarrow> string \<Rightarrow> response \<Rightarrow> unit io \<Rightarrow> unit io" where
  "download_to tools c tmp cleanup label what expectedDigest response k =
     (let give_up = (\<lambda>e. attempt (Effectless tmp) (\<lambda>_. attempt cleanup (\<lambda>_. e))) in
      attempt (copy_from (resp_body response) (resp_err response) tmp) (\<lambda>copied. case copied of
        Inl e \<Rightarrow> give_up (canceled_or c (label @ '' download canceled while reading response'') (install_error (''download '' @ label) e))
      | Inr _ \<Rightarrow>
          if \<not> equalDigest (bt_sha256 tools (resp_body response)) expectedDigest then give_up (fail (checksum_error label))
          else attempt (Effectless tmp) (\<lambda>synced. case synced of
              Inl e \<Rightarrow> give_up (fail (install_error (''sync '' @ label @ what) e))
            | Inr _ \<Rightarrow> k)))"

text \<open>The archive stays only when everything has succeeded; then the caller removes it.\<close>

definition downloadArchive :: "buildkit_tools \<Rightarrow> builder \<Rightarrow> ctx \<Rightarrow> string \<Rightarrow> string \<Rightarrow> string \<Rightarrow> string \<Rightarrow> string io" where
  "downloadArchive tools b c url expectedDigest tempDir label =
     download_response tools c url label (\<lambda>response.
       case relBelow (b_ws_root b) tempDir of
         None \<Rightarrow> fail (codef ErrInvalidRequest (label @ '' temporary directory '' @ Quote tempDir @ '' is outside image workspace'') [])
       | Some tempRel \<Rightarrow>
           tryE (wrapped (filesystem (''create temporary '' @ label @ '' archive''))
               (ws_CreateTempBetween (bt_join tools) (b_workspace b) tempRel (''.'' @ ToLower label @ ''-'') ''.tar.gz'')) (\<lambda>tmp.
             tryE (download_to tools c tmp (Remove tmp) label '' archive'' expectedDigest response
               (attempt (Effectless tmp) (\<lambda>closed. case closed of
                  Inl e \<Rightarrow> attempt (Remove tmp) (\<lambda>_. fail (install_error (''close '' @ label @ '' archive'') e))
                | Inr _ \<Rightarrow> ret ()))) (\<lambda>_. ret tmp)))"

subsection \<open>Archives of tools\<close>

definition validateManagedArchiveHeader :: "tar_entry option \<Rightarrow> string \<Rightarrow> goerr option" where
  "validateManagedArchiveHeader header label =
     (case header of
        None \<Rightarrow> Some (codef ErrBuildInstallFailed (''nil '' @ label @ '' archive header'') [])
      | Some h \<Rightarrow>
          let clean = Clean (th_Name h) in
          if clean = ''.'' \<or> isAbs clean \<or> clean = ''..'' \<or> HasPrefix clean ''../''
          then Some (codef ErrBuildInstallFailed (''unsafe '' @ label @ '' archive path '' @ Quote (th_Name h)) [])
          else if th_Linkname h \<noteq> [] then Some (codef ErrBuildInstallFailed (''unsupported '' @ label @ '' archive link '' @ Quote (th_Name h)) [])
          else (case th_Typeflag h of
              TypeReg \<Rightarrow> None
            | TypeLegacy \<Rightarrow> None
            | _ \<Rightarrow> Some (codef ErrBuildInstallFailed (''unsupported '' @ label @ '' archive entry '' @ Quote (th_Name h)) [])))"

text \<open>Unpacks the entries and returns the names it has installed.\<close>

fun managed_entries ::
    "buildkit_tools \<Rightarrow> builder \<Rightarrow> string \<Rightarrow> (string \<times> string) list \<Rightarrow> string \<Rightarrow> tar_entry list \<Rightarrow> goerr option \<Rightarrow> string list \<Rightarrow> string list io" where
  "managed_entries tools b archivePath expected label [] end_err seen =
     tryE (wrapped (install_error (''read '' @ label @ '' archive'')) (tryE (Effectless archivePath) (\<lambda>_. lift_err end_err))) (\<lambda>_. ret seen)"
| "managed_entries tools b archivePath expected label (h # hs) end_err seen =
     tryE (wrapped (install_error (''read '' @ label @ '' archive'')) (Effectless archivePath)) (\<lambda>_.
       if th_Typeflag h = TypeDir then managed_entries tools b archivePath expected label hs end_err seen
       else (case map_of expected (th_Name h) of
           None \<Rightarrow> fail (codef ErrBuildInstallFailed (''unexpected '' @ label @ '' archive entry '' @ Quote (th_Name h)) [])
         | Some destination \<Rightarrow>
             tryE (lift_err (validateManagedArchiveHeader (Some h) label)) (\<lambda>_.
               if destination = [] then managed_entries tools b archivePath expected label hs end_err seen
               else tryE (writeExecutableAtomic (bt_join tools) b destination (copy_from (th_content h) (th_broken h))) (\<lambda>_.
                 managed_entries tools b archivePath expected label hs end_err (th_Name h # seen)))))"

definition missing_entry :: "(string \<times> string) list \<Rightarrow> string \<Rightarrow> string list \<Rightarrow> goerr option" where
  "missing_entry expected label seen =
     (case find (\<lambda>(name, destination). destination \<noteq> [] \<and> name \<notin> set seen) expected of
        None \<Rightarrow> None
      | Some (name, _) \<Rightarrow> Some (codef ErrBuildInstallFailed (label @ '' archive missing expected entry '' @ Quote name) []))"

text \<open>Opening gzip reads its header; later errors of the stream are errors of \<open>Next\<close>.\<close>

definition extractManagedArchive :: "buildkit_tools \<Rightarrow> builder \<Rightarrow> string \<Rightarrow> (string \<times> string) list \<Rightarrow> string \<Rightarrow> unit io" where
  "extractManagedArchive tools b archivePath expected label =
     tryE (wrapped (filesystem (''open '' @ label @ '' archive'')) (OpenRead archivePath)) (\<lambda>_.
     deferred (Effectless archivePath)
      (\<lambda>w. case bt_gunzip_tar tools (open_content w archivePath) of
         Inl e \<Rightarrow> fail (install_error (''decompress '' @ label @ '' archive'') e) w
       | Inr (hs, end_err) \<Rightarrow>
           tryE (managed_entries tools b archivePath expected label hs end_err [])
             (\<lambda>seen. lift_err (missing_entry expected label seen)) w))"

definition downloadAndExtractArchive :: "buildkit_tools \<Rightarrow> builder \<Rightarrow> ctx \<Rightarrow> managedArchive \<Rightarrow> string \<Rightarrow> (string \<times> string) list \<Rightarrow> string \<Rightarrow> unit io" where
  "downloadAndExtractArchive tools b c archive tempDir expected label =
     tryE (lift_sum (bk_parseSHA256 (ma_sha256 archive) label)) (\<lambda>expectedDigest.
     tryE (downloadArchive tools b c (ma_url archive) expectedDigest tempDir label) (\<lambda>archivePath.
       deferred (Remove archivePath) (extractManagedArchive tools b archivePath expected label)))"

definition downloadBinary :: "buildkit_tools \<Rightarrow> builder \<Rightarrow> ctx \<Rightarrow> string \<Rightarrow> string \<Rightarrow> string \<Rightarrow> string \<Rightarrow> string \<Rightarrow> unit io" where
  "downloadBinary tools b c url expectedDigest binDir binaryPath label =
     download_response tools c url label (\<lambda>response.
       case relBelow (b_ws_root b) binDir of
         None \<Rightarrow> fail (codef ErrInvalidRequest (''runtime binary directory '' @ Quote binDir @ '' is outside image workspace'') [])
       | Some binRel \<Rightarrow>
           tryE (wrapped (filesystem (''create temporary '' @ label @ '' binary''))
               (ws_CreateTemp (bt_join tools) (b_workspace b) binRel (''.'' @ Base binaryPath @ ''.tmp-''))) (\<lambda>tmp.
             unless_committed tmp (download_to tools c tmp (ret ()) label '' binary'' expectedDigest response
              (attempt (Chmod tmp 493) (\<lambda>r. case r of
                 Inl e \<Rightarrow> close_and_fail tmp (install_error (''set '' @ label @ '' mode'') e)
               | Inr _ \<Rightarrow>
                   tryE (wrapped (install_error (''close '' @ label @ '' binary'')) (Effectless tmp)) (\<lambda>_.
                     wrapped (install_error (''commit '' @ label @ '' binary'')) (Rename tmp binaryPath)))))))"

subsection \<open>Installation\<close>

definition buildkit_entries :: "string \<Rightarrow> string \<Rightarrow> (string \<times> string) list" where
  "buildkit_entries buildctlPath buildkitdPath =
     [(''bin/buildctl'', buildctlPath), (''bin/buildkit-cni-bridge'', []), (''bin/buildkit-cni-firewall'', []),
      (''bin/buildkit-cni-host-local'', []), (''bin/buildkit-cni-loopback'', []), (''bin/buildkit-qemu-aarch64'', []),
      (''bin/buildkit-qemu-arm'', []), (''bin/buildkit-qemu-i386'', []), (''bin/buildkit-qemu-ppc64le'', []),
      (''bin/buildkit-qemu-riscv64'', []), (''bin/buildkit-qemu-s390x'', []), (''bin/buildkit-qemu-x86_64'', []),
      (''bin/buildkit-runc'', []), (''bin/buildkitd'', buildkitdPath)]"

definition managedBuildKit :: "buildkit_tools \<Rightarrow> builder \<Rightarrow> ctx \<Rightarrow> string \<Rightarrow> string \<Rightarrow> string \<Rightarrow> unit io" where
  "managedBuildKit tools b c binDir buildctlPath buildkitdPath =
     tryE (lift_err (preflightInstallHost (bt_os tools) (bt_arch tools))) (\<lambda>_.
     attempt (tryE (probeTool tools c buildctlPath) (\<lambda>_. probeTool tools c buildkitdPath)) (\<lambda>probed. case probed of
       Inr _ \<Rightarrow> ret ()
     | Inl _ \<Rightarrow>
         tryE (lift_sum (buildKitArchive (bt_arch tools) (b_config b))) (\<lambda>archive.
           downloadAndExtractArchive tools b c archive binDir (buildkit_entries buildctlPath buildkitdPath) ''BuildKit'')))"

definition managedRootlessKit :: "buildkit_tools \<Rightarrow> builder \<Rightarrow> ctx \<Rightarrow> string \<Rightarrow> string \<Rightarrow> unit io" where
  "managedRootlessKit tools b c binDir rootlesskitPath =
     tryE (lift_err (preflightInstallHost (bt_os tools) (bt_arch tools))) (\<lambda>_.
     attempt (probeTool tools c rootlesskitPath) (\<lambda>probed. case probed of
       Inr _ \<Rightarrow> ret ()
     | Inl _ \<Rightarrow>
         tryE (lift_sum (rootlessKitArchive (bt_arch tools) (b_config b))) (\<lambda>archive.
           downloadAndExtractArchive tools b c archive binDir
             [(''rootlessctl'', []), (''rootlesskit'', rootlesskitPath), (''rootlesskit-docker-proxy'', [])] ''RootlessKit'')))"

definition managedRunc :: "buildkit_tools \<Rightarrow> builder \<Rightarrow> ctx \<Rightarrow> string \<Rightarrow> string \<Rightarrow> unit io" where
  "managedRunc tools b c binDir runcPath =
     tryE (lift_err (preflightInstallHost (bt_os tools) (bt_arch tools))) (\<lambda>_.
     tryE (lift_sum (runcBinary (bt_arch tools))) (\<lambda>binary.
     tryE (lift_sum (bk_parseSHA256 (bin_sha256 binary) ''runc'')) (\<lambda>expectedDigest.
     tryE (wrapped (install_error ''verify existing runc'') (bk_fileMatchesSHA256 tools runcPath expectedDigest)) (\<lambda>ok.
       if ok then wrapped (install_error ''make existing runc executable'') (Chmod runcPath 493)
       else downloadBinary tools b c (bin_url binary) expectedDigest binDir runcPath ''runc''))))"

text \<open>A tool that is configured by a path, or one that is managed.\<close>

definition tool_or_managed :: "buildkit_tools \<Rightarrow> ctx \<Rightarrow> string \<Rightarrow> string \<Rightarrow> string \<Rightarrow> unit io \<Rightarrow> string io" where
  "tool_or_managed tools c name configured managedPath managed =
     (if TrimSpace configured \<noteq> [] then localTool tools c name configured else tryE managed (\<lambda>_. ret managedPath))"

definition installTools :: "buildkit_tools \<Rightarrow> builder \<Rightarrow> ctx \<Rightarrow> toolPaths io" where
  "installTools tools b c =
     (let config = b_config b; binDir = Join [b_root b, ''bin''];
          buildctlPath = Join [binDir, ''buildctl'']; buildkitdPath = Join [binDir, ''buildkitd''];
          rootlesskitPath = Join [binDir, ''rootlesskit'']; runcPath = Join [binDir, ''runc''] in
      tryE (lift_err (validateConfig (bt_arch tools) config)) (\<lambda>_.
      tryE (wrapped (filesystem ''create BuildKit tool directory'') (MkdirPrivate (bt_join tools) (b_workspace b) ''bin'')) (\<lambda>_.
      tryE (if BuildctlPath config \<noteq> [] \<or> BuildkitdPath config \<noteq> []
          then tryE (localTool tools c ''buildctl'' (BuildctlPath config)) (\<lambda>ctl.
               tryE (localTool tools c ''buildkitd'' (BuildkitdPath config)) (\<lambda>kitd. ret (ctl, kitd)))
          else tryE (managedBuildKit tools b c binDir buildctlPath buildkitdPath) (\<lambda>_. ret (buildctlPath, buildkitdPath))) (\<lambda>(buildctl, buildkitd).
      tryE (tool_or_managed tools c ''rootlesskit'' (RootlessKitPath config) rootlesskitPath (managedRootlessKit tools b c binDir rootlesskitPath)) (\<lambda>rootlesskit.
      tryE (tool_or_managed tools c ''runc'' (RuncPath config) runcPath (managedRunc tools b c binDir runcPath)) (\<lambda>runc.
        ret \<lparr>tp_buildctl = buildctl, tp_buildkitd = buildkitd, tp_rootlesskit = rootlesskit, tp_runc = runc\<rparr>))))))"

end
