(* ===== verification/BuildKit.thy ===== *)
theory BuildKit
  imports BuildKit_Install "HOL-Library.List_Lexorder"
begin

text \<open>
  \<open>pkg/image/internal/buildkit/buildkit.go\<close>: a build runs a daemon of its own in temporary
  directories, waits until it answers, runs \<open>buildctl\<close> and unpacks the archive it writes.

  What the subprocesses do to the disk is part of the calls that start, run and signal them.
  Go's \<open>select\<close> is a list of events, one for each round; the timer fires at the latest when
  the list ends. The order of a map of directories or paths is the order of its literal.
\<close>

subsection \<open>Log lines of a subprocess\<close>

record processLogWriter =
  lw_line :: string
  lw_suppress :: bool
  lw_lines :: "string list"

definition TrimRightCR :: "string \<Rightarrow> string" where
  "TrimRightCR s = rev (dropWhile (\<lambda>c. c = CHR 0x0D) (rev s))"

definition emitLocked :: "processLogWriter \<Rightarrow> processLogWriter" where
  "emitLocked w =
     (let line = TrimRightCR (lw_line w); w = w\<lparr>lw_line := []\<rparr> in
      if lw_suppress w then w
      else if TrimSpace line = [] then w
      else w\<lparr>lw_lines := lw_lines w @ [line]\<rparr>)"

text \<open>The loop over the newlines of a chunk, one character at a time.\<close>

fun plw_Write :: "processLogWriter \<Rightarrow> string \<Rightarrow> processLogWriter" where
  "plw_Write w [] = w"
| "plw_Write w (c # p) = plw_Write (if c = CHR 0x0A then emitLocked w else w\<lparr>lw_line := lw_line w @ [c]\<rparr>) p"

definition plw_Flush :: "processLogWriter \<Rightarrow> processLogWriter" where
  "plw_Flush w = emitLocked w"

definition plw_Suppress :: "processLogWriter \<Rightarrow> processLogWriter" where
  "plw_Suppress w = w\<lparr>lw_suppress := True, lw_line := []\<rparr>"

text \<open>\<open>processOutputBuffer\<close>: what is written is captured, in a buffer that both streams share, and logged.\<close>

definition pob_Write :: "string \<times> processLogWriter \<Rightarrow> string \<Rightarrow> string \<times> processLogWriter" where
  "pob_Write b p = (fst b @ p, if p = [] then snd b else plw_Write (snd b) p)"

definition newProcessOutputBuffer :: "string \<Rightarrow> string \<times> processLogWriter" where
  "newProcessOutputBuffer captured = (captured, \<lparr>lw_line = [], lw_suppress = False, lw_lines = []\<rparr>)"

subsection \<open>Errors\<close>

definition trimOutput :: "string \<Rightarrow> string" where
  "trimOutput raw = (let output = TrimSpace raw in if length output \<le> 4096 then output else take 4096 output @ ''...(truncated)'')"

definition classifyBuildError :: "code \<Rightarrow> string \<Rightarrow> goerr option \<Rightarrow> string \<Rightarrow> goerr" where
  "classifyBuildError c doing err output =
     (let message = trimOutput output;
          c = (if classifyUnsupportedHostMessage message then ErrUnsupportedHost else c) in
      Errorf (CodeErr c # (case err of None \<Rightarrow> [] | Some e \<Rightarrow> [e]))
        (code_string c @ '': '' @ doing @ (case err of None \<Rightarrow> [] | Some e \<Rightarrow> '': '' @ ErrorText e) @
         (if message = [] then [] else '': '' @ message)))"

definition validateBuildContext :: "ctx option \<Rightarrow> (ctx \<Rightarrow> 'a io) \<Rightarrow> 'a io" where
  "validateBuildContext oc k =
     (case oc of
        None \<Rightarrow> fail (codef ErrInvalidRequest ''context is required'' [])
      | Some c \<Rightarrow> check_ctx c (\<lambda>e. codef ErrCanceled ''image build canceled before start'' [e]) (k c))"

subsection \<open>Socket paths\<close>

text \<open>The limit of a Unix socket path, and the longest number of a temporary name.\<close>

definition linuxPathnameSocketMaxBytes :: nat where
  "linuxPathnameSocketMaxBytes = 107"

definition maxMkdirTempRandomSuffixBytes :: nat where
  "maxMkdirTempRandomSuffixBytes = 10"

definition buildKitRunTempPattern :: string where
  "buildKitRunTempPattern = ''.bk-run-''"

definition buildKitRunDirectoryWithLongestSuffix :: string where
  "buildKitRunDirectoryWithLongestSuffix = buildKitRunTempPattern @ replicate maxMkdirTempRandomSuffixBytes (CHR ''0'')"

fun too_long :: "(string \<times> string) list \<Rightarrow> goerr option" where
  "too_long [] = None"
| "too_long ((label, path) # ps) =
     (if linuxPathnameSocketMaxBytes < length path
      then Some (codef ErrInvalidRequest (label @ '' Unix socket path exceeds Linux pathname socket limit'') []) else too_long ps)"

definition validateBuildKitSocketPaths :: "string \<Rightarrow> goerr option" where
  "validateBuildKitSocketPaths runDir =
     too_long [(''BuildKit daemon'', Join [runDir, ''buildkitd.sock'']), (''RootlessKit API'', Join [runDir, ''api.sock''])]"

definition validateBuildKitSocketRoot :: "string \<Rightarrow> goerr option" where
  "validateBuildKitSocketRoot tmpRoot = validateBuildKitSocketPaths (Join [tmpRoot, buildKitRunDirectoryWithLongestSuffix])"

subsection \<open>Construction\<close>

definition bk_validate :: "builder \<Rightarrow> ctx option \<Rightarrow> ctx io" where
  "bk_validate b oc =
     validateBuildContext oc (\<lambda>c.
       if TrimSpace (b_root b) = [] then fail (codef ErrInvalidRequest ''BuildKit root is required'' [])
       else if \<not> isAbs (b_root b) then fail (codef ErrInvalidRequest ''BuildKit root must be absolute'' [])
       else case b_workspace b of
           None \<Rightarrow> fail (codef ErrInvalidRequest ''image workspace is required'' [])
         | Some ws \<Rightarrow> tryE (lift_err (validateBuildKitSocketRoot (ws_tmp ws))) (\<lambda>_. ret c))"

definition bk_install :: "buildkit_tools \<Rightarrow> builder \<Rightarrow> ctx option \<Rightarrow> builder io" where
  "bk_install tools b oc =
     tryE (bk_validate b oc) (\<lambda>c.
     tryE (installTools tools b c) (\<lambda>paths.
     let snapshotter = TrimSpace (Snapshotter (b_config b)) in
     ret (b\<lparr>b_paths := paths, b_snapshotter := if snapshotter = [] then defaultSnapshotter else snapshotter\<rparr>)))"

definition bk_New :: "buildkit_tools \<Rightarrow> ctx option \<Rightarrow> BuildKitConfig \<Rightarrow> workspace option \<Rightarrow> builder io" where
  "bk_New tools oc config ws =
     bk_install tools \<lparr>b_config = config, b_root = (case ws of None \<Rightarrow> [] | Some x \<Rightarrow> ws_root x),
       b_paths = \<lparr>tp_buildctl = [], tp_buildkitd = [], tp_rootlesskit = [], tp_runc = []\<rparr>, b_snapshotter = [], b_workspace = ws\<rparr> oc"

subsection \<open>Directories of a build\<close>

record buildDirectories =
  stateDir :: string
  runDir :: string
  homeDir :: string
  bd_tmpDir :: string
  dockerConfig :: string
  outputArchive :: string

fun remove_created :: "string list \<Rightarrow> unit io" where
  "remove_created [] = ret ()"
| "remove_created (p # ps) = attempt (RemoveAll p) (\<lambda>_. remove_created ps)"

definition give_up :: "string list \<Rightarrow> goerr \<Rightarrow> 'a io" where
  "give_up created e = attempt (remove_created created) (\<lambda>_. fail e)"

fun create_directories :: "buildkit_tools \<Rightarrow> builder \<Rightarrow> string \<Rightarrow> string list \<Rightarrow> string list \<Rightarrow> string list io" where
  "create_directories tools b tmpRel [] created = ret created"
| "create_directories tools b tmpRel (pattern # ps) created =
     attempt (ws_MkdirTemp (bt_join tools) (b_workspace b) tmpRel pattern) (\<lambda>r. case r of
       Inl e \<Rightarrow> give_up created (filesystem ''create BuildKit temporary directory'' e)
     | Inr path \<Rightarrow> create_directories tools b tmpRel ps (created @ [path]))"

definition build_patterns :: "string list" where
  "build_patterns = [''.bk-state-'', buildKitRunTempPattern, ''.bk-home-'', ''.bk-tmp-'']"

definition createBuildDirectories :: "buildkit_tools \<Rightarrow> builder \<Rightarrow> string \<Rightarrow> (buildDirectories \<times> string list) io" where
  "createBuildDirectories tools b outputLayout =
     (case relBelow (b_ws_tmp b) (Dir outputLayout) of
        None \<Rightarrow> fail (codef ErrInvalidRequest ''BuildKit output layout must be below image temporary root'' [])
      | Some tmpRel \<Rightarrow>
          tryE (create_directories tools b tmpRel build_patterns []) (\<lambda>created.
          let state = created ! 0; run = created ! 1; home = created ! 2; tmp = created ! 3; docker = Join [home, ''.docker''] in
          case validateBuildKitSocketPaths run of
            Some e \<Rightarrow> give_up created e
          | None \<Rightarrow>
              attempt (MkdirAll docker 448 0) (\<lambda>r. case r of
                Inl e \<Rightarrow> give_up created (filesystem ''create BuildKit Docker config directory'' e)
              | Inr _ \<Rightarrow>
              attempt (ws_CreateTempBetween (bt_join tools) (b_workspace b) tmpRel ''.bk-output-'' ''.tar'') (\<lambda>r. case r of
                Inl e \<Rightarrow> give_up created (filesystem ''create temporary OCI archive'' e)
              | Inr archive \<Rightarrow>
              attempt (Effectless archive) (\<lambda>r. case r of
                Inl e \<Rightarrow> attempt (Remove archive) (\<lambda>_. give_up created (filesystem ''close temporary OCI archive'' e))
              | Inr _ \<Rightarrow>
                  ret (\<lparr>stateDir = state, runDir = run, homeDir = home, bd_tmpDir = tmp, dockerConfig = docker, outputArchive = archive\<rparr>, created))))))"

text \<open>What \<open>os.RemoveAll\<close> cannot remove is removed inside the user namespace of the daemon.\<close>

definition removeBuildDirectory :: "buildkit_tools \<Rightarrow> builder \<Rightarrow> string \<Rightarrow> unit io" where
  "removeBuildDirectory tools b path =
     attempt (RemoveAll path) (\<lambda>r. case r of
       Inr _ \<Rightarrow> ret ()
     | Inl _ \<Rightarrow> (\<lambda>w.
         tryE (run_to_end tools (Some (now w + bt_minute tools))
             \<lparr>tc_path = tp_rootlesskit (b_paths b),
              tc_args = [''--net=host'', ''sh'', ''-ec'', ''chmod -R u+rwX -- \"$1\"'' @ [CHR 0x0A] @ ''exec rm -rf --one-file-system -- \"$1\"'',
                ''chamber-buildkit-cleanup'', path], tc_env = None, tc_dir = []\<rparr>) (\<lambda>(output, err).
           case err of
             None \<Rightarrow> ret ()
           | Some e \<Rightarrow> fail (Errorf [CodeErr ErrFilesystemFailed, e]
               (code_string ErrFilesystemFailed @ '': remove BuildKit directory '' @ Quote path @ '': '' @ ErrorText e @ '': '' @ TrimSpace output))) w))"

fun remove_directories :: "buildkit_tools \<Rightarrow> builder \<Rightarrow> string list \<Rightarrow> goerr option \<Rightarrow> unit io" where
  "remove_directories tools b [] err = lift_err err"
| "remove_directories tools b (p # ps) err =
     attempt (removeBuildDirectory tools b p) (\<lambda>r. remove_directories tools b ps (joinErrs [err, left_error r]))"

definition build_cleanup :: "buildkit_tools \<Rightarrow> builder \<Rightarrow> buildDirectories \<times> string list \<Rightarrow> unit io" where
  "build_cleanup tools b made =
     attempt (Remove (outputArchive (fst made))) (\<lambda>r.
       remove_directories tools b (snd made)
         (case r of Inr _ \<Rightarrow> None | Inl e \<Rightarrow> if errIsNotExist e then None else Some e))"

subsection \<open>Commands\<close>

fun setEnv :: "string list \<Rightarrow> string \<Rightarrow> string \<Rightarrow> string list" where
  "setEnv [] key v = [key @ ''='' @ v]"
| "setEnv (item # env) key v =
     (if HasPrefix item (key @ ''='') then (key @ ''='' @ v) # env else item # setEnv env key v)"

definition Getenv :: "string list \<Rightarrow> string \<Rightarrow> string" where
  "Getenv env key = (case find (\<lambda>item. HasPrefix item (key @ ''='')) env of None \<Rightarrow> [] | Some item \<Rightarrow> TrimPrefix item (key @ ''=''))"

definition buildEnvironment :: "buildkit_tools \<Rightarrow> builder \<Rightarrow> buildDirectories \<Rightarrow> string list" where
  "buildEnvironment tools b dirs =
     (let env = bt_environ tools;
          env = setEnv env ''XDG_RUNTIME_DIR'' (runDir dirs);
          env = setEnv env ''TMPDIR'' (bd_tmpDir dirs);
          env = setEnv env ''HOME'' (homeDir dirs);
          env = setEnv env ''DOCKER_CONFIG'' (dockerConfig dirs)
      in setEnv env ''PATH'' (Join [b_root b, ''bin''] @ '':'' @ Getenv (bt_environ tools) ''PATH''))"

definition requirePrepared :: "builder \<Rightarrow> goerr option" where
  "requirePrepared b =
     (if TrimSpace (tp_buildctl (b_paths b)) = [] \<or> TrimSpace (tp_buildkitd (b_paths b)) = [] \<or> TrimSpace (tp_rootlesskit (b_paths b)) = [] \<or>
         TrimSpace (tp_runc (b_paths b)) = [] \<or> TrimSpace (b_snapshotter b) = []
      then Some (codef ErrInvalidRequest ''BuildKit builder is not prepared'' []) else None)"

definition buildkitAddress :: "buildDirectories \<Rightarrow> string" where
  "buildkitAddress dirs = ''unix://'' @ Join [runDir dirs, ''buildkitd.sock'']"

definition bk_platformString :: "string \<Rightarrow> platform \<Rightarrow> string" where
  "bk_platformString host_arch raw =
     (let p = NormalizePlatform host_arch raw in
      OS p @ ''/'' @ Architecture p @ (if Variant p \<noteq> [] then ''/'' @ Variant p else []))"

definition buildkitdCommand :: "buildkit_tools \<Rightarrow> builder \<Rightarrow> buildDirectories \<Rightarrow> goerr + tool_command" where
  "buildkitdCommand tools b dirs =
     (case requirePrepared b of
        Some e \<Rightarrow> Inl e
      | None \<Rightarrow> Inr \<lparr>tc_path = tp_rootlesskit (b_paths b),
          tc_args = [''--state-dir'', runDir dirs, ''--net=host'', tp_buildkitd (b_paths b), ''--addr'', buildkitAddress dirs,
            ''--root'', stateDir dirs, ''--oci-worker=true'', ''--containerd-worker=false'', ''--oci-worker-binary'', tp_runc (b_paths b),
            ''--oci-worker-snapshotter'', b_snapshotter b],
          tc_env = Some (buildEnvironment tools b dirs), tc_dir = []\<rparr>)"

definition build_arg_options :: "(string \<times> string) list \<Rightarrow> string list" where
  "build_arg_options args =
     concat (map (\<lambda>key. [''--opt'', ''build-arg:'' @ key @ ''='' @ (case map_of args key of None \<Rightarrow> [] | Some v \<Rightarrow> v)]) (sort (map fst args)))"

definition buildctlBuildCommand :: "buildkit_tools \<Rightarrow> builder \<Rightarrow> resolvedRequest \<Rightarrow> buildDirectories \<Rightarrow> goerr + tool_command" where
  "buildctlBuildCommand tools b build dirs =
     (case requirePrepared b of
        Some e \<Rightarrow> Inl e
      | None \<Rightarrow> Inr \<lparr>tc_path = tp_buildctl (b_paths b),
          tc_args = [''--addr'', buildkitAddress dirs, ''build'', ''--progress'', ''plain'', ''--frontend'', ''dockerfile.v0'',
            ''--local'', ''context='' @ rq_contextPath build, ''--local'', ''dockerfile='' @ rq_contextPath build,
            ''--opt'', ''filename='' @ rq_dockerfileRelPath build, ''--opt'', ''platform='' @ bk_platformString (bt_arch tools) (rq_platform build),
            ''--output'', ''type=oci,dest='' @ outputArchive dirs] @
            (if rq_target build \<noteq> [] then [''--opt'', ''target='' @ rq_target build] else []) @ build_arg_options (rq_buildArgs build),
          tc_env = Some (buildEnvironment tools b dirs), tc_dir = rq_contextPath build\<rparr>)"

subsection \<open>The daemon\<close>

definition startBuildkitd :: "buildkit_tools \<Rightarrow> builder \<Rightarrow> ctx \<Rightarrow> buildDirectories \<Rightarrow> daemon io" where
  "startBuildkitd tools b c dirs =
     tryE (lift_sum (buildkitdCommand tools b dirs)) (\<lambda>command.
     attempt (start_tool tools c command) (\<lambda>r. case r of
       Inr d \<Rightarrow> ret d
     | Inl e \<Rightarrow> check_ctx c (\<lambda>x. codef ErrCanceled ''image build canceled while starting BuildKit daemon'' [x])
         (fail (classifyBuildError ErrBuildFailed ''start BuildKit daemon'' (Some e) []))))"

definition runBuildctlDebugWorkers :: "buildkit_tools \<Rightarrow> builder \<Rightarrow> ctx \<Rightarrow> buildDirectories \<Rightarrow> unit io" where
  "runBuildctlDebugWorkers tools b c dirs =
     tryE (run_to_end tools c \<lparr>tc_path = tp_buildctl (b_paths b), tc_args = [''--addr'', buildkitAddress dirs, ''debug'', ''workers''],
       tc_env = Some (buildEnvironment tools b dirs), tc_dir = []\<rparr>) (\<lambda>(output, err).
       case err of
         None \<Rightarrow> ret ()
       | Some e \<Rightarrow> fail (Errorf [e] (''buildctl debug workers failed: '' @ ErrorText e @ '': '' @ TrimSpace output)))"

definition waiting_canceled :: "goerr \<Rightarrow> goerr" where
  "waiting_canceled x = codef ErrCanceled ''image build canceled while waiting for BuildKit daemon'' [x]"

fun wait_rounds :: "buildkit_tools \<Rightarrow> builder \<Rightarrow> ctx \<Rightarrow> daemon \<Rightarrow> buildDirectories \<Rightarrow> ready_event list \<Rightarrow> unit io" where
  "wait_rounds tools b c d dirs [] =
     attempt (runBuildctlDebugWorkers tools b c dirs) (\<lambda>r. case r of
       Inr _ \<Rightarrow> ret ()
     | Inl _ \<Rightarrow> check_ctx c waiting_canceled
         (fail (classifyBuildError ErrBuildFailed ''BuildKit daemon readiness timed out'' (Some (CtxErr DeadlineExceeded)) (d_output d))))"
| "wait_rounds tools b c d dirs (event # events) =
     attempt (runBuildctlDebugWorkers tools b c dirs) (\<lambda>r. case r of
       Inr _ \<Rightarrow> ret ()
     | Inl _ \<Rightarrow> check_ctx c waiting_canceled
         (case event of
            DaemonExits e \<Rightarrow> fail (classifyBuildError ErrBuildFailed ''BuildKit daemon exited before readiness'' e (d_output d))
          | ContextDone \<Rightarrow> fail (waiting_canceled (CtxErr Canceled))
          | DeadlineFires \<Rightarrow> fail (classifyBuildError ErrBuildFailed ''BuildKit daemon readiness timed out'' (Some (CtxErr DeadlineExceeded)) (d_output d))
          | Tick \<Rightarrow> wait_rounds tools b c d dirs events))"

definition waitForReadiness :: "buildkit_tools \<Rightarrow> builder \<Rightarrow> ctx \<Rightarrow> daemon \<Rightarrow> buildDirectories \<Rightarrow> unit io" where
  "waitForReadiness tools b c d dirs = wait_rounds tools b c d dirs (d_events d)"

definition daemon_stop :: "buildkit_tools \<Rightarrow> daemon \<Rightarrow> unit io" where
  "daemon_stop tools d =
     (if d_exited d then ret ()
      else attempt (signal_daemon tools d ''SIGTERM'') (\<lambda>_.
        if d_obeys d then ret () else attempt (signal_daemon tools d ''SIGKILL'') (\<lambda>_. ret ())))"

definition runBuildctl :: "buildkit_tools \<Rightarrow> builder \<Rightarrow> ctx \<Rightarrow> resolvedRequest \<Rightarrow> buildDirectories \<Rightarrow> unit io" where
  "runBuildctl tools b c build dirs =
     tryE (lift_sum (buildctlBuildCommand tools b build dirs)) (\<lambda>command.
     tryE (run_to_end tools c command) (\<lambda>(output, err).
       case err of
         None \<Rightarrow> ret ()
       | Some e \<Rightarrow> check_ctx c (\<lambda>x. codef ErrCanceled ''image build canceled while running buildctl'' [x])
           (fail (classifyBuildError ErrBuildFailed ''run buildctl build'' (Some e) output))))"

subsection \<open>Build\<close>

text \<open>\<open>defer func() { err = errors.Join(err, cleanup()) }()\<close>\<close>

definition joined_with :: "unit io \<Rightarrow> unit io \<Rightarrow> unit io" where
  "joined_with cleanup m = attempt m (\<lambda>r. attempt cleanup (\<lambda>s. lift_err (joinErrs [left_error r, left_error s])))"

definition generated_layout_error :: "goerr \<Rightarrow> goerr" where
  "generated_layout_error e =
     (if errIs e ErrCanceled then codef ErrCanceled ''image build canceled while verifying generated OCI image layout'' [e]
      else codef ErrBuildFailed ''verify generated OCI image layout'' [e])"

definition with_daemon :: "buildkit_tools \<Rightarrow> builder \<Rightarrow> ctx \<Rightarrow> resolvedRequest \<Rightarrow> string \<Rightarrow> buildDirectories \<Rightarrow> unit io" where
  "with_daemon tools b c build outputLayout dirs =
     tryE (startBuildkitd tools b c dirs) (\<lambda>d.
     deferred (daemon_stop tools d)
      (tryE (waitForReadiness tools b c d dirs) (\<lambda>_.
       tryE (runBuildctl tools b c build dirs) (\<lambda>_.
       tryE (extractOCITar (bt_read_tar tools) (bt_join tools) b (outputArchive dirs) outputLayout) (\<lambda>_.
         wrapped generated_layout_error (ValidateLayoutContext (bt_depth tools) (bt_lib tools) (Some c) outputLayout))))))"

definition bk_Build :: "buildkit_tools \<Rightarrow> builder \<Rightarrow> ctx option \<Rightarrow> build_request \<Rightarrow> string \<Rightarrow> unit io" where
  "bk_Build tools b oc request outputLayout =
     validateBuildContext oc (\<lambda>c.
     tryE (resolveRequest (bt_lib tools) (bt_arch tools) request) (\<lambda>build.
     tryE (preflightRootlessBuildHost (bt_os tools) (bt_arch tools) (bt_uid tools)) (\<lambda>_.
     tryE (createBuildDirectories tools b outputLayout) (\<lambda>made.
       joined_with (build_cleanup tools b made) (with_daemon tools b c build outputLayout (fst made))))))"

end
