(* ===== verification/Image_Store.thy ===== *)
theory Image_Store
  imports Metadata_Map Logging BuildKit
begin

text \<open>
  \<open>pkg/image/internal/store\<close>: images in one shared OCI layout, with \<open>pkg/image/internal/registry\<close>
  and the operations of the interface \<open>Store\<close>.

  JSON and the registry client are parameters, and so is the clock. A program runs
  alone on its store: the mutexes are not modelled. Sizes are sums of the sizes of existing
  files and are kept as unbounded integers. The recursion through nested indexes has fuel.
\<close>

subsection \<open>Data\<close>

record image_config =
  im_Root :: string
  im_TmpRoot :: string
  im_BuildKit :: BuildKitConfig
  im_Logging :: log_config

text \<open>An index: what the code reads and sets, and the fields it only carries along.\<close>

record store_index =
  SchemaVersion :: nat
  Manifests :: "descriptor list"
  other_fields :: string

record auth =
  au_Username :: string
  au_Password :: string
  au_Token :: string

record pull_request =
  pr_Reference :: string
  pr_Platform :: platform
  pr_Auth :: "auth option"
  pr_Policy :: string

text \<open>How a registry is asked: with the default keychain, or with the credentials of a request.\<close>

datatype credentials = DefaultKeychain | Basic string string | BasicToken string string string

record store_tools =
  st_meta :: metadata_tools
  st_env :: host_env
  st_depth :: nat
  decode_index :: "string \<Rightarrow> goerr + store_index"
  encode_store_index :: "store_index \<Rightarrow> goerr + string"
  clock :: "nat \<Rightarrow> int"
  st_logger :: slogger
  parse_name :: "string \<Rightarrow> goerr option"
  remote_image :: "ctx \<Rightarrow> string \<Rightarrow> platform \<Rightarrow> credentials \<Rightarrow> string io"
  image_digest :: "string \<Rightarrow> unit io"
  write_layout :: "string \<Rightarrow> unit io"
  append_image :: "string \<Rightarrow> string \<Rightarrow> platform \<Rightarrow> string \<Rightarrow> unit io"
  st_build :: buildkit_tools

abbreviation st_lib :: "store_tools \<Rightarrow> image_lib" where
  "st_lib tools \<equiv> mt_lib (st_meta tools)"

abbreviation st_join :: "store_tools \<Rightarrow> secure_join" where
  "st_join tools \<equiv> mt_join (st_meta tools)"

text \<open>\<open>builder\<close> is nil until the first build.\<close>

record store =
  s_config :: image_config
  s_workspace :: "workspace option"
  s_metadata :: "metadata_ops option"
  layoutRoot :: string
  s_tmpRoot :: string
  s_logger :: slogger
  s_builder :: "builder option"

subsection \<open>Checks of a workspace\<close>

definition requireWorkspaceRoot :: "host_env \<Rightarrow> string \<Rightarrow> string \<Rightarrow> string \<Rightarrow> goerr option" where
  "requireWorkspaceRoot env label configured actual =
     (case Abs env configured of
        Inl e \<Rightarrow> Some (codef ErrInvalidRequest (''resolve '' @ label @ '' '' @ Quote configured) [e])
      | Inr a \<Rightarrow>
          if Clean a \<noteq> Clean actual
          then Some (codef ErrInvalidRequest (label @ '' '' @ Quote configured @ '' does not match workspace root '' @ Quote actual) [])
          else None)"

definition requireWorkspaceTmpRoot :: "host_env \<Rightarrow> string \<Rightarrow> string \<Rightarrow> string \<Rightarrow> goerr option" where
  "requireWorkspaceTmpRoot env label configured actual =
     (if TrimSpace configured = [] then None
      else case Abs env configured of
          Inl e \<Rightarrow> Some (codef ErrInvalidRequest (''resolve '' @ label @ '' '' @ Quote configured) [e])
        | Inr a \<Rightarrow>
            if Clean a \<noteq> Clean actual
            then Some (codef ErrInvalidRequest (label @ '' '' @ Quote configured @ '' does not match workspace temporary root '' @ Quote actual) [])
            else None)"

definition requireWorkspaceFeatures :: "string \<Rightarrow> FeatureSet \<Rightarrow> FeatureSet \<Rightarrow> goerr option" where
  "requireWorkspaceFeatures label observed required =
     (let missing = (\<lambda>what. Some (codef ErrFilesystemFailed (label @ '' requires '' @ what) [])) in
      if PrivateDirs required \<and> \<not> PrivateDirs observed then missing ''private directories''
      else if FileFsync required \<and> \<not> FileFsync observed then missing ''file fsync''
      else if DirectoryFsync required \<and> \<not> DirectoryFsync observed then missing ''directory fsync''
      else if AtomicFileRename required \<and> \<not> AtomicFileRename observed then missing ''atomic file rename between temporary and durable roots''
      else if AtomicDirectoryRename required \<and> \<not> AtomicDirectoryRename observed
      then missing ''atomic directory rename between temporary and durable roots''
      else None)"

subsection \<open>The index of the shared layout\<close>

definition st_readIndex :: "store_tools \<Rightarrow> string \<Rightarrow> store_index io" where
  "st_readIndex tools root =
     attempt (ReadFile (Join [root, ''index.json''])) (\<lambda>r.
       case r of
         Inl e \<Rightarrow>
           if errIsNotExist e then fail (codef ErrInvalidImageLayout ''OCI image layout index is missing'' [])
           else fail (codef ErrFilesystemFailed ''read OCI image layout index'' [e])
       | Inr data \<Rightarrow>
           (case decode_index tools data of
              Inl e \<Rightarrow> fail (codef ErrInvalidImageLayout ''decode OCI image layout index'' [e])
            | Inr index \<Rightarrow> ret (if SchemaVersion index = 0 then index\<lparr>SchemaVersion := 2\<rparr> else index)))"

definition syncDir :: "string \<Rightarrow> unit io" where
  "syncDir path =
     tryE (wrapped (filesystem ''open directory for sync'') (OpenRead path)) (\<lambda>_.
       deferred (Effectless path) (wrapped (filesystem ''sync directory'') (Effectless path)))"

definition writeIndexAtomic :: "store_tools \<Rightarrow> workspace \<Rightarrow> store_index \<Rightarrow> unit io" where
  "writeIndexAtomic tools ws index =
     (let root = Join [ws_root ws, ''layout''];
          index = (if SchemaVersion index = 0 then index\<lparr>SchemaVersion := 2\<rparr> else index) in
      tryE (wrapped (\<lambda>e. codef ErrInvalidImageLayout ''encode OCI image layout index'' [e]) (lift_sum (encode_store_index tools index))) (\<lambda>data.
      tryE (wrapped (filesystem ''create temporary OCI image layout index'') (ws_CreateTemp (st_join tools) (Some ws) ''layout'' ''.index.json.tmp-'')) (\<lambda>tmp.
        commit_file (filesystem ''write temporary OCI image layout index'') (filesystem ''sync temporary OCI image layout index'')
          (filesystem ''close temporary OCI image layout index'') (filesystem ''commit OCI image layout index'')
          tmp (data @ [CHR 0x0A]) (Join [root, ''index.json'']) (syncDir root))))"

definition ref_name :: "descriptor \<Rightarrow> string" where
  "ref_name d = (case map_of (Annotations d) ''org.opencontainers.image.ref.name'' of None \<Rightarrow> [] | Some v \<Rightarrow> v)"

definition selectDescriptor :: "store_tools \<Rightarrow> string \<Rightarrow> string \<Rightarrow> platform \<Rightarrow> descriptor io" where
  "selectDescriptor tools root reference p =
     tryE (st_readIndex tools root) (\<lambda>index.
       let platformOnly = filter (\<lambda>d. platformMatches (Platform d) p) (Manifests index);
           exact = filter (\<lambda>d. ref_name d = reference) platformOnly in
       if length exact = 1 then ret (hd exact)
       else if length exact > 1 then fail (codef ErrInvalidImageLayout
         (''OCI image layout has multiple manifests for reference '' @ Quote reference @ '' and platform '' @ platformString p) [])
       else if length platformOnly = 1 then ret (hd platformOnly)
       else if length (Manifests index) = 1 then ret (hd (Manifests index))
       else fail (codef ErrInvalidImageLayout
         (''OCI image layout has no unique manifest for reference '' @ Quote reference @ '' and platform '' @ platformString p) []))"

definition descriptorForCommit :: "descriptor \<Rightarrow> string \<Rightarrow> platform \<Rightarrow> descriptor" where
  "descriptorForCommit d reference p =
     d\<lparr>Annotations := AList.update ''org.opencontainers.image.ref.name'' reference (Annotations d), Platform := Some p\<rparr>"

definition removeDescriptors :: "descriptor list \<Rightarrow> string \<Rightarrow> platform \<Rightarrow> descriptor list" where
  "removeDescriptors ds reference p =
     filter (\<lambda>d. \<not> (ref_name d = reference \<and> (Platform d = None \<or> platformMatches (Platform d) p))) ds"

subsection \<open>Blobs\<close>

definition st_validateBlob :: "image_lib \<Rightarrow> string \<Rightarrow> descriptor \<Rightarrow> unit io" where
  "st_validateBlob lib path d =
     (case digest_validate lib (Digest d) of
        Some e \<Rightarrow> fail (codef ErrInvalidImageLayout ''validate OCI image descriptor digest'' [e])
      | None \<Rightarrow>
          attempt (Stat path) (\<lambda>r.
            case r of
              Inl e \<Rightarrow>
                if errIsNotExist e then fail (codef ErrInvalidImageLayout (''OCI image layout blob '' @ Digest d @ '' is missing'') [])
                else fail (codef ErrFilesystemFailed (''stat OCI image layout blob '' @ Digest d) [e])
            | Inr info \<Rightarrow>
                if is_dir (Some info) then fail (codef ErrInvalidImageLayout (''OCI image layout blob '' @ Digest d @ '' is a directory'') [])
                else if node_len info \<noteq> DescSize d
                then fail (codef ErrInvalidImageLayout (''OCI image layout blob '' @ Digest d @ '' size = '' @ FormatInt (node_len info) @ '', want '' @ FormatInt (DescSize d)) [])
                else tryE (wrapped (filesystem ''open OCI image layout blob'') (OpenRead path)) (\<lambda>_.
                  deferred (Effectless path)
                   (tryE (wrapped (filesystem ''read OCI image layout blob'') (Effectless path)) (\<lambda>_ w.
                     (if digest_verifies lib (Digest d) (open_content w path) then ret ()
                      else fail (codef ErrInvalidImageLayout (''OCI image layout blob '' @ Digest d @ '' content does not match digest'') [])) w)))))"

text \<open>\<open>io.Copy(tmp, srcFile)\<close>\<close>

definition copy_content :: "string \<Rightarrow> string \<Rightarrow> unit io" where
  "copy_content src tmp = tryE (Effectless src) (\<lambda>_ w. FWrite tmp (open_content w src) w)"

definition publish_blob :: "image_lib \<Rightarrow> string \<Rightarrow> string \<Rightarrow> descriptor \<Rightarrow> unit io" where
  "publish_blob lib tmp dst d =
     attempt (Effectless tmp) (\<lambda>synced. case synced of Inl e \<Rightarrow> close_and_fail tmp (filesystem ''sync shared OCI image blob'' e) | Inr _ \<Rightarrow>
     tryE (wrapped (filesystem ''close shared OCI image blob'') (Effectless tmp)) (\<lambda>_.
     tryE (st_validateBlob lib tmp d) (\<lambda>_.
     tryE (wrapped (filesystem ''commit shared OCI image blob'') (Rename tmp dst)) (\<lambda>_.
       syncDir (Dir dst)))))"

definition fill_blob :: "image_lib \<Rightarrow> string \<Rightarrow> string \<Rightarrow> string \<Rightarrow> descriptor \<Rightarrow> unit io" where
  "fill_blob lib src tmp dst d =
     attempt (OpenRead src) (\<lambda>opened. case opened of Inl e \<Rightarrow> close_and_fail tmp (filesystem ''open temporary OCI image blob'' e) | Inr _ \<Rightarrow>
     attempt (copy_content src tmp) (\<lambda>copied.
     attempt (Effectless src) (\<lambda>closed.
       case copied of Inl e \<Rightarrow> close_and_fail tmp (filesystem ''copy OCI image blob'' e) | Inr _ \<Rightarrow>
       case closed of Inl e \<Rightarrow> close_and_fail tmp (filesystem ''close temporary OCI image blob'' e) | Inr _ \<Rightarrow>
         publish_blob lib tmp dst d)))"

definition copyBlobIfMissing :: "store_tools \<Rightarrow> workspace \<Rightarrow> string \<Rightarrow> string \<Rightarrow> descriptor \<Rightarrow> unit io" where
  "copyBlobIfMissing tools ws src dst d =
     attempt (st_validateBlob (st_lib tools) dst d) (\<lambda>r.
       case r of
         Inr _ \<Rightarrow> ret ()
       | Inl e \<Rightarrow>
           if \<not> errIs e ErrInvalidImageLayout then fail e
           else tryE (wrapped (filesystem ''resolve shared OCI image blob parent'') (lift_sum (Rel (ws_root ws) (Dir dst)))) (\<lambda>relParent.
             tryE (wrapped (filesystem ''create shared OCI image blob parent'') (MkdirPrivate (st_join tools) (Some ws) relParent)) (\<lambda>_.
             tryE (wrapped (filesystem ''create temporary shared OCI image blob'')
                 (ws_CreateTemp (st_join tools) (Some ws) relParent (''.'' @ digest_encoded (st_lib tools) (Digest d) @ ''.tmp-''))) (\<lambda>tmp.
               unless_committed tmp (fill_blob (st_lib tools) src tmp dst d)))))"

definition decodeBlob :: "(string \<Rightarrow> goerr + 'a) \<Rightarrow> string \<Rightarrow> 'a io" where
  "decodeBlob decode path =
     tryE (wrapped (filesystem ''read OCI image layout blob'') (ReadFile path)) (\<lambda>data.
       case decode data of Inl e \<Rightarrow> fail (codef ErrInvalidImageLayout ''decode OCI image layout blob'' [e]) | Inr v \<Rightarrow> ret v)"

text \<open>The loop over children adds up their sizes and threads the map \<open>seen\<close>.\<close>

fun copy_children :: "(descriptor \<Rightarrow> string list \<Rightarrow> (int \<times> string list) io) \<Rightarrow> descriptor list \<Rightarrow> int \<Rightarrow> string list \<Rightarrow> (int \<times> string list) io" where
  "copy_children copy [] bytes seen = ret (bytes, seen)"
| "copy_children copy (d # ds) bytes seen = tryE (copy d seen) (\<lambda>(size, seen'). copy_children copy ds (bytes + size) seen')"

fun copyDescriptorGraph :: "nat \<Rightarrow> store_tools \<Rightarrow> ctx \<Rightarrow> string \<Rightarrow> string \<Rightarrow> workspace \<Rightarrow> descriptor \<Rightarrow> string list \<Rightarrow> (int \<times> string list) io" where
  "copyDescriptorGraph 0 tools c src dst ws d seen = fail (Opaque ''stack overflow'')"
| "copyDescriptorGraph (Suc depth) tools c src dst ws d seen =
     check_ctx c (\<lambda>e. codef ErrCanceled ''copy OCI image blobs canceled'' [e])
      (if Digest d = [] then fail (codef ErrInvalidImageLayout ''OCI image descriptor is missing digest'' [])
       else if Digest d \<in> set seen then ret (0, seen)
       else
         let seen = Digest d # seen; srcBlob = blob_path (st_lib tools) src (Digest d);
             children = (\<lambda>ds. copy_children (copyDescriptorGraph depth tools c src dst ws) ds (DescSize d) seen) in
         tryE (st_validateBlob (st_lib tools) srcBlob d) (\<lambda>_.
         tryE (copyBlobIfMissing tools ws srcBlob (blob_path (st_lib tools) dst (Digest d)) d) (\<lambda>_.
           if index_type (MediaType d) then tryE (decodeBlob (parse_index (st_lib tools)) srcBlob) children
           else if manifest_type (MediaType d) then
             tryE (decodeBlob (parse_manifest (st_lib tools)) srcBlob) (\<lambda>m. children (Config m # Layers m))
           else ret (DescSize d, seen))))"

definition copyReachableBlobs :: "store_tools \<Rightarrow> ctx \<Rightarrow> string \<Rightarrow> string \<Rightarrow> workspace \<Rightarrow> descriptor \<Rightarrow> int io" where
  "copyReachableBlobs tools c src dst ws d = tryE (copyDescriptorGraph (st_depth tools) tools c src dst ws d []) (\<lambda>(size, seen). ret size)"

definition find_stored :: "image \<Rightarrow> descriptor list \<Rightarrow> descriptor option" where
  "find_stored img ds = find (\<lambda>d. Digest d = ImageDigest img \<and> ref_name d = Reference img \<and> platformMatches (Platform d) (ImagePlatform img)) ds"

definition validateStoredImage :: "store_tools \<Rightarrow> ctx \<Rightarrow> string \<Rightarrow> image \<Rightarrow> workspace \<Rightarrow> unit io" where
  "validateStoredImage tools c root img ws =
     tryE (st_readIndex tools root) (\<lambda>index.
       case find_stored img (Manifests index) of
         Some d \<Rightarrow> tryE (copyReachableBlobs tools c root root ws d) (\<lambda>_. ret ())
       | None \<Rightarrow> fail (codef ErrInvalidImageLayout
           (''shared OCI image layout has no descriptor for image '' @ Quote (Reference img) @ '' digest '' @ ImageDigest img) []))"

subsection \<open>Construction\<close>

definition SharedLayoutDirectory :: "string \<Rightarrow> string" where
  "SharedLayoutDirectory root = Join [root, ''layout'']"

definition validateStoreLayout :: "store_tools \<Rightarrow> string \<Rightarrow> unit io" where
  "validateStoreLayout tools root =
     tryE (wrapped (filesystem ''read OCI image layout metadata'') (ReadFile (Join [root, ''oci-layout'']))) (\<lambda>layoutData.
     case parse_version (st_lib tools) layoutData of
       Inl e \<Rightarrow> fail (codef ErrInvalidImageLayout ''decode OCI image layout metadata'' [e])
     | Inr v \<Rightarrow>
         if v = [] then fail (codef ErrInvalidImageLayout ''OCI image layout version is missing'' [])
         else tryE (st_readIndex tools root) (\<lambda>_.
           tryE (wrapped (filesystem ''inspect OCI image layout blobs directory'') (Stat (Join [root, ''blobs'']))) (\<lambda>blobs.
             if \<not> is_dir (Some blobs) then fail (codef ErrInvalidImageLayout ''OCI image layout blobs path is not a directory'' []) else ret ())))"

definition layout_version :: string where
  "layout_version = CHR ''{'' # Quote ''imageLayoutVersion'' @ '':'' @ Quote ''1.0.0'' @ [CHR ''}'', CHR 0x0A]"

definition create_layout_file :: "store_tools \<Rightarrow> workspace \<Rightarrow> unit io" where
  "create_layout_file tools ws =
     (let failed = filesystem ''initialize OCI image layout metadata'' in
      tryE (wrapped failed (CreatePrivate (st_join tools) (Some ws) ''layout/oci-layout'')) (\<lambda>file.
        attempt (FWrite file layout_version) (\<lambda>r. case r of Inl e \<Rightarrow> close_and_fail file (failed e) | Inr _ \<Rightarrow> wrapped failed (Effectless file))))"

definition initializeStoreLayout :: "store_tools \<Rightarrow> workspace \<Rightarrow> unit io" where
  "initializeStoreLayout tools ws =
     (let root = Join [ws_root ws, ''layout''] in
      tryE (wrapped (filesystem ''create OCI image layout blobs directory'') (MkdirPrivate (st_join tools) (Some ws) ''layout/blobs'')) (\<lambda>_.
      tryE (attempt (Stat (Join [root, ''oci-layout''])) (\<lambda>r. case r of
             Inl e \<Rightarrow> if errIsNotExist e then create_layout_file tools ws else fail (filesystem ''inspect OCI image layout metadata'' e)
           | Inr _ \<Rightarrow> ret ())) (\<lambda>_.
      tryE (attempt (Stat (Join [root, ''index.json''])) (\<lambda>r. case r of
             Inl e \<Rightarrow>
               if errIsNotExist e then writeIndexAtomic tools ws \<lparr>SchemaVersion = 2, Manifests = [], other_fields = []\<rparr>
               else fail (filesystem ''inspect OCI image layout index'' e)
           | Inr _ \<Rightarrow> ret ())) (\<lambda>_.
        validateStoreLayout tools root))))"

definition store_requirements :: FeatureSet where
  "store_requirements =
     \<lparr>PrivateDirs = True, FileFsync = True, DirectoryFsync = False, AtomicFileRename = True, AtomicDirectoryRename = True\<rparr>"

definition ErrRootRequired :: goerr where
  "ErrRootRequired = codef ErrInvalidRequest ''image root is required'' []"

definition store_New :: "store_tools \<Rightarrow> image_config \<Rightarrow> workspace option \<Rightarrow> store io" where
  "store_New tools config ows =
     (case ows of
        None \<Rightarrow> fail (codef ErrInvalidRequest ''image workspace is required'' [])
      | Some ws \<Rightarrow>
          if TrimSpace (im_Root config) = [] then fail ErrRootRequired
          else
            tryE (lift_err (requireWorkspaceRoot (st_env tools) ''image root'' (im_Root config) (ws_root ws))) (\<lambda>_.
            tryE (lift_err (requireWorkspaceTmpRoot (st_env tools) ''image temporary root'' (im_TmpRoot config) (ws_tmp ws))) (\<lambda>_.
            tryE (lift_err (requireWorkspaceFeatures ''image workspace'' (ws_features ws) store_requirements)) (\<lambda>_.
            let config = config\<lparr>im_Root := ws_root ws, im_TmpRoot := ws_tmp ws\<rparr> in
            tryE (lift_sum (LoggerFromConfig (st_logger tools) (im_Logging config) None)) (\<lambda>logger.
            tryE (wrapped (filesystem (''create image store directory '' @ Quote ''layout'')) (MkdirPrivate (st_join tools) ows ''layout'')) (\<lambda>_.
            tryE (wrapped (filesystem (''create image store directory '' @ Quote ''metadata'')) (MkdirPrivate (st_join tools) ows ''metadata'')) (\<lambda>_.
            tryE (initializeStoreLayout tools ws) (\<lambda>_.
            tryE (NewJSON (st_meta tools) (Join [im_Root config, ''metadata'']) ows) (\<lambda>m.
              ret \<lparr>s_config = config, s_workspace = ows, s_metadata = Some (md_ops (st_meta tools) (Some m)),
                layoutRoot = SharedLayoutDirectory (im_Root config), s_tmpRoot = ws_tmp ws, s_logger = logger, s_builder = None\<rparr>)))))))))"

text \<open>\<open>requireReady\<close>, and the workspace and metadata it has found.\<close>

definition st_requireReady :: "store option \<Rightarrow> (store \<Rightarrow> workspace \<Rightarrow> metadata_ops \<Rightarrow> 'a io) \<Rightarrow> 'a io" where
  "st_requireReady os k =
     (let missing = fail (codef ErrInvalidRequest ''image store is not initialized'' []) in
      case os of
        None \<Rightarrow> missing
      | Some s \<Rightarrow>
          (case (s_workspace s, s_metadata s) of
             (Some ws, Some md) \<Rightarrow> if TrimSpace (layoutRoot s) = [] \<or> TrimSpace (s_tmpRoot s) = [] then missing else k s ws md
           | _ \<Rightarrow> missing))"

end
