(* ===== verification/Store_Ops.thy ===== *)
theory Store_Ops
  imports Image_Store
begin

text \<open>
  The operations of the image store: \<open>Pull\<close> with \<open>pkg/image/internal/registry\<close>, \<open>Build\<close>, \<open>List\<close>,
  \<open>Remove\<close> and \<open>Layout\<close>, and the commit of a layout that \<open>Pull\<close> and \<open>Build\<close> end with.

  Logging is left out, and so are the mutexes: one operation runs at a time.
\<close>

subsection \<open>Registry\<close>

definition generatedLayoutValidationError :: "goerr \<Rightarrow> goerr" where
  "generatedLayoutValidationError e =
     (if errIs e ErrCanceled then codef ErrCanceled ''image pull canceled while verifying generated OCI image layout'' [e]
      else codef ErrPullFailed ''verify generated OCI image layout'' [e])"

definition ResolvePlatform :: "string \<Rightarrow> platform \<Rightarrow> platform" where
  "ResolvePlatform host_arch p = NormalizePlatform host_arch p"

definition HostLinuxPlatform :: "string \<Rightarrow> platform" where
  "HostLinuxPlatform host_arch = \<lparr>OS = ''linux'', Architecture = host_arch, Variant = []\<rparr>"

definition authenticator :: "auth \<Rightarrow> credentials" where
  "authenticator a = (if au_Token a \<noteq> [] then BasicToken (au_Username a) (au_Password a) (au_Token a) else Basic (au_Username a) (au_Password a))"

text \<open>A failed step of a pull: canceled when the context is, and otherwise what went wrong.\<close>

definition pull_step :: "ctx \<Rightarrow> string \<Rightarrow> string \<Rightarrow> 'a io \<Rightarrow> 'a io" where
  "pull_step c doing what m =
     attempt m (\<lambda>r. case r of
       Inr a \<Rightarrow> ret a
     | Inl e \<Rightarrow> check_ctx c (\<lambda>x. codef ErrCanceled (''image pull canceled while '' @ doing) [x]) (fail (codef ErrPullFailed what [e])))"

definition registry_Pull :: "store_tools \<Rightarrow> ctx option \<Rightarrow> pull_request \<Rightarrow> string \<Rightarrow> string \<Rightarrow> unit io" where
  "registry_Pull tools oc request reference destination =
     (case oc of
        None \<Rightarrow> fail (codef ErrInvalidRequest ''context is required'' [])
      | Some c \<Rightarrow>
          check_ctx c (\<lambda>e. codef ErrCanceled ''image pull canceled before start'' [e])
           (case parse_name tools reference of
              Some e \<Rightarrow> fail (codef ErrInvalidImageReference ''parse canonical image reference'' [e])
            | None \<Rightarrow>
                let p = ResolvePlatform (mt_arch (st_meta tools)) (pr_Platform request);
                    cred = (case pr_Auth request of None \<Rightarrow> DefaultKeychain | Some a \<Rightarrow> authenticator a) in
                tryE (pull_step c ''fetching image'' ''fetch image'' (remote_image tools c reference p cred)) (\<lambda>img.
                tryE (pull_step c ''resolving digest'' ''resolve image digest'' (image_digest tools img)) (\<lambda>_.
                tryE (wrapped (\<lambda>e. codef ErrPullFailed ''write OCI image layout'' [e]) (write_layout tools destination)) (\<lambda>_.
                tryE (pull_step c ''writing image layout'' ''write OCI image layout'' (append_image tools destination img p reference)) (\<lambda>_.
                  wrapped generatedLayoutValidationError (ValidateLayoutContext (st_depth tools) (st_lib tools) oc destination)))))))"

subsection \<open>Committing a layout\<close>

record commit_request =
  tempLayout :: string
  canonicalReference :: string
  cr_platform :: platform
  cr_source :: string
  preserveCreatedTime :: bool

text \<open>The context is known not to be nil after the validation.\<close>

definition with_ctx :: "ctx option \<Rightarrow> (ctx \<Rightarrow> 'a io) \<Rightarrow> 'a io" where
  "with_ctx oc k = (case oc of None \<Rightarrow> fail (Opaque ''nil context'') | Some c \<Rightarrow> k c)"

text \<open>The end of \<open>commitLayout\<close>: the record of an image, with the time of its first commit.\<close>

definition record_commit :: "store_tools \<Rightarrow> store \<Rightarrow> metadata_ops \<Rightarrow> ctx option \<Rightarrow> commit_request \<Rightarrow> descriptor \<Rightarrow> int \<Rightarrow> image io" where
  "record_commit tools s md oc request selected sizeBytes = (\<lambda>w.
     (let committedAt = clock tools (now w); reference = canonicalReference request; p = cr_platform request in
      tryE (if preserveCreatedTime request
            then attempt (meta_Get md oc reference p) (\<lambda>r. case r of
                Inr existing \<Rightarrow> ret (if CreatedAt existing \<noteq> 0 then CreatedAt existing else committedAt)
              | Inl e \<Rightarrow> if \<not> errIs e ErrImageNotFound then fail e else ret committedAt)
            else ret committedAt) (\<lambda>createdAt.
      let img = \<lparr>LayoutPath = layoutRoot s, Reference = reference, ImageDigest = Digest selected, ImagePlatform = p,
            Source = cr_source request, SizeBytes = sizeBytes, CreatedAt = createdAt, UpdatedAt = committedAt\<rparr> in
      tryE (meta_Put md oc img) (\<lambda>_. ret img))) w)"

definition commitLayout :: "store_tools \<Rightarrow> store \<Rightarrow> workspace \<Rightarrow> metadata_ops \<Rightarrow> ctx option \<Rightarrow> commit_request \<Rightarrow> image io" where
  "commitLayout tools s ws md oc request =
     (let reference = canonicalReference request; p = cr_platform request in
      tryE (ValidateLayoutContext (st_depth tools) (st_lib tools) oc (tempLayout request)) (\<lambda>_.
      tryE (selectDescriptor tools (tempLayout request) reference p) (\<lambda>selected.
      tryE (with_ctx oc (\<lambda>c. copyReachableBlobs tools c (tempLayout request) (layoutRoot s) ws selected)) (\<lambda>sizeBytes.
      tryE (st_readIndex tools (layoutRoot s)) (\<lambda>index.
      tryE (writeIndexAtomic tools ws
          (index\<lparr>Manifests := removeDescriptors (Manifests index) reference p @ [descriptorForCommit selected reference p]\<rparr>)) (\<lambda>_.
        record_commit tools s md oc request selected sizeBytes))))))"

subsection \<open>Pull\<close>

definition PullIfMissing :: string where
  "PullIfMissing = ''if_missing''"

definition PullAlways :: string where
  "PullAlways = ''always''"

definition resolvePullRequest :: "store_tools \<Rightarrow> ctx option \<Rightarrow> pull_request \<Rightarrow> (ctx \<times> string \<times> platform \<times> string) io" where
  "resolvePullRequest tools oc request =
     (case oc of
        None \<Rightarrow> fail (codef ErrInvalidRequest ''context is required'' [])
      | Some c \<Rightarrow>
          check_ctx c (\<lambda>e. codef ErrCanceled ''image pull canceled before start'' [e])
           (tryE (lift_sum (CanonicalImageReference (st_lib tools) (pr_Reference request))) (\<lambda>reference.
              let p = NormalizePlatform (mt_arch (st_meta tools)) (pr_Platform request) in
              if pr_Policy request = [] \<or> pr_Policy request = PullIfMissing then ret (c, reference, p, PullIfMissing)
              else if pr_Policy request = PullAlways then ret (c, reference, p, PullAlways)
              else fail (codef ErrInvalidRequest (''unsupported pull policy '' @ Quote (pr_Policy request)) []))))"

definition existingValidImage :: "store_tools \<Rightarrow> store \<Rightarrow> workspace \<Rightarrow> metadata_ops \<Rightarrow> ctx \<Rightarrow> string \<Rightarrow> platform \<Rightarrow> image io" where
  "existingValidImage tools s ws md c reference p =
     tryE (meta_Get md (Some c) reference p) (\<lambda>existing.
     tryE (validateStoredImage tools c (layoutRoot s) existing ws) (\<lambda>_.
       ret (existing\<lparr>LayoutPath := layoutRoot s\<rparr>)))"

text \<open>A valid image that exists is returned, an invalid layout is an error, any other error means to pull.\<close>

definition reuse_or :: "store_tools \<Rightarrow> store \<Rightarrow> workspace \<Rightarrow> metadata_ops \<Rightarrow> ctx \<Rightarrow> string \<Rightarrow> platform \<Rightarrow> string \<Rightarrow> image io \<Rightarrow> image io" where
  "reuse_or tools s ws md c reference p policy k =
     (if policy = PullIfMissing
      then attempt (existingValidImage tools s ws md c reference p) (\<lambda>r. case r of
          Inr existing \<Rightarrow> ret existing
        | Inl e \<Rightarrow> if errIs e ErrInvalidImageLayout then fail e else k)
      else k)"

definition store_Pull :: "store_tools \<Rightarrow> store option \<Rightarrow> ctx option \<Rightarrow> pull_request \<Rightarrow> image io" where
  "store_Pull tools os oc request =
     tryE (resolvePullRequest tools oc request) (\<lambda>(c, reference, p, policy).
     st_requireReady os (\<lambda>s ws md.
       reuse_or tools s ws md c reference p policy
        (tryE (wrapped (filesystem ''create temporary image layout'') (ws_MkdirTemp (st_join tools) (Some ws) ''.'' ''.pull-'')) (\<lambda>tmp.
         deferred (RemoveAll tmp)
          (tryE (registry_Pull tools oc request reference tmp) (\<lambda>_.
             reuse_or tools s ws md c reference p policy
              (commitLayout tools s ws md oc \<lparr>tempLayout = tmp, canonicalReference = reference, cr_platform = p,
                 cr_source = SourcePulled, preserveCreatedTime = True\<rparr>)))))))"

subsection \<open>Build\<close>

text \<open>The builder is made once; the store remembers it.\<close>

definition buildkitBuilder :: "store_tools \<Rightarrow> store \<Rightarrow> workspace \<Rightarrow> ctx option \<Rightarrow> (builder \<times> store) io" where
  "buildkitBuilder tools s ws oc =
     (case s_builder s of
        Some b \<Rightarrow> ret (b, s)
      | None \<Rightarrow> tryE (bk_New (st_build tools) oc (im_BuildKit (s_config s)) (Some ws)) (\<lambda>b. ret (b, s\<lparr>s_builder := Some b\<rparr>)))"

definition store_Build :: "store_tools \<Rightarrow> store option \<Rightarrow> ctx option \<Rightarrow> build_request \<Rightarrow> (store \<times> (goerr + image)) io" where
  "store_Build tools os oc request =
     tryE (lift_sum (CanonicalImageReference (st_lib tools) (br_Reference request))) (\<lambda>reference.
     st_requireReady os (\<lambda>s ws md.
     tryE (ValidateRequest (st_lib tools) (mt_arch (st_meta tools)) request) (\<lambda>_.
     tryE (buildkitBuilder tools s ws oc) (\<lambda>(b, s).
       attempt (tryE (wrapped (filesystem ''create temporary build layout'') (ws_MkdirTemp (st_join tools) (Some ws) ''.'' ''.build-'')) (\<lambda>tmp.
         deferred (RemoveAll tmp)
          (tryE (bk_Build (st_build tools) b oc request tmp) (\<lambda>_.
             commitLayout tools s ws md oc \<lparr>tempLayout = tmp, canonicalReference = reference,
               cr_platform = NormalizePlatform (mt_arch (st_meta tools)) (br_Platform request),
               cr_source = SourceBuilt, preserveCreatedTime = True\<rparr>)))) (\<lambda>r. ret (s, r))))))"

subsection \<open>The other operations\<close>

definition store_List :: "store option \<Rightarrow> ctx option \<Rightarrow> string \<Rightarrow> image list io" where
  "store_List os oc reference =
     st_requireReady os (\<lambda>s ws md.
       tryE (meta_List md oc reference) (\<lambda>images. ret (map (\<lambda>img. img\<lparr>LayoutPath := layoutRoot s\<rparr>) images)))"

definition store_Remove :: "store_tools \<Rightarrow> store option \<Rightarrow> ctx option \<Rightarrow> string \<Rightarrow> platform \<Rightarrow> unit io" where
  "store_Remove tools os oc reference p =
     (case oc of
        None \<Rightarrow> fail (codef ErrInvalidRequest ''context is required'' [])
      | Some c \<Rightarrow>
          check_ctx c id
           (st_requireReady os (\<lambda>s ws md.
              tryE (lift_sum (CanonicalImageReference (st_lib tools) reference)) (\<lambda>reference.
              let p = NormalizePlatform (mt_arch (st_meta tools)) p in
              tryE (meta_Delete md oc reference p) (\<lambda>_.
              tryE (st_readIndex tools (layoutRoot s)) (\<lambda>index.
                writeIndexAtomic tools ws (index\<lparr>Manifests := removeDescriptors (Manifests index) reference p\<rparr>)))))))"

definition store_Layout :: "store option \<Rightarrow> ctx option \<Rightarrow> string io" where
  "store_Layout os oc =
     (case oc of
        None \<Rightarrow> fail (codef ErrInvalidRequest ''context is required'' [])
      | Some c \<Rightarrow> check_ctx c id (st_requireReady os (\<lambda>s ws md. ret (layoutRoot s))))"

end
