(* ===== verification/Store_Graph.thy ===== *)
theory Store_Graph
  imports Store_Ops
begin

text \<open>
  The blobs of an image: \<open>copyDescriptorGraph\<close> walks the descriptors depth first and remembers
  the digests it has seen. The locale states what copying one blob promises; its lemma says what
  a completed walk has copied.
\<close>

subsection \<open>One blob\<close>

text \<open>The file at \<open>p\<close> is what the descriptor says.\<close>

definition blob_at :: "image_lib \<Rightarrow> world \<Rightarrow> string \<Rightarrow> descriptor \<Rightarrow> bool" where
  "blob_at lib w p d \<longleftrightarrow> digest_validate lib (Digest d) = None \<and>
     (\<exists>q m u. resolve 40 w p = Some q \<and> node_at w q = Some (FileNode (open_content w p) m u)) \<and>
     int (length (open_content w p)) = DescSize d \<and> digest_verifies lib (Digest d) (open_content w p)"

lemma blob_ok_at: "blob_ok lib w root d \<longleftrightarrow> Digest d \<noteq> [] \<and> blob_at lib w (blob_path lib root (Digest d)) d"
  by (auto simp: blob_ok_def blob_at_def blob_content_def)

lemma blob_at_cong: "node_at w' = node_at w \<Longrightarrow> blob_at lib w' p d = blob_at lib w p d"
  unfolding blob_at_def by (simp only: open_content_cong [of w' w] resolve_cong [of w' w])

lemma resolved_no_link: "resolve k w x = Some y \<Longrightarrow> node_at w y = Some n \<Longrightarrow> \<not> is_link n"
  by (induction k arbitrary: x) (auto split: option.splits node.splits if_splits)

lemma resolve_plain: "\<forall>t. node_at w p \<noteq> Some (LinkNode t) \<Longrightarrow> resolve 40 w p = Some p"
  using resolve_nonlink [of w p 39] by (simp add: numeral_eq_Suc)

lemma open_content_plain:
  assumes "\<forall>t. node_at w p \<noteq> Some (LinkNode t)"
  shows "open_content w p = (case node_at w p of Some (FileNode c m u) \<Rightarrow> c | _ \<Rightarrow> [])"
  unfolding open_content_def resolve_plain [OF assms] by simp

text \<open>Without links, a blob only depends on the node at its path.\<close>

lemma blob_at_plain:
  assumes "\<forall>t. node_at w p \<noteq> Some (LinkNode t)"
  shows "blob_at lib w p d \<longleftrightarrow> digest_validate lib (Digest d) = None \<and>
    (\<exists>c m u. node_at w p = Some (FileNode c m u) \<and> int (length c) = DescSize d \<and> digest_verifies lib (Digest d) c)"
  unfolding blob_at_def resolve_plain [OF assms] open_content_plain [OF assms] by (auto split: option.split node.split)

lemma checks_st_blob:
  assumes t: "node_at w0 = t"
  shows "checks t (st_validateBlob lib p d) (\<lambda>a. blob_at lib w0 p d)"
proof -
  have content: "checks t (\<lambda>w. (if digest_verifies lib (Digest d) (open_content w p) then ret ()
      else fail (codef ErrInvalidImageLayout (''OCI image layout blob '' @ Digest d @ '' content does not match digest'') [])) w)
      (\<lambda>a. digest_verifies lib (Digest d) (open_content w0 p))"
  proof (rule checks_world [where f = "\<lambda>w. if digest_verifies lib (Digest d) (open_content w p) then ret ()
      else fail (codef ErrInvalidImageLayout (''OCI image layout blob '' @ Digest d @ '' content does not match digest'') [])"])
    fix w assume "node_at w = t"
    then have "open_content w p = open_content w0 p" using t open_content_cong [of w w0] by simp
    then show "checks t (if digest_verifies lib (Digest d) (open_content w p) then ret ()
      else fail (codef ErrInvalidImageLayout (''OCI image layout blob '' @ Digest d @ '' content does not match digest'') []))
      (\<lambda>a. digest_verifies lib (Digest d) (open_content w0 p))" by (simp add: checks_rules)
  qed
  show ?thesis
    unfolding st_validateBlob_def
  proof (rule checks_case_option, rule checks_attempt [OF checks_Stat [OF t]])
    fix info assume v: "digest_validate lib (Digest d) = None" and "\<exists>q. resolve 40 w0 p = Some q \<and> node_at w0 q = Some info"
    then obtain q where q: "resolve 40 w0 p = Some q" "node_at w0 q = Some info" by blast
    have at: "blob_at lib w0 p d" if "\<not> is_dir (Some info)" "node_len info = DescSize d" "digest_verifies lib (Digest d) (open_content w0 p)"
      using that q v resolved_no_link [OF q] by (cases info) (auto simp: blob_at_def open_content_def)
    show "checks t (case Inr info of
          Inl e \<Rightarrow> if errIsNotExist e then fail (codef ErrInvalidImageLayout (''OCI image layout blob '' @ Digest d @ '' is missing'') [])
            else fail (codef ErrFilesystemFailed (''stat OCI image layout blob '' @ Digest d) [e])
        | Inr info \<Rightarrow>
            if is_dir (Some info) then fail (codef ErrInvalidImageLayout (''OCI image layout blob '' @ Digest d @ '' is a directory'') [])
            else if node_len info \<noteq> DescSize d
            then fail (codef ErrInvalidImageLayout (''OCI image layout blob '' @ Digest d @ '' size = '' @ FormatInt (node_len info) @ '', want '' @ FormatInt (DescSize d)) [])
            else tryE (wrapped (filesystem ''open OCI image layout blob'') (OpenRead p)) (\<lambda>_.
              deferred (Effectless p)
               (tryE (wrapped (filesystem ''read OCI image layout blob'') (Effectless p)) (\<lambda>_ w.
                 (if digest_verifies lib (Digest d) (open_content w p) then ret ()
                  else fail (codef ErrInvalidImageLayout (''OCI image layout blob '' @ Digest d @ '' content does not match digest'') [])) w))))
        (\<lambda>a. blob_at lib w0 p d)"
      unfolding sum.case
    proof (intro checks_if checks_fail)
      assume nd: "\<not> is_dir (Some info)" "\<not> node_len info \<noteq> DescSize d"
      show "checks t (tryE (wrapped (filesystem ''open OCI image layout blob'') (OpenRead p)) (\<lambda>_.
              deferred (Effectless p)
               (tryE (wrapped (filesystem ''read OCI image layout blob'') (Effectless p)) (\<lambda>_ w.
                 (if digest_verifies lib (Digest d) (open_content w p) then ret ()
                  else fail (codef ErrInvalidImageLayout (''OCI image layout blob '' @ Digest d @ '' content does not match digest'') [])) w))))
        (\<lambda>a. blob_at lib w0 p d)"
        by (rule checks_tryE [OF checks_wrapped [OF checks_reads]], simp, rule checks_deferred, simp,
            rule checks_tryE [OF checks_wrapped [OF checks_reads]], simp, rule checks_mono [OF content])
          (use nd at in simp)
    qed
  qed (simp_all only: sum.case checks_fail if_cancel checks_if)
qed

lemma run_st_blob:
  assumes "st_validateBlob lib p d w = (r, w')"
  shows "node_at w' = node_at w \<and> (r = Inr () \<longrightarrow> blob_at lib w p d)"
  using postD [OF checksD [OF checks_st_blob [OF refl]] assms] by auto

subsection \<open>The walk\<close>

text \<open>The descriptors that a blob with the content \<open>c\<close> refers to.\<close>

definition linked :: "image_lib \<Rightarrow> string \<Rightarrow> descriptor \<Rightarrow> descriptor list" where
  "linked lib c d =
     (if index_type (MediaType d) then (case parse_index lib c of Inr ds \<Rightarrow> ds | Inl e \<Rightarrow> [])
      else if manifest_type (MediaType d) then (case parse_manifest lib c of Inr m \<Rightarrow> Config m # Layers m | Inl e \<Rightarrow> [])
      else [])"

text \<open>What the walk did between two worlds: it copied the blobs \<open>E\<close>, in this order, and left the others.\<close>

definition blobs_kept :: "image_lib \<Rightarrow> string \<Rightarrow> string \<Rightarrow> (string \<Rightarrow> bool) \<Rightarrow> world \<Rightarrow> world \<Rightarrow> bool" where
  "blobs_kept lib src dst P w w' \<longleftrightarrow>
     (\<forall>e. digest_validate lib (Digest e) = None \<longrightarrow> blob_content lib w' src e = blob_content lib w src e) \<and>
     (\<forall>e. P (Digest e) \<longrightarrow> blob_ok lib w dst e \<longrightarrow> blob_ok lib w' dst e)"

definition copied :: "image_lib \<Rightarrow> string \<Rightarrow> string \<Rightarrow> world \<Rightarrow> world \<Rightarrow> descriptor list \<Rightarrow> string list \<Rightarrow> string list \<Rightarrow> bool" where
  "copied lib src dst w w' E seen seen' \<longleftrightarrow> blobs_kept lib src dst (\<lambda>x. x \<in> set seen) w w' \<and>
     seen' = rev (map Digest E) @ seen \<and> distinct (map Digest E) \<and>
     (\<forall>e \<in> set E. Digest e \<notin> set seen \<and> blob_ok lib w' dst e \<and> digest_verifies lib (Digest e) (blob_content lib w src e) \<and> (\<forall>f \<in> set (linked lib (blob_content lib w src e) e). Digest f \<in> set seen'))"

lemma blobs_kept_same: "node_at w' = node_at w \<Longrightarrow> blobs_kept lib src dst P w w'"
  unfolding blobs_kept_def blob_content_def by (simp add: open_content_cong [of w' w] blob_ok_cong [of w' w])

lemma blobs_kept_trans:
  "blobs_kept lib src dst P w w1 \<Longrightarrow> blobs_kept lib src dst Q w1 w2 \<Longrightarrow> (\<And>x. P x \<Longrightarrow> Q x) \<Longrightarrow> blobs_kept lib src dst P w w2"
  by (simp add: blobs_kept_def)

lemma blob_ok_valid: "blob_ok lib w root e \<Longrightarrow> digest_validate lib (Digest e) = None"
  by (simp add: blob_ok_def)

lemma copied_none: "node_at w' = node_at w \<Longrightarrow> copied lib src dst w w' [] seen seen"
  by (simp add: copied_def blobs_kept_same)

lemma copiedD:
  assumes "copied lib src dst w w' E seen seen'"
  shows "blobs_kept lib src dst (\<lambda>x. x \<in> set seen) w w'" "seen' = rev (map Digest E) @ seen" "distinct (map Digest E)"
    "e \<in> set E \<Longrightarrow> Digest e \<notin> set seen" "e \<in> set E \<Longrightarrow> blob_ok lib w' dst e"
    "e \<in> set E \<Longrightarrow> digest_verifies lib (Digest e) (blob_content lib w src e)"
    "e \<in> set E \<Longrightarrow> f \<in> set (linked lib (blob_content lib w src e) e) \<Longrightarrow> Digest f \<in> set seen'"
  using assms unfolding copied_def by blast+

lemma copied_trans:
  assumes 1: "copied lib src dst w w1 E1 seen seen1" and 2: "copied lib src dst w1 w2 E2 seen1 seen2"
  shows "copied lib src dst w w2 (E1 @ E2) seen seen2"
proof -
  note s = copiedD(2) [OF 1] copiedD(2) [OF 2]
  have k: "blobs_kept lib src dst (\<lambda>x. x \<in> set seen) w w2" by (rule blobs_kept_trans [OF copiedD(1) [OF 1] copiedD(1) [OF 2]]) (simp add: s(1))
  have new: "set (map Digest E2) \<inter> set (map Digest E1) = {}" using copiedD(4) [OF 2] s(1) by auto
  have "Digest e \<notin> set seen \<and> blob_ok lib w2 dst e \<and> digest_verifies lib (Digest e) (blob_content lib w src e) \<and> (\<forall>f \<in> set (linked lib (blob_content lib w src e) e). Digest f \<in> set seen2)"
    if "e \<in> set (E1 @ E2)" for e
  proof (cases "e \<in> set E1")
    case True
    then have "Digest e \<in> set seen1" by (simp add: s(1))
    then have "blob_ok lib w2 dst e" using copiedD(1) [OF 2] copiedD(5) [OF 1 True] by (simp add: blobs_kept_def)
    then show ?thesis using copiedD(4,6,7) [OF 1 True] s(2) by auto
  next
    case False
    then have e: "e \<in> set E2" using that by simp
    then have "blob_content lib w1 src e = blob_content lib w src e"
      using copiedD(1) [OF 1] blob_ok_valid [OF copiedD(5) [OF 2 e]] by (simp add: blobs_kept_def)
    then show ?thesis using copiedD(4,5,6,7) [OF 2 e] s(1) by auto
  qed
  moreover have "distinct (map Digest (E1 @ E2))" using copiedD(3) [OF 1] copiedD(3) [OF 2] new by auto
  ultimately show ?thesis using k s unfolding copied_def by simp
qed

text \<open>
  Copying one blob: when it reports success, the blob is in the destination, the source and the
  other blobs of the destination are as before, and so is \<open>S\<close>.
\<close>

locale blob_copies =
  fixes tools :: store_tools and src dst :: string and ws :: workspace and good :: "world \<Rightarrow> bool" and S :: "string set"
  assumes same: "good w \<Longrightarrow> node_at w' = node_at w \<Longrightarrow> good w'"
    and copy: "good w \<Longrightarrow> blob_ok (st_lib tools) w src d \<Longrightarrow>
      copyBlobIfMissing tools ws (blob_path (st_lib tools) src (Digest d)) (blob_path (st_lib tools) dst (Digest d)) d w = (Inr (), w') \<Longrightarrow>
      good w' \<and> kept S w w' \<and> blob_ok (st_lib tools) w' dst d \<and> blobs_kept (st_lib tools) src dst (\<lambda>x. x \<noteq> Digest d) w w'"
begin

abbreviation did :: "world \<Rightarrow> world \<Rightarrow> descriptor list \<Rightarrow> string list \<Rightarrow> string list \<Rightarrow> bool" where
  "did w w' E seen seen' \<equiv> good w' \<and> kept S w w' \<and> copied (st_lib tools) src dst w w' E seen seen'"

lemma did_trans: "did w w1 E1 seen seen1 \<Longrightarrow> did w1 w2 E2 seen1 seen2 \<Longrightarrow> did w w2 (E1 @ E2) seen seen2"
  using copied_trans kept.trans by blast

lemma children_copied:
  assumes "copy_children f ds n seen w = (Inr (n', seen'), w')" "good w"
    and step: "\<And>d seen seen' w w' n. f d seen w = (Inr (n, seen'), w') \<Longrightarrow> good w \<Longrightarrow>
      \<exists>E. did w w' E seen seen' \<and> n = sum_list (map DescSize E) \<and> Digest d \<in> set seen'"
  shows "\<exists>E. did w w' E seen seen' \<and> n' = n + sum_list (map DescSize E) \<and> (\<forall>f \<in> set ds. Digest f \<in> set seen')"
  using assms(1,2)
proof (induction ds arbitrary: n seen w)
  case Nil
  then show ?case using copied_none [of w w] by (intro exI [of _ "[]"]) (auto simp: ret_def kept.same_tree)
next
  case (Cons d ds)
  from Cons.prems(1) obtain x w1 where x: "f d seen w = (Inr x, w1)"
      "(case x of (sz, seen') \<Rightarrow> copy_children f ds (n + sz) seen') w1 = (Inr (n', seen'), w')"
    by (auto elim: run_tryE)
  obtain sz seen1 where p: "x = (sz, seen1)" by (cases x)
  obtain E1 where E1: "did w w1 E1 seen seen1" "sz = sum_list (map DescSize E1)" "Digest d \<in> set seen1"
    using step [OF x(1) [unfolded p] Cons.prems(2)] by blast
  obtain E2 where E2: "did w1 w' E2 seen1 seen'" "n' = n + sz + sum_list (map DescSize E2)" "(\<forall>f \<in> set ds. Digest f \<in> set seen')"
    using Cons.IH [of "n + sz" seen1 w1] x(2) p E1(1) by auto
  have "set seen1 \<subseteq> set seen'" using E2(1) by (auto simp: copied_def)
  then show ?case using did_trans [OF E1(1) E2(1)] E1 E2 by (intro exI [of _ "E1 @ E2"]) auto
qed

text \<open>The node itself, then its children.\<close>

lemma node_copied:
  assumes d: "Digest d \<notin> set seen" "blob_ok (st_lib tools) w1 dst d" "blobs_kept (st_lib tools) src dst (\<lambda>x. x \<noteq> Digest d) w w1"
      "digest_verifies (st_lib tools) (Digest d) (blob_content (st_lib tools) w src d)"
    and w: "kept S w w1" "did w1 w' E (Digest d # seen) seen'"
    and children: "(\<forall>f \<in> set (linked (st_lib tools) (blob_content (st_lib tools) w src d) d). Digest f \<in> set seen')"
  shows "did w w' (d # E) seen seen'"
proof -
  let ?lib = "st_lib tools"
  have c: "copied ?lib src dst w1 w' E (Digest d # seen) seen'" using w(2) by simp
  have "blobs_kept ?lib src dst (\<lambda>x. x \<in> set seen) w w1" using d(1,3) unfolding blobs_kept_def by metis
  from blobs_kept_trans [OF this copiedD(1) [OF c]] have k: "blobs_kept ?lib src dst (\<lambda>x. x \<in> set seen) w w'" by simp
  have dk: "blob_ok ?lib w' dst d" using copiedD(1) [OF c] d(2) by (simp add: blobs_kept_def)
  have "Digest e \<notin> set seen \<and> blob_ok ?lib w' dst e \<and> digest_verifies ?lib (Digest e) (blob_content ?lib w src e) \<and> (\<forall>f \<in> set (linked ?lib (blob_content ?lib w src e) e). Digest f \<in> set seen')"
    if "e \<in> set (d # E)" for e
  proof (cases "e = d")
    case True
    then show ?thesis using dk d(1,4) children by simp
  next
    case False
    then have e: "e \<in> set E" using that by simp
    have "blob_content ?lib w1 src e = blob_content ?lib w src e"
      using d(3) blob_ok_valid [OF copiedD(5) [OF c e]] by (simp add: blobs_kept_def)
    then show ?thesis using copiedD(4,5,6,7) [OF c e] by auto
  qed
  moreover have "Digest d \<notin> Digest ` set E" using copiedD(4) [OF c] by force
  then have "distinct (map Digest (d # E))" using copiedD(3) [OF c] by simp
  ultimately have "copied ?lib src dst w w' (d # E) seen seen'"
    using k copiedD(2) [OF c] unfolding copied_def by simp
  then show ?thesis using w kept.trans by blast
qed

lemma graph_copied:
  assumes "copyDescriptorGraph n tools c src dst ws d seen w = (Inr (sz, seen'), w')" "good w"
  shows "\<exists>E. did w w' E seen seen' \<and> sz = sum_list (map DescSize E) \<and> Digest d \<in> set seen' \<and> (Digest d \<notin> set seen \<longrightarrow> d \<in> set E)"
  using assms
proof (induction n arbitrary: d seen w sz seen' w')
  case 0
  then show ?case by (simp add: fail_def)
next
  case (Suc n)
  let ?lib = "st_lib tools" and ?srcBlob = "blob_path (st_lib tools) src (Digest d)"
  let ?children = "\<lambda>ds. copy_children (copyDescriptorGraph n tools c src dst ws) ds (DescSize d) (Digest d # seen)"
  show ?case
  proof (cases "Digest d \<in> set seen")
    case True
    then have "sz = 0" "seen' = seen" "w' = w"
      using Suc.prems(1) by (auto simp: Let_def elim!: run_check_ctx run_ret run_fail split: if_splits)
    then show ?thesis using True Suc.prems(2) copied_none [of w w] by (intro exI [of _ "[]"]) (auto simp: kept.same_tree)
  next
    case False
    from Suc.prems(1) False have ne: "Digest d \<noteq> []" and run: "tryE (st_validateBlob ?lib ?srcBlob d) (\<lambda>_.
         tryE (copyBlobIfMissing tools ws ?srcBlob (blob_path ?lib dst (Digest d)) d) (\<lambda>_.
           if index_type (MediaType d) then tryE (decodeBlob (parse_index ?lib) ?srcBlob) ?children
           else if manifest_type (MediaType d) then tryE (decodeBlob (parse_manifest ?lib) ?srcBlob) (\<lambda>m. ?children (Config m # Layers m))
           else ret (DescSize d, Digest d # seen))) w = (Inr (sz, seen'), w')"
      by (auto simp: Let_def elim!: run_check_ctx run_fail split: if_splits)
    from run obtain w0 w1 where valid: "st_validateBlob ?lib ?srcBlob d w = (Inr (), w0)"
      and cp: "copyBlobIfMissing tools ws ?srcBlob (blob_path ?lib dst (Digest d)) d w0 = (Inr (), w1)"
      and rest: "(if index_type (MediaType d) then tryE (decodeBlob (parse_index ?lib) ?srcBlob) ?children
           else if manifest_type (MediaType d) then tryE (decodeBlob (parse_manifest ?lib) ?srcBlob) (\<lambda>m. ?children (Config m # Layers m))
           else ret (DescSize d, Digest d # seen)) w1 = (Inr (sz, seen'), w')"
      by (elim run_tryE) simp
    have n0: "node_at w0 = node_at w" and at: "blob_at ?lib w ?srcBlob d" using run_st_blob [OF valid] by auto
    have verified: "digest_verifies ?lib (Digest d) (blob_content ?lib w src d)" using at by (simp add: blob_at_def blob_content_def)
    have g0: "good w0" by (rule same [OF Suc.prems(2) n0])
    have "blob_ok ?lib w0 src d" using at ne blob_at_cong [OF n0] by (simp add: blob_ok_at)
    note c1 = copy [OF g0 this cp]
    have k1: "kept S w w1" "blobs_kept ?lib src dst (\<lambda>x. x \<noteq> Digest d) w w1" "blob_ok ?lib w1 dst d" "good w1"
    proof -
      show "kept S w w1" using c1 kept.same_tree [OF n0] kept.trans by blast
      show "blobs_kept ?lib src dst (\<lambda>x. x \<noteq> Digest d) w w1"
        by (rule blobs_kept_trans [OF blobs_kept_same [OF n0]]) (use c1 in blast)+
    qed (use c1 in blast)+
    have ct: "open_content w1 ?srcBlob = blob_content ?lib w src d"
      using k1(2,3) blob_ok_valid unfolding blobs_kept_def blob_content_def by blast
    have decoded: "\<exists>v. a = v \<and> decode (blob_content ?lib w src d) = Inr v \<and> node_at w2 = node_at w1"
      if "decodeBlob decode ?srcBlob w1 = (Inr a, w2)" for decode and a :: 'x and w2
      using that unfolding decodeBlob_def ct [symmetric]
      by (auto elim!: run_tryE run_wrapped simp: ret_def fail_def dest!: run_ReadFile split: sum.splits)
    have whole: "\<exists>E. did w w' (d # E) seen seen' \<and> sz = DescSize d + sum_list (map DescSize E) \<and> Digest d \<in> set seen'"
      if w2: "node_at w2 = node_at w1" and loop: "?children ds w2 = (Inr (sz, seen'), w')"
        and ds: "linked ?lib (blob_content ?lib w src d) d = ds" for ds w2
    proof -
      have g2: "good w2" by (rule same [OF k1(4) w2])
      obtain E where E: "did w2 w' E (Digest d # seen) seen'" "sz = DescSize d + sum_list (map DescSize E)" "(\<forall>f \<in> set ds. Digest f \<in> set seen')"
        using children_copied [OF loop g2] Suc.IH by blast
      have "did w1 w' E (Digest d # seen) seen'"
        using did_trans [where w = w1 and ?w1.0 = w2 and ?E1.0 = "[]" and seen = "Digest d # seen" and ?seen1.0 = "Digest d # seen"
            and ?w2.0 = w' and ?E2.0 = E and ?seen2.0 = seen'] copied_none [OF w2] kept.same_tree [OF w2] g2 E(1) by simp
      from node_copied [OF False k1(3,2) verified k1(1) this] E(3) ds have "did w w' (d # E) seen seen'" by simp
      then show ?thesis using E(2) by (auto simp: copied_def)
    qed
    have "\<exists>E. did w w' (d # E) seen seen' \<and> sz = DescSize d + sum_list (map DescSize E) \<and> Digest d \<in> set seen'"
    proof (cases "index_type (MediaType d)")
      case True
      then obtain ds w2 where "decodeBlob (parse_index ?lib) ?srcBlob w1 = (Inr ds, w2)" "?children ds w2 = (Inr (sz, seen'), w')"
        using rest by (auto elim: run_tryE)
      then show ?thesis using True decoded [of "parse_index ?lib" ds w2] by (intro whole [of w2 ds]) (auto simp: linked_def)
    next
      case idx: False
      show ?thesis
      proof (cases "manifest_type (MediaType d)")
        case True
        then obtain m w2 where "decodeBlob (parse_manifest ?lib) ?srcBlob w1 = (Inr m, w2)" "?children (Config m # Layers m) w2 = (Inr (sz, seen'), w')"
          using rest idx by (auto elim: run_tryE)
        then show ?thesis using True idx decoded [of "parse_manifest ?lib" m w2] by (intro whole [of w2 "Config m # Layers m"]) (auto simp: linked_def)
      next
        case False
        then show ?thesis using rest idx by (intro whole [of w1 "[]"]) (auto simp: linked_def)
      qed
    qed
    then show ?thesis by (metis list.set_intros(1) list.simps(9) sum_list.Cons)
  qed
qed

end

end
