(* ===== verification/Link_Guard.thy ===== *)
theory Link_Guard
  imports Commits
begin

text \<open>
  Runs that make no symbolic links. The invariant of a program that only works on paths without
  links: such paths stay without links, and then the paths in \<open>S\<close> are kept.
\<close>

subsection \<open>Paths without links\<close>

definition no_links_at :: "string set \<Rightarrow> world \<Rightarrow> bool" where
  "no_links_at S w \<longleftrightarrow> (\<forall>q \<in> S. \<forall>t. node_at w q \<noteq> Some (LinkNode t))"

lemma no_links_kept: "no_links_at S w \<Longrightarrow> kept S w w' \<Longrightarrow> no_links_at S w'"
  unfolding no_links_at_def kept_def by (metis is_dir.simps(4))

lemma no_links_at_cong: "node_at w' = node_at w \<Longrightarrow> no_links_at S w' = no_links_at S w"
  by (simp add: no_links_at_def)

lemma no_links_subset: "no_links_at S w \<Longrightarrow> T \<subseteq> S \<Longrightarrow> no_links_at T w"
  by (auto simp: no_links_at_def)

definition guarded :: "string set \<Rightarrow> string set \<Rightarrow> world \<Rightarrow> world \<Rightarrow> bool" where
  "guarded D S w w' \<longleftrightarrow> (no_links_at D w \<longrightarrow> no_links_at D w' \<and> kept S w w')"

interpretation guarded: tree_order "guarded D S" for D S
proof
  show "guarded D S u w" if "guarded D S u v" "guarded D S v w" for u v w
    using that kept.trans [of S u v w] unfolding guarded_def by (elim impCE) simp_all
  show "guarded D S w w'" if "files w' = files w" for w w'
    using no_links_at_cong [OF node_at_ext [OF that]] kept.same_files [OF that] by (simp add: guarded_def)
  show "guarded D S w w'" if "node_at w' = node_at w" for w w'
    using no_links_at_cong [OF that] kept.same_tree [OF that] by (simp add: guarded_def)
qed

lemma guarded_upd:
  assumes "node_at w' = (node_at w)(p := x)" "p \<notin> S" "p \<in> D \<Longrightarrow> \<forall>t. x = Some (LinkNode t) \<longrightarrow> node_at w p = Some (LinkNode t)"
  shows "guarded D S w w'"
  using assms kept_outside [OF assms(1,2)] by (auto simp: guarded_def no_links_at_def)

lemmas guarded_lifts [keeps_rules] = reads_lifts [THEN guarded.keeps_reads]

lemma guarded_MkdirAll [keeps_rules]: "keeps (guarded D S) (MkdirAll p 448 0)"
proof (rule keepsI, rule post_mono [OF post_MkdirAll])
  fix r w w' assume a: "dirs_added w w'"
  then have "kept S w w'" by (auto simp: kept_def dirs_added_def)
  moreover have "no_links_at D w'" if "no_links_at D w" using a that unfolding dirs_added_def no_links_at_def by (metis node.distinct(5) option.inject)
  ultimately show "guarded D S w w'" by (simp add: guarded_def)
qed

lemma guarded_createDirectory [keeps_rules]: "keeps (guarded D S) (createDirectory p label priv)"
  unfolding createDirectory_def directory_checked_def by (intro keeps_rules)

lemma guarded_FWrite: "p \<notin> S \<Longrightarrow> keeps (guarded D S) (FWrite p d)"
proof (rule keepsI)
  fix w assume p: "p \<notin> S"
  have a: "guarded D S w (append_data p x w1)" if "node_at w1 = node_at w" for x w1
  proof (cases "node_at w p")
    case (Some n)
    then show ?thesis using that guarded.same_tree [of "append_data p x w1" w D S]
      by (cases n) (auto simp: node_at_append intro!: guarded_upd [OF _ p])
  qed (use that in \<open>auto simp: node_at_append intro!: guarded.same_tree\<close>)
  show "post (FWrite p d) (\<lambda>r w'. guarded D S w w') w"
    unfolding FWrite_def by (rule post_syscall_with) (auto intro: a node_at_ext)
qed

lemma guarded_Chmod: "p \<notin> S \<Longrightarrow> keeps (guarded D S) (Chmod p m)"
proof (rule keepsI, rule post_Chmod)
  fix w n w' assume "p \<notin> S" "node_at w p = Some n" "node_at w' = (node_at w)(p \<mapsto> set_mode m n)"
  then show "guarded D S w w'" by (cases n) (auto intro!: guarded_upd)
qed (rule guarded.same_tree)

lemma guarded_Remove: "p \<notin> S \<Longrightarrow> keeps (guarded D S) (Remove p)"
  by (rule keepsI, rule post_Remove) (auto intro: guarded.same_tree guarded_upd)

lemma guarded_OpenCreate: "p \<notin> S \<Longrightarrow> keeps (guarded D S) (OpenCreate True p m u)"
  by (rule keepsI, rule post_OpenCreate_excl) (auto intro: guarded.same_tree guarded_upd)

lemma guarded_make_temp:
  assumes "\<And>i. in_dir d pre @ FormatUint i \<notin> S" "\<forall>t. n \<noteq> LinkNode t"
  shows "keeps (guarded D S) (make_temp n d pre)"
  by (rule keepsI, rule post_make_temp) (use assms in \<open>auto intro: guarded.same_tree guarded_upd\<close>)

text \<open>A rename brings the nodes of the source to the target.\<close>

lemma node_at_move_cases:
  assumes "node_at (move p q w) r = Some n"
  shows "(\<exists>k. inside p k \<and> node_at w k = Some n) \<or> node_at w r = Some n"
proof (cases "map_of (renamed p q (files w)) r")
  case (Some n')
  then have "n' = n" using assms by (simp add: node_at_def move_def Let_def map_add_def flip: renamed_def)
  have "(r, n') \<in> set (renamed p q (files w))" using Some by (rule map_of_SomeD)
  then obtain k where k: "inside p k" "r = q @ drop (length p) k" by (auto simp: renamed_def)
  have "map_of (files w) k = Some n'" using Some map_of_renamed_below [OF k(1), of q "files w"] k(2) by simp
  then show ?thesis using k(1) \<open>n' = n\<close> by (auto simp: node_at_def)
next
  case None
  then have "map_of (filter (\<lambda>kv. \<not> inside p (fst kv) \<and> \<not> inside q (fst kv)) (files w)) r = Some n"
    using assms by (simp add: node_at_def move_def Let_def map_add_def flip: renamed_def)
  then show ?thesis using map_of_filter [of "\<lambda>k. \<not> inside p k \<and> \<not> inside q k" "files w" r] by (auto simp: node_at_def split: if_splits)
qed

lemma guarded_Rename:
  assumes "\<forall>r \<in> S. \<not> inside p r \<and> \<not> inside q r" "{r. inside p r} \<subseteq> D"
  shows "keeps (guarded D S) (Rename p q)"
proof (rule keepsI, rule post_Rename)
  fix w w1 assume n: "node_at w1 = node_at w"
  have "kept S w (move p q w1)" using assms(1) n node_at_move_other by (auto simp: kept_def)
  moreover have "no_links_at D (move p q w1)" if "no_links_at D w"
    using that node_at_move_cases [of p q w1] n assms(2) unfolding no_links_at_def by (metis mem_Collect_eq subset_iff)
  ultimately show "guarded D S w (move p q w1)" by (simp add: guarded_def)
qed (auto intro: guarded.same_tree)

lemma guarded_close_and_fail [keeps_rules]: "keeps (guarded D S) (close_and_fail p e)"
  unfolding close_and_fail_def by (intro keeps_rules)

lemma guarded_unless_committed: "keeps (guarded D S) m \<Longrightarrow> p \<notin> S \<Longrightarrow> keeps (guarded D S) (unless_committed p m)"
  unfolding unless_committed_def by (intro keeps_rules guarded_Remove)

end
