(* ===== verification/Store_Safety.thy ===== *)
theory Store_Safety
  imports Store_Graph Link_Guard
begin

text \<open>
  What the image store promises: the images it returns are complete in the shared layout. The two
  ways to copy blobs, from a temporary layout and from the shared layout to itself, are
  interpretations of \<open>blob_copies\<close>; the metadata is used through its map.
\<close>

subsection \<open>Plain paths\<close>

text \<open>Paths without a component that looks like a temporary file.\<close>

definition plain_paths :: "string set" where
  "plain_paths = abs_path ` {cs. plain_dirs cs}"

lemma plain_dirs_safe: "plain_dirs cs \<Longrightarrow> list_all safe_component cs"
  by (simp add: plain_dirs_def)

lemma plain_dirs_append [simp]: "plain_dirs (cs @ ds) \<longleftrightarrow> plain_dirs cs \<and> plain_dirs ds"
  by (auto simp: plain_dirs_def)

lemma clear_plain:
  assumes "CHR ''/'' \<notin> set k"
  shows "clear (''.'' @ k @ ''.tmp-'') plain_paths"
proof -
  have "\<not> HasPrefix c (''.'' @ k @ ''.tmp-'')" if "plain_dirs cs" "c \<in> set cs" for c cs
    using Contains_prefix [of c "''.'' @ k" "''.tmp-''" "[]"] that by (auto simp: plain_dirs_def list_all_iff)
  moreover have "abs_path cs = abs_path ds \<Longrightarrow> cs = ds" if "plain_dirs cs" "plain_dirs ds" for cs ds
    using that by (simp add: abs_path_inject plain_dirs_def)
  ultimately show ?thesis using assms unfolding clear_def plain_paths_def plain_dirs_def by fastforce
qed

lemma plain_inside:
  assumes "plain_dirs cs" "plain_dirs ds" "cs \<noteq> []"
  shows "inside (abs_path cs) (abs_path ds) \<longleftrightarrow> (\<exists>es. ds = cs @ es)"
  using assms by (intro inside_abs_path) (auto simp: plain_dirs_def)

lemma plain_alnum:
  assumes "list_all is_alnum c" "c \<noteq> []"
  shows "plain_dirs [c]"
proof -
  have "\<not> Contains xs ''.tmp-''" if "list_all is_alnum xs" for xs
    using that by (induction xs) (auto simp: HasPrefix_def is_alnum_simps(2))
  moreover have "safe_component c"
    using assms is_alnum_simps by (cases c) (auto simp: safe_component_def list_all_iff)
  ultimately show ?thesis using assms by (simp add: plain_dirs_def)
qed

subsection \<open>The setting\<close>

text \<open>
  What is relied on of the digest library, whose \<open>Validate\<close> only accepts a registered algorithm
  followed by a colon and hexadecimal digits; and of JSON, which decodes what it has encoded.
\<close>

definition digests_ok :: "image_lib \<Rightarrow> bool" where
  "digests_ok lib \<longleftrightarrow> (\<forall>d. digest_validate lib d = None \<longrightarrow> d = digest_algorithm lib d @ '':'' @ digest_encoded lib d \<and>
     digest_algorithm lib d \<noteq> [] \<and> list_all is_alnum (digest_algorithm lib d) \<and> digest_encoded lib d \<noteq> [] \<and> list_all is_alnum (digest_encoded lib d))"

definition index_codec :: "store_tools \<Rightarrow> bool" where
  "index_codec tools \<longleftrightarrow> (\<forall>index s. encode_store_index tools index = Inr s \<longrightarrow> decode_index tools (s @ [CHR 0x0A]) = Inr index)"

text \<open>The two layouts: the shared one below the root of the store, a temporary one outside of it.\<close>

definition layout_of :: "string list \<Rightarrow> string list" where
  "layout_of rs = rs @ [''layout'']"

definition store_paths :: "image_lib \<Rightarrow> string list \<Rightarrow> string list \<Rightarrow> bool" where
  "store_paths lib rs ts \<longleftrightarrow> digests_ok lib \<and> plain_dirs rs \<and> plain_dirs ts \<and> (\<forall>es. ts \<noteq> layout_of rs @ es)"

definition blob_comps :: "image_lib \<Rightarrow> string list \<Rightarrow> string \<Rightarrow> string list" where
  "blob_comps lib rs d = rs @ [''blobs'', digest_algorithm lib d, digest_encoded lib d]"

text \<open>The paths that must not be links.\<close>

definition blob_places :: "image_lib \<Rightarrow> string list \<Rightarrow> string set" where
  "blob_places lib rs = {abs_path (blob_comps lib rs d) | d. digest_validate lib d = None}"

lemma plain_blob:
  assumes "digests_ok lib" "plain_dirs rs" "digest_validate lib d = None"
  shows "plain_dirs (blob_comps lib rs d)" "blob_path lib (abs_path rs) d = abs_path (blob_comps lib rs d)"
proof -
  have "plain_dirs [digest_algorithm lib d]" "plain_dirs [digest_encoded lib d]"
    using assms(1,3) plain_alnum by (auto simp: digests_ok_def)
  moreover have "plain_dirs [''blobs'']" by code_simp
  ultimately have p: "plain_dirs [''blobs'', digest_algorithm lib d, digest_encoded lib d]"
    using plain_dirs_append [of "[''blobs'']"] plain_dirs_append [of "[digest_algorithm lib d]"] by (metis append_Cons append_Nil)
  then show "plain_dirs (blob_comps lib rs d)" using assms(2) by (simp add: blob_comps_def)
  show "blob_path lib (abs_path rs) d = abs_path (blob_comps lib rs d)"
    unfolding blob_path_def blob_comps_def using p assms(2) by (subst Join_abs) (simp_all add: plain_dirs_def comps_abs_path)
qed

lemma blob_comps_inject:
  assumes "digests_ok lib" "digest_validate lib d = None" "digest_validate lib e = None" "blob_comps lib rs d = blob_comps lib rs e"
  shows "d = e"
proof -
  have "digest_algorithm lib d = digest_algorithm lib e" "digest_encoded lib d = digest_encoded lib e"
    using assms(4) by (simp_all add: blob_comps_def)
  moreover have "d = digest_algorithm lib d @ '':'' @ digest_encoded lib d" "e = digest_algorithm lib e @ '':'' @ digest_encoded lib e"
    using assms(1-3) unfolding digests_ok_def by blast+
  ultimately show ?thesis by simp
qed

text \<open>A blob only depends on the node at its place.\<close>

lemma content_kept:
  assumes "no_links_at {p} w" "kept {p} w w'"
  shows "open_content w' p = open_content w p"
proof -
  have n: "\<forall>t. node_at w p \<noteq> Some (LinkNode t)" "\<forall>t. node_at w' p \<noteq> Some (LinkNode t)"
    using assms no_links_kept [OF assms] by (simp_all add: no_links_at_def)
  have "node_at w' p = node_at w p \<or> node_at w p = None \<and> is_dir (node_at w' p)" using assms(2) by (simp add: kept_def)
  then show ?thesis
    unfolding open_content_plain [OF n(1)] open_content_plain [OF n(2)]
    by (elim disjE conjE) (simp, cases "node_at w' p" rule: is_dir.cases, simp_all)
qed

lemma blob_at_kept:
  assumes "no_links_at {p} w" "kept {p} w w'" "blob_at lib w p d"
  shows "blob_at lib w' p d"
proof -
  have n: "\<forall>t. node_at w p \<noteq> Some (LinkNode t)" "\<forall>t. node_at w' p \<noteq> Some (LinkNode t)"
    using assms(1) no_links_kept [OF assms(1,2)] by (simp_all add: no_links_at_def)
  obtain c m u where "node_at w p = Some (FileNode c m u)" using assms(3) unfolding blob_at_plain [OF n(1)] by blast
  then have "node_at w' p = node_at w p" using assms(2) by (simp add: kept_def)
  then show ?thesis using assms(3) unfolding blob_at_plain [OF n(1)] blob_at_plain [OF n(2)] by simp
qed

subsection \<open>Copying one blob\<close>

lemma kept_st_blob [keeps_rules]: "keeps (kept S) (st_validateBlob lib p d)"
  by (rule kept.keeps_checks [OF checks_st_blob [OF refl]])

lemma kept_syncDir [keeps_rules]: "keeps (kept S) (syncDir p)"
  unfolding syncDir_def by (intro keeps_rules)

lemma kept_MkdirPrivate:
  assumes "\<And>r p. reads (SJ r p)"
  shows "keeps (kept S) (MkdirPrivate SJ w rel)"
  unfolding MkdirPrivate_def rootPath_def
  by (intro keeps_rules kept_createDirectory kept.keeps_reads [OF reads_scopedPath [OF assms]])

lemma kept_fill_blob:
  assumes "tmp \<notin> S" "\<forall>r \<in> S. \<not> inside tmp r \<and> \<not> inside dst r"
  shows "keeps (kept S) (fill_blob lib src tmp dst d)"
  unfolding fill_blob_def publish_blob_def copy_content_def
  by (intro keeps_rules kept_Rename assms(2) keeps_world [where f = "\<lambda>w. FWrite tmp (open_content w src)"] kept_FWrite assms(1))

lemma kept_copyBlob:
  assumes SJ: "\<And>r p. reads (st_join tools r p)" and enc: "CHR ''/'' \<notin> set (digest_encoded (st_lib tools) (Digest d))"
    and S: "S \<subseteq> plain_paths" "\<forall>r \<in> S. \<not> inside dst r"
  shows "keeps (kept S) (copyBlobIfMissing tools ws src dst d)"
proof -
  let ?pre = "''.'' @ digest_encoded (st_lib tools) (Digest d) @ ''.tmp-''"
  have pre: "clear ?pre S" using clear_plain [OF enc] S(1) by (rule clear_subset)
  have fill: "keeps (kept S) (tryE (wrapped f (ws_CreateTemp (st_join tools) (Some ws) rel ?pre)) (\<lambda>tmp. unless_committed tmp (fill_blob (st_lib tools) src tmp dst d)))"
    for f rel
  proof (rule keepsI, rule try_wrapped_run)
    fix w e w' assume "ws_CreateTemp (st_join tools) (Some ws) rel ?pre w = (Inl e, w')"
    then show "kept S w w'" by (rule keeps_run [OF kept_ws_CreateTemp [OF SJ pre]])
  next
    fix w tmp w1 assume r: "ws_CreateTemp (st_join tools) (Some ws) rel ?pre w = (Inr tmp, w1)"
    have k: "kept S w w1" by (rule keeps_run [OF kept_ws_CreateTemp [OF SJ pre] r])
    have t: "\<not> inside tmp q" if "q \<in> S" for q using clear_not_inside [OF pre _ that] temp_created [OF r] by blast
    have "keeps (kept S) (unless_committed tmp (fill_blob (st_lib tools) src tmp dst d))"
      by (rule kept_unless_committed, rule kept_fill_blob) (use t S(2) inside_refl in blast)+
    from keeps_post [OF this]
    show "post (unless_committed tmp (fill_blob (st_lib tools) src tmp dst d)) (\<lambda>r w'. kept S w w') w1"
      by (rule post_mono) (rule kept.trans [OF k])
  qed
  show ?thesis
    unfolding copyBlobIfMissing_def by (intro keeps_rules kept_MkdirPrivate SJ fill)
qed

text \<open>A blob that was copied is what its descriptor says.\<close>

lemma run_or_close:
  assumes "attempt m (\<lambda>r. case r of Inl e \<Rightarrow> close_and_fail p (f e) | Inr a \<Rightarrow> k a) w = (Inr b, w')"
  obtains a w1 where "m w = (Inr a, w1)" "k a w1 = (Inr b, w')"
  using assms by (auto simp: attempt_def run_close_and_fail split: prod.splits sum.splits)

lemma run_publish:
  assumes "publish_blob lib tmp dst d w = (Inr (), w')" "node_at w tmp = Some (FileNode c m u)"
  shows "node_at w' dst = Some (FileNode c m u) \<and> digest_validate lib (Digest d) = None \<and> int (length c) = DescSize d \<and> digest_verifies lib (Digest d) c"
  using assms(1) unfolding publish_blob_def
proof (elim run_or_close run_tryE run_wrapped)
  fix w1 w2 w3 w4 and x y z v :: unit
  assume "Effectless tmp w = (Inr x, w1)" "Effectless tmp w1 = (Inr y, w2)"
    and check: "st_validateBlob lib tmp d w2 = (Inr z, w3)" and ren: "Rename tmp dst w3 = (Inr v, w4)" and sync: "syncDir (Dir dst) w4 = (Inr (), w')"
  then have n2: "node_at w2 = node_at w" using run_reads [of "Effectless tmp"] by simp
  have n3: "node_at w3 = node_at w" "blob_at lib w2 tmp d" using run_st_blob [OF check] n2 by auto
  have "node_at w4 dst = Some (FileNode c m u)" by (rule run_Rename [OF ren]) (simp add: n3 assms(2))
  moreover have "reads (syncDir (Dir dst))" unfolding syncDir_def by (intro reads_comb reads_deferred) simp_all
  ultimately have "node_at w' dst = Some (FileNode c m u)" using run_reads [of "syncDir (Dir dst)" w4 "Inr ()" w'] sync by simp
  moreover have "\<forall>t. node_at w2 tmp \<noteq> Some (LinkNode t)" using n2 assms(2) by simp
  ultimately show ?thesis using n3(2) n2 assms(2) by (auto simp: blob_at_plain)
qed

lemma run_fill_blob:
  assumes "fill_blob lib src tmp dst d w = (Inr (), w')" "node_at w tmp = Some (FileNode [] m u)"
  shows "\<exists>c m u. node_at w' dst = Some (FileNode c m u) \<and> digest_validate lib (Digest d) = None \<and> int (length c) = DescSize d \<and> digest_verifies lib (Digest d) c"
  using assms(1) unfolding fill_blob_def
proof (elim run_or_close run_attempt)
  fix x :: unit and copied closed :: "goerr + unit" and w1 w2 w3
  assume "OpenRead src w = (Inr x, w1)" and cp: "copy_content src tmp w1 = (copied, w2)" and "Effectless src w2 = (closed, w3)"
    and rest: "(case copied of Inl e \<Rightarrow> close_and_fail tmp (filesystem ''copy OCI image blob'' e)
      | Inr _ \<Rightarrow> (case closed of Inl e \<Rightarrow> close_and_fail tmp (filesystem ''close temporary OCI image blob'' e) | Inr _ \<Rightarrow> publish_blob lib tmp dst d)) w3 = (Inr (), w')"
  then have n1: "node_at w1 = node_at w" and n3: "node_at w3 = node_at w2" using run_reads [of "OpenRead src"] run_reads [of "Effectless src"] by auto
  have pub: "copied = Inr ()" "publish_blob lib tmp dst d w3 = (Inr (), w')"
    using rest run_close_and_fail by (cases copied; cases closed; fastforce)+
  from cp [unfolded copy_content_def pub(1)] obtain y w0 where "Effectless src w1 = (Inr y, w0)" "FWrite tmp (open_content w0 src) w0 = (Inr (), w2)"
    by (elim run_tryE)
  then have "node_at w2 tmp = Some (FileNode (open_content w0 src) m u)"
    using run_FWrite [of tmp _ w0 "()" w2 "[]" m u] run_reads [of "Effectless src"] n1 assms(2) by (simp add: fun_upd_same)
  then have "node_at w3 tmp = Some (FileNode (open_content w0 src) m u)" by (simp add: n3)
  from run_publish [OF pub(2) this] show ?thesis by blast
qed

lemma run_copyBlob:
  assumes "copyBlobIfMissing tools ws src dst d w = (Inr (), w')" "\<forall>t. node_at w dst \<noteq> Some (LinkNode t)"
  shows "(\<forall>t. node_at w' dst \<noteq> Some (LinkNode t)) \<and> blob_at (st_lib tools) w' dst d"
proof -
  obtain r w1 where v: "st_validateBlob (st_lib tools) dst d w = (r, w1)" by fastforce
  note n1 = run_st_blob [OF v]
  show ?thesis
  proof (cases r)
    case (Inr x)
    then have "w' = w1" using assms(1) v by (simp add: copyBlobIfMissing_def attempt_def ret_def)
    then show ?thesis using n1 Inr assms(2) blob_at_cong [of w' w] by simp
  next
    case (Inl e)
    then obtain relParent x tmp w2 w3 where tmp: "ws_CreateTemp (st_join tools) (Some ws) relParent (''.'' @ digest_encoded (st_lib tools) (Digest d) @ ''.tmp-'') w2 = (Inr tmp, w3)"
      and fill: "fill_blob (st_lib tools) src tmp dst d w3 = (Inr (), w')"
      using assms(1) v unfolding copyBlobIfMissing_def
      by (auto simp: fail_def split: if_splits elim!: run_attempt run_tryE run_wrapped dest!: run_unless_committed)
    obtain c m u where f: "node_at w' dst = Some (FileNode c m u)" "digest_validate (st_lib tools) (Digest d) = None" "int (length c) = DescSize d" "digest_verifies (st_lib tools) (Digest d) c"
      using run_fill_blob [OF fill] run_CreateTemp [OF tmp] by blast
    then have nl: "\<forall>t. node_at w' dst \<noteq> Some (LinkNode t)" by simp
    then show ?thesis using f unfolding blob_at_plain [OF nl] by simp
  qed
qed

subsection \<open>From a temporary layout to the shared one\<close>

definition beside_blobs :: "image_lib \<Rightarrow> string list \<Rightarrow> string set" where
  "beside_blobs lib rs = {q \<in> plain_paths. \<forall>p \<in> blob_places lib (layout_of rs). \<not> inside p q}"

definition copy_good :: "store_tools \<Rightarrow> string list \<Rightarrow> string list \<Rightarrow> world \<Rightarrow> bool" where
  "copy_good tools rs ts w \<longleftrightarrow> store_paths (st_lib tools) rs ts \<and> (\<forall>r p. reads (st_join tools r p)) \<and>
     no_links_at (blob_places (st_lib tools) (layout_of rs) \<union> blob_places (st_lib tools) ts) w"

lemma plain_layout_of: "plain_dirs (layout_of rs) \<longleftrightarrow> plain_dirs rs"
proof -
  have "plain_dirs [''layout'']" by code_simp
  then show ?thesis by (simp add: layout_of_def)
qed

lemma blobs_apart:
  assumes "store_paths lib rs ts" "digest_validate lib d = None" "digest_validate lib e = None"
  shows "\<not> inside (abs_path (blob_comps lib (layout_of rs) d)) (abs_path (blob_comps lib ts e))"
    and "d \<noteq> e \<Longrightarrow> \<not> inside (abs_path (blob_comps lib (layout_of rs) d)) (abs_path (blob_comps lib (layout_of rs) e))"
proof -
  have p: "digests_ok lib" "plain_dirs (layout_of rs)" "plain_dirs ts" "\<And>es. ts \<noteq> layout_of rs @ es"
    using assms(1) by (auto simp: store_paths_def plain_layout_of)
  have plain: "plain_dirs (blob_comps lib (layout_of rs) x)" "plain_dirs (blob_comps lib ts x)" if "digest_validate lib x = None" for x
    using plain_blob(1) [OF p(1) _ that] p(2,3) by auto
  have ne: "blob_comps lib (layout_of rs) d \<noteq> []" by (simp add: blob_comps_def)
  show "\<not> inside (abs_path (blob_comps lib (layout_of rs) d)) (abs_path (blob_comps lib ts e))"
  proof
    assume "inside (abs_path (blob_comps lib (layout_of rs) d)) (abs_path (blob_comps lib ts e))"
    then obtain es where e: "blob_comps lib ts e = blob_comps lib (layout_of rs) d @ es"
      using plain_inside [OF plain(1) [OF assms(2)] plain(2) [OF assms(3)] ne] by blast
    from arg_cong [OF e, of length] have "length (layout_of rs) \<le> length ts" by (simp add: blob_comps_def)
    then have "take (length (layout_of rs)) ts = layout_of rs"
      using arg_cong [OF e, of "take (length (layout_of rs))"] by (simp add: blob_comps_def)
    then show False using p(4) [of "drop (length (layout_of rs)) ts"] by (metis append_take_drop_id)
  qed
  show "\<not> inside (abs_path (blob_comps lib (layout_of rs) d)) (abs_path (blob_comps lib (layout_of rs) e))" if "d \<noteq> e"
  proof
    assume "inside (abs_path (blob_comps lib (layout_of rs) d)) (abs_path (blob_comps lib (layout_of rs) e))"
    then obtain es where e: "blob_comps lib (layout_of rs) e = blob_comps lib (layout_of rs) d @ es"
      using plain_inside [OF plain(1) [OF assms(2)] plain(1) [OF assms(3)] ne] by blast
    from arg_cong [OF e, of length] have "es = []" by (simp add: blob_comps_def)
    then show False using blob_comps_inject [OF p(1) assms(2,3), of "layout_of rs"] e that by simp
  qed
qed

lemma blob_place_plain: "digests_ok lib \<Longrightarrow> plain_dirs rs \<Longrightarrow> digest_validate lib d = None \<Longrightarrow> abs_path (blob_comps lib rs d) \<in> plain_paths"
  using plain_blob(1) by (auto simp: plain_paths_def)

lemma copy_to_shared:
  assumes good: "copy_good tools rs ts w" and ok: "blob_ok (st_lib tools) w (abs_path ts) d"
    and run: "copyBlobIfMissing tools ws (blob_path (st_lib tools) (abs_path ts) (Digest d)) (blob_path (st_lib tools) (abs_path (layout_of rs)) (Digest d)) d w = (Inr (), w')"
  shows "copy_good tools rs ts w' \<and> kept (beside_blobs (st_lib tools) rs) w w' \<and> blob_ok (st_lib tools) w' (abs_path (layout_of rs)) d \<and>
    blobs_kept (st_lib tools) (abs_path ts) (abs_path (layout_of rs)) (\<lambda>x. x \<noteq> Digest d) w w'"
proof -
  let ?lib = "st_lib tools"
  let ?dst = "abs_path (blob_comps ?lib (layout_of rs) (Digest d))"
  let ?S = "{q \<in> plain_paths. \<not> inside ?dst q}"
  have sp: "store_paths ?lib rs ts" and SJ: "\<And>r p. reads (st_join tools r p)" using good by (simp_all add: copy_good_def)
  have p: "digests_ok ?lib" "plain_dirs (layout_of rs)" "plain_dirs ts" using sp by (simp_all add: store_paths_def plain_layout_of)
  have v: "digest_validate ?lib (Digest d) = None" "Digest d \<noteq> []" using ok by (simp_all add: blob_ok_def)
  have dst: "blob_path ?lib (abs_path (layout_of rs)) e = abs_path (blob_comps ?lib (layout_of rs) e)"
    and src: "blob_path ?lib (abs_path ts) e = abs_path (blob_comps ?lib ts e)" if "digest_validate ?lib e = None" for e
    using plain_blob(2) [OF p(1) _ that] p(2,3) by auto
  have place: "abs_path (blob_comps ?lib (layout_of rs) e) \<in> blob_places ?lib (layout_of rs)" "abs_path (blob_comps ?lib ts e) \<in> blob_places ?lib ts"
    if "digest_validate ?lib e = None" for e using that by (auto simp: blob_places_def)
  have nl: "no_links_at {abs_path (blob_comps ?lib (layout_of rs) e)} w" "no_links_at {abs_path (blob_comps ?lib ts e)} w"
    if "digest_validate ?lib e = None" for e
    using good place [OF that] by (auto simp: copy_good_def no_links_at_def)
  have "CHR ''/'' \<notin> set (digest_encoded ?lib (Digest d))" using p(1) v(1) is_alnum_simps(1) by (metis digests_ok_def list_all_iff)
  then have k: "kept ?S w w'" by (intro keeps_run [OF kept_copyBlob [OF SJ] run]) (auto simp: dst [OF v(1)])
  have new: "\<forall>t. node_at w' ?dst \<noteq> Some (LinkNode t)" "blob_at ?lib w' ?dst d"
    using run_copyBlob [OF run] nl(1) [OF v(1)] by (auto simp: dst [OF v(1)] no_links_at_def)
  have src_in: "{abs_path (blob_comps ?lib ts e)} \<subseteq> ?S" if "digest_validate ?lib e = None" for e
    using blobs_apart(1) [OF sp v(1) that] blob_place_plain [OF p(1,3) that] by simp
  have dst_in: "{abs_path (blob_comps ?lib (layout_of rs) e)} \<subseteq> ?S" if "digest_validate ?lib e = None" "Digest d \<noteq> e" for e
    using blobs_apart(2) [OF sp v(1) that] blob_place_plain [OF p(1,2) that(1)] by simp
  have "no_links_at (blob_places ?lib (layout_of rs) \<union> blob_places ?lib ts) w'"
    unfolding no_links_at_def
  proof
    fix q assume "q \<in> blob_places ?lib (layout_of rs) \<union> blob_places ?lib ts"
    then obtain e where e: "digest_validate ?lib e = None" "q = abs_path (blob_comps ?lib (layout_of rs) e) \<or> q = abs_path (blob_comps ?lib ts e)"
      by (auto simp: blob_places_def)
    show "\<forall>t. node_at w' q \<noteq> Some (LinkNode t)"
    proof (cases "q = ?dst")
      case False
      have "no_links_at {q} w \<and> {q} \<subseteq> ?S"
        using e(2)
      proof
        assume q: "q = abs_path (blob_comps ?lib (layout_of rs) e)"
        then have "Digest d \<noteq> e" using False by blast
        then show ?thesis unfolding q by (intro conjI nl(1) dst_in e(1))
      next
        assume q: "q = abs_path (blob_comps ?lib ts e)"
        show ?thesis unfolding q by (intro conjI nl(2) src_in e(1))
      qed
      then have "no_links_at {q} w" "{q} \<subseteq> ?S" by blast+
      from no_links_kept [OF this(1) kept_subset [OF k this(2)]] show ?thesis by (simp add: no_links_at_def)
    qed (use new in simp)
  qed
  then have g: "copy_good tools rs ts w'" using good by (simp add: copy_good_def)
  have b: "kept (beside_blobs ?lib rs) w w'"
    using k by (rule kept_subset) (use place(1) [OF v(1)] in \<open>auto simp: beside_blobs_def\<close>)
  have "blob_content ?lib w' (abs_path ts) e = blob_content ?lib w (abs_path ts) e" if "digest_validate ?lib (Digest e) = None" for e
    unfolding blob_content_def src [OF that] by (rule content_kept [OF nl(2) [OF that] kept_subset [OF k src_in [OF that]]])
  moreover have "blob_ok ?lib w' (abs_path (layout_of rs)) e" if "Digest e \<noteq> Digest d" "blob_ok ?lib w (abs_path (layout_of rs)) e" for e
  proof -
    have ve: "digest_validate ?lib (Digest e) = None" using that(2) by (simp add: blob_ok_def)
    show ?thesis
      using that(2) blob_at_kept [OF nl(1) [OF ve] kept_subset [OF k dst_in [OF ve]]] that(1) by (auto simp: blob_ok_at dst [OF ve])
  qed
  ultimately have "blobs_kept ?lib (abs_path ts) (abs_path (layout_of rs)) (\<lambda>x. x \<noteq> Digest d) w w'" by (simp add: blobs_kept_def)
  then show ?thesis using g b new v by (simp add: blob_ok_at dst [OF v(1)])
qed

interpretation to_shared: blob_copies tools "abs_path ts" "abs_path (layout_of rs)" ws "copy_good tools rs ts" "beside_blobs (st_lib tools) rs"
  for tools rs ts ws
proof
  show "copy_good tools rs ts w'" if "copy_good tools rs ts w" "node_at w' = node_at w" for w w'
    using that(1) unfolding copy_good_def no_links_at_cong [OF that(2)] .
qed (rule copy_to_shared)

subsection \<open>A layout that is already shared\<close>

text \<open>A blob that is intact is not copied again: its validation can only fail with an I/O error.\<close>

lemma post_Stat_file:
  assumes "resolve 40 w p = Some q" "node_at w q = Some n"
    and "\<And>e w'. node_at w' = node_at w \<Longrightarrow> e \<noteq> ENOENT \<Longrightarrow> Q (Inl (SysErr e p)) w'" "\<And>w'. node_at w' = node_at w \<Longrightarrow> Q (Inr n) w'"
  shows "post (Stat p) Q w"
  unfolding Stat_def
proof (rule post_syscall)
  fix w1 :: world assume "files w1 = files w"
  then have "node_at w1 = node_at w" by (rule node_at_ext)
  then show "case (case resolve 40 w1 p of None \<Rightarrow> Inl EIO | Some q \<Rightarrow> (case node_at w1 q of None \<Rightarrow> Inl ENOENT | Some n \<Rightarrow> Inr n), w1) of
      (Inl e, w'') \<Rightarrow> Q (Inl (SysErr e p)) w'' | (Inr a, w'') \<Rightarrow> Q (Inr a) w''"
    using assms resolve_cong [of w1 w] by simp
qed (use assms(3) node_at_ext in blast)

definition io_failure :: "goerr + 'a \<Rightarrow> bool" where
  "io_failure r \<longleftrightarrow> (\<forall>e. r = Inl e \<longrightarrow> \<not> errIs e ErrInvalidImageLayout)"

lemma io_failure_syscall:
  assumes "\<And>w. snd (run w) = w"
  shows "post (syscall p run) (\<lambda>r w'. node_at w' = node_at w \<and> io_failure r) w"
proof (rule post_syscall)
  fix w1 :: world assume "files w1 = files w"
  then have "node_at w1 = node_at w" by (rule node_at_ext)
  then show "case run w1 of (Inl e, w'') \<Rightarrow> node_at w'' = node_at w \<and> io_failure (Inl (SysErr e p))
      | (Inr a, w'') \<Rightarrow> node_at w'' = node_at w \<and> io_failure (Inr a)"
    using assms [of w1] by (auto simp: io_failure_def split: prod.splits sum.splits)
qed (auto simp: io_failure_def dest: node_at_ext)

lemma intact_blob_errors:
  assumes "blob_at lib w p d"
  shows "post (st_validateBlob lib p d) (\<lambda>r w'. io_failure r) w"
proof -
  obtain q m u where q: "resolve 40 w p = Some q" "node_at w q = Some (FileNode (open_content w p) m u)"
    and v: "digest_validate lib (Digest d) = None" "int (length (open_content w p)) = DescSize d" "digest_verifies lib (Digest d) (open_content w p)"
    using assms by (auto simp: blob_at_def)
  have calls: "post (OpenRead p) (\<lambda>r w'. node_at w' = node_at w1 \<and> io_failure r) w1" "post (Effectless p) (\<lambda>r w'. node_at w' = node_at w1 \<and> io_failure r) w1" for w1
    unfolding OpenRead_def Effectless_def by (rule io_failure_syscall, simp)+
  have filesystem: "io_failure (Inl (filesystem what e))" if "io_failure (Inl e)" for what e
    using that by (simp add: io_failure_def filesystem_def)
  have verified: "post (\<lambda>w. (if digest_verifies lib (Digest d) (open_content w p) then ret ()
      else fail (codef ErrInvalidImageLayout (''OCI image layout blob '' @ Digest d @ '' content does not match digest'') [])) w) (\<lambda>r w'. io_failure r) w1"
    if "node_at w1 = node_at w" for w1
    using v(3) open_content_cong [OF that] by (simp add: post_def ret_def io_failure_def)
  show ?thesis
    unfolding st_validateBlob_def v(1) option.case
  proof (rule attI, rule post_Stat_file [OF q], goal_cases)
    case (1 e w1)
    then show ?case by (simp add: post_fail io_failure_def filesystem_def)
  next
    case (2 w1)
    show ?case
      unfolding sum.case is_dir.simps node_len.simps v(2) not_False_eq_True if_False not_True_eq_False simp_thms
      by (rule tryI, unfold post_wrapped, rule post_mono [OF calls(1)])
        (use 2 filesystem in \<open>auto split: sum.split intro!: deferred_reads tryI post_mono [OF calls(2)] verified simp: post_wrapped\<close>)
  qed
qed

lemma intact_not_copied:
  assumes "blob_at (st_lib tools) w p d" "copyBlobIfMissing tools ws q p d w = (r, w')"
  shows "node_at w' = node_at w"
proof -
  obtain v w1 where v: "st_validateBlob (st_lib tools) p d w = (v, w1)" by fastforce
  have "io_failure v" using postD [OF intact_blob_errors [OF assms(1)] v] .
  then have "w' = w1" using assms(2) v
    by (cases v) (auto simp: copyBlobIfMissing_def attempt_def ret_def fail_def io_failure_def split: if_splits)
  then show ?thesis using run_st_blob [OF v] by simp
qed

interpretation within_shared: blob_copies tools root root ws "\<lambda>w. True" UNIV for tools root ws
proof
  fix w d w' assume ok: "blob_ok (st_lib tools) w root d"
    and run: "copyBlobIfMissing tools ws (blob_path (st_lib tools) root (Digest d)) (blob_path (st_lib tools) root (Digest d)) d w = (Inr (), w')"
  have n: "node_at w' = node_at w" by (rule intact_not_copied [OF _ run]) (use ok in \<open>simp add: blob_ok_at\<close>)
  show "True \<and> kept UNIV w w' \<and> blob_ok (st_lib tools) w' root d \<and> blobs_kept (st_lib tools) root root (\<lambda>x. x \<noteq> Digest d) w w'"
    using kept.same_tree [OF n] blobs_kept_same [OF n] ok blob_ok_cong [OF n] by simp
qed simp

subsection \<open>Complete images\<close>

text \<open>A digest identifies a content.\<close>

definition digests_unique :: "image_lib \<Rightarrow> bool" where
  "digests_unique lib \<longleftrightarrow> (\<forall>d c c'. digest_verifies lib d c \<longrightarrow> digest_verifies lib d c' \<longrightarrow> c = c')"

text \<open>
  The blobs \<open>E\<close> of the image \<open>d\<close> in a layout: each of them is intact, and what any of them refers
  to is among them.
\<close>

definition complete :: "image_lib \<Rightarrow> world \<Rightarrow> string \<Rightarrow> descriptor \<Rightarrow> descriptor list \<Rightarrow> bool" where
  "complete lib w root d E \<longleftrightarrow> d \<in> set E \<and> distinct (map Digest E) \<and>
     (\<forall>e \<in> set E. blob_ok lib w root e \<and> (\<forall>f \<in> set (linked lib (blob_content lib w root e) e). Digest f \<in> Digest ` set E))"

lemma copied_complete:
  assumes "copied lib src dst w w' E [] seen" "d \<in> set E" "digests_unique lib"
  shows "complete lib w' dst d E"
proof -
  have "blob_content lib w' dst e = blob_content lib w src e" if "e \<in> set E" for e
    using copiedD(5,6) [OF assms(1) that] assms(3) unfolding blob_ok_def digests_unique_def by blast
  moreover have "set seen = Digest ` set E" using copiedD(2) [OF assms(1)] by simp
  ultimately show ?thesis using copiedD(3) [OF assms(1)] copiedD(5,7) [OF assms(1)] assms(2) unfolding complete_def by metis
qed

lemma complete_kept:
  assumes "digests_ok lib" "plain_dirs rs" "no_links_at (blob_places lib rs) w" "kept (blob_places lib rs) w w'" "complete lib w (abs_path rs) d E"
  shows "complete lib w' (abs_path rs) d E"
proof -
  have "blob_ok lib w' (abs_path rs) e \<and> blob_content lib w' (abs_path rs) e = blob_content lib w (abs_path rs) e" if "e \<in> set E" for e
  proof -
    have ok: "blob_ok lib w (abs_path rs) e" using assms(5) that by (simp add: complete_def)
    then have v: "digest_validate lib (Digest e) = None" by (rule blob_ok_valid)
    have p: "{blob_path lib (abs_path rs) (Digest e)} \<subseteq> blob_places lib rs"
      unfolding plain_blob(2) [OF assms(1,2) v] using v by (auto simp: blob_places_def)
    note nl = no_links_subset [OF assms(3) p] and k = kept_subset [OF assms(4) p]
    show ?thesis using blob_at_kept [OF nl k] content_kept [OF nl k] ok by (simp add: blob_ok_at blob_content_def)
  qed
  then show ?thesis using assms(5) unfolding complete_def by metis
qed

lemma run_copyReachable:
  assumes "copyReachableBlobs tools c src dst ws d w = (Inr sz, w')"
  obtains seen where "copyDescriptorGraph (st_depth tools) tools c src dst ws d [] w = (Inr (sz, seen), w')"
  using assms unfolding copyReachableBlobs_def by (auto elim!: run_tryE run_ret)

subsection \<open>The index\<close>

definition layout_index :: "store_tools \<Rightarrow> world \<Rightarrow> string \<Rightarrow> store_index option" where
  "layout_index tools w root =
     (case decode_index tools (open_content w (Join [root, ''index.json''])) of
        Inl e \<Rightarrow> None
      | Inr index \<Rightarrow> Some (if SchemaVersion index = 0 then index\<lparr>SchemaVersion := 2\<rparr> else index))"

lemma run_readIndex:
  assumes "st_readIndex tools root w = (Inr index, w')"
  shows "node_at w' = node_at w \<and> layout_index tools w root = Some index"
  using assms unfolding st_readIndex_def
  by (auto elim!: run_attempt simp: ret_def fail_def layout_index_def dest!: run_ReadFile split: sum.splits if_splits)

lemma readIndex_version: "st_readIndex tools root w = (Inr index, w') \<Longrightarrow> SchemaVersion index \<noteq> 0"
  unfolding st_readIndex_def by (auto elim!: run_attempt simp: ret_def fail_def split: sum.splits if_splits)

lemma run_select:
  assumes "selectDescriptor tools root reference p w = (Inr d, w')"
  shows "node_at w' = node_at w \<and> (\<exists>index. layout_index tools w root = Some index \<and> d \<in> set (Manifests index))"
proof -
  obtain index w1 where index: "st_readIndex tools root w = (Inr index, w1)"
    and pick: "(let platformOnly = filter (\<lambda>d. platformMatches (Platform d) p) (Manifests index); exact = filter (\<lambda>d. ref_name d = reference) platformOnly in
       if length exact = 1 then ret (hd exact)
       else if length exact > 1 then fail (codef ErrInvalidImageLayout
         (''OCI image layout has multiple manifests for reference '' @ Quote reference @ '' and platform '' @ platformString p) [])
       else if length platformOnly = 1 then ret (hd platformOnly)
       else if length (Manifests index) = 1 then ret (hd (Manifests index))
       else fail (codef ErrInvalidImageLayout
         (''OCI image layout has no unique manifest for reference '' @ Quote reference @ '' and platform '' @ platformString p) [])) w1 = (Inr d, w')"
    using assms unfolding selectDescriptor_def by (elim run_tryE)
  have hd_in: "hd xs \<in> set ys" if "length xs = 1" "set xs \<subseteq> set ys" for xs ys :: "descriptor list"
    using that by (cases xs) auto
  have "w' = w1 \<and> d \<in> set (Manifests index)"
    using pick unfolding Let_def by (auto simp: ret_def fail_def split: if_splits intro!: hd_in)
  then show ?thesis using run_readIndex [OF index] by auto
qed

definition index_place :: "string list \<Rightarrow> string" where
  "index_place rs = abs_path (layout_of rs @ [''index.json''])"

definition beside_index :: "string list \<Rightarrow> string set" where
  "beside_index rs = {q \<in> plain_paths. \<not> inside (index_place rs) q}"

lemma plain_index: "plain_dirs rs \<Longrightarrow> plain_dirs (layout_of rs @ [''index.json''])"
proof -
  have "plain_dirs [''index.json'']" by code_simp
  then show "plain_dirs rs \<Longrightarrow> ?thesis" by (simp add: plain_layout_of)
qed

lemma Join_plain: "plain_dirs (cs @ [c]) \<Longrightarrow> Join [abs_path cs, c] = abs_path (cs @ [c])"
  by (rule Join_step) (simp add: plain_dirs_def)

lemma index_joined:
  assumes "plain_dirs rs"
  shows "Join [abs_path rs, ''layout''] = abs_path (layout_of rs)" "Join [abs_path (layout_of rs), ''index.json''] = index_place rs"
  using Join_plain [of rs "''layout''"] plain_layout_of [of rs] Join_plain [OF plain_index [OF assms]] assms
  by (simp_all add: layout_of_def index_place_def)

lemma run_writeIndex:
  assumes run: "writeIndexAtomic tools ws index w = (Inr (), w')" and root: "ws_root ws = abs_path rs" "plain_dirs rs"
    and SJ: "\<And>r p. reads (st_join tools r p)" and version: "SchemaVersion index \<noteq> 0"
  shows "kept (beside_index rs) w w' \<and> (\<exists>data m u. encode_store_index tools index = Inr data \<and> node_at w' (index_place rs) = Some (FileNode (data @ [CHR 0x0A]) m u))"
proof -
  let ?pre = "''.index.json.tmp-''"
  have pre: "clear ?pre plain_paths" using clear_plain [of "''index.json''"] by simp
  have in_plain: "index_place rs \<in> plain_paths" using plain_index [OF root(2)] by (auto simp: index_place_def plain_paths_def)
  from run obtain data tmp w1 where data: "encode_store_index tools index = Inr data"
    and tmp: "ws_CreateTemp (st_join tools) (Some ws) ''layout'' ?pre w = (Inr tmp, w1)"
    and commit: "commit_file (filesystem ''write temporary OCI image layout index'') (filesystem ''sync temporary OCI image layout index'')
          (filesystem ''close temporary OCI image layout index'') (filesystem ''commit OCI image layout index'')
          tmp (data @ [CHR 0x0A]) (index_place rs) (syncDir (abs_path (layout_of rs))) w1 = (Inr (), w')"
    unfolding writeIndexAtomic_def Let_def root(1) index_joined [OF root(2)]
    using version by (auto elim!: run_tryE run_wrapped run_lift_sum)
  have t: "\<not> inside tmp q" if "q \<in> plain_paths" for q using clear_not_inside [OF pre _ that] temp_created [OF tmp] by blast
  have sync: "reads (syncDir p)" for p unfolding syncDir_def by (intro reads_comb reads_deferred) simp_all
  have k1: "kept (beside_index rs) w w1"
    by (rule kept_subset [OF keeps_run [OF kept_ws_CreateTemp [OF SJ pre] tmp]]) (auto simp: beside_index_def)
  have "keeps (kept (beside_index rs)) (commit_file f1 f2 f3 f4 tmp d (index_place rs) (syncDir p))" for f1 f2 f3 f4 d p
    by (rule kept_commit_file [OF _ _ sync]) (use t t [THEN notE, OF _ inside_refl] in \<open>auto simp: beside_index_def\<close>)
  from kept.trans [OF k1 keeps_run [OF this commit]] have k: "kept (beside_index rs) w w'" .
  have "tmp \<noteq> index_place rs" using t [OF in_plain] by auto
  note out = commit_file_post [OF conjunct2 [OF temp_created [OF tmp]] this sync t [OF in_plain]]
  from postD [OF out commit] show ?thesis using k data by blast
qed

subsection \<open>A commit\<close>

definition meta_of :: "string list \<Rightarrow> string list" where
  "meta_of rs = rs @ [''metadata'', ''images'']"

text \<open>Where the store keeps what it has committed.\<close>

definition kept_places :: "image_lib \<Rightarrow> string list \<Rightarrow> string set" where
  "kept_places lib rs = insert (index_place rs) (blob_places lib (layout_of rs))"

text \<open>A store as \<open>New\<close> makes it, on a tree without links at the places it uses.\<close>

definition store_ready :: "store_tools \<Rightarrow> store \<Rightarrow> workspace \<Rightarrow> JSONMetadata \<Rightarrow> string list \<Rightarrow> world \<Rightarrow> bool" where
  "store_ready tools s ws m rs w \<longleftrightarrow>
     plain_dirs rs \<and> ws_root ws = abs_path rs \<and> layoutRoot s = abs_path (layout_of rs) \<and>
     metadata_ok (st_meta tools) m (meta_of rs) \<and> TrimSpace (mt_arch (st_meta tools)) = mt_arch (st_meta tools) \<and>
     digests_ok (st_lib tools) \<and> digests_unique (st_lib tools) \<and> index_codec tools \<and>
     no_links_at (kept_places (st_lib tools) rs) w \<and> no_record_links (meta_of rs) w"

lemma layout_not_metadata: "abs_path (meta_of rs @ cs) = abs_path (layout_of rs @ ds) \<Longrightarrow> plain_dirs (meta_of rs @ cs) \<Longrightarrow> plain_dirs (layout_of rs @ ds) \<Longrightarrow> False"
  by (simp add: abs_path_inject plain_dirs_def meta_of_def layout_of_def)

lemma plain_meta: "plain_dirs rs \<Longrightarrow> plain_dirs (meta_of rs @ [HexEncode h @ ''.json''])"
proof -
  have "plain_dirs [''metadata'', ''images'']" by code_simp
  then show "plain_dirs rs \<Longrightarrow> ?thesis" using safe_json [of h] no_dot_json [of h] by (simp add: meta_of_def) (simp add: plain_dirs_def)
qed

lemma inside_layout:
  assumes "plain_dirs (layout_of rs @ c # cs)" "plain_dirs rs"
  shows "\<not> inside (abs_path (layout_of rs @ c # cs)) (abs_path (meta_of rs @ [HexEncode h @ ''.json'']))"
    and "\<not> inside (abs_path (meta_of rs @ [HexEncode h @ ''.json''])) (abs_path (layout_of rs @ c # cs))"
  using plain_inside [OF assms(1) plain_meta [OF assms(2)]] plain_inside [OF plain_meta [OF assms(2)] assms(1)]
  by (simp_all add: layout_of_def meta_of_def)

text \<open>The three kinds of places do not get in each other's way.\<close>

lemma places_apart:
  assumes "plain_dirs rs" "digests_ok lib"
  shows "record_paths (meta_of rs) \<subseteq> beside_blobs lib rs" "record_paths (meta_of rs) \<subseteq> beside_index rs"
    "index_place rs \<in> beside_blobs lib rs" "blob_places lib (layout_of rs) \<subseteq> beside_index rs"
    "kept_places lib rs \<subseteq> plain_paths" "q \<in> kept_places lib rs \<Longrightarrow> \<not> inside (abs_path (meta_of rs @ [HexEncode h @ ''.json''])) q"
proof -
  have pl: "plain_dirs (layout_of rs)" using assms(1) by (simp add: plain_layout_of)
  have pi: "plain_dirs (layout_of rs @ [''index.json''])" by (rule plain_index [OF assms(1)])
  have pb: "plain_dirs (layout_of rs @ ''blobs'' # [digest_algorithm lib d, digest_encoded lib d])" if "digest_validate lib d = None" for d
    using plain_blob(1) [OF assms(2) pl that] by (simp add: blob_comps_def)
  have rec: "abs_path (meta_of rs @ [HexEncode s @ ''.json'']) \<in> plain_paths" for s using plain_meta [OF assms(1)] by (auto simp: plain_paths_def)
  show "record_paths (meta_of rs) \<subseteq> beside_blobs lib rs"
    using rec inside_layout(1) [OF pb assms(1)] by (auto simp: record_paths_def beside_blobs_def blob_places_def blob_comps_def)
  show "record_paths (meta_of rs) \<subseteq> beside_index rs"
    using rec inside_layout(1) [OF pi assms(1)] by (auto simp: record_paths_def beside_index_def index_place_def)
  have "\<not> inside (abs_path (blob_comps lib (layout_of rs) d)) (index_place rs)" if "digest_validate lib d = None" for d
    using plain_inside [OF pb [OF that] pi] by (simp add: index_place_def blob_comps_def)
  then show "index_place rs \<in> beside_blobs lib rs" using pi by (auto simp: beside_blobs_def blob_places_def plain_paths_def index_place_def)
  have "\<not> inside (index_place rs) (abs_path (blob_comps lib (layout_of rs) d))" if "digest_validate lib d = None" for d
    using plain_inside [OF pi pb [OF that]] by (simp add: index_place_def blob_comps_def)
  then show "blob_places lib (layout_of rs) \<subseteq> beside_index rs"
    using blob_place_plain [OF assms(2) pl] by (auto simp: beside_index_def blob_places_def)
  show "kept_places lib rs \<subseteq> plain_paths"
    using blob_place_plain [OF assms(2) pl] pi by (auto simp: kept_places_def blob_places_def plain_paths_def index_place_def)
  show "\<not> inside (abs_path (meta_of rs @ [HexEncode h @ ''.json''])) q" if "q \<in> kept_places lib rs"
    using that inside_layout(2) [OF pi assms(1)] inside_layout(2) [OF pb assms(1)] by (auto simp: kept_places_def index_place_def blob_places_def blob_comps_def)
qed

lemma ready_good:
  assumes "store_ready tools s ws m rs w"
  shows "md_good (st_meta tools) m (meta_of rs) (kept_places (st_lib tools) rs) w"
proof -
  have r: "plain_dirs rs" "digests_ok (st_lib tools)" "metadata_ok (st_meta tools) m (meta_of rs)" using assms by (simp_all add: store_ready_def)
  have "CHR ''/'' \<notin> set (HexEncode h @ ''.json'')" for h using safe_no_slash [OF safe_json] .
  from clear_plain [OF this] have "clear (''.'' @ HexEncode h @ ''.json.tmp-'') (kept_places (st_lib tools) rs)" for h
    using clear_subset [OF _ places_apart(5) [OF r(1,2)]] by (simp add: append.assoc)
  then show ?thesis using assms places_apart(6) [OF r(1,2)] by (simp add: md_good_def store_ready_def record_path_eq(1) [OF r(3)])
qed

lemma ready_kept:
  assumes "store_ready tools s ws m rs w" "no_links_at (kept_places (st_lib tools) rs) w'" "no_record_links (meta_of rs) w'"
  shows "store_ready tools s ws m rs w'"
  using assms by (simp add: store_ready_def)

lemma index_content:
  assumes "node_at w (index_place rs) = Some (FileNode c m u)"
  shows "open_content w (index_place rs) = c"
  using open_content_plain [of w "index_place rs"] assms by simp

text \<open>The two steps that publish a commit: the blobs are there before the index names them.\<close>

lemma commit_index:
  assumes ready: "store_ready tools s ws m rs w" and run: "writeIndexAtomic tools ws index w = (Inr (), w')" and version: "SchemaVersion index \<noteq> 0"
  shows "store_ready tools s ws m rs w' \<and> kept (blob_places (st_lib tools) (layout_of rs)) w w' \<and>
    md_records (st_meta tools) m w' = md_records (st_meta tools) m w \<and> layout_index tools w' (layoutRoot s) = Some index"
proof -
  let ?lib = "st_lib tools"
  have r: "plain_dirs rs" "digests_ok ?lib" "metadata_ok (st_meta tools) m (meta_of rs)" "ws_root ws = abs_path rs" "layoutRoot s = abs_path (layout_of rs)"
    "no_record_links (meta_of rs) w" "no_links_at (kept_places ?lib rs) w" "index_codec tools" using ready by (simp_all add: store_ready_def)
  have "\<And>r p. reads (st_join tools r p)" using r(3) by (simp add: metadata_ok_def)
  from run_writeIndex [OF run r(4,1) this version] obtain data k u where k: "kept (beside_index rs) w w'" "encode_store_index tools index = Inr data"
    and n: "node_at w' (index_place rs) = Some (FileNode (data @ [CHR 0x0A]) k u)" by blast
  have kb: "kept (blob_places ?lib (layout_of rs)) w w'" by (rule kept_subset [OF k(1) places_apart(4) [OF r(1,2)]])
  have "no_links_at (blob_places ?lib (layout_of rs)) w" using r(7) by (simp add: no_links_at_def kept_places_def)
  from no_links_kept [OF this kb] have "no_links_at (kept_places ?lib rs) w'" using n by (simp add: no_links_at_def kept_places_def)
  moreover note recs = md_records_kept [OF r(3,6) kept_subset [OF k(1) places_apart(2) [OF r(1,2)]]]
  moreover have "layout_index tools w' (layoutRoot s) = Some index"
    using r(8) k(2) version unfolding layout_index_def r(5) index_joined(2) [OF r(1)] index_content [OF n] by (simp add: index_codec_def)
  ultimately show ?thesis using ready_kept [OF ready] kb by blast
qed

lemma commit_blobs:
  assumes ready: "store_ready tools s ws m rs w" and tmp: "plain_dirs ts" "\<forall>es. ts \<noteq> layout_of rs @ es" "no_links_at (blob_places (st_lib tools) ts) w"
    and run: "copyReachableBlobs tools c (abs_path ts) (layoutRoot s) ws d w = (Inr sz, w')"
  shows "store_ready tools s ws m rs w' \<and> md_records (st_meta tools) m w' = md_records (st_meta tools) m w \<and>
    layout_index tools w' (layoutRoot s) = layout_index tools w (layoutRoot s) \<and>
    (\<exists>E. complete (st_lib tools) w' (layoutRoot s) d E \<and> sz = sum_list (map DescSize E))"
proof -
  let ?lib = "st_lib tools"
  have r: "plain_dirs rs" "digests_ok ?lib" "metadata_ok (st_meta tools) m (meta_of rs)" "layoutRoot s = abs_path (layout_of rs)"
    "no_record_links (meta_of rs) w" "no_links_at (kept_places ?lib rs) w" "digests_unique ?lib" using ready by (simp_all add: store_ready_def)
  have good: "copy_good tools rs ts w"
    using r tmp by (auto simp: copy_good_def store_paths_def metadata_ok_def kept_places_def no_links_at_def)
  from run obtain seen where "copyDescriptorGraph (st_depth tools) tools c (abs_path ts) (abs_path (layout_of rs)) ws d [] w = (Inr (sz, seen), w')"
    unfolding r(4) by (rule run_copyReachable)
  from to_shared.graph_copied [OF this good] obtain E where g: "copy_good tools rs ts w'" "kept (beside_blobs ?lib rs) w w'"
    and c: "copied ?lib (abs_path ts) (abs_path (layout_of rs)) w w' E [] seen" "d \<in> set E" and sz: "sz = sum_list (map DescSize E)"
    by auto
  have "complete ?lib w' (layoutRoot s) d E" using copied_complete [OF c r(7)] r(4) by simp
  moreover note recs = md_records_kept [OF r(3,5) kept_subset [OF g(2) places_apart(1) [OF r(1,2)]]]
  moreover have i: "kept {index_place rs} w w'" "no_links_at {index_place rs} w"
    using kept_subset [OF g(2), of "{index_place rs}"] places_apart(3) [OF r(1,2)] r(6) by (auto simp: no_links_at_def kept_places_def)
  moreover have "no_links_at (kept_places ?lib rs) w'"
    using g(1) no_links_kept [OF i(2,1)] by (auto simp: copy_good_def kept_places_def no_links_at_def)
  moreover have "layout_index tools w' (layoutRoot s) = layout_index tools w (layoutRoot s)"
    unfolding layout_index_def r(4) index_joined(2) [OF r(1)] content_kept [OF i(2,1)] by (rule refl)
  ultimately show ?thesis using ready_kept [OF ready] sz by blast
qed

lemma ready_cong:
  assumes "store_ready tools s ws m rs w" "node_at w' = node_at w"
  shows "store_ready tools s ws m rs w' \<and> md_records (st_meta tools) m w' = md_records (st_meta tools) m w \<and>
    layout_index tools w' root = layout_index tools w root"
  using assms unfolding store_ready_def no_links_at_cong [OF assms(2)] layout_index_def open_content_cong [OF assms(2)]
  by (simp add: no_record_links_def md_records_def [abs_def])

lemma metadata_step:
  assumes ready: "store_ready tools s ws m rs w" and good: "md_good (st_meta tools) m (meta_of rs) (kept_places (st_lib tools) rs) w'"
    and k: "kept (kept_places (st_lib tools) rs) w w'"
  shows "store_ready tools s ws m rs w' \<and> layout_index tools w' (layoutRoot s) = layout_index tools w (layoutRoot s) \<and>
    (\<forall>d E. complete (st_lib tools) w (layoutRoot s) d E \<longrightarrow> complete (st_lib tools) w' (layoutRoot s) d E)"
proof -
  let ?lib = "st_lib tools"
  have r: "plain_dirs rs" "digests_ok ?lib" "layoutRoot s = abs_path (layout_of rs)" "no_links_at (kept_places ?lib rs) w"
    using ready by (simp_all add: store_ready_def)
  have sub: "{index_place rs} \<subseteq> kept_places ?lib rs" "blob_places ?lib (layout_of rs) \<subseteq> kept_places ?lib rs" by (auto simp: kept_places_def)
  have i: "layout_index tools w' (layoutRoot s) = layout_index tools w (layoutRoot s)"
    unfolding layout_index_def r(3) index_joined(2) [OF r(1)]
      content_kept [OF no_links_subset [OF r(4) sub(1)] kept_subset [OF k sub(1)]] by (rule refl)
  have "plain_dirs (layout_of rs)" using r(1) by (simp add: plain_layout_of)
  from complete_kept [OF r(2) this no_links_subset [OF r(4) sub(2)] kept_subset [OF k sub(2)]]
  have c: "complete ?lib w (layoutRoot s) d E \<Longrightarrow> complete ?lib w' (layoutRoot s) d E" for d E unfolding r(3) .
  have "no_record_links (meta_of rs) w'" using good by (simp add: md_good_def)
  with ready_kept [OF ready no_links_kept [OF r(4) k]] i c show ?thesis by blast
qed

lemma commit_record:
  assumes ready: "store_ready tools s ws m rs w"
    and run: "record_commit tools s (md_ops (st_meta tools) (Some m)) oc request selected sizeBytes w = (Inr img, w')"
  shows "store_ready tools s ws m rs w' \<and> layout_index tools w' (layoutRoot s) = layout_index tools w (layoutRoot s) \<and>
    (\<forall>d E. complete (st_lib tools) w (layoutRoot s) d E \<longrightarrow> complete (st_lib tools) w' (layoutRoot s) d E) \<and>
    md_records (st_meta tools) m w' = (md_records (st_meta tools) m w)(md_key (st_meta tools) (canonicalReference request) (cr_platform request) \<mapsto> Inr (stored_image (st_meta tools) img)) \<and>
    LayoutPath img = layoutRoot s \<and> Reference img = canonicalReference request \<and> ImageDigest img = Digest selected \<and>
    ImagePlatform img = cr_platform request \<and> SizeBytes img = sizeBytes"
proof -
  define reference p where "reference = canonicalReference request" and "p = cr_platform request"
  let ?ops = "md_ops (st_meta tools) (Some m)" and ?good = "md_good (st_meta tools) m (meta_of rs) (kept_places (st_lib tools) rs)"
  let ?recs = "md_records (st_meta tools) m" and ?S = "kept_places (st_lib tools) rs"
  note g = ready_good [OF ready]
  from run obtain createdAt w1 where first: "(if preserveCreatedTime request
             then attempt (meta_Get ?ops oc reference p) (\<lambda>r. case r of
                 Inr existing \<Rightarrow> ret (if CreatedAt existing \<noteq> 0 then CreatedAt existing else clock tools (now w))
               | Inl e \<Rightarrow> if \<not> errIs e ErrImageNotFound then fail e else ret (clock tools (now w)))
             else ret (clock tools (now w))) w = (Inr createdAt, w1)"
    and put: "meta_Put ?ops oc img w1 = (Inr (), w')"
    and img: "img = \<lparr>LayoutPath = layoutRoot s, Reference = reference, ImageDigest = Digest selected, ImagePlatform = p,
             Source = cr_source request, SizeBytes = sizeBytes, CreatedAt = createdAt, UpdatedAt = clock tools (now w)\<rparr>"
    unfolding record_commit_def Let_def reference_def p_def by (elim run_tryE) (auto elim!: run_ret)
  have g1: "?good w1 \<and> ?recs w1 = ?recs w \<and> kept ?S w w1"
  proof (cases "preserveCreatedTime request")
    case True
    with first obtain q where "meta_Get ?ops oc reference p w = (q, w1)"
      by (auto elim!: run_attempt simp: ret_def fail_def split: sum.splits if_splits)
    from json_metadata.get [OF g this] json_metadata.frame(2) [OF g this] show ?thesis by blast
  qed (use first g kept.same_tree in \<open>auto simp: ret_def\<close>)
  have "?good w'" "?recs w' = (?recs w1)(md_key (st_meta tools) reference p \<mapsto> Inr (stored_image (st_meta tools) img))"
    using json_metadata.put [OF conjunct1 [OF g1] put] by (simp_all add: Let_def img)
  moreover have k: "kept ?S w w'" using g1 json_metadata.frame(1) [OF conjunct1 [OF g1] put] kept.trans by blast
  ultimately show ?thesis using metadata_step [OF ready _ k] g1 img by (simp add: reference_def p_def)
qed

lemma commit_complete:
  assumes ready: "store_ready tools s ws m rs w"
    and tmp: "tempLayout request = abs_path ts" "plain_dirs ts" "\<forall>es. ts \<noteq> layout_of rs @ es" "no_links_at (blob_places (st_lib tools) ts) w"
    and run: "commitLayout tools s ws (md_ops (st_meta tools) (Some m)) oc request w = (Inr img, w')"
  shows "store_ready tools s ws m rs w' \<and> (\<exists>d E index. complete (st_lib tools) w' (layoutRoot s) d E \<and>
    ImageDigest img = Digest d \<and> SizeBytes img = sum_list (map DescSize E) \<and> Reference img = canonicalReference request \<and> ImagePlatform img = cr_platform request \<and>
    layout_index tools w (layoutRoot s) = Some index \<and>
    layout_index tools w' (layoutRoot s) = Some (index\<lparr>Manifests := removeDescriptors (Manifests index) (canonicalReference request) (cr_platform request) @
      [descriptorForCommit d (canonicalReference request) (cr_platform request)]\<rparr>) \<and>
    md_records (st_meta tools) m w' = (md_records (st_meta tools) m w)
      (md_key (st_meta tools) (canonicalReference request) (cr_platform request) \<mapsto> Inr (stored_image (st_meta tools) img)))"
proof -
  let ?ref = "canonicalReference request" and ?p = "cr_platform request" and ?lib = "st_lib tools" and ?root = "layoutRoot s"
  let ?new = "\<lambda>index selected. index\<lparr>Manifests := removeDescriptors (Manifests index) ?ref ?p @ [descriptorForCommit selected ?ref ?p]\<rparr>"
  from run obtain selected sizeBytes index w1 w2 w3 w4 w5
    where valid: "ValidateLayoutContext (st_depth tools) ?lib oc (tempLayout request) w = (Inr (), w1)"
    and select: "selectDescriptor tools (tempLayout request) ?ref ?p w1 = (Inr selected, w2)"
    and copy: "with_ctx oc (\<lambda>c. copyReachableBlobs tools c (tempLayout request) ?root ws selected) w2 = (Inr sizeBytes, w3)"
    and read: "st_readIndex tools ?root w3 = (Inr index, w4)"
    and publish: "writeIndexAtomic tools ws (?new index selected) w4 = (Inr (), w5)"
    and recording: "record_commit tools s (md_ops (st_meta tools) (Some m)) oc request selected sizeBytes w5 = (Inr img, w')"
    unfolding commitLayout_def Let_def by (elim run_tryE) simp
  have n2: "node_at w2 = node_at w" using layout_intact [OF valid] run_select [OF select] by simp
  note r2 = ready_cong [OF ready n2]
  have t2: "no_links_at (blob_places ?lib ts) w2" using tmp(4) no_links_at_cong [OF n2] by simp
  from copy obtain c where "copyReachableBlobs tools c (abs_path ts) ?root ws selected w2 = (Inr sizeBytes, w3)"
    by (cases oc) (simp_all add: with_ctx_def fail_def tmp(1))
  from commit_blobs [OF conjunct1 [OF r2] tmp(2,3) t2 this] obtain E where r3: "store_ready tools s ws m rs w3"
      "md_records (st_meta tools) m w3 = md_records (st_meta tools) m w2" "layout_index tools w3 ?root = layout_index tools w2 ?root"
    and E: "complete ?lib w3 ?root selected E" "sizeBytes = sum_list (map DescSize E)" by blast
  note n4 = run_readIndex [OF read] and r4 = ready_cong [OF r3(1) conjunct1 [OF run_readIndex [OF read]]]
  have "SchemaVersion (?new index selected) \<noteq> 0" using readIndex_version [OF read] by simp
  note r5 = commit_index [OF conjunct1 [OF r4] publish this]
  have "complete ?lib w4 ?root selected E" using E(1) n4 unfolding complete_def blob_content_def
    by (simp add: blob_ok_cong [OF conjunct1 [OF n4]] open_content_cong [OF conjunct1 [OF n4]])
  moreover have "plain_dirs (layout_of rs)" "digests_ok ?lib" "no_links_at (blob_places ?lib (layout_of rs)) w4" "?root = abs_path (layout_of rs)"
    using r4 by (auto simp: store_ready_def plain_layout_of no_links_at_def kept_places_def)
  ultimately have E5: "complete ?lib w5 ?root selected E" using complete_kept [of ?lib "layout_of rs" w4 w5 selected E] r5 by simp
  from commit_record [OF conjunct1 [OF r5] recording] have "store_ready tools s ws m rs w'" "complete ?lib w' ?root selected E"
      "layout_index tools w' ?root = Some (?new index selected)" "ImageDigest img = Digest selected" "SizeBytes img = sizeBytes"
      "Reference img = ?ref" "ImagePlatform img = ?p"
      "md_records (st_meta tools) m w' = (md_records (st_meta tools) m w)(md_key (st_meta tools) ?ref ?p \<mapsto> Inr (stored_image (st_meta tools) img))"
    using E5 r2 r3 r4 r5 by auto
  moreover have "layout_index tools w ?root = Some index" using n4 r2 r3(3) by metis
  ultimately show ?thesis using E(2) by blast
qed

subsection \<open>Images that are there already\<close>

text \<open>To check an image in the shared layout changes nothing, whatever it finds.\<close>

lemma checks_children:
  assumes "\<And>d seen. checks t (f d seen) (\<lambda>a. True)"
  shows "checks t (copy_children f ds n seen) (\<lambda>a. True)"
proof (induction ds arbitrary: n seen)
  case (Cons d ds)
  show ?case unfolding copy_children.simps by (rule checks_tryE [OF assms]) (auto intro: Cons.IH split: prod.split)
qed (simp add: checks_rules)

lemma checks_within_shared:
  assumes t: "node_at w0 = t"
  shows "checks t (copyDescriptorGraph n tools c root root ws d seen) (\<lambda>a. True)"
proof (induction n arbitrary: d seen)
  case (Suc n)
  let ?p = "blob_path (st_lib tools) root (Digest d)"
  have copy: "checks t (copyBlobIfMissing tools ws ?p ?p d) (\<lambda>a. True)" if "blob_at (st_lib tools) w0 ?p d"
    unfolding checks_def
  proof (intro allI impI postI)
    fix w r w' assume w: "node_at w = t" and run: "copyBlobIfMissing tools ws ?p ?p d w = (r, w')"
    have "blob_at (st_lib tools) w ?p d" using that blob_at_cong [of w w0] w t by simp
    from intact_not_copied [OF this run] show "node_at w' = t \<and> (\<forall>a. r = Inr a \<longrightarrow> True)" using w by simp
  qed
  have decode: "checks t (decodeBlob f ?p) (\<lambda>a. True)" for f :: "string \<Rightarrow> goerr + 'x"
    unfolding decodeBlob_def by (rule checks_reads) (auto intro!: reads_comb split: sum.split)
  have rest: "checks t (if index_type (MediaType d) then tryE (decodeBlob (parse_index (st_lib tools)) ?p) k
      else if manifest_type (MediaType d) then tryE (decodeBlob (parse_manifest (st_lib tools)) ?p) (\<lambda>m. k (Config m # Layers m))
      else ret x) (\<lambda>a. True)" if "\<And>ds. checks t (k ds) (\<lambda>a. True)" for k :: "descriptor list \<Rightarrow> (int \<times> string list) io" and x
    by (intro checks_if checks_ret TrueI checks_tryE [OF decode] that)+
  show ?case
    unfolding copyDescriptorGraph.simps Let_def
    by (rule checks_check_ctx, rule checks_if, rule checks_fail, rule checks_if, rule checks_ret, rule TrueI,
        rule checks_tryE [OF checks_st_blob [OF t]], rule checks_tryE [OF copy], assumption, rule rest, rule checks_children, rule Suc.IH)
qed (simp add: checks_rules)

text \<open>An image that the store returns: recorded, listed and complete.\<close>

definition stored_complete :: "store_tools \<Rightarrow> store \<Rightarrow> JSONMetadata \<Rightarrow> world \<Rightarrow> string \<Rightarrow> platform \<Rightarrow> image \<Rightarrow> bool" where
  "stored_complete tools s m w reference p img \<longleftrightarrow>
     (\<exists>i. md_records (st_meta tools) m w (md_key (st_meta tools) reference p) = Some (Inr i) \<and> img = i\<lparr>LayoutPath := layoutRoot s\<rparr>) \<and>
     (\<exists>index d e E. layout_index tools w (layoutRoot s) = Some index \<and> d \<in> set (Manifests index) \<and> Digest d = ImageDigest img \<and>
        ref_name d = Reference img \<and> platformMatches (Platform d) (ImagePlatform img) \<and>
        complete (st_lib tools) w (layoutRoot s) e E \<and> Digest e = Digest d \<and> MediaType e = MediaType d \<and> DescSize e = DescSize d)"

lemma existing_image:
  assumes ready: "store_ready tools s ws m rs w"
    and run: "existingValidImage tools s ws (md_ops (st_meta tools) (Some m)) c reference p w = (r, w')"
  shows "store_ready tools s ws m rs w' \<and> kept UNIV w w' \<and> (\<forall>img. r = Inr img \<longrightarrow> stored_complete tools s m w' reference p img)"
proof -
  let ?ops = "md_ops (st_meta tools) (Some m)" and ?root = "layoutRoot s" and ?recs = "md_records (st_meta tools) m"
  obtain q w1 where get: "meta_Get ?ops (Some c) reference p w = (q, w1)" by fastforce
  note g = json_metadata.get [OF ready_good [OF ready] get] 
  have k: "kept UNIV w w1" using get keeps_run [OF kept_Get] by (simp add: md_ops_def)
  have r1: "store_ready tools s ws m rs w1" using metadata_step [OF ready conjunct1 [OF g] kept_subset [OF k]] by blast
  show ?thesis
  proof (cases q)
    case (Inl e)
    then show ?thesis using run get r1 k by (auto simp: existingValidImage_def tryE_def)
  next
    case (Inr i)
    obtain v w2 where check: "validateStoredImage tools c ?root i ws w1 = (v, w2)" by fastforce
    have e: "w' = w2" "\<And>img. r = Inr img \<Longrightarrow> v = Inr () \<and> img = i\<lparr>LayoutPath := ?root\<rparr>"
      using run get Inr check by (auto simp: existingValidImage_def tryE_def ret_def split: sum.splits)
    have reads_index: "reads (st_readIndex tools ?root)"
      unfolding st_readIndex_def by (auto intro!: reads_comb split: sum.split)
    have checks: "checks (node_at w1) (validateStoredImage tools c ?root i ws) (\<lambda>a. True)"
      unfolding validateStoredImage_def copyReachableBlobs_def
    proof (rule checks_tryE [OF checks_reads [OF reads_index]], rule checks_case_option, rule checks_fail, rule checks_tryE, rule checks_tryE)
      show "checks (node_at w1) (copyDescriptorGraph (st_depth tools) tools c ?root ?root ws d []) (\<lambda>a. True)" for d
        by (rule checks_within_shared [OF refl])
    qed (auto intro: checks_ret split: prod.split)
    have n2: "node_at w' = node_at w1" using postD [OF checksD [OF checks] check] e(1) by simp
    note r2 = ready_cong [OF r1 n2]
    have "stored_complete tools s m w' reference p img" if img: "r = Inr img" for img
    proof -
      obtain index w3 where index: "st_readIndex tools ?root w1 = (Inr index, w3)"
        and found: "(case find_stored i (Manifests index) of
             Some d \<Rightarrow> tryE (copyReachableBlobs tools c ?root ?root ws d) (\<lambda>_. ret ())
           | None \<Rightarrow> fail (codef ErrInvalidImageLayout
               (''shared OCI image layout has no descriptor for image '' @ Quote (Reference i) @ '' digest '' @ ImageDigest i) [])) w3 = (Inr (), w2)"
        using check e(2) [OF img] unfolding validateStoredImage_def by (auto elim: run_tryE)
      obtain d where d: "find_stored i (Manifests index) = Some d" using found by (cases "find_stored i (Manifests index)") (simp_all add: fail_def)
      then obtain sz where "copyReachableBlobs tools c ?root ?root ws d w3 = (Inr sz, w2)"
        using found by (auto elim!: run_tryE run_ret)
      then obtain seen where "copyDescriptorGraph (st_depth tools) tools c ?root ?root ws d [] w3 = (Inr (sz, seen), w2)" by (rule run_copyReachable)
      from within_shared.graph_copied [OF this TrueI] obtain E where E: "copied (st_lib tools) ?root ?root w3 w2 E [] seen" "d \<in> set E" by auto
      have "digests_unique (st_lib tools)" using ready by (simp add: store_ready_def)
      from copied_complete [OF E this] have c: "complete (st_lib tools) w' ?root d E" using e(1) by simp
      have d_in: "d \<in> set (Manifests index) \<and> Digest d = ImageDigest i \<and> ref_name d = Reference i \<and> platformMatches (Platform d) (ImagePlatform i)"
        using d unfolding find_stored_def by (auto dest: find_SomeD)
      have "layout_index tools w' ?root = Some index" using r2 run_readIndex [OF index] by simp
      moreover have "?recs w' (md_key (st_meta tools) reference p) = Some (Inr i)" using r2 g Inr by simp
      ultimately show ?thesis using c d_in e(2) [OF img] unfolding stored_complete_def by (intro conjI exI [of _ index] exI [of _ d] exI [of _ E] exI [of _ i]) auto
    qed
    then show ?thesis using r2 kept.trans [OF k kept.same_tree [OF n2]] by blast
  qed
qed

subsection \<open>Pulling an image\<close>

text \<open>What is left of the store and of an image in it when the places the store uses are kept.\<close>

definition store_places :: "store_tools \<Rightarrow> string list \<Rightarrow> string set" where
  "store_places tools rs = kept_places (st_lib tools) rs \<union> record_paths (meta_of rs)"

lemma store_places_plain:
  assumes "store_ready tools s ws m rs w"
  shows "store_places tools rs \<subseteq> plain_paths"
proof -
  have "plain_dirs rs" "digests_ok (st_lib tools)" using assms by (simp_all add: store_ready_def)
  from places_apart(5) [OF this] places_apart(2) [OF this] show ?thesis by (auto simp: store_places_def beside_index_def)
qed

lemma ready_frame:
  assumes ready: "store_ready tools s ws m rs w" and k: "kept (store_places tools rs) w w'"
  shows "store_ready tools s ws m rs w'" "stored_complete tools s m w reference p img \<Longrightarrow> stored_complete tools s m w' reference p img"
proof -
  have k1: "kept (kept_places (st_lib tools) rs) w w'" "kept (record_paths (meta_of rs)) w w'"
    by (rule kept_subset [OF k], simp add: store_places_def)+
  note g = json_metadata.independent [OF ready_good [OF ready] k1(2)]
  note f = metadata_step [OF ready conjunct1 [OF g] k1(1)]
  show "store_ready tools s ws m rs w'" using f by blast
  show "stored_complete tools s m w' reference p img" if "stored_complete tools s m w reference p img"
    using that f g unfolding stored_complete_def by metis
qed

text \<open>Changes below \<open>p\<close> only, and no new links there.\<close>

abbreviation tidy :: "string \<Rightarrow> world \<Rightarrow> world \<Rightarrow> bool" where
  "tidy p \<equiv> guarded {q. inside p q} {q. \<not> inside p q}"

text \<open>
  What is relied on of the registry client: to fetch an image and its digest leaves the disk
  alone; to write a layout only touches its directory, where it makes files and directories.
\<close>

definition registry_ok :: "store_tools \<Rightarrow> bool" where
  "registry_ok tools \<longleftrightarrow> (\<forall>c r p cr. reads (remote_image tools c r p cr)) \<and> (\<forall>i. reads (image_digest tools i)) \<and>
     (\<forall>p. keeps (tidy p) (write_layout tools p)) \<and> (\<forall>p i f r. keeps (tidy p) (append_image tools p i f r))"

lemma tidy_pull:
  assumes "registry_ok tools"
  shows "keeps (tidy destination) (registry_Pull tools oc request reference destination)"
proof -
  have lib: "keeps (tidy destination) (remote_image tools c r p cr)" "keeps (tidy destination) (image_digest tools i)"
    "keeps (tidy destination) (write_layout tools destination)" "keeps (tidy destination) (append_image tools destination i p r)" for c r p cr i
    using assms unfolding registry_ok_def by (auto intro: guarded.keeps_reads)
  have valid: "keeps (tidy destination) (ValidateLayoutContext n l oc destination)" for n l by (rule guarded.keeps_checks [OF checks_layout [OF refl]])
  have step: "keeps (tidy destination) (pull_step c x y m)" if "keeps (tidy destination) m" for c x y and m :: "'x io"
    unfolding pull_step_def by (intro keeps_rules that)
  show ?thesis unfolding registry_Pull_def Let_def by (intro keeps_rules step lib valid)
qed

lemma kept_new_dir:
  assumes "\<And>r p. reads (SJ r p)"
  shows "keeps (kept S) (ws_MkdirTemp SJ ws rel pre)"
proof -
  have "keeps (kept S) (MkdirTemp d pre)" for d
    unfolding MkdirTemp_def by (rule keepsI, rule post_make_temp) (auto simp: kept_def)
  then show ?thesis
    unfolding ws_MkdirTemp_def tmpPath_def
    by (intro keeps_rules kept_createDirectory kept.keeps_reads [OF reads_scopedPath [OF assms]])
qed

lemma run_reuse:
  assumes ready: "store_ready tools s ws m rs w" and run: "reuse_or tools s ws (md_ops (st_meta tools) (Some m)) c reference p policy k w = (Inr img, w')"
  shows "store_ready tools s ws m rs w' \<and> stored_complete tools s m w' reference p img \<or>
    (\<exists>w1. kept UNIV w w1 \<and> store_ready tools s ws m rs w1 \<and> k w1 = (Inr img, w'))"
proof (cases "policy = PullIfMissing")
  case True
  with run obtain r w1 where e: "existingValidImage tools s ws (md_ops (st_meta tools) (Some m)) c reference p w = (r, w1)"
    and rest: "(case r of Inr existing \<Rightarrow> ret existing | Inl e \<Rightarrow> if errIs e ErrInvalidImageLayout then fail e else k) w1 = (Inr img, w')"
    by (auto simp: reuse_or_def elim: run_attempt)
  note x = existing_image [OF ready e]
  show ?thesis using x rest by (cases r) (auto simp: ret_def fail_def split: if_splits)
next
  case False
  then show ?thesis using run ready kept.same_tree [OF refl] by (auto simp: reuse_or_def)
qed

lemma commit_stored:
  assumes ready: "store_ready tools s ws m rs w" and tmp: "plain_dirs ts" "\<forall>es. ts \<noteq> layout_of rs @ es" "no_links_at (blob_places (st_lib tools) ts) w"
    and norm: "NormalizePlatform (mt_arch (st_meta tools)) p = p"
    and run: "commitLayout tools s ws (md_ops (st_meta tools) (Some m)) oc
      \<lparr>tempLayout = abs_path ts, canonicalReference = reference, cr_platform = p, cr_source = src, preserveCreatedTime = keep\<rparr> w = (Inr img, w')"
  shows "store_ready tools s ws m rs w' \<and> stored_complete tools s m w' reference p img"
proof -
  let ?request = "\<lparr>tempLayout = abs_path ts, canonicalReference = reference, cr_platform = p, cr_source = src, preserveCreatedTime = keep\<rparr>"
  have t: "tempLayout ?request = abs_path ts" by simp
  from commit_complete [OF ready t tmp run] obtain d E index where c: "store_ready tools s ws m rs w'" "complete (st_lib tools) w' (layoutRoot s) d E"
    "ImageDigest img = Digest d" "Reference img = reference" "ImagePlatform img = p"
    "layout_index tools w' (layoutRoot s) = Some (index\<lparr>Manifests := removeDescriptors (Manifests index) reference p @ [descriptorForCommit d reference p]\<rparr>)"
    "md_records (st_meta tools) m w' = (md_records (st_meta tools) m w)(md_key (st_meta tools) reference p \<mapsto> Inr (stored_image (st_meta tools) img))"
    by auto
  let ?d = "descriptorForCommit d reference p"
  have d: "Digest ?d = Digest d" "MediaType ?d = MediaType d" "DescSize ?d = DescSize d" "ref_name ?d = reference" "platformMatches (Platform ?d) p"
    by (simp_all add: descriptorForCommit_def ref_name_def AList.update_conv' platformMatches_def)
  have path: "LayoutPath img = layoutRoot s"
    using run unfolding commitLayout_def record_commit_def Let_def by (auto elim!: run_tryE run_ret)
  have "img = (stored_image (st_meta tools) img)\<lparr>LayoutPath := layoutRoot s\<rparr>"
    using path c(5) norm by (cases img) (simp add: stored_image_def)
  then have "\<exists>i. md_records (st_meta tools) m w' (md_key (st_meta tools) reference p) = Some (Inr i) \<and> img = i\<lparr>LayoutPath := layoutRoot s\<rparr>"
    using c(7) by (intro exI [of _ "stored_image (st_meta tools) img"]) simp
  moreover have "?d \<in> set (Manifests (index\<lparr>Manifests := removeDescriptors (Manifests index) reference p @ [?d]\<rparr>))" by simp
  ultimately show ?thesis using c(1-6) d unfolding stored_complete_def by metis
qed

text \<open>What a pull starts from: a root for temporary files outside the shared layout, without links.\<close>

definition pull_ready :: "store_tools \<Rightarrow> store \<Rightarrow> workspace \<Rightarrow> JSONMetadata \<Rightarrow> string list \<Rightarrow> string list \<Rightarrow> world \<Rightarrow> bool" where
  "pull_ready tools s ws m rs us w \<longleftrightarrow> store_ready tools s ws m rs w \<and> s_workspace s = Some ws \<and> s_metadata s = Some (md_ops (st_meta tools) (Some m)) \<and>
     registry_ok tools \<and> secure_join_ok (st_join tools) \<and> ws_tmp ws = abs_path us \<and> us \<noteq> [] \<and> plain_dirs us \<and> (\<forall>es. us \<noteq> layout_of rs @ es) \<and>
     list_all (\<lambda>c. \<not> HasPrefix c ''.pull-'') rs \<and> no_links_at {q. inside (abs_path us) q} w"

lemma staging_dir:
  assumes "plain_dirs us" "\<forall>es. us \<noteq> layout_of rs @ es"
  shows "plain_dirs (us @ [''.pull-'' @ FormatUint i])" "\<forall>es. us @ [''.pull-'' @ FormatUint i] \<noteq> layout_of rs @ es"
proof -
  have "\<not> Contains xs ''.tmp-''" if "CHR ''.'' \<notin> set xs" for xs using that by (induction xs) (auto simp: HasPrefix_def)
  moreover have "CHR ''.'' \<notin> set (FormatUint i)" using FormatUint_digits [of i] by (auto simp: list_all_iff is_digit_def ord_def)
  ultimately have "plain_dirs [''.pull-'' @ FormatUint i]"
    using digits_no_slash [of i] by (simp add: plain_dirs_def safe_component_def HasPrefix_def)
  then show "plain_dirs (us @ [''.pull-'' @ FormatUint i])" using assms(1) by simp
  show "\<forall>es. us @ [''.pull-'' @ FormatUint i] \<noteq> layout_of rs @ es"
  proof (intro allI notI)
    fix es assume e: "us @ [''.pull-'' @ FormatUint i] = layout_of rs @ es"
    show False
    proof (cases es rule: rev_cases)
      case Nil
      then show ?thesis using e by (simp add: layout_of_def)
    next
      case (snoc ys y)
      then show ?thesis using e assms(2) by simp
    qed
  qed
qed

lemma inside_snoc:
  assumes "us \<noteq> []" "inside (abs_path (us @ [x])) q"
  shows "inside (abs_path us) q"
  using assms by (auto simp: inside_def abs_path_snoc HasPrefix_iff)

lemma clear_places:
  assumes ready: "store_ready tools s ws m rs w" and rs: "list_all (\<lambda>c. \<not> HasPrefix c ''.pull-'') rs"
  shows "clear ''.pull-'' (store_places tools rs)"
proof -
  have r: "plain_dirs rs" "digests_ok (st_lib tools)" using ready by (simp_all add: store_ready_def)
  have alnum: "\<not> HasPrefix c ''.pull-''" if "list_all is_alnum c" for c
    using that is_alnum_simps(2) by (cases c) (auto simp: HasPrefix_def)
  have hex: "\<not> HasPrefix (HexEncode h @ ''.json'') ''.pull-''" for h
  proof -
    have "CHR ''.'' \<notin> set (HexEncode h)" using HexEncode_lower [of h] hex_lower_alnum is_alnum_simps(2) by (metis list_all_iff)
    then show ?thesis by (cases "HexEncode h") (auto simp: HasPrefix_def)
  qed
  have names: "\<not> HasPrefix c ''.pull-''" if "c \<in> {''layout'', ''index.json'', ''blobs'', ''metadata'', ''images''}" for c
    using that by (auto simp: HasPrefix_def)
  have "\<exists>cs. list_all safe_component cs \<and> q = abs_path cs \<and> (\<forall>c \<in> set cs. \<not> HasPrefix c ''.pull-'')" if q: "q \<in> store_places tools rs" for q
  proof -
    consider "q = abs_path (layout_of rs @ [''index.json''])"
      | d where "q = abs_path (blob_comps (st_lib tools) (layout_of rs) d)" "digest_validate (st_lib tools) d = None"
      | h where "q = abs_path (meta_of rs @ [HexEncode h @ ''.json''])"
      using q by (auto simp: store_places_def kept_places_def index_place_def blob_places_def record_paths_def)
    then show ?thesis
    proof cases
      case 1
      then show ?thesis using plain_dirs_safe [OF plain_index [OF r(1)]] rs names
        by (intro exI [of _ "layout_of rs @ [''index.json'']"]) (auto simp: layout_of_def list_all_iff)
    next
      case 2
      have "plain_dirs (blob_comps (st_lib tools) (layout_of rs) d)"
        using plain_blob(1) [OF r(2) _ 2(2), of "layout_of rs"] r(1) by (simp add: plain_layout_of)
      moreover have "\<not> HasPrefix (digest_algorithm (st_lib tools) d) ''.pull-''" "\<not> HasPrefix (digest_encoded (st_lib tools) d) ''.pull-''"
        using r(2) 2(2) alnum by (auto simp: digests_ok_def)
      ultimately show ?thesis using 2(1) plain_dirs_safe rs names
        by (intro exI [of _ "blob_comps (st_lib tools) (layout_of rs) d"]) (auto simp: blob_comps_def layout_of_def list_all_iff)
    next
      case 3
      then show ?thesis using plain_dirs_safe [OF plain_meta [OF r(1)]] rs names hex
        by (intro exI [of _ "meta_of rs @ [HexEncode h @ ''.json'']"]) (auto simp: meta_of_def list_all_iff)
    qed
  qed
  then show ?thesis unfolding clear_def by simp
qed

lemma run_resolvePull:
  assumes "resolvePullRequest tools oc request w = (Inr (c, reference, p, policy), w')"
  shows "w' = w \<and> CanonicalImageReference (st_lib tools) (pr_Reference request) = Inr reference \<and>
    p = NormalizePlatform (mt_arch (st_meta tools)) (pr_Platform request)"
  using assms unfolding resolvePullRequest_def Let_def
  by (auto elim!: run_check_ctx run_tryE run_lift_sum simp: ret_def fail_def split: option.splits if_splits)

text \<open>From the staging directory on.\<close>

lemma pull_staged:
  assumes ready: "pull_ready tools s ws m rs us w0" and ready1: "store_ready tools s ws m rs w1" and k: "kept UNIV w0 w1"
    and norm: "NormalizePlatform (mt_arch (st_meta tools)) p = p"
    and run: "(tryE (wrapped (filesystem ''create temporary image layout'') (ws_MkdirTemp (st_join tools) (Some ws) ''.'' ''.pull-'')) (\<lambda>tmp.
         deferred (RemoveAll tmp)
          (tryE (registry_Pull tools oc request reference tmp) (\<lambda>_.
             reuse_or tools s ws (md_ops (st_meta tools) (Some m)) c reference p policy
              (commitLayout tools s ws (md_ops (st_meta tools) (Some m)) oc \<lparr>tempLayout = tmp, canonicalReference = reference, cr_platform = p,
                 cr_source = SourcePulled, preserveCreatedTime = True\<rparr>))))) w1 = (Inr img, w')"
  shows "store_ready tools s ws m rs w' \<and> stored_complete tools s m w' reference p img"
proof -
  have r: "registry_ok tools" "secure_join_ok (st_join tools)" "ws_tmp ws = abs_path us" "us \<noteq> []" "plain_dirs us" "\<forall>es. us \<noteq> layout_of rs @ es"
    "list_all (\<lambda>c. \<not> HasPrefix c ''.pull-'') rs" "no_links_at {q. inside (abs_path us) q} w0"
    using ready by (simp_all add: pull_ready_def)
  have SJ: "\<And>r p. reads (st_join tools r p)" using ready1 by (simp add: store_ready_def metadata_ok_def)
  from run obtain tmp w2 x w3 w6 where dir: "ws_MkdirTemp (st_join tools) (Some ws) ''.'' ''.pull-'' w1 = (Inr tmp, w2)"
    and pull: "registry_Pull tools oc request reference tmp w2 = (Inr x, w3)"
    and rest: "reuse_or tools s ws (md_ops (st_meta tools) (Some m)) c reference p policy
              (commitLayout tools s ws (md_ops (st_meta tools) (Some m)) oc \<lparr>tempLayout = tmp, canonicalReference = reference, cr_platform = p,
                 cr_source = SourcePulled, preserveCreatedTime = True\<rparr>) w3 = (Inr img, w6)"
    and gone: "w' = snd (RemoveAll tmp w6)"
    by (elim run_tryE run_wrapped run_deferred) blast
  obtain i where tmp: "tmp = abs_path (us @ [''.pull-'' @ FormatUint i])"
    using postD [OF staging_post [OF r(2) plain_dirs_safe [OF r(5)] r(3)] dir] by blast
  let ?ts = "us @ [''.pull-'' @ FormatUint i]" and ?S = "store_places tools rs"
  note ts = staging_dir [OF r(5,6), of i]
  have k2: "kept UNIV w1 w2" by (rule keeps_run [OF kept_new_dir [OF SJ] dir])
  have "no_links_at {q. inside tmp q} w0" by (rule no_links_subset [OF r(8)]) (use inside_snoc [OF r(4)] tmp in blast)
  then have nl2: "no_links_at {q. inside tmp q} w2"
    by (rule no_links_kept) (rule kept_subset [OF kept.trans [OF k k2]], simp)
  have "temp_of ''.pull-'' tmp"
    unfolding temp_of_def tmp using in_dir_abs_path [OF plain_dirs_safe [OF r(5)], of "''.pull-''"] abs_path_snoc [of us "''.pull-'' @ FormatUint i"] r(4)
    by (intro exI [of _ "abs_path us"] exI [of _ i]) (simp add: abs_path_snoc)
  then have apart: "?S \<subseteq> {q. \<not> inside tmp q}" using clear_not_inside [OF clear_places [OF ready1 r(7)]] by blast
  have t: "tidy tmp w2 w3" by (rule keeps_run [OF tidy_pull [OF r(1)] pull])
  have nl3: "no_links_at {q. inside tmp q} w3" and k3: "kept ?S w2 w3" using t nl2 kept_subset [OF _ apart] by (auto simp: guarded_def)
  note r2 = ready_frame(1) [OF ready1 kept_subset [OF k2 subset_UNIV]]
  note r3 = ready_frame(1) [OF r2 k3]
  have stored: "store_ready tools s ws m rs w6 \<and> stored_complete tools s m w6 reference p img"
    using run_reuse [OF r3 rest]
  proof (elim disjE exE conjE)
    fix w4 assume w4: "kept UNIV w3 w4" "store_ready tools s ws m rs w4"
      and commit: "commitLayout tools s ws (md_ops (st_meta tools) (Some m)) oc \<lparr>tempLayout = tmp, canonicalReference = reference, cr_platform = p,
                 cr_source = SourcePulled, preserveCreatedTime = True\<rparr> w4 = (Inr img, w6)"
    have nl4: "no_links_at {q. inside tmp q} w4" by (rule no_links_kept [OF nl3 kept_subset [OF w4(1) subset_UNIV]])
    have "inside tmp (abs_path (blob_comps (st_lib tools) ?ts d))" if "digest_validate (st_lib tools) d = None" for d
    proof -
      have "digests_ok (st_lib tools)" using ready1 by (simp add: store_ready_def)
      from plain_inside [OF ts(1) plain_blob(1) [OF this ts(1) that]] show ?thesis unfolding tmp by (simp add: blob_comps_def)
    qed
    then have "no_links_at (blob_places (st_lib tools) ?ts) w4" by (intro no_links_subset [OF nl4]) (auto simp: blob_places_def)
    from commit_stored [OF w4(2) ts this norm commit [unfolded tmp]] show ?thesis .
  qed simp
  have "post (RemoveAll tmp) (\<lambda>r w'. kept ?S w6 w') w6"
    by (rule post_RemoveAll) (use apart in \<open>auto simp: unchanged_def kept_def\<close>)
  then have "kept ?S w6 w'" unfolding gone by (simp add: post_def case_prod_unfold)
  from ready_frame [OF conjunct1 [OF stored] this] stored show ?thesis by blast
qed

end
