(* ===== verification/Archive_Safety.thy ===== *)
theory Archive_Safety
  imports BuildKit_Archive Link_Guard
begin

text \<open>
  Unpacking the archive of a build changes nothing outside its directory, whatever the archive
  contains and whichever calls fail.
\<close>

subsection \<open>The setting\<close>

text \<open>The directory and its parents, and everything in it.\<close>

definition along :: "string list \<Rightarrow> string set" where
  "along ds = {abs_path (take k ds) | k. True} \<union> {q. inside (abs_path ds) q}"

definition outside_of :: "string list \<Rightarrow> string set" where
  "outside_of ds = {q. \<not> inside (abs_path ds) q}"

text \<open>A directory below the temporary root, neither below the root of the workspace nor above it.\<close>

definition unpack_place :: "secure_join \<Rightarrow> builder \<Rightarrow> string list \<Rightarrow> bool" where
  "unpack_place SJ b ds \<longleftrightarrow> secure_join_ok SJ \<and> ds \<noteq> [] \<and> list_all safe_component ds \<and>
     (\<exists>ws rs ts es. b_workspace b = Some ws \<and> ws_root ws = abs_path rs \<and> ws_tmp ws = abs_path ts \<and> ds = ts @ es \<and>
        list_all safe_component rs \<and> (\<forall>xs. rs \<noteq> ds @ xs) \<and> (\<forall>xs. ds \<noteq> rs @ xs))"

lemma unpack_placeI:
  assumes "secure_join_ok SJ" "ds \<noteq> []" "list_all safe_component ds" "b_workspace b = Some ws" "ws_root ws = abs_path rs" "ws_tmp ws = abs_path ts"
    and "ds = ts @ es" "list_all safe_component rs" "\<forall>xs. rs \<noteq> ds @ xs" "\<forall>xs. ds \<noteq> rs @ xs"
  shows "unpack_place SJ b ds"
  using assms unfolding unpack_place_def by blast

abbreviation unpacks :: "string list \<Rightarrow> world \<Rightarrow> world \<Rightarrow> bool" where
  "unpacks ds \<equiv> guarded (along ds) (outside_of ds)"

lemma inside_along: "inside (abs_path ds) q \<Longrightarrow> q \<in> along ds" "inside (abs_path ds) q \<Longrightarrow> q \<notin> outside_of ds"
  by (auto simp: along_def outside_of_def)

lemma inside_trans: "inside p q \<Longrightarrow> inside q r \<Longrightarrow> inside p r"
  by (auto simp: inside_def HasPrefix_iff)

lemma inside_below: "list_all safe_component (ds @ cs) \<Longrightarrow> ds \<noteq> [] \<Longrightarrow> inside (abs_path ds) (abs_path (ds @ cs))"
  by (subst inside_abs_path) auto

lemma inside_in_dir: "inside p d \<Longrightarrow> p \<noteq> ''/'' \<Longrightarrow> p \<noteq> [] \<Longrightarrow> inside p (in_dir d x)"
  by (cases p) (auto simp: inside_def in_dir_def HasPrefix_iff)

lemma no_links_along:
  assumes "no_links_at (along (ts @ es)) w" "list_all safe_component (ts @ es @ cs)" "ts @ es \<noteq> []"
  shows "no_links w ts (es @ cs)"
  unfolding no_links_def
proof (intro allI impI)
  fix bs ds t assume b: "es @ cs = bs @ ds" "bs \<noteq> []"
  have "abs_path (ts @ bs) \<in> along (ts @ es)"
  proof (cases "length bs \<le> length es")
    case True
    then have "bs = take (length bs) es" using arg_cong [OF b(1), of "take (length bs)"] by simp
    then have "abs_path (ts @ bs) = abs_path (take (length ts + length bs) (ts @ es))" by simp
    then show ?thesis unfolding along_def by blast
  next
    case False
    then have "bs = es @ take (length bs - length es) cs" using arg_cong [OF b(1), of "take (length bs)"] by simp
    then obtain xs where x: "bs = es @ xs" by blast
    have "list_all safe_component ((ts @ es) @ xs)" using assms(2) b(1) x by auto
    from inside_below [OF this assms(3)] show ?thesis using inside_along(1) x by simp
  qed
  then show "node_at w (abs_path (ts @ bs)) \<noteq> Some (LinkNode t)" using assms(1) by (simp add: no_links_at_def)
qed

subsection \<open>Paths below the directory\<close>

lemma render_down:
  assumes "list_all safe_component es"
  shows "render False es \<noteq> ''..''" "\<not> HasPrefix (render False es) ''../''"
proof -
  have "render False es = ''.'' \<or> SplitChar (CHR ''/'') (render False es) = es"
    using assms SplitChar_JoinStrings [of es "CHR ''/''"] by (auto simp: render_def list_all_iff safe_no_slash)
  moreover have "''..'' \<notin> set es" using assms by (auto simp: list_all_iff safe_component_def)
  moreover have "SplitChar (CHR ''/'') (''../'' @ x) = ''..'' # SplitChar (CHR ''/'') x" for x by simp
  moreover have "SplitChar (CHR ''/'') ''..'' = [''..'']" by simp
  ultimately show "render False es \<noteq> ''..''" "\<not> HasPrefix (render False es) ''../''"
    by (auto simp: HasPrefix_iff)
qed

lemma relBelow_tmp:
  assumes "list_all safe_component (ts @ es)"
  shows "relBelow (abs_path ts) (abs_path (ts @ es)) = Some (render False es)"
  using Rel_inside [of ts es] render_down [of es] assms by (simp add: relBelow_def)

lemma relBelow_apart:
  assumes "list_all safe_component rs" "list_all safe_component (ds @ cs)" "\<forall>xs. rs \<noteq> ds @ xs" "\<forall>xs. ds \<noteq> rs @ xs"
  shows "relBelow (abs_path rs) (abs_path (ds @ cs)) = None"
proof (rule ccontr)
  assume "relBelow (abs_path rs) (abs_path (ds @ cs)) \<noteq> None"
  then have "pathContains (abs_path rs) (abs_path (ds @ cs))"
    by (auto simp: relBelow_def pathContains_def split: sum.splits if_splits)
  from pathContains_inside [OF this assms(1,2)] obtain xs where "ds @ cs = rs @ xs" by blast
  then show False using assms(3,4) by (auto simp: append_eq_append_conv2)
qed

lemma safeTarPath_below:
  assumes "safeTarPath (abs_path ds) name = Inr target" "list_all safe_component ds"
  obtains cs where "cs \<noteq> []" "list_all safe_component cs" "target = abs_path (ds @ cs)"
proof -
  have c: "Clean name \<noteq> ''.''" "\<not> isAbs (Clean name)" "\<not> HasPrefix (Clean name) ''../''" "Clean name \<noteq> ''..''" "target = Join [abs_path ds, Clean name]"
    using assms(1) by (auto simp: safeTarPath_def Let_def split: if_splits sum.splits)
  note r = relative_inside [OF c(2) c(4) c(3)]
  have "comps name \<noteq> []" using r(1) c(1) by (auto simp: Clean_def render_def)
  then show ?thesis using that [of "comps name"] r(2) c(5) Join_relative [OF assms(2) r(1,2)] by simp
qed

text \<open>A path that is known to have no links is the one the workspace uses.\<close>

lemma scopedPath_known:
  assumes "secure_join_ok SJ" "list_all safe_component (ts @ cs)" "no_links w ts cs"
  shows "post (scopedPath SJ (abs_path ts) (render False cs)) (\<lambda>r w'. node_at w' = node_at w \<and> (\<forall>p. r = Inr p \<longrightarrow> p = abs_path (ts @ cs))) w"
  unfolding scopedPath_def
proof (rule try_reads)
  show "reads (RejectSymlinkComponents (abs_path ts) (render False cs))"
    by (simp add: RejectSymlinkComponents_def Let_def reads_comb reads_links)
  fix w1 assume n: "node_at w1 = node_at w"
  have c: "comps (render False cs) = cs" "\<not> isAbs (render False cs)" using comps_render assms(2) by auto
  have "no_links w1 ts cs" using assms(3) no_links_cong [OF n] by simp
  with assms(1,2) c have "post (SJ (abs_path ts) (Clean (render False cs))) (\<lambda>r w'. node_at w' = node_at w1 \<and> (\<forall>p. r = Inr p \<longrightarrow> p = Join [abs_path ts, Clean (render False cs)])) w1"
    unfolding secure_join_ok_def by blast
  then show "post (wrapped (\<lambda>e. codef ErrInvalidRequest ''resolve workspace-relative path'' [e]) (SJ (abs_path ts) (Clean (render False cs))))
      (\<lambda>r w'. node_at w' = node_at w \<and> (\<forall>p. r = Inr p \<longrightarrow> p = abs_path (ts @ cs))) w1"
    unfolding post_wrapped by (rule post_mono) (use n c assms(2) Join_relative [of ts "render False cs"] in \<open>auto split: sum.splits\<close>)
qed auto

subsection \<open>Creating files\<close>

lemma place_paths:
  assumes "unpack_place SJ b ds" "list_all safe_component cs"
  shows "relBelow (b_ws_root b) (abs_path (ds @ cs)) = None"
    and "\<exists>ws ts es. b_workspace b = Some ws \<and> ws_tmp ws = abs_path ts \<and> ds = ts @ es \<and>
      relBelow (b_ws_tmp b) (abs_path (ds @ cs)) = Some (render False (es @ cs))"
proof -
  obtain ws rs ts es where b: "b_workspace b = Some ws" "ws_root ws = abs_path rs" "ws_tmp ws = abs_path ts" "ds = ts @ es"
    "list_all safe_component rs" "\<forall>xs. rs \<noteq> ds @ xs" "\<forall>xs. ds \<noteq> rs @ xs"
    using assms(1) unfolding unpack_place_def by blast
  have s: "list_all safe_component (ds @ cs)" using assms by (simp add: unpack_place_def)
  show "relBelow (b_ws_root b) (abs_path (ds @ cs)) = None"
    using relBelow_apart [OF b(5) s b(6,7)] b(1,2) by (simp add: b_ws_root_def)
  show "\<exists>ws ts es. b_workspace b = Some ws \<and> ws_tmp ws = abs_path ts \<and> ds = ts @ es \<and>
      relBelow (b_ws_tmp b) (abs_path (ds @ cs)) = Some (render False (es @ cs))"
    using relBelow_tmp [of ts "es @ cs"] s b(1,3,4) by (auto simp: b_ws_tmp_def)
qed

lemma unpacks_mkdirPrivatePath:
  assumes "unpack_place SJ b ds" "list_all safe_component cs"
  shows "keeps (unpacks ds) (mkdirPrivatePath SJ b (abs_path (ds @ cs)))"
  using place_paths [OF assms] by (auto simp: mkdirPrivatePath_def intro: guarded_MkdirAll)

lemma unpacks_createTemp:
  assumes place: "unpack_place SJ b ds" and safe: "list_all safe_component cs"
  shows "post (createTempForPath SJ b (abs_path (ds @ cs)) pre)
    (\<lambda>r w'. unpacks ds w w' \<and> (\<forall>tmp. r = Inr tmp \<longrightarrow> no_links_at (along ds) w \<longrightarrow> inside (abs_path ds) tmp)) w" (is "post _ ?Q w")
proof (cases "no_links_at (along ds) w")
  case False
  then show ?thesis by (auto simp: post_def guarded_def split: prod.splits)
next
  case True
  obtain ws ts es where b: "b_workspace b = Some ws" "ws_tmp ws = abs_path ts" "ds = ts @ es"
    "relBelow (b_ws_tmp b) (abs_path (ds @ cs)) = Some (render False (es @ cs))"
    using place_paths(2) [OF assms] by blast
  have p: "secure_join_ok SJ" "ds \<noteq> []" "list_all safe_component (ts @ es @ cs)"
    using place safe b(3) by (auto simp: unpack_place_def)
  have create: "post (tryE (createDirectory parent label True) (\<lambda>_. wrapped f (make_temp (FileNode [] 384 0) parent pre))) ?Q w1"
    if "node_at w1 = node_at w" "parent = abs_path (ds @ cs)" for w1 parent label f
  proof -
    have "abs_path ds \<noteq> ''/''" "abs_path ds \<noteq> []"
      using abs_path_inject [of ds "[]"] abs_path_root isAbs_abs_path [of ds] p b(3) by (auto simp: isAbs_iff)
    moreover have "inside (abs_path ds) parent" using inside_below [of ds cs] p b(3) that(2) by simp
    ultimately have inside: "inside (abs_path ds) (in_dir parent x @ y)" for x y
      using inside_in_dir [of "abs_path ds" parent "x @ y"] by (simp add: in_dir_def split: if_splits)
    then have "keeps (unpacks ds) (make_temp (FileNode [] 384 0) parent pre)"
      using inside_along(2) by (intro guarded_make_temp) auto
    then have k: "keeps (unpacks ds) (tryE (createDirectory parent label True) (\<lambda>_. wrapped f (make_temp (FileNode [] 384 0) parent pre)))"
      by (intro keeps_rules)
    have "post (tryE (createDirectory parent label True) (\<lambda>_. wrapped f (make_temp (FileNode [] 384 0) parent pre)))
        (\<lambda>r w'. \<forall>tmp. r = Inr tmp \<longrightarrow> inside (abs_path ds) tmp) w1"
      by (rule tryI, rule post_any) (auto simp: wp intro!: post_make_temp inside split: sum.split)
    from post_conj [OF keeps_post [OF k] this]
    show ?thesis by (rule post_mono) (use guarded.same_tree [OF that(1)] guarded.trans in blast)
  qed
  show ?thesis
    unfolding createTempForPath_def place_paths(1) [OF assms] b(4) option.case ws_CreateTemp_def CreateTemp_def tmpPath_def b(1,2)
  proof (rule try_lift_err, goal_cases)
    case 1
    then show ?case by (simp add: guarded.same_tree)
  next
    case 2
    show ?case
    proof (rule tryI, rule post_mono [OF scopedPath_known [OF p(1,3) no_links_along [OF True [unfolded b(3)] p(3)]]], goal_cases)
      case (2 r w1)
      then show ?case using create [of w1] b(3) by (cases r) (auto simp: guarded.same_tree)
    qed (use p(2) b(3) in simp)
  qed
qed

lemma unpacks_write:
  assumes "inside (abs_path ds) tmp" "inside (abs_path ds) path" "keeps (unpacks ds) (copy tmp)"
  shows "keeps (unpacks ds) (unless_committed tmp (write_temporary copy mode tmp path))"
proof -
  have out: "tmp \<notin> outside_of ds" "\<forall>r \<in> outside_of ds. \<not> inside tmp r \<and> \<not> inside path r" "{r. inside tmp r} \<subseteq> along ds"
    using assms(1,2) inside_trans inside_along(1) by (auto simp: outside_of_def)
  show ?thesis unfolding write_temporary_def
    by (intro keeps_rules guarded_unless_committed guarded_Chmod guarded_Rename out assms(3))
qed

lemma unpacks_writeFileAtomic:
  assumes place: "unpack_place SJ b ds" and safe: "list_all safe_component (cs @ [c])"
    and copy: "\<And>tmp. inside (abs_path ds) tmp \<Longrightarrow> keeps (unpacks ds) (copy tmp)"
  shows "keeps (unpacks ds) (writeFileAtomic SJ b (abs_path (ds @ cs @ [c])) copy mode)"
proof -
  have s: "list_all safe_component (ds @ cs)" "list_all safe_component cs" "list_all safe_component (ds @ cs @ [c])" "ds \<noteq> []"
    using place safe by (auto simp: unpack_place_def)
  have dir: "Dir (abs_path (ds @ cs @ [c])) = abs_path (ds @ cs)" using Dir_abs_path [of "ds @ cs" c] s(3) by simp
  have target: "inside (abs_path ds) (abs_path (ds @ cs @ [c]))" by (rule inside_below) (use s in auto)
  have fill: "keeps (unpacks ds) (tryE (wrapped f (createTempForPath SJ b (abs_path (ds @ cs)) pre)) (\<lambda>tmp.
      unless_committed tmp (write_temporary copy mode tmp (abs_path (ds @ cs @ [c])))))" for f pre
  proof (rule keepsI, rule try_wrapped_run)
    fix w e w' assume "createTempForPath SJ b (abs_path (ds @ cs)) pre w = (Inl e, w')"
    then show "unpacks ds w w'" using postD [OF unpacks_createTemp [OF place s(2)]] by blast
  next
    fix w tmp w1 assume r: "createTempForPath SJ b (abs_path (ds @ cs)) pre w = (Inr tmp, w1)"
    note t = postD [OF unpacks_createTemp [OF place s(2)] r]
    let ?m = "unless_committed tmp (write_temporary copy mode tmp (abs_path (ds @ cs @ [c])))"
    show "post ?m (\<lambda>r w'. unpacks ds w w') w1"
    proof (cases "no_links_at (along ds) w")
      case True
      then have "inside (abs_path ds) tmp" using t by blast
      from keeps_post [OF unpacks_write [where copy = copy, OF this target copy [OF this]]] show ?thesis
        by (rule post_mono) (use t guarded.trans in blast)
    next
      case False
      then show ?thesis by (auto simp: post_def guarded_def split: prod.splits)
    qed
  qed
  show ?thesis unfolding writeFileAtomic_def dir
    by (intro keeps_rules unpacks_mkdirPrivatePath place s(2) fill)
qed

subsection \<open>The archive\<close>

lemma unpacks_entry:
  assumes place: "unpack_place SJ b ds"
  shows "keeps (unpacks ds) (extract_entry SJ b (abs_path ds) h)"
proof (cases "safeTarPath (abs_path ds) (th_Name h)")
  case (Inl e)
  then show ?thesis unfolding extract_entry_def lift_sum_def Inl sum.case by (auto simp: tryE_def fail_def keeps_def intro: guarded.same_files)
next
  case (Inr target)
  have ds: "list_all safe_component ds" using place by (simp add: unpack_place_def)
  from safeTarPath_below [OF Inr ds] obtain cs where cs: "cs \<noteq> []" "list_all safe_component cs" "target = abs_path (ds @ cs)" .
  obtain bs c where c: "cs = bs @ [c]" using cs(1) by (cases cs rule: rev_cases) auto
  have dir: "Dir target = abs_path (ds @ bs)"
    using Dir_abs_path [of "ds @ bs" c] ds cs(2) c by (simp add: cs(3))
  have copy: "keeps (unpacks ds) (copy_from x y tmp)" if "inside (abs_path ds) tmp" for x y tmp
    unfolding copy_from_def by (intro keeps_rules guarded_FWrite inside_along(2) that)
  have files: "keeps (unpacks ds) (writeFileAtomic SJ b target (copy_from x y) m)" for x y m
    unfolding cs(3) c by (rule unpacks_writeFileAtomic [OF place]) (use cs(2) c copy in auto)
  have dirs: "keeps (unpacks ds) (mkdirPrivatePath SJ b target)" "keeps (unpacks ds) (mkdirPrivatePath SJ b (Dir target))"
    using unpacks_mkdirPrivatePath [OF place cs(2)] unpacks_mkdirPrivatePath [OF place, of bs] cs(2) c unfolding dir by (simp_all add: cs(3))
  have "tryE (ret target) k = k target" for k :: "string \<Rightarrow> unit io" by (simp add: tryE_def ret_def fun_eq_iff)
  then show ?thesis unfolding extract_entry_def Inr lift_sum_def sum.case
    by (auto split: tar_type.split intro!: keeps_rules files dirs)
qed

lemma unpacks_entries:
  assumes "unpack_place SJ b ds"
  shows "keeps (unpacks ds) (extract_entries SJ b tarPath (abs_path ds) hs e)"
  by (induction hs) (auto intro!: keeps_rules unpacks_entry assms)

lemma unpacks_archive:
  assumes "unpack_place SJ b ds"
  shows "keeps (unpacks ds) (extractOCITar read_tar SJ b tarPath (abs_path ds))"
proof -
  have "keeps (unpacks ds) (\<lambda>w. case read_tar (open_content w tarPath) of (hs, e) \<Rightarrow> extract_entries SJ b tarPath (abs_path ds) hs e w)"
    using unpacks_entries [OF assms] by (auto simp: keeps_def split: prod.split)
  then show ?thesis unfolding extractOCITar_def by (intro keeps_rules)
qed

text \<open>
  C?. Unpacking the archive of a build is confined: whatever names and types its entries have, and
  whichever calls fail, nothing outside the directory of the layout changes but that directories
  may appear, and no symbolic link appears below it.
\<close>

theorem archive_confined:
  assumes "unpack_place SJ b ds" "no_links_at (along ds) w"
    and "extractOCITar read_tar SJ b tarPath (abs_path ds) w = (r, w')"
  shows "no_links_at (along ds) w' \<and>
    (\<forall>p. \<not> inside (abs_path ds) p \<longrightarrow> node_at w' p = node_at w p \<or> node_at w p = None \<and> is_dir (node_at w' p))"
proof -
  have "unpacks ds w w'" by (rule keeps_run [OF unpacks_archive [OF assms(1)] assms(3)])
  then show ?thesis using assms(2) by (auto simp: guarded_def kept_def outside_of_def)
qed

subsection \<open>Witness\<close>

text \<open>An archive with a file in a directory and an entry that tries to leave the layout.\<close>

definition toy_entry :: "string \<Rightarrow> tar_entry" where
  "toy_entry name = \<lparr>th_Name = name, th_Typeflag = TypeReg, th_Linkname = [], th_content = ''x'', th_broken = None\<rparr>"

definition toy_builder :: builder where
  "toy_builder = \<lparr>b_config = no_buildkit, b_root = ''/s'', b_paths = \<lparr>tp_buildctl = [], tp_buildkitd = [], tp_rootlesskit = [], tp_runc = []\<rparr>,
     b_snapshotter = [], b_workspace = Some \<lparr>ws_root = ''/s'', ws_tmp = ''/t'', ws_features = ws_features sample_workspace\<rparr>\<rparr>"

definition archive_world :: world where
  "archive_world = \<lparr>files = [(''/'', DirNode 493 1), (''/s'', DirNode 448 0), (''/t'', DirNode 448 0), (''/t/o'', DirNode 448 0), (''/t/a.tar'', FileNode ''tar'' 384 0)],
     faults = [], now = 0, fresh = 0\<rparr>"

theorem archive_confined_witness:
  "case extractOCITar (\<lambda>s. ([toy_entry ''d/f'', toy_entry ''../f''], None)) lexical_join toy_builder ''/t/a.tar'' ''/t/o'' archive_world of
     (r, w') \<Rightarrow> r = Inl (unsafe_path ''../f'') \<and> node_at w' ''/t/o/d/f'' = Some (FileNode ''x'' 384 0) \<and> node_at w' ''/t/f'' = None"
proof -
  let ?run = "extractOCITar (\<lambda>s. ([toy_entry ''d/f'', toy_entry ''../f''], None)) lexical_join toy_builder ''/t/a.tar'' ''/t/o'' archive_world"
  obtain r w' where run: "?run = (r, w')" by fastforce
  have e: "fst ?run = Inl (unsafe_path ''../f'') \<and> node_at (snd ?run) ''/t/o/d/f'' = Some (FileNode ''x'' 384 0)" by code_simp
  have p: "abs_path [''t'', ''o''] = ''/t/o''" "abs_path [''s''] = ''/s''" "abs_path [''t''] = ''/t''" "list_all safe_component [''t'', ''o'', ''s'']"
    by code_simp+
  have "unpack_place lexical_join toy_builder [''t'', ''o'']"
    by (rule unpack_placeI [where rs = "[''s'']" and ts = "[''t'']" and es = "[''o'']", OF lexical_join_ok]) (use p in \<open>auto simp: toy_builder_def\<close>)
  moreover have "no_links_at (along [''t'', ''o'']) archive_world" by (auto simp: no_links_at_def node_at_def archive_world_def)
  ultimately have c: "\<forall>p. \<not> inside ''/t/o'' p \<longrightarrow> node_at w' p = node_at archive_world p \<or> node_at archive_world p = None \<and> is_dir (node_at w' p)"
    using archive_confined [of lexical_join toy_builder "[''t'', ''o'']" archive_world] run p(1) by metis
  have "node_at archive_world ''/t/f'' = None" "\<not> inside ''/t/o'' ''/t/f''" "\<not> is_dir (node_at (snd ?run) ''/t/f'')" by code_simp+
  then show ?thesis using e run spec [OF c, of "''/t/f''"] by auto
qed

end
