(* ===== verification/BuildKit_Safety.thy ===== *)
theory BuildKit_Safety
  imports BuildKit Archive_Safety
begin

text \<open>
  What a build promises: the log lines of its subprocesses do not depend on how their output is
  cut into chunks, its socket paths fit, and what its tools are when they are cached.
\<close>

subsection \<open>Log lines\<close>

definition log_lines :: "string \<Rightarrow> string list" where
  "log_lines s = filter (\<lambda>l. TrimSpace l \<noteq> []) (map TrimRightCR (SplitChar (CHR 0x0A) s))"

lemma plw_Write_append: "plw_Write w (p @ q) = plw_Write (plw_Write w p) q"
  by (induction w p rule: plw_Write.induct) auto

lemma plw_Write_concat: "fold (\<lambda>p w. plw_Write w p) chunks w = plw_Write w (concat chunks)"
  by (induction chunks arbitrary: w) (auto simp: plw_Write_append)

lemma flush_lines:
  assumes "\<not> lw_suppress w"
  shows "lw_lines (plw_Flush (plw_Write w s)) = lw_lines w @ log_lines (lw_line w @ s) \<or> CHR 0x0A \<in> set (lw_line w)"
  using assms
proof (induction w s rule: plw_Write.induct)
  case (1 w)
  then show ?case by (auto simp: plw_Flush_def emitLocked_def log_lines_def SplitChar_no_sep Let_def)
next
  case (2 w c p)
  show ?case
  proof (cases "c = CHR 0x0A")
    case True
    have "SplitChar (CHR 0x0A) (lw_line w @ CHR 0x0A # p) = lw_line w # SplitChar (CHR 0x0A) p" if "CHR 0x0A \<notin> set (lw_line w)"
      using that SplitChar_append [of "CHR 0x0A" "lw_line w" p] by simp
    then show ?thesis using 2 True by (auto simp: emitLocked_def log_lines_def Let_def)
  next
    case False
    then show ?thesis using 2 by auto
  qed
qed

text \<open>
  C?. What is logged of a subprocess does not depend on how its output is cut into chunks: the
  log lines are the lines of the whole output without trailing carriage returns and without
  blank ones, and the captured output is the whole output.
\<close>

theorem log_lines_of_output:
  "(case fold (\<lambda>p b. pob_Write b p) chunks (newProcessOutputBuffer []) of
      (captured, w) \<Rightarrow> captured = concat chunks \<and> lw_lines (plw_Flush w) = log_lines (concat chunks))"
proof -
  have "fold (\<lambda>p b. pob_Write b p) chunks (x, w) = (x @ concat chunks, fold (\<lambda>p w. plw_Write w p) chunks w)" for x w
    by (induction chunks arbitrary: x w) (auto simp: pob_Write_def)
  then show ?thesis
    using flush_lines [of "\<lparr>lw_line = [], lw_suppress = False, lw_lines = []\<rparr>" "concat chunks"]
    by (simp add: newProcessOutputBuffer_def plw_Write_concat)
qed

subsection \<open>Socket paths\<close>

lemma length_FormatUint: "n < 10 ^ k \<Longrightarrow> 0 < k \<Longrightarrow> length (FormatUint n) \<le> k"
proof (induction k arbitrary: n)
  case (Suc k)
  show ?case
  proof (cases "n < 10")
    case False
    then have "0 < k" using Suc.prems by (cases k) auto
    moreover have "n div 10 < 10 ^ k" using Suc.prems(1) by auto
    ultimately show ?thesis using Suc.IH [of "n div 10"] False by (subst FormatUint.simps) simp
  qed (subst FormatUint.simps, simp)
qed simp

lemma JoinStrings_mono:
  assumes "length a \<le> length b"
  shows "length (JoinStrings (cs @ [a, s]) sep) \<le> length (JoinStrings (cs @ [b, s]) sep)"
proof (induction cs)
  case (Cons c cs)
  then show ?case by (cases "cs @ [a, s]"; cases "cs @ [b, s]") auto
qed (use assms in simp)

text \<open>
  C?. A builder that accepts its workspace never refuses a build for the length of its socket
  paths: the check of the temporary root is made with the longest name that a directory made
  from the pattern can have, a number of at most 32 bits.
\<close>

theorem socket_paths_fit:
  assumes "validateBuildKitSocketRoot (abs_path ts) = None" "list_all safe_component ts" "n < 2 ^ 32"
  shows "validateBuildKitSocketPaths (in_dir (abs_path ts) buildKitRunTempPattern @ FormatUint n) = None"
proof -
  let ?run = "buildKitRunTempPattern @ FormatUint n" and ?longest = buildKitRunDirectoryWithLongestSuffix
  have len: "length ?run \<le> length ?longest"
    using length_FormatUint [of n 10] assms(3) by (simp add: buildKitRunDirectoryWithLongestSuffix_def maxMkdirTempRandomSuffixBytes_def)
  have "safe_component ?run" "safe_component ?longest"
    using digits_no_slash [of n] by (auto simp: safe_component_def buildKitRunTempPattern_def buildKitRunDirectoryWithLongestSuffix_def)
  note safe = this assms(2)
  have sock: "safe_component ''buildkitd.sock''" "safe_component ''api.sock''" by code_simp+
  have join: "Join [abs_path (ts @ [x]), y] = abs_path (ts @ [x, y])" if "list_all safe_component (ts @ [x])" "safe_component y" for x y
    using that by (subst Join_abs) (auto simp: comps_abs_path)
  have root: "Join [abs_path ts, ?longest] = abs_path (ts @ [?longest])"
    using safe by (subst Join_abs) (auto simp: comps_abs_path)
  have run: "in_dir (abs_path ts) buildKitRunTempPattern @ FormatUint n = abs_path (ts @ [?run])"
    by (simp only: in_dir_temp [OF assms(2)] temp_path_def)
  have mono: "length (abs_path (ts @ [?run, y])) \<le> length (abs_path (ts @ [?longest, y]))" for y
    using JoinStrings_mono [OF len, of ts y "''/''"] by (simp add: abs_path_def render_def)
  show ?thesis
    using assms(1) mono [of "''buildkitd.sock''"] mono [of "''api.sock''"]
    unfolding validateBuildKitSocketRoot_def validateBuildKitSocketPaths_def root run
    by (simp add: join safe sock split: if_splits)
qed

theorem socket_paths_fit_witness:
  "validateBuildKitSocketPaths (in_dir (abs_path [''var'', ''tmp'']) buildKitRunTempPattern @ FormatUint 4294967295) = None"
  by (rule socket_paths_fit) (code_simp, code_simp, simp)

subsection \<open>Cached tools\<close>

text \<open>Executables that are already on the disk are only probed, whatever the configuration asks for.\<close>

lemma cached_tools_unverified:
  assumes "preflightInstallHost (bt_os tools) (bt_arch tools) = None"
    and "probeTool tools c ctl w = (Inr (), w1)" "probeTool tools c kitd w1 = (Inr (), w2)"
  shows "managedBuildKit tools b c dir ctl kitd w = (Inr (), w2)"
  using assms by (simp add: managedBuildKit_def attempt_def tryE_def lift_err_def ret_def)

lemma temp_between_node: "temp_between k w p s i = Some (q, j) \<Longrightarrow> node_at w q = None"
  by (induction k w p s i rule: temp_between.induct) (auto split: if_splits)

lemma run_CreateTempBetween:
  assumes "ws_CreateTempBetween SJ ws rel pre suf w = (Inr p, w')"
  shows "node_at w' p = Some (FileNode [] 384 0)"
proof -
  obtain d w1 where "CreateTempBetween d pre suf w1 = (Inr p, w')"
    using assms unfolding ws_CreateTempBetween_def by (elim run_tryE run_wrapped) blast
  then show ?thesis
    by (auto simp: CreateTempBetween_def syscall_def syscall_with_def node_at_put split: if_splits prod.splits option.splits sum.splits fault.splits)
qed

definition verified_body :: "buildkit_tools \<Rightarrow> string \<Rightarrow> string \<Rightarrow> string \<Rightarrow> bool" where
  "verified_body tools url digest d \<longleftrightarrow>
     bt_sha256 tools d = digest \<and>
     (\<exists>c v v' rs. bt_http_get tools c url v = (Inr rs, v') \<and> resp_status rs = 200 \<and> resp_body rs = d \<and> resp_err rs = None)"

lemma run_download_to:
  assumes "download_to tools c tmp cleanup label what digest rs k w = (Inr u, w')" "node_at w tmp = Some (FileNode [] m o')"
  obtains v where "bt_sha256 tools (resp_body rs) = digest" "resp_err rs = None" "node_at v tmp = Some (FileNode (resp_body rs) m o')"
    "k v = (Inr u, w')"
proof -
  obtain q v1 where c: "copy_from (resp_body rs) (resp_err rs) tmp w = (q, v1)" by (cases "copy_from (resp_body rs) (resp_err rs) tmp w")
  have failed: "\<exists>x. e x = (Inr (), w')" if "attempt a (\<lambda>_. attempt b (\<lambda>_. e)) v = (Inr (), w')" for a b :: "unit io" and e :: "unit io" and v
    using that by (auto elim!: run_attempt)
  have canceled: "canceled_or c l x y \<noteq> (Inr (), w')" for l x y
    by (auto simp: canceled_or_def check_ctx_def fail_def split: option.splits)
  obtain y where q: "q = Inr y"
    using assms(1) c unfolding download_to_def by (cases q) (auto simp: attempt_def [of "copy_from _ _ _"] Let_def canceled dest!: failed)
  have e: "bt_sha256 tools (resp_body rs) = digest"
    using assms(1) c unfolding download_to_def
    by (auto simp: attempt_def [of "copy_from _ _ _"] Let_def q equalDigest_iff fail_def split: if_splits dest!: failed)
  obtain q2 v2 where s: "Effectless tmp v1 = (q2, v2)" by (cases "Effectless tmp v1")
  obtain y2 where q2: "q2 = Inr y2"
    using assms(1) c s unfolding download_to_def
    by (cases q2) (auto simp: attempt_def [of "copy_from _ _ _"] attempt_def [of "Effectless tmp" "case_sum _ _"] Let_def q e equalDigest_iff fail_def dest!: failed)
  have k: "k v2 = (Inr u, w')"
    using assms(1) c s unfolding download_to_def by (simp add: attempt_def Let_def q q2 e equalDigest_iff)
  have "resp_err rs = None" "node_at v1 tmp = Some (FileNode (resp_body rs) m o')"
    using c assms(2) by (auto simp: q copy_from_def elim!: run_tryE run_lift_err dest!: run_FWrite)
  then show ?thesis using that [OF e _ _ k] run_reads [OF reads_calls(5) s] by simp
qed

lemma run_download_response:
  assumes "download_response tools c url label body w = (Inr r, w')"
  obtains rs v v' where "bt_http_get tools c url w = (Inr rs, v)" "resp_status rs = 200" "body rs v = (Inr r, v')" "node_at w' = node_at v'"
proof -
  obtain q v where h: "bt_http_get tools c url w = (q, v)" by (cases "bt_http_get tools c url w")
  obtain rs where q: "q = Inr rs"
    using assms h unfolding download_response_def
    by (cases q) (auto simp: attempt_def canceled_or_def check_ctx_def fail_def split: option.splits)
  have "deferred (Effectless ''body'') (if resp_status rs \<noteq> 200 then fail (codef ErrBuildInstallFailed (''download '' @ label @ '': unexpected HTTP status'') [])
      else body rs) v = (Inr r, w')"
    using assms h unfolding download_response_def by (auto simp: attempt_def q fail_def split: option.splits)
  then obtain v' where "resp_status rs = 200" "body rs v = (Inr r, v')" "w' = snd (Effectless ''body'' v')"
    by (rule run_deferred) (auto simp: fail_def split: if_splits)
  with that h q show ?thesis using run_reads_deferred [OF reads_calls(5)] by blast
qed

lemma run_downloadArchive:
  assumes "downloadArchive tools b c url digest dir label w = (Inr p, w')"
  shows "\<exists>d m o'. node_at w' p = Some (FileNode d m o') \<and> verified_body tools url digest d"
proof -
  obtain rs v v' where h: "bt_http_get tools c url w = (Inr rs, v)" "resp_status rs = 200" "node_at w' = node_at v'"
    and body: "(case relBelow (b_ws_root b) dir of
         None \<Rightarrow> fail (codef ErrInvalidRequest (label @ '' temporary directory '' @ Quote dir @ '' is outside image workspace'') [])
       | Some tempRel \<Rightarrow>
           tryE (wrapped (filesystem (''create temporary '' @ label @ '' archive''))
               (ws_CreateTempBetween (bt_join tools) (b_workspace b) tempRel (''.'' @ ToLower label @ ''-'') ''.tar.gz'')) (\<lambda>tmp.
             tryE (download_to tools c tmp (Remove tmp) label '' archive'' digest rs
               (attempt (Effectless tmp) (\<lambda>closed. case closed of
                  Inl e \<Rightarrow> attempt (Remove tmp) (\<lambda>_. fail (install_error (''close '' @ label @ '' archive'') e))
                | Inr _ \<Rightarrow> ret ()))) (\<lambda>_. ret tmp))) v = (Inr p, v')"
    using assms unfolding downloadArchive_def by (rule run_download_response)
  obtain rel where rel: "relBelow (b_ws_root b) dir = Some rel" using body by (cases "relBelow (b_ws_root b) dir") (auto simp: fail_def)
  obtain v1 where t: "ws_CreateTempBetween (bt_join tools) (b_workspace b) rel (''.'' @ ToLower label @ ''-'') ''.tar.gz'' v = (Inr p, v1)"
    and d: "download_to tools c p (Remove p) label '' archive'' digest rs
        (attempt (Effectless p) (\<lambda>closed. case closed of
           Inl e \<Rightarrow> attempt (Remove p) (\<lambda>_. fail (install_error (''close '' @ label @ '' archive'') e))
         | Inr _ \<Rightarrow> ret ())) v1 = (Inr (), v')"
    using body unfolding rel option.case by (elim run_tryE run_wrapped run_ret) simp
  obtain v2 where s: "bt_sha256 tools (resp_body rs) = digest" "resp_err rs = None" "node_at v2 p = Some (FileNode (resp_body rs) 384 0)"
    and k: "attempt (Effectless p) (\<lambda>closed. case closed of
        Inl e \<Rightarrow> attempt (Remove p) (\<lambda>_. fail (install_error (''close '' @ label @ '' archive'') e))
      | Inr _ \<Rightarrow> ret ()) v2 = (Inr (), v')"
    by (rule run_download_to [OF d run_CreateTempBetween [OF t]])
  obtain q v3 where e: "Effectless p v2 = (q, v3)" "(case q of
        Inl e \<Rightarrow> attempt (Remove p) (\<lambda>_. fail (install_error (''close '' @ label @ '' archive'') e)) | Inr _ \<Rightarrow> ret ()) v3 = (Inr (), v')"
    using k by (rule run_attempt)
  have "v' = v3" using e(2) by (cases q) (auto simp: ret_def fail_def elim!: run_attempt)
  then have "node_at w' p = Some (FileNode (resp_body rs) 384 0)" using run_reads [OF reads_calls(5) e(1)] s(3) h(3) by simp
  moreover have "verified_body tools url digest (resp_body rs)" using h(1,2) s(1,2) unfolding verified_body_def by blast
  ultimately show ?thesis by blast
qed

lemma run_managed_entries:
  "managed_entries tools b p expected label hs end_err seen w = (Inr xs, w') \<Longrightarrow>
     end_err = None \<and> (\<forall>h\<in>set hs. th_Typeflag h = TypeDir \<or>
       (th_Name h \<in> fst ` set expected \<and> validateManagedArchiveHeader (Some h) label = None))"
proof (induction hs arbitrary: seen w)
  case Nil
  then show ?case by (auto elim!: run_elims)
next
  case (Cons h hs)
  obtain w1 where rest: "(if th_Typeflag h = TypeDir then managed_entries tools b p expected label hs end_err seen
       else (case map_of expected (th_Name h) of
           None \<Rightarrow> fail (codef ErrBuildInstallFailed (''unexpected '' @ label @ '' archive entry '' @ Quote (th_Name h)) [])
         | Some destination \<Rightarrow>
             tryE (lift_err (validateManagedArchiveHeader (Some h) label)) (\<lambda>_.
               if destination = [] then managed_entries tools b p expected label hs end_err seen
               else tryE (writeExecutableAtomic (bt_join tools) b destination (copy_from (th_content h) (th_broken h))) (\<lambda>_.
                 managed_entries tools b p expected label hs end_err (th_Name h # seen))))) w1 = (Inr xs, w')"
    using Cons.prems unfolding managed_entries.simps by (rule run_tryE)
  show ?case
  proof (cases "th_Typeflag h = TypeDir")
    case True
    then show ?thesis using rest Cons.IH by simp
  next
    case False
    then obtain destination where d: "map_of expected (th_Name h) = Some destination"
      using rest by (cases "map_of expected (th_Name h)") (auto simp: fail_def)
    then have "th_Name h \<in> fst ` set expected" using map_of_SomeD by force
    moreover obtain seen' w2 where "validateManagedArchiveHeader (Some h) label = None"
      "managed_entries tools b p expected label hs end_err seen' w2 = (Inr xs, w')"
      using rest False unfolding d by (auto elim!: run_tryE run_lift_err split: if_splits)
    ultimately show ?thesis using Cons.IH [of seen' w2] by auto
  qed
qed

text \<open>
  C?. A managed BuildKit that was not on the disk comes from a verified archive: when the
  installation succeeds, either both executables answered the probe, or they were unpacked from
  a download whose SHA-256 is the digest of the configuration (or of the source, when nothing is
  configured) for this architecture, which holds every expected entry and nothing unexpected.
\<close>

theorem managed_tools_verified:
  assumes "managedBuildKit tools b c dir ctl kitd w = (Inr u, w')"
  shows "(\<exists>w1. probeTool tools c ctl w = (Inr (), w1) \<and> probeTool tools c kitd w1 = (Inr (), w')) \<or>
    (\<exists>archive digest d hs. buildKitArchive (bt_arch tools) (b_config b) = Inr archive \<and>
       bk_parseSHA256 (ma_sha256 archive) ''BuildKit'' = Inr digest \<and>
       verified_body tools (ma_url archive) digest d \<and> bt_gunzip_tar tools d = Inr (hs, None) \<and>
       (\<forall>h\<in>set hs. th_Typeflag h = TypeDir \<or> (th_Name h \<in> fst ` set (buildkit_entries ctl kitd) \<and>
          validateManagedArchiveHeader (Some h) ''BuildKit'' = None)))"
proof (cases "\<exists>w1 w2. probeTool tools c ctl w = (Inr (), w1) \<and> probeTool tools c kitd w1 = (Inr (), w2)")
  case True
  then show ?thesis using assms by (auto simp: managedBuildKit_def attempt_def tryE_def lift_err_def ret_def fail_def split: option.splits)
next
  case False
  obtain q w1 where q: "tryE (probeTool tools c ctl) (\<lambda>_. probeTool tools c kitd) w = (q, w1)" by (cases "tryE (probeTool tools c ctl) (\<lambda>_. probeTool tools c kitd) w")
  obtain e where "q = Inl e" using q False by (cases q) (auto elim!: run_tryE)
  then have "tryE (lift_sum (buildKitArchive (bt_arch tools) (b_config b))) (\<lambda>archive.
      downloadAndExtractArchive tools b c archive dir (buildkit_entries ctl kitd) ''BuildKit'') w1 = (Inr u, w')"
    using assms q unfolding managedBuildKit_def by (auto simp: attempt_def tryE_def [of "lift_err _"] tryE_def [of "ret ()"] tryE_def [of "fail _"] lift_err_def ret_def fail_def split: option.splits)
  then obtain archive where a: "buildKitArchive (bt_arch tools) (b_config b) = Inr archive"
    and x: "downloadAndExtractArchive tools b c archive dir (buildkit_entries ctl kitd) ''BuildKit'' w1 = (Inr u, w')"
    by (elim run_tryE run_lift_sum) simp
  obtain digest p w2 where g: "bk_parseSHA256 (ma_sha256 archive) ''BuildKit'' = Inr digest"
    and p: "downloadArchive tools b c (ma_url archive) digest dir ''BuildKit'' w1 = (Inr p, w2)"
    and y: "deferred (Remove p) (extractManagedArchive tools b p (buildkit_entries ctl kitd) ''BuildKit'') w2 = (Inr u, w')"
    using x unfolding downloadAndExtractArchive_def by (elim run_tryE run_lift_sum) simp
  obtain d m o' where d: "node_at w2 p = Some (FileNode d m o')" "verified_body tools (ma_url archive) digest d" using run_downloadArchive [OF p] by blast
  obtain w3 where "extractManagedArchive tools b p (buildkit_entries ctl kitd) ''BuildKit'' w2 = (Inr u, w3)" using y by (rule run_deferred)
  then obtain z w4 w5 where o: "OpenRead p w2 = (Inr z, w4)"
    and t: "(case bt_gunzip_tar tools (open_content w4 p) of
         Inl e \<Rightarrow> fail (install_error (''decompress '' @ ''BuildKit'' @ '' archive'') e) w4
       | Inr (hs, end_err) \<Rightarrow>
           tryE (managed_entries tools b p (buildkit_entries ctl kitd) ''BuildKit'' hs end_err [])
             (\<lambda>seen. lift_err (missing_entry (buildkit_entries ctl kitd) ''BuildKit'' seen)) w4) = (Inr u, w5)"
    unfolding extractManagedArchive_def by (elim run_tryE run_wrapped run_deferred) simp
  have "open_content w4 p = d" using run_reads [OF reads_calls(6) o] d(1) by (intro open_content_file) simp
  then obtain hs end_err where "bt_gunzip_tar tools d = Inr (hs, end_err)"
    and "tryE (managed_entries tools b p (buildkit_entries ctl kitd) ''BuildKit'' hs end_err [])
             (\<lambda>seen. lift_err (missing_entry (buildkit_entries ctl kitd) ''BuildKit'' seen)) w4 = (Inr u, w5)"
    using t by (auto simp: fail_def split: sum.splits)
  then show ?thesis using a g d(2) run_managed_entries by (elim run_tryE) blast
qed

definition toy_build_tools :: buildkit_tools where
  "toy_build_tools = \<lparr>bt_lib = toy_lib, bt_join = lexical_join, bt_os = ''linux'', bt_arch = ''amd64'', bt_uid = 1000, bt_depth = 8,
     bt_sha256 = (\<lambda>d. replicate 32 (if d = ''tgz'' then CHR 0x11 else CHR 0x22)), bt_new_request = (\<lambda>_. None),
     bt_http_get = (\<lambda>c url. ret \<lparr>resp_status = 200, resp_body = ''tgz'', resp_err = None\<rparr>),
     bt_gunzip_tar = (\<lambda>d. Inr ([toy_entry ''bin/buildctl'', toy_entry ''bin/buildkitd''], None)), bt_read_tar = (\<lambda>_. ([], None)), bt_environ = [],
     run_tool = (\<lambda>c command w. (([], Some (Opaque ''exit status 1'')), w)), start_tool = (\<lambda>c command. fail (Opaque ''exit status 1'')),
     signal_daemon = (\<lambda>d s. ret ()), bt_minute = 60\<rparr>"

definition downloading_builder :: builder where
  "downloading_builder = toy_builder\<lparr>b_config := no_buildkit\<lparr>BuildKitVersion := ''v1'', BuildKitURL := ''u'', BuildKitSHA256 := replicate 64 (CHR ''1'')\<rparr>\<rparr>"

definition tools_world :: world where
  "tools_world = archive_world\<lparr>files := (''/s/bin'', DirNode 448 0) # files archive_world\<rparr>"

theorem managed_tools_verified_witness:
  "case managedBuildKit toy_build_tools downloading_builder None ''/s/bin'' ''/s/bin/buildctl'' ''/s/bin/buildkitd'' tools_world of
     (r, w') \<Rightarrow> r = Inr () \<and> node_at w' ''/s/bin/buildkitd'' = Some (FileNode ''x'' 493 0) \<and>
       verified_body toy_build_tools ''u'' (replicate 32 (CHR 0x11)) ''tgz''"
proof -
  let ?run = "managedBuildKit toy_build_tools downloading_builder None ''/s/bin'' ''/s/bin/buildctl'' ''/s/bin/buildkitd'' tools_world"
  obtain r w' where run: "?run = (r, w')" by fastforce
  have e: "fst ?run = Inr () \<and> node_at (snd ?run) ''/s/bin/buildkitd'' = Some (FileNode ''x'' 493 0)" by code_simp
  have probe: "fst (probeTool toy_build_tools None ''/s/bin/buildctl'' tools_world) \<noteq> Inr ()" by code_simp
  have a: "buildKitArchive (bt_arch toy_build_tools) (b_config downloading_builder) =
      Inr \<lparr>ma_version = ''v1'', ma_url = ''u'', ma_sha256 = replicate 64 (CHR ''1'')\<rparr>" by code_simp
  have g: "bk_parseSHA256 (replicate 64 (CHR ''1'')) ''BuildKit'' = Inr (replicate 32 (CHR 0x11))" by code_simp
  have "?run = (Inr (), w')" using run e by simp
  from managed_tools_verified [OF this] probe a g
  obtain d where d: "verified_body toy_build_tools ''u'' (replicate 32 (CHR 0x11)) d" by auto
  then have "bt_sha256 toy_build_tools d = replicate 32 (CHR 0x11)" by (simp add: verified_body_def)
  then have "d = ''tgz''" by (auto simp: toy_build_tools_def numeral_eq_Suc split: if_splits)
  then show ?thesis using d e by (simp add: run)
qed

end
