(* ===== verification/Store_Promises.thy ===== *)
theory Store_Promises
  imports Store_Safety BuildKit_Safety
begin

text \<open>
  The promises of the image store, and a small store that shows that what they rely on can hold.
\<close>

text \<open>
  C4. A commit that returns an image has made it complete in the shared layout: there are blobs,
  one per digest, that contain the selected descriptor and everything the blobs refer to; each is
  in the shared layout with the size and digest its descriptor states, and the size of the image
  is the sum of theirs. The index lists the image for its reference and platform in place of what
  it listed for them before, and all other entries as they were; the metadata records the image
  under its reference and platform and changes no other record.
\<close>

theorem committed_image_complete:
  assumes ready: "store_ready tools s ws m rs w"
    and tmp: "tempLayout request = abs_path ts" "plain_dirs ts" "\<forall>es. ts \<noteq> layout_of rs @ es" "no_links_at (blob_places (st_lib tools) ts) w"
    and run: "commitLayout tools s ws (md_ops (st_meta tools) (Some m)) oc request w = (Inr img, w')"
  shows "store_ready tools s ws m rs w' \<and> (\<exists>d E index. complete (st_lib tools) w' (layoutRoot s) d E \<and>
    ImageDigest img = Digest d \<and> SizeBytes img = sum_list (map DescSize E) \<and> Reference img = canonicalReference request \<and> ImagePlatform img = cr_platform request \<and>
    layout_index tools w (layoutRoot s) = Some index \<and>
    layout_index tools w' (layoutRoot s) = Some (index\<lparr>Manifests := removeDescriptors (Manifests index) (canonicalReference request) (cr_platform request) @
      [descriptorForCommit d (canonicalReference request) (cr_platform request)]\<rparr>) \<and>
    md_records (st_meta tools) m w' = (md_records (st_meta tools) m w)
      (md_key (st_meta tools) (canonicalReference request) (cr_platform request) \<mapsto> Inr (stored_image (st_meta tools) img)))"
  by (rule commit_complete [OF assms])

text \<open>
  C5. An image that \<open>Pull\<close> returns is complete: whether it was there or has been pulled, the
  metadata records it under the requested reference and platform, the index of the shared layout
  lists it, and all blobs that it refers to, directly or through others, are in the shared layout
  with the sizes and digests their descriptors state. The store stays usable.
\<close>

theorem pulled_image_complete:
  assumes ready: "pull_ready tools s ws m rs us w"
    and run: "store_Pull tools (Some s) oc request w = (Inr img, w')"
  shows "store_ready tools s ws m rs w' \<and> (\<exists>reference. CanonicalImageReference (st_lib tools) (pr_Reference request) = Inr reference \<and>
    stored_complete tools s m w' reference (NormalizePlatform (mt_arch (st_meta tools)) (pr_Platform request)) img)"
proof -
  let ?p = "NormalizePlatform (mt_arch (st_meta tools)) (pr_Platform request)" and ?md = "md_ops (st_meta tools) (Some m)"
  have r: "store_ready tools s ws m rs w" "s_workspace s = Some ws" "s_metadata s = Some ?md"
    using ready by (simp_all add: pull_ready_def)
  have norm: "NormalizePlatform (mt_arch (st_meta tools)) ?p = ?p"
    using r(1) NormalizePlatform_idem by (simp add: store_ready_def)
  from run obtain x w0 where x: "resolvePullRequest tools oc request w = (Inr x, w0)" "(case x of (c, reference, p, policy) \<Rightarrow>
     st_requireReady (Some s) (\<lambda>s ws md.
       reuse_or tools s ws md c reference p policy
        (tryE (wrapped (filesystem ''create temporary image layout'') (ws_MkdirTemp (st_join tools) (Some ws) ''.'' ''.pull-'')) (\<lambda>tmp.
         deferred (RemoveAll tmp)
          (tryE (registry_Pull tools oc request reference tmp) (\<lambda>_.
             reuse_or tools s ws md c reference p policy
              (commitLayout tools s ws md oc \<lparr>tempLayout = tmp, canonicalReference = reference, cr_platform = p,
                 cr_source = SourcePulled, preserveCreatedTime = True\<rparr>))))))) w0 = (Inr img, w')"
    unfolding store_Pull_def by (elim run_tryE)
  obtain c reference p policy where q: "x = (c, reference, p, policy)" by (cases x)
  note res = run_resolvePull [OF x(1) [unfolded q]]
  have "reuse_or tools s ws ?md c reference ?p policy
        (tryE (wrapped (filesystem ''create temporary image layout'') (ws_MkdirTemp (st_join tools) (Some ws) ''.'' ''.pull-'')) (\<lambda>tmp.
         deferred (RemoveAll tmp)
          (tryE (registry_Pull tools oc request reference tmp) (\<lambda>_.
             reuse_or tools s ws ?md c reference ?p policy
              (commitLayout tools s ws ?md oc \<lparr>tempLayout = tmp, canonicalReference = reference, cr_platform = ?p,
                 cr_source = SourcePulled, preserveCreatedTime = True\<rparr>))))) w = (Inr img, w')"
    using x(2) res unfolding q prod.case st_requireReady_def Let_def by (auto simp: r(2,3) fail_def split: if_splits)
  from run_reuse [OF r(1) this] pull_staged [OF ready _ _ norm] res show ?thesis by blast
qed

subsection \<open>Witnesses\<close>

text \<open>A store whose digests are the contents in hexadecimal, an empty index, and a layout of one blob to commit.\<close>

definition hex_lib :: image_lib where
  "hex_lib = toy_lib\<lparr>
     digest_validate := (\<lambda>d. case SplitChar CHR '':'' d of
         [a, e] \<Rightarrow> if a \<noteq> [] \<and> list_all is_alnum a \<and> e \<noteq> [] \<and> list_all is_alnum e then None else Some (Opaque d)
       | _ \<Rightarrow> Some (Opaque d)),
     digest_algorithm := (\<lambda>d. hd (SplitChar CHR '':'' d)), digest_encoded := (\<lambda>d. last (SplitChar CHR '':'' d)),
     digest_verifies := (\<lambda>d c. d = ''h:'' @ HexEncode c),
     parse_index := (\<lambda>s. Inr [\<lparr>MediaType = ''l'', Digest = ''h:78'', DescSize = 1, Platform = None, Annotations = []\<rparr>])\<rparr>"

definition leaf_descriptor :: descriptor where
  "leaf_descriptor = \<lparr>MediaType = ''l'', Digest = ''h:78'', DescSize = 1, Platform = None, Annotations = []\<rparr>"

definition host_platform :: platform where
  "host_platform = \<lparr>OS = ''linux'', Architecture = ''amd64'', Variant = []\<rparr>"

definition listing :: "descriptor list \<Rightarrow> store_index" where
  "listing ds = \<lparr>SchemaVersion = 2, Manifests = ds, other_fields = []\<rparr>"

definition toy_store_tools :: store_tools where
  "toy_store_tools = \<lparr>st_meta = toy_metadata_tools\<lparr>mt_lib := hex_lib\<rparr>, st_env = removal_env, st_depth = 2,
     decode_index = (\<lambda>s. if s = ''0'' then Inr (listing []) else if s = ''1'' then Inr (listing [leaf_descriptor])
       else if s = [CHR ''2'', CHR 0x0A] then Inr (listing [descriptorForCommit leaf_descriptor ''a'' host_platform]) else Inl (Opaque s)),
     encode_store_index = (\<lambda>i. if Manifests i = [descriptorForCommit leaf_descriptor ''a'' host_platform] \<and> SchemaVersion i = 2 \<and> other_fields i = [] then Inr ''2'' else Inl (Opaque [])),
     clock = (\<lambda>n. 7), st_logger = OwnLogger ''log'', parse_name = (\<lambda>s. None), remote_image = (\<lambda>c r p cr. ret []), image_digest = (\<lambda>i. ret ()),
     write_layout = (\<lambda>p. ret ()), append_image = (\<lambda>p i f r. ret ()), st_build = toy_build_tools\<rparr>"

definition commit_world :: world where
  "commit_world = \<lparr>files = [(''/'', DirNode 493 1), (''/s'', DirNode 448 0), (''/s/layout'', DirNode 448 0), (''/s/layout/index.json'', FileNode ''0'' 384 0),
     (''/s/metadata'', DirNode 448 0), (''/s/metadata/images'', DirNode 448 0), (''/t'', DirNode 448 0), (''/t/a'', DirNode 448 0),
     (''/t/a/oci-layout'', FileNode ''1'' 384 0), (''/t/a/index.json'', FileNode ''1'' 384 0), (''/t/a/blobs/h/78'', FileNode ''x'' 384 0)],
     faults = [], now = 0, fresh = 0\<rparr>"

definition toy_ws :: workspace where
  "toy_ws = \<lparr>ws_root = ''/s'', ws_tmp = ''/t'', ws_features = \<lparr>PrivateDirs = True, FileFsync = True, DirectoryFsync = True, AtomicFileRename = True, AtomicDirectoryRename = True\<rparr>\<rparr>"

definition toy_json :: JSONMetadata where
  "toy_json = \<lparr>md_root = ''/s/metadata'', imagesRoot = ''/s/metadata/images'', md_workspace = Some toy_ws\<rparr>"

definition toy_commit :: commit_request where
  "toy_commit = \<lparr>tempLayout = ''/t/a'', canonicalReference = ''a'', cr_platform = host_platform, cr_source = SourcePulled, preserveCreatedTime = True\<rparr>"

definition toy_store :: store where
  "toy_store = \<lparr>s_config = \<lparr>im_Root = ''/s'', im_TmpRoot = ''/t'', im_BuildKit = \<lparr>BuildctlPath = [], BuildkitdPath = [], RootlessKitPath = [], RuncPath = [],
       BuildKitVersion = [], BuildKitURL = [], BuildKitSHA256 = [], RootlessKitVersion = [], RootlessKitURL = [], RootlessKitSHA256 = [], Snapshotter = []\<rparr>,
       im_Logging = no_logging\<rparr>, s_workspace = Some toy_ws,
     s_metadata = Some (md_ops (st_meta toy_store_tools) (Some toy_json)), layoutRoot = ''/s/layout'', s_tmpRoot = ''/t'', s_logger = OwnLogger ''log'', s_builder = None\<rparr>"

definition blobs_world :: world where
  "blobs_world = \<lparr>files =
    [(''/s/layout/blobs/h/78'', FileNode ''x'' 384 0),
     (''/'', DirNode 493 1), (''/s'', DirNode 448 0),
     (''/s/layout'', DirNode 448 0),
     (''/s/layout/index.json'', FileNode ''0'' 384 0),
     (''/s/metadata'', DirNode 448 0),
     (''/s/metadata/images'', DirNode 448 0), (''/t'', DirNode 448 0),
     (''/t/a'', DirNode 448 0), (''/t/a/oci-layout'', FileNode ''1'' 384 0),
     (''/t/a/index.json'', FileNode ''1'' 384 0),
     (''/t/a/blobs/h/78'', FileNode ''x'' 384 0),
     (''/s/layout/blobs'', DirNode 448 0),
     (''/s/layout/blobs/h'', DirNode 448 0), (''/t/layout'', DirNode 448 0),
     (''/t/layout/blobs'', DirNode 448 0),
     (''/t/layout/blobs/h'', DirNode 448 0)],
    faults = [], now = 37, fresh = 1\<rparr>"

definition indexed_world :: world where
  "indexed_world = \<lparr>files =
    [(''/s/layout/index.json'', FileNode [CHR ''2'', CHR 0x0A] 384 0),
     (''/s/layout/blobs/h/78'', FileNode ''x'' 384 0),
     (''/'', DirNode 493 1), (''/s'', DirNode 448 0),
     (''/s/layout'', DirNode 448 0), (''/s/metadata'', DirNode 448 0),
     (''/s/metadata/images'', DirNode 448 0), (''/t'', DirNode 448 0),
     (''/t/a'', DirNode 448 0), (''/t/a/oci-layout'', FileNode ''1'' 384 0),
     (''/t/a/index.json'', FileNode ''1'' 384 0),
     (''/t/a/blobs/h/78'', FileNode ''x'' 384 0),
     (''/s/layout/blobs'', DirNode 448 0),
     (''/s/layout/blobs/h'', DirNode 448 0), (''/t/layout'', DirNode 448 0),
     (''/t/layout/blobs'', DirNode 448 0),
     (''/t/layout/blobs/h'', DirNode 448 0)],
    faults = [], now = 48, fresh = 2\<rparr>"



definition committed_world :: world where
  "committed_world = indexed_world\<lparr>files := (''/s/metadata/images/610a6c696e75782f616d6436342f.json'', FileNode ''61,683a3738,6c696e7578,616d643634,,70756c6c6564,31,37,37'' 384 0) #
     files indexed_world @ [(''/t/metadata'', DirNode 448 0), (''/t/metadata/images'', DirNode 448 0)], now := 61, fresh := 3\<rparr>"

definition committed_image :: image where
  "committed_image = \<lparr>LayoutPath = ''/s/layout'', Reference = ''a'', ImageDigest = ''h:78'', ImagePlatform = host_platform, Source = SourcePulled,
     SizeBytes = 1, CreatedAt = 7, UpdatedAt = 7\<rparr>"

lemma commit_steps:
  "ValidateLayoutContext 2 hex_lib (Some None) ''/t/a'' commit_world = (Inr (), commit_world\<lparr>now := 7\<rparr>)"
  "selectDescriptor toy_store_tools ''/t/a'' ''a'' host_platform (commit_world\<lparr>now := 7\<rparr>) = (Inr leaf_descriptor, commit_world\<lparr>now := 8\<rparr>)"
  "copyReachableBlobs toy_store_tools None ''/t/a'' ''/s/layout'' toy_ws leaf_descriptor (commit_world\<lparr>now := 8\<rparr>) = (Inr 1, blobs_world)"
  "st_readIndex toy_store_tools ''/s/layout'' blobs_world = (Inr (listing []), blobs_world\<lparr>now := 38\<rparr>)"
  "writeIndexAtomic toy_store_tools toy_ws (listing [descriptorForCommit leaf_descriptor ''a'' host_platform]) (blobs_world\<lparr>now := 38\<rparr>) = (Inr (), indexed_world)"
  "record_commit toy_store_tools toy_store (md_ops (st_meta toy_store_tools) (Some toy_json)) (Some None) toy_commit leaf_descriptor 1 indexed_world =
     (Inr committed_image, committed_world)"
       apply code_simp
      apply code_simp
     apply code_simp
    apply code_simp
   apply code_simp
  apply code_simp
  done

lemma toy_committed:
  "commitLayout toy_store_tools toy_store toy_ws (md_ops (st_meta toy_store_tools) (Some toy_json)) (Some None) toy_commit commit_world =
     (Inr committed_image, committed_world)"
proof -
  have f: "st_depth toy_store_tools = 2" "st_lib toy_store_tools = hex_lib" "tempLayout toy_commit = ''/t/a''" "canonicalReference toy_commit = ''a''"
    "cr_platform toy_commit = host_platform" "layoutRoot toy_store = ''/s/layout''"
    by (simp_all add: toy_store_tools_def toy_commit_def toy_store_def)
  have l: "(listing [])\<lparr>Manifests := removeDescriptors (Manifests (listing [])) ''a'' host_platform @ [descriptorForCommit leaf_descriptor ''a'' host_platform]\<rparr> =
      listing [descriptorForCommit leaf_descriptor ''a'' host_platform]"
    by (simp add: listing_def removeDescriptors_def)
  show ?thesis unfolding commitLayout_def Let_def f tryE_def with_ctx_def by (simp add: commit_steps l)
qed

lemma hex_digests: "digests_ok hex_lib" "digests_unique hex_lib"
proof -
  have "d = digest_algorithm hex_lib d @ '':'' @ digest_encoded hex_lib d \<and> digest_algorithm hex_lib d \<noteq> [] \<and> list_all is_alnum (digest_algorithm hex_lib d) \<and>
      digest_encoded hex_lib d \<noteq> [] \<and> list_all is_alnum (digest_encoded hex_lib d)"
    if v: "digest_validate hex_lib d = None" for d
  proof -
    obtain a e where s: "SplitChar CHR '':'' d = [a, e]" and c: "a \<noteq> []" "list_all is_alnum a" "e \<noteq> []" "list_all is_alnum e"
      using v by (auto simp: hex_lib_def split: list.splits if_splits)
    have "d = JoinStrings [a, e] '':''" using JoinStrings_SplitChar [of "CHR '':''" d] by (simp add: s)
    then show ?thesis using s c by (simp add: hex_lib_def)
  qed
  then show "digests_ok hex_lib" by (simp add: digests_ok_def)
  show "digests_unique hex_lib"
    unfolding digests_unique_def by (simp add: hex_lib_def) (metis HexDecode_HexEncode option.inject)
qed

lemma toy_codec: "index_codec toy_store_tools"
  unfolding index_codec_def by (auto simp: toy_store_tools_def listing_def split: if_splits)

lemma toy_store_ready:
  assumes "no_links_at UNIV w"
  shows "store_ready toy_store_tools toy_store toy_ws toy_json [''s''] w"
proof -
  have j: "reads (lexical_join r p)" for r p by (simp add: reads_def lexical_join_def)
  have "abs_path [''s''] = ''/s''" "plain_dirs [''s'']" "plain_dirs [''s'', ''metadata'', ''images'']" "abs_path [''s'', ''metadata'', ''images''] = ''/s/metadata/images''"
    "abs_path [''s'', ''layout''] = ''/s/layout''" "TrimSpace ''amd64'' = ''amd64''"
    by code_simp+
  then show ?thesis using assms hex_digests toy_codec j
    by (simp add: store_ready_def meta_of_def layout_of_def metadata_ok_def no_record_links_def no_links_at_def toy_store_tools_def toy_metadata_tools_def
      toy_json_def toy_ws_def toy_store_def toy_decode_encode toy_value_number)
qed

lemma no_links_committed: "no_links_at UNIV commit_world" "no_links_at UNIV committed_world"
  by (auto simp: no_links_at_def node_at_def commit_world_def committed_world_def indexed_world_def)

theorem committed_image_complete_witness:
  "\<exists>d E. complete hex_lib committed_world ''/s/layout'' d E \<and> Digest d = ''h:78'' \<and> sum_list (map DescSize E) = 1"
proof -
  have t: "tempLayout toy_commit = abs_path [''t'', ''a'']" "plain_dirs [''t'', ''a'']" by code_simp+
  have a: "\<forall>es. [''t'', ''a''] \<noteq> layout_of [''s''] @ es" by (simp add: layout_of_def)
  from committed_image_complete [OF toy_store_ready [OF no_links_committed(1)] t a no_links_subset [OF no_links_committed(1) subset_UNIV] toy_committed]
  obtain d E where "complete (st_lib toy_store_tools) committed_world (layoutRoot toy_store) d E" "ImageDigest committed_image = Digest d"
    "SizeBytes committed_image = sum_list (map DescSize E)" by blast
  moreover have "st_lib toy_store_tools = hex_lib" "layoutRoot toy_store = ''/s/layout''" "ImageDigest committed_image = ''h:78''" "SizeBytes committed_image = 1"
    by (simp_all add: toy_store_tools_def toy_store_def committed_image_def)
  ultimately show ?thesis by metis
qed

definition toy_pull :: pull_request where
  "toy_pull = \<lparr>pr_Reference = ''a'', pr_Platform = host_platform, pr_Auth = None, pr_Policy = []\<rparr>"

lemma pull_steps:
  "resolvePullRequest toy_store_tools (Some None) toy_pull committed_world = (Inr (None, ''a'', host_platform, PullIfMissing), committed_world)"
  "existingValidImage toy_store_tools toy_store toy_ws (md_ops (st_meta toy_store_tools) (Some toy_json)) None ''a'' host_platform committed_world =
     (Inr committed_image, committed_world\<lparr>now := 71\<rparr>)"
  by code_simp+

lemma toy_pulled: "store_Pull toy_store_tools (Some toy_store) (Some None) toy_pull committed_world = (Inr committed_image, committed_world\<lparr>now := 71\<rparr>)"
proof -
  have f: "s_workspace toy_store = Some toy_ws" "s_metadata toy_store = Some (md_ops (st_meta toy_store_tools) (Some toy_json))" "layoutRoot toy_store = ''/s/layout''"
    "s_tmpRoot toy_store = ''/t''"
    by (simp_all add: toy_store_def)
  have t: "TrimSpace ''/s/layout'' = ''/s/layout''" "TrimSpace ''/t'' = ''/t''" by code_simp+
  show ?thesis unfolding store_Pull_def tryE_def
    by (simp add: pull_steps(1) st_requireReady_def f t reuse_or_def attempt_def pull_steps(2) ret_def)
qed

lemma toy_pull_ready:
  assumes "no_links_at UNIV w"
  shows "pull_ready toy_store_tools toy_store toy_ws toy_json [''s''] [''t''] w"
proof -
  have "registry_ok toy_store_tools" by (auto simp: registry_ok_def toy_store_tools_def intro: reads_comb guarded.keeps_reads)
  moreover have "abs_path [''t''] = ''/t''" "plain_dirs [''t'']" "\<not> HasPrefix ''s'' ''.pull-''" by code_simp+
  ultimately show ?thesis using toy_store_ready [OF assms] no_links_subset [OF assms subset_UNIV] lexical_join_ok
    by (simp add: pull_ready_def toy_ws_def toy_store_def toy_store_tools_def toy_metadata_tools_def layout_of_def)
qed

theorem pulled_image_complete_witness:
  "\<exists>w'. store_Pull toy_store_tools (Some toy_store) (Some None) toy_pull committed_world = (Inr committed_image, w') \<and>
     stored_complete toy_store_tools toy_store toy_json w' ''a'' host_platform committed_image"
proof -
  have "CanonicalImageReference (st_lib toy_store_tools) (pr_Reference toy_pull) = Inr ''a''"
    "NormalizePlatform (mt_arch (st_meta toy_store_tools)) (pr_Platform toy_pull) = host_platform" by code_simp+
  then show ?thesis
    using pulled_image_complete [OF toy_pull_ready [OF no_links_committed(2)] toy_pulled] toy_pulled by auto
qed

end
