(* ===== verification/Spec2Isabelle.thy ===== *)
theory Spec2Isabelle
  imports CI_Server CI_Files Runtime_Contract Store_Promises
begin

text \<open>
  A verification development for Chamber. (The header is completed as components are added.)
\<close>

end
